(* ===== verification/Prelude.thy ===== *)
theory Prelude
  imports Main "HOL-Library.Word"
begin

text \<open>
  What every component of the model shares: the machine types of the Rust source, the
  checked and saturating operations of its standard library with their meaning on natural
  numbers, the result type and its early-return combinators, and the string operations
  (\<open>str\<close> is a list of UTF-8 bytes, so \<open>length\<close> is Rust's \<open>str::len\<close>).
\<close>

named_theorems u64_ops \<open>characterisations of the word operations by their values on nat\<close>
named_theorems result_simps \<open>inversion of early-return chains\<close>

type_synonym u8 = "8 word"
type_synonym u16 = "16 word"
type_synonym u32 = "32 word"
type_synonym u64 = "64 word"
type_synonym bytes = "u8 list"
type_synonym str = string

section \<open>Machine integers\<close>

definition saturating_add :: "'a::len word \<Rightarrow> 'a word \<Rightarrow> 'a word" where
  "saturating_add a b = (if unat a + unat b < 2 ^ LENGTH('a) then a + b else - 1)"

definition saturating_sub :: "'a::len word \<Rightarrow> 'a word \<Rightarrow> 'a word" where
  "saturating_sub a b = (if a < b then 0 else a - b)"

definition saturating_mul :: "'a::len word \<Rightarrow> 'a word \<Rightarrow> 'a word" where
  "saturating_mul a b = (if unat a * unat b < 2 ^ LENGTH('a) then a * b else - 1)"

definition checked_add :: "'a::len word \<Rightarrow> 'a word \<Rightarrow> 'a word option" where
  "checked_add a b = (if unat a + unat b < 2 ^ LENGTH('a) then Some (a + b) else None)"

text \<open>Rust's \<open>u64::div_ceil\<close>: quotient, plus one when a remainder is left.\<close>

definition div_ceil :: "'a::len word \<Rightarrow> 'a word \<Rightarrow> 'a word" where
  "div_ceil a b = (if a mod b > 0 then a div b + 1 else a div b)"

lemma unat_saturating_add [u64_ops]:
  "unat (saturating_add a (b :: 'a::len word)) = min (unat a + unat b) (2 ^ LENGTH('a) - 1)"
proof (cases "unat a + unat b < 2 ^ LENGTH('a)")
  case True
  then have "unat (a + b) = unat a + unat b" by (simp add: unat_word_ariths)
  with True show ?thesis by (simp add: saturating_add_def)
next
  case False
  then show ?thesis by (simp add: saturating_add_def unsigned_minus_1_eq_mask mask_eq_exp_minus_1)
qed

lemma unat_saturating_sub [u64_ops]:
  "unat (saturating_sub a (b :: 'a::len word)) = unat a - unat b"
  by (auto simp: saturating_sub_def word_less_nat_alt unat_sub_if_size)

lemma unat_saturating_mul [u64_ops]:
  "unat (saturating_mul a (b :: 'a::len word)) = min (unat a * unat b) (2 ^ LENGTH('a) - 1)"
proof (cases "unat a * unat b < 2 ^ LENGTH('a)")
  case True
  then have "unat (a * b) = unat a * unat b" by (simp add: unat_word_ariths)
  with True show ?thesis by (simp add: saturating_mul_def)
next
  case False
  then show ?thesis by (simp add: saturating_mul_def unsigned_minus_1_eq_mask mask_eq_exp_minus_1)
qed

lemma checked_add_Some_iff [u64_ops]:
  "checked_add a (b :: 'a::len word) = Some c \<longleftrightarrow> unat c = unat a + unat b"
proof -
  have "unat c < 2 ^ LENGTH('a)" using unsigned_less [of c, where ?'a = nat] by simp
  then show ?thesis
    by (auto simp: checked_add_def unat_word_ariths word_unat_eq_iff simp del: unsigned_less)
qed

lemma checked_add_None_iff [u64_ops]:
  "checked_add a (b :: 'a::len word) = None \<longleftrightarrow> 2 ^ LENGTH('a) \<le> unat a + unat b"
  by (auto simp: checked_add_def)

lemma unat_div_ceil [u64_ops]:
  fixes a b :: "'a::len word"
  assumes "0 < unat b"
  shows "unat (div_ceil a b) = (unat a + unat b - 1) div unat b"
proof -
  let ?x = "unat a" and ?y = "unat b"
  have bound: "?x < 2 ^ LENGTH('a)" using unsigned_less [of a, where ?'a = nat] by simp
  have *: "(?x + ?y - 1) div ?y = (if ?x mod ?y > 0 then ?x div ?y + 1 else ?x div ?y)"
  proof (cases "?x mod ?y = 0")
    case True
    have "?x + ?y - 1 = (?y - 1) + ?y * (?x div ?y)"
      using True assms mult_div_mod_eq [of ?y ?x] by simp
    then have "(?x + ?y - 1) div ?y = (?y - 1) div ?y + ?x div ?y"
      using assms by (metis add.commute div_mult_self2 less_not_refl)
    with True assms show ?thesis by simp
  next
    case False
    have "?x + ?y - 1 = (?x mod ?y - 1) + ?y * (?x div ?y + 1)"
    proof -
      have "?x = ?y * (?x div ?y) + ?x mod ?y" by simp
      moreover have "0 < ?x mod ?y" using False by simp
      moreover have "?y * (?x div ?y + 1) = ?y * (?x div ?y) + ?y" by simp
      ultimately show ?thesis by linarith
    qed
    then have "(?x + ?y - 1) div ?y = (?x mod ?y - 1) div ?y + (?x div ?y + 1)"
      using assms by (metis add.commute div_mult_self2 less_not_refl)
    moreover have "?x mod ?y - 1 < ?y" using assms by (meson less_imp_diff_less mod_less_divisor)
    ultimately show ?thesis using False by simp
  qed
  have gt: "a mod b > 0 \<longleftrightarrow> ?x mod ?y > 0"
    by (simp add: word_less_nat_alt unat_mod_distrib)
  have "unat (a div b + 1) = ?x div ?y + 1" if "?x mod ?y > 0"
  proof -
    have "?y \<noteq> 1" using that by auto
    with assms have "1 < ?y" by simp
    have "0 < ?x" using that by (cases "?x = 0") auto
    with \<open>1 < ?y\<close> have "?x div ?y < ?x" by (simp add: div_less_dividend)
    with bound have "?x div ?y + 1 < 2 ^ LENGTH('a)" by linarith
    then show ?thesis by (simp add: unat_word_ariths unat_div_distrib)
  qed
  then show ?thesis
    unfolding * using gt by (auto simp: div_ceil_def unat_div_distrib)
qed

section \<open>Results and early returns\<close>

text \<open>
  \<open>Result<T, E>\<close> is a sum with the error on the left. \<open>and_then\<close> is the \<open>?\<close>
  operator (continue with the value or return the error), \<open>ensure\<close> an
  \<open>if !c { return Err(e) }\<close>, \<open>ok_or\<close> is \<open>Option::ok_or\<close>.
\<close>

definition and_then :: "'e + 'a \<Rightarrow> ('a \<Rightarrow> 'e + 'b) \<Rightarrow> 'e + 'b" where
  "and_then r f = (case r of Inl e \<Rightarrow> Inl e | Inr a \<Rightarrow> f a)"

definition ensure :: "bool \<Rightarrow> 'e \<Rightarrow> 'e + unit" where
  "ensure c e = (if c then Inr () else Inl e)"

definition ok_or :: "'a option \<Rightarrow> 'e \<Rightarrow> 'e + 'a" where
  "ok_or x e = (case x of None \<Rightarrow> Inl e | Some a \<Rightarrow> Inr a)"

definition map_err :: "('e \<Rightarrow> 'd) \<Rightarrow> 'e + 'a \<Rightarrow> 'd + 'a" where
  "map_err f r = (case r of Inl e \<Rightarrow> Inl (f e) | Inr a \<Rightarrow> Inr a)"

lemma and_then_simps [simp]:
  "and_then (Inl e) f = Inl e" "and_then (Inr a) f = f a"
  by (simp_all add: and_then_def)

lemma and_then_Inr_iff [result_simps]:
  "and_then r f = Inr b \<longleftrightarrow> (\<exists>a. r = Inr a \<and> f a = Inr b)"
  by (cases r) auto

lemma and_then_Inl_iff [result_simps]:
  "and_then r f = Inl e \<longleftrightarrow> r = Inl e \<or> (\<exists>a. r = Inr a \<and> f a = Inl e)"
  by (cases r) auto

lemma ensure_Inr_iff [result_simps]: "ensure c e = Inr u \<longleftrightarrow> c"
  by (simp add: ensure_def)

lemma ensure_Inl_iff [result_simps]: "ensure c e = Inl e' \<longleftrightarrow> \<not> c \<and> e' = e"
  by (auto simp: ensure_def)

lemma ensure_simps [simp]: "ensure True e = Inr ()" "ensure False e = Inl e"
  by (simp_all add: ensure_def)

lemma ok_or_Inr_iff [result_simps]: "ok_or x e = Inr a \<longleftrightarrow> x = Some a"
  by (cases x) (auto simp: ok_or_def)

lemma ok_or_Inl_iff [result_simps]: "ok_or x e = Inl e' \<longleftrightarrow> x = None \<and> e' = e"
  by (cases x) (auto simp: ok_or_def)

lemma ok_or_simps [simp]: "ok_or None e = Inl e" "ok_or (Some a) e = Inr a"
  by (simp_all add: ok_or_def)

lemma map_err_Inr_iff [result_simps]: "map_err f r = Inr a \<longleftrightarrow> r = Inr a"
  by (cases r) (auto simp: map_err_def)

lemma map_err_Inl_iff [result_simps]: "map_err f r = Inl d \<longleftrightarrow> (\<exists>e. r = Inl e \<and> d = f e)"
  by (cases r) (auto simp: map_err_def)

lemma map_err_simps [simp]: "map_err f (Inl e) = Inl (f e)" "map_err f (Inr a) = Inr a"
  by (simp_all add: map_err_def)

text \<open>\<open>Option::filter\<close> and \<open>iter().map(f).collect::<Option<Vec<_>>>()\<close>.\<close>

definition opt_filter :: "('a \<Rightarrow> bool) \<Rightarrow> 'a option \<Rightarrow> 'a option" where
  "opt_filter p x = (case x of None \<Rightarrow> None | Some a \<Rightarrow> if p a then Some a else None)"

lemma opt_filter_Some_iff [simp]: "opt_filter p x = Some a \<longleftrightarrow> x = Some a \<and> p a"
  by (cases x) (auto simp: opt_filter_def)

lemma opt_filter_simps [simp]:
  "opt_filter p None = None" "opt_filter p (Some a) = (if p a then Some a else None)"
  by (simp_all add: opt_filter_def)

fun collect_opt :: "'a option list \<Rightarrow> 'a list option" where
  "collect_opt [] = Some []"
| "collect_opt (None # xs) = None"
| "collect_opt (Some x # xs) = map_option (Cons x) (collect_opt xs)"

lemma collect_opt_Some_iff: "collect_opt xs = Some ys \<longleftrightarrow> xs = map Some ys"
  by (induction xs arbitrary: ys rule: collect_opt.induct) auto

definition or_else :: "'a option \<Rightarrow> 'a option \<Rightarrow> 'a option" where
  "or_else x y = (case x of None \<Rightarrow> y | Some a \<Rightarrow> Some a)"

lemma or_else_simps [simp]: "or_else None y = y" "or_else (Some a) y = Some a"
  by (simp_all add: or_else_def)

lemma unat_u64_less: "unat (n :: u64) < 2 ^ 64"
  using unsigned_less [of n] by simp

end
