(* ===== verification/RustStr.thy ===== *)
theory RustStr
  imports Prelude
begin

text \<open>
  The string operations of the Rust standard library that the program uses, on UTF-8 byte
  strings: prefixes and suffixes, \<open>split_once\<close> and \<open>rsplit_once\<close> at an ASCII character,
  \<open>trim\<close> (Unicode white space), ASCII case, \<open>str::parse\<close> of unsigned integers and
  UTF-8 character boundaries. Splitting and comparing bytes agrees with the character
  versions because UTF-8 never uses an ASCII byte inside a longer sequence.
\<close>

section \<open>Characters\<close>

abbreviation byte_of :: "char \<Rightarrow> nat" where
  "byte_of c \<equiv> of_char c"

definition is_ascii_digit :: "char \<Rightarrow> bool" where
  "is_ascii_digit c \<longleftrightarrow> 48 \<le> byte_of c \<and> byte_of c \<le> 57"

definition is_ascii_lowercase :: "char \<Rightarrow> bool" where
  "is_ascii_lowercase c \<longleftrightarrow> 97 \<le> byte_of c \<and> byte_of c \<le> 122"

definition is_ascii_uppercase :: "char \<Rightarrow> bool" where
  "is_ascii_uppercase c \<longleftrightarrow> 65 \<le> byte_of c \<and> byte_of c \<le> 90"

definition is_ascii_alphanumeric :: "char \<Rightarrow> bool" where
  "is_ascii_alphanumeric c \<longleftrightarrow>
     is_ascii_digit c \<or> is_ascii_lowercase c \<or> is_ascii_uppercase c"

definition is_ascii_control :: "char \<Rightarrow> bool" where
  "is_ascii_control c \<longleftrightarrow> byte_of c < 32 \<or> byte_of c = 127"

definition ascii_lower :: "char \<Rightarrow> char" where
  "ascii_lower c = (if is_ascii_uppercase c then char_of (byte_of c + 32) else c)"

definition to_ascii_lowercase :: "str \<Rightarrow> str" where
  "to_ascii_lowercase = List.map ascii_lower"

definition eq_ignore_ascii_case :: "str \<Rightarrow> str \<Rightarrow> bool" where
  "eq_ignore_ascii_case a b \<longleftrightarrow> to_ascii_lowercase a = to_ascii_lowercase b"

section \<open>Prefixes, suffixes, splitting\<close>

definition starts_with :: "str \<Rightarrow> str \<Rightarrow> bool" where
  "starts_with s p \<longleftrightarrow> take (length p) s = p"

definition ends_with :: "str \<Rightarrow> str \<Rightarrow> bool" where
  "ends_with s p \<longleftrightarrow> starts_with (rev s) (rev p)"

definition strip_prefix :: "str \<Rightarrow> str \<Rightarrow> str option" where
  "strip_prefix p s = (if starts_with s p then Some (drop (length p) s) else None)"

definition strip_suffix :: "str \<Rightarrow> str \<Rightarrow> str option" where
  "strip_suffix p s =
     (if ends_with s p then Some (take (length s - length p) s) else None)"

definition split_once :: "char \<Rightarrow> str \<Rightarrow> (str \<times> str) option" where
  "split_once c s =
     (case dropWhile (\<lambda>x. x \<noteq> c) s of [] \<Rightarrow> None
      | _ # r \<Rightarrow> Some (takeWhile (\<lambda>x. x \<noteq> c) s, r))"

definition rsplit_once :: "char \<Rightarrow> str \<Rightarrow> (str \<times> str) option" where
  "rsplit_once c s = map_option (\<lambda>(a, b). (rev b, rev a)) (split_once c (rev s))"

definition trim_end_char :: "char \<Rightarrow> str \<Rightarrow> str" where
  "trim_end_char c s = rev (dropWhile (\<lambda>x. x = c) (rev s))"

fun contains_str :: "str \<Rightarrow> str \<Rightarrow> bool" where
  "contains_str [] p = (p = [])"
| "contains_str (x # s) p = (starts_with (x # s) p \<or> contains_str s p)"

section \<open>White space\<close>

text \<open>The UTF-8 encodings of the characters with the Unicode property \<open>White_Space\<close>.\<close>

definition ws_chars :: "str list" where
  "ws_chars =
     [[CHR 0x09], [CHR 0x0A], [CHR 0x0B], [CHR 0x0C], [CHR 0x0D], [CHR 0x20],
      [CHR 0xC2, CHR 0x85], [CHR 0xC2, CHR 0xA0], [CHR 0xE1, CHR 0x9A, CHR 0x80],
      [CHR 0xE2, CHR 0x80, CHR 0x80], [CHR 0xE2, CHR 0x80, CHR 0x81],
      [CHR 0xE2, CHR 0x80, CHR 0x82], [CHR 0xE2, CHR 0x80, CHR 0x83],
      [CHR 0xE2, CHR 0x80, CHR 0x84], [CHR 0xE2, CHR 0x80, CHR 0x85],
      [CHR 0xE2, CHR 0x80, CHR 0x86], [CHR 0xE2, CHR 0x80, CHR 0x87],
      [CHR 0xE2, CHR 0x80, CHR 0x88], [CHR 0xE2, CHR 0x80, CHR 0x89],
      [CHR 0xE2, CHR 0x80, CHR 0x8A], [CHR 0xE2, CHR 0x80, CHR 0xA8],
      [CHR 0xE2, CHR 0x80, CHR 0xA9], [CHR 0xE2, CHR 0x80, CHR 0xAF],
      [CHR 0xE2, CHR 0x81, CHR 0x9F], [CHR 0xE3, CHR 0x80, CHR 0x80]]"

fun strip_ws :: "str list \<Rightarrow> str \<Rightarrow> str" where
  "strip_ws ws s =
     (case find (\<lambda>w. w \<noteq> [] \<and> s \<noteq> [] \<and> starts_with s w) ws of
        None \<Rightarrow> s
      | Some w \<Rightarrow> if w \<noteq> [] \<and> s \<noteq> [] then strip_ws ws (drop (length w) s) else s)"

declare strip_ws.simps [simp del]

definition trim_start :: "str \<Rightarrow> str" where
  "trim_start s = strip_ws ws_chars s"

definition trim_end :: "str \<Rightarrow> str" where
  "trim_end s = rev (strip_ws (List.map rev ws_chars) (rev s))"

definition trim :: "str \<Rightarrow> str" where
  "trim s = trim_end (trim_start s)"

fun has_whitespace :: "str \<Rightarrow> bool" where
  "has_whitespace [] = False"
| "has_whitespace (c # s) = (list_ex (starts_with (c # s)) ws_chars \<or> has_whitespace s)"

section \<open>Parsing unsigned integers\<close>

definition digits_val :: "str \<Rightarrow> nat" where
  "digits_val ds = foldl (\<lambda>n c. 10 * n + (byte_of c - 48)) 0 ds"

text \<open>
  Rust's \<open>parse\<close> for an unsigned type with \<open>bound\<close> values: an optional plus sign, at
  least one digit, nothing else, and an error when the value does not fit.
\<close>

definition parse_unsigned :: "nat \<Rightarrow> str \<Rightarrow> nat option" where
  "parse_unsigned bound s =
     (let ds = (case strip_prefix ''+'' s of Some r \<Rightarrow> r | None \<Rightarrow> s)
      in if ds = [] \<or> \<not> list_all is_ascii_digit ds then None
         else if digits_val ds < bound then Some (digits_val ds) else None)"

definition parse_u64 :: "str \<Rightarrow> u64 option" where
  "parse_u64 s = map_option of_nat (parse_unsigned (2 ^ 64) s)"

text \<open>\<open>Display\<close> of an unsigned integer.\<close>

fun decimal :: "nat \<Rightarrow> str" where
  "decimal n = (if n < 10 then [char_of (48 + n)] else decimal (n div 10) @ [char_of (48 + n mod 10)])"

declare decimal.simps [simp del]

lemma decimal_digits: "decimal n \<noteq> [] \<and> list_all is_ascii_digit (decimal n) \<and> digits_val (decimal n) = n"
proof (induction n rule: decimal.induct)
  case (1 n)
  have digit: "byte_of (char_of (48 + d)) = 48 + d" if "d < 10" for d :: nat
    using that by simp
  show ?case
  proof (cases "n < 10")
    case True
    then show ?thesis by (subst (1 2 3) decimal.simps) (simp add: digits_val_def is_ascii_digit_def digit)
  next
    case False
    have "n mod 10 < 10" by simp
    then have last_digit: "byte_of (char_of (48 + n mod 10)) = 48 + n mod 10"
      "is_ascii_digit (char_of (48 + n mod 10))"
      by (simp_all only: digit is_ascii_digit_def) simp_all
    with 1 False show ?thesis
      by (subst (1 2 3) decimal.simps) (simp add: digits_val_def)
  qed
qed

lemma parse_decimal: "n < bound \<Longrightarrow> parse_unsigned bound (decimal n) = Some n"
proof -
  assume n: "n < bound"
  note d = decimal_digits [of n]
  have "\<not> starts_with (decimal n) ''+''"
  proof
    assume "starts_with (decimal n) ''+''"
    then obtain r where "decimal n = CHR ''+'' # r" by (auto simp: starts_with_def take_Suc split: list.splits)
        (cases "decimal n"; simp)
    with d show False by (simp add: is_ascii_digit_def)
  qed
  then show ?thesis using d n by (simp add: parse_unsigned_def strip_prefix_def)
qed

text \<open>\<open>{:02x}\<close>: lower-case hexadecimal, at least two digits.\<close>

definition hex_char :: "nat \<Rightarrow> char" where
  "hex_char d = char_of (if d < 10 then 48 + d else 87 + d)"

fun hex_str :: "nat \<Rightarrow> str" where
  "hex_str n = (if n < 16 then [hex_char n] else hex_str (n div 16) @ [hex_char (n mod 16)])"

declare hex_str.simps [simp del]

definition hex02 :: "nat \<Rightarrow> str" where
  "hex02 n = (let s = hex_str n in if length s < 2 then ''0'' @ s else s)"

section \<open>Character boundaries\<close>

definition is_continuation :: "char \<Rightarrow> bool" where
  "is_continuation c \<longleftrightarrow> 128 \<le> byte_of c \<and> byte_of c < 192"

definition is_char_boundary :: "str \<Rightarrow> nat \<Rightarrow> bool" where
  "is_char_boundary s i \<longleftrightarrow>
     i = 0 \<or> i = length s \<or> (i < length s \<and> \<not> is_continuation (s ! i))"

definition char_count :: "str \<Rightarrow> nat" where
  "char_count s = length (List.filter (\<lambda>c. \<not> is_continuation c) s)"

text \<open>The first \<open>n\<close> characters of a UTF-8 string (\<open>chars().take(n).collect()\<close>).\<close>

fun take_chars :: "nat \<Rightarrow> str \<Rightarrow> str" where
  "take_chars n [] = []"
| "take_chars n (c # s) =
     (if is_continuation c then c # take_chars n s
      else case n of 0 \<Rightarrow> [] | Suc m \<Rightarrow> c # take_chars m s)"

section \<open>Lemmas\<close>

lemma starts_with_iff: "starts_with s p \<longleftrightarrow> (\<exists>r. s = p @ r)"
  unfolding starts_with_def by (metis append_eq_conv_conj append_take_drop_id)

lemma strip_prefix_Some_iff: "strip_prefix p s = Some r \<longleftrightarrow> s = p @ r"
  by (auto simp: strip_prefix_def starts_with_iff)

lemma split_once_Some_iff:
  "split_once c s = Some (a, b) \<longleftrightarrow> s = a @ c # b \<and> c \<notin> set a"
proof
  assume "split_once c s = Some (a, b)"
  then obtain x where d: "dropWhile (\<lambda>x. x \<noteq> c) s = x # b" and a: "a = takeWhile (\<lambda>x. x \<noteq> c) s"
    by (auto simp: split_once_def split: list.splits)
  from d have "x = c" by (metis (mono_tags) dropWhile_eq_Cons_conv)
  moreover have "s = a @ x # b" using takeWhile_dropWhile_id [of "\<lambda>x. x \<noteq> c" s] d a by simp
  moreover have "c \<notin> set a" using a by (auto dest: set_takeWhileD)
  ultimately show "s = a @ c # b \<and> c \<notin> set a" by simp
next
  assume s: "s = a @ c # b \<and> c \<notin> set a"
  have "dropWhile (\<lambda>x. x \<noteq> c) (a @ c # b) = c # b \<and> takeWhile (\<lambda>x. x \<noteq> c) (a @ c # b) = a"
    if "c \<notin> set a" using that by (induction a) auto
  with s have "dropWhile (\<lambda>x. x \<noteq> c) s = c # b" "takeWhile (\<lambda>x. x \<noteq> c) s = a"
    by auto
  then show "split_once c s = Some (a, b)" by (simp add: split_once_def)
qed

lemma split_once_None_iff: "split_once c s = None \<longleftrightarrow> c \<notin> set s"
  by (auto simp: split_once_def split: list.splits)
     (metis (full_types) dropWhile_eq_Nil_conv list.distinct(1))

lemma rsplit_once_Some_iff:
  "rsplit_once c s = Some (a, b) \<longleftrightarrow> s = a @ c # b \<and> c \<notin> set b"
proof -
  have "rsplit_once c s = Some (a, b) \<longleftrightarrow> split_once c (rev s) = Some (rev b, rev a)"
    by (auto simp: rsplit_once_def)
  also have "\<dots> \<longleftrightarrow> s = a @ c # b \<and> c \<notin> set b"
    by (simp add: split_once_Some_iff) (metis append.assoc append_Cons append_Nil rev.simps(2) rev_append rev_rev_ident)
  finally show ?thesis .
qed

lemma rsplit_once_None_iff: "rsplit_once c s = None \<longleftrightarrow> c \<notin> set s"
  by (simp add: rsplit_once_def split_once_None_iff)

lemma parse_unsigned_bound: "parse_unsigned bound s = Some n \<Longrightarrow> n < bound"
  by (auto simp: parse_unsigned_def Let_def split: if_splits)

section \<open>Trimming\<close>

text \<open>A text without white space at its start or at its end is what trimming leaves.\<close>

definition clean_start :: "str \<Rightarrow> bool" where
  "clean_start s \<longleftrightarrow> list_all (\<lambda>w. \<not> starts_with s w) ws_chars"

definition clean_end :: "str \<Rightarrow> bool" where
  "clean_end s \<longleftrightarrow> list_all (\<lambda>w. \<not> ends_with s w) ws_chars"

lemma ws_chars_lengths: "w \<in> set ws_chars \<Longrightarrow> w \<noteq> [] \<and> length w \<le> 3"
  by (auto simp: ws_chars_def)

lemma strip_ws_clean:
  "w \<in> set ws \<Longrightarrow> w \<noteq> [] \<Longrightarrow> \<not> starts_with (strip_ws ws s) w"
proof (induction ws s rule: strip_ws.induct)
  case (1 ws s)
  show ?case
  proof (cases "find (\<lambda>w. w \<noteq> [] \<and> s \<noteq> [] \<and> starts_with s w) ws")
    case None
    then have "\<not> (w \<noteq> [] \<and> s \<noteq> [] \<and> starts_with s w)" using 1(2) by (auto simp: find_None_iff)
    then have "\<not> starts_with s w" using 1(3) by (auto simp: starts_with_def)
    then show ?thesis using None by (subst strip_ws.simps) simp
  next
    case (Some v)
    then have "v \<noteq> []" "s \<noteq> []" by (auto simp: find_Some_iff)
    then show ?thesis using 1(1) [OF Some] Some 1(2,3) by (subst strip_ws.simps) simp
  qed
qed

lemma strip_ws_suffix: "\<exists>p. s = p @ strip_ws ws s"
proof (induction ws s rule: strip_ws.induct)
  case (1 ws s)
  show ?case
  proof (cases "find (\<lambda>w. w \<noteq> [] \<and> s \<noteq> [] \<and> starts_with s w) ws")
    case None
    then show ?thesis by (subst strip_ws.simps) simp
  next
    case (Some v)
    then have v: "v \<noteq> []" "s \<noteq> []" by (auto simp: find_Some_iff)
    from 1 [OF Some] v obtain p where "drop (length v) s = p @ strip_ws ws (drop (length v) s)" by blast
    then have "s = (take (length v) s @ p) @ strip_ws ws (drop (length v) s)"
      by (metis append.assoc append_take_drop_id)
    moreover have "strip_ws ws s = strip_ws ws (drop (length v) s)"
      using Some v by (subst strip_ws.simps) simp
    ultimately show ?thesis by metis
  qed
qed

lemma strip_ws_id: "list_all (\<lambda>w. \<not> starts_with s w) ws \<Longrightarrow> strip_ws ws s = s"
proof -
  assume "list_all (\<lambda>w. \<not> starts_with s w) ws"
  then have "find (\<lambda>w. w \<noteq> [] \<and> s \<noteq> [] \<and> starts_with s w) ws = None"
    by (auto simp: find_None_iff list_all_iff)
  then show ?thesis by (subst strip_ws.simps) simp
qed

lemma trim_start_clean: "clean_start (trim_start s)"
  using strip_ws_clean [of _ ws_chars s] ws_chars_lengths
  by (auto simp: clean_start_def trim_start_def list_all_iff)

lemma trim_end_clean: "clean_end (trim_end s)"
  using strip_ws_clean [of _ "List.map rev ws_chars" "rev s"] ws_chars_lengths
  by (auto simp: clean_end_def trim_end_def ends_with_def list_all_iff)

lemma trim_end_prefix: "\<exists>q. s = trim_end s @ q"
proof -
  from strip_ws_suffix [of "rev s" "List.map rev ws_chars"]
  obtain p where p: "rev s = p @ strip_ws (List.map rev ws_chars) (rev s)" ..
  have "s = rev (rev s)" by simp
  also have "\<dots> = trim_end s @ rev p" by (subst p) (simp only: rev_append trim_end_def)
  finally show ?thesis by blast
qed

lemma clean_start_prefix: "clean_start (a @ b) \<Longrightarrow> clean_start a"
  by (auto simp: clean_start_def list_all_iff starts_with_iff)

lemma trim_clean: "clean_start (trim s) \<and> clean_end (trim s)"
  using trim_start_clean [of s] trim_end_prefix [of "trim_start s"] trim_end_clean
  by (metis clean_start_prefix trim_def)

lemma trim_id: "clean_start s \<Longrightarrow> clean_end s \<Longrightarrow> trim s = s"
  by (simp add: trim_def trim_start_def trim_end_def clean_start_def clean_end_def ends_with_def
      strip_ws_id list_all_iff)

lemma trim_trim [simp]: "trim (trim s) = trim s"
  using trim_clean [of s] trim_id by blast

lemma set_trim: "set (trim s) \<subseteq> set s"
proof -
  have "set (trim_start s) \<subseteq> set s"
    using strip_ws_suffix [of s ws_chars] by (metis set_append sup_ge2 trim_start_def)
  moreover have "set (trim_end t) \<subseteq> set t" for t
    using trim_end_prefix [of t] by (metis set_append sup_ge1)
  ultimately show ?thesis unfolding trim_def by blast
qed

lemma clean_start_swap: "clean_start (p @ a) \<Longrightarrow> 3 \<le> length p \<Longrightarrow> clean_start (p @ b)"
  using ws_chars_lengths by (fastforce simp: clean_start_def list_all_iff starts_with_def)

lemma clean_end_swap:
  assumes "clean_end (a @ b)" "\<And>w. w \<in> set ws_chars \<Longrightarrow> c \<notin> set w"
  shows "clean_end (a' @ c # b)"
proof -
  have "\<not> ends_with (a' @ c # b) w" if w: "w \<in> set ws_chars" for w
  proof
    assume "ends_with (a' @ c # b) w"
    then obtain r where r: "rev b @ c # rev a' = rev w @ r" by (auto simp: ends_with_def starts_with_iff)
    have "\<not> length b < length w"
    proof
      assume "length b < length w"
      then have "(rev b @ c # rev a') ! length b \<in> set (rev w)"
        unfolding r using nth_mem [of "length b" "rev w"] by (simp add: nth_append)
      then have "c \<in> set w" by (simp add: nth_append)
      then show False using assms(2) w by blast
    qed
    then have "rev w = take (length w) (rev b)" using arg_cong [OF r, of "take (length w)"] by simp
    with \<open>\<not> length b < length w\<close> have "ends_with (a @ b) w" by (simp add: ends_with_def starts_with_def)
    then show False using assms(1) w by (simp add: clean_end_def list_all_iff)
  qed
  then show ?thesis by (simp add: clean_end_def list_all_iff)
qed

end
