(* ===== verification/Json.thy ===== *)
theory Json
  imports RustStr Complex_Main
begin

text \<open>
  The JSON values the program exchanges (\<open>serde_json::Value\<close>) and the accessors it
  uses: \<open>get\<close>, \<open>pointer\<close>, \<open>as_u64\<close>, \<open>as_str\<close>, \<open>as_bool\<close>, \<open>as_array\<close>,
  \<open>as_f64\<close>. serde_json keeps a non-negative integer as an unsigned 64-bit number, a
  negative one as a signed one and anything else as a float; \<open>as_u64\<close> accepts only the
  first. A float is a real here (JSON has no NaN and no infinity). The text parser itself is
  the library's and is a parameter of the definitions that use it.
\<close>

datatype jnum = PosInt u64 | NegInt int | Float real

datatype json =
    JNull
  | JBool bool
  | JNumber jnum
  | JString str
  | JArray "json list"
  | JObject "(str \<times> json) list"

fun jget :: "str \<Rightarrow> json \<Rightarrow> json option" where
  "jget k (JObject m) = map_of m k"
| "jget k _ = None"

fun as_u64 :: "json \<Rightarrow> u64 option" where
  "as_u64 (JNumber (PosInt n)) = Some n"
| "as_u64 _ = None"

fun as_str :: "json \<Rightarrow> str option" where
  "as_str (JString s) = Some s"
| "as_str _ = None"

fun as_bool :: "json \<Rightarrow> bool option" where
  "as_bool (JBool b) = Some b"
| "as_bool _ = None"

fun as_array :: "json \<Rightarrow> json list option" where
  "as_array (JArray xs) = Some xs"
| "as_array _ = None"

fun as_f64 :: "json \<Rightarrow> real option" where
  "as_f64 (JNumber (PosInt n)) = Some (real (unat n))"
| "as_f64 (JNumber (NegInt i)) = Some (real_of_int i)"
| "as_f64 (JNumber (Float r)) = Some r"
| "as_f64 _ = None"

fun is_null :: "json \<Rightarrow> bool" where
  "is_null JNull = True"
| "is_null _ = False"

fun is_object :: "json \<Rightarrow> bool" where
  "is_object (JObject _) = True"
| "is_object _ = False"

text \<open>\<open>value.get(k).and_then(Value::as_u64)\<close> and its kin.\<close>

definition get_u64 :: "str \<Rightarrow> json \<Rightarrow> u64 option" where
  "get_u64 k v = Option.bind (jget k v) as_u64"

definition get_str :: "str \<Rightarrow> json \<Rightarrow> str option" where
  "get_str k v = Option.bind (jget k v) as_str"

definition get_bool :: "str \<Rightarrow> json \<Rightarrow> bool option" where
  "get_bool k v = Option.bind (jget k v) as_bool"

definition get_array :: "str \<Rightarrow> json \<Rightarrow> json list option" where
  "get_array k v = Option.bind (jget k v) as_array"

definition get_f64 :: "str \<Rightarrow> json \<Rightarrow> real option" where
  "get_f64 k v = Option.bind (jget k v) as_f64"

definition pointer2 :: "str \<Rightarrow> str \<Rightarrow> json \<Rightarrow> json option" where
  "pointer2 a b v = Option.bind (jget a v) (jget b)"

lemmas json_access = get_u64_def get_str_def get_bool_def get_array_def get_f64_def pointer2_def

text \<open>\<open>value.get("error").is_none_or(Value::is_null)\<close>: absent or null.\<close>

definition absent_or_null :: "str \<Rightarrow> json \<Rightarrow> bool" where
  "absent_or_null k v = (case jget k v of None \<Rightarrow> True | Some e \<Rightarrow> is_null e)"

text \<open>Building values: \<open>json!\<close> of optional fields writes null for \<open>None\<close>.\<close>

abbreviation ju64 :: "u64 \<Rightarrow> json" where "ju64 n \<equiv> JNumber (PosInt n)"

definition jopt :: "('a \<Rightarrow> json) \<Rightarrow> 'a option \<Rightarrow> json" where
  "jopt f x = (case x of None \<Rightarrow> JNull | Some a \<Rightarrow> f a)"

lemma jopt_simps [simp]: "jopt f None = JNull" "jopt f (Some a) = f a"
  by (simp_all add: jopt_def)

lemma as_u64_Some_iff: "as_u64 v = Some n \<longleftrightarrow> v = ju64 n"
  by (cases v rule: as_u64.cases) auto

lemma as_str_Some_iff: "as_str v = Some s \<longleftrightarrow> v = JString s"
  by (cases v) auto

lemma as_bool_Some_iff: "as_bool v = Some b \<longleftrightarrow> v = JBool b"
  by (cases v) auto

lemma as_u64_jopt [simp]: "as_u64 (jopt (\<lambda>n. ju64 n) x) = x"
  by (cases x) auto

lemma as_str_jopt [simp]: "as_str (jopt JString x) = x"
  by (cases x) auto

end
