(* ===== verification/Endpoint.thy ===== *)
theory Endpoint
  imports RustStr
begin

text \<open>
  How an endpoint text is read by the engine (\<open>src/main.rs\<close>: \<open>pool_address\<close>, \<open>endpoint_address\<close>,
  \<open>is_direct_rpc\<close>) and by the desktop interface (\<open>src/gui.rs\<close>: \<open>validate_pool\<close>,
  \<open>is_direct_node_endpoint\<close>, \<open>sanitize_endpoint\<close>, \<open>endpoint_userinfo\<close>).
\<close>

section \<open>Engine\<close>

definition pool_address :: "str \<Rightarrow> str" where
  "pool_address raw =
     (case or_else (strip_prefix ''stratum+tcp://'' raw) (strip_prefix ''tcp://'' raw) of
        Some a \<Rightarrow> a | None \<Rightarrow> raw)"

definition endpoint_address :: "str \<Rightarrow> str" where
  "endpoint_address raw =
     trim_end_char (CHR ''/'')
       (case or_else (strip_prefix ''rpc://'' raw) (strip_prefix ''http://'' raw) of
          Some a \<Rightarrow> a | None \<Rightarrow> pool_address raw)"

definition is_direct_rpc :: "str \<Rightarrow> bool" where
  "is_direct_rpc raw \<longleftrightarrow>
     starts_with raw ''rpc://'' \<or> starts_with raw ''http://'' \<or>
     (case rsplit_once (CHR '':'') (endpoint_address raw) of
        Some (_, port) \<Rightarrow> port = ''8645'' | None \<Rightarrow> False)"

section \<open>Interface\<close>

datatype pool_error =
  EndpointShape | EndpointCredentials | MissingPort | EmptyHost | PortNotNumber | PortZero

definition strip_scheme :: "str \<Rightarrow> str" where
  "strip_scheme t =
     (case or_else (strip_prefix ''stratum+tcp://'' t) (or_else (strip_prefix ''tcp://'' t)
            (or_else (strip_prefix ''rpc://'' t) (strip_prefix ''http://'' t))) of
        Some a \<Rightarrow> a | None \<Rightarrow> t)"

definition validate_pool :: "str \<Rightarrow> pool_error + unit" where
  "validate_pool raw =
     (let address = strip_scheme (trim raw) in
      and_then (ensure (address \<noteq> [] \<and> \<not> has_whitespace address) EndpointShape) (\<lambda>_.
      and_then (ensure (CHR ''@'' \<notin> set address) EndpointCredentials) (\<lambda>_.
      and_then (ok_or (rsplit_once (CHR '':'') address) MissingPort) (\<lambda>(host, port).
      and_then (ensure (host \<noteq> []) EmptyHost) (\<lambda>_.
      and_then (ok_or (parse_unsigned (2 ^ 16) port) PortNotNumber) (\<lambda>port.
      ensure (port \<noteq> 0) PortZero))))))"

definition is_direct_node_endpoint :: "str \<Rightarrow> bool" where
  "is_direct_node_endpoint raw \<longleftrightarrow>
     (let t = trim raw in
      starts_with t ''rpc://'' \<or> starts_with t ''http://'' \<or> starts_with t ''https://'' \<or>
      (case rsplit_once (CHR '':'') (trim_end_char (CHR ''/'') t) of
         Some (_, port) \<Rightarrow> port = ''8645'' | None \<Rightarrow> False))"

section \<open>Properties\<close>

text \<open>The text denotes a host and a TCP port.\<close>

definition names_host_and_port :: "str \<Rightarrow> str \<Rightarrow> nat \<Rightarrow> bool" where
  "names_host_and_port address host port \<longleftrightarrow>
     (\<exists>digits. address = host @ CHR '':'' # digits \<and> CHR '':'' \<notin> set digits \<and>
        parse_unsigned (2 ^ 16) digits = Some port) \<and>
     host \<noteq> [] \<and> 0 < port \<and> port < 65536"

lemma validate_pool_iff:
  "validate_pool raw = Inr () \<longleftrightarrow>
     \<not> has_whitespace (strip_scheme (trim raw)) \<and> CHR ''@'' \<notin> set (strip_scheme (trim raw)) \<and>
     (\<exists>host port. names_host_and_port (strip_scheme (trim raw)) host port)"
proof -
  let ?a = "strip_scheme (trim raw)"
  have "validate_pool raw = Inr () \<longleftrightarrow>
     ?a \<noteq> [] \<and> \<not> has_whitespace ?a \<and> CHR ''@'' \<notin> set ?a \<and>
     (\<exists>host digits port. ?a = host @ CHR '':'' # digits \<and> CHR '':'' \<notin> set digits \<and> host \<noteq> [] \<and>
        parse_unsigned (2 ^ 16) digits = Some port \<and> port \<noteq> 0)"
    by (auto simp: validate_pool_def Let_def result_simps rsplit_once_Some_iff split: prod.splits)
  also have "\<dots> \<longleftrightarrow> \<not> has_whitespace ?a \<and> CHR ''@'' \<notin> set ?a \<and>
     (\<exists>host port. names_host_and_port ?a host port)"
    by (auto simp: names_host_and_port_def dest: parse_unsigned_bound)
  finally show ?thesis .
qed

text \<open>
  What the interface accepts as an endpoint. A text is accepted exactly when, trimmed and
  without its scheme, it has no white space and no user information and ends in a colon and a
  port from 1 to 65535 after a host that is not empty.
\<close>
theorem validate_pool_accepts_iff:
  "validate_pool raw = Inr () \<longleftrightarrow>
     (\<exists>host port. names_host_and_port (strip_scheme (trim raw)) host port \<and>
        CHR ''@'' \<notin> set (strip_scheme (trim raw)) \<and> \<not> has_whitespace (strip_scheme (trim raw)))"
  using validate_pool_iff by blast

lemma endpoint_address_strip_scheme:
  "endpoint_address t = trim_end_char (CHR ''/'') (strip_scheme t)"
  by (cases t) (auto simp: endpoint_address_def strip_scheme_def pool_address_def strip_prefix_def
      starts_with_def or_else_def split: option.splits if_splits)

lemma strip_scheme_suffix: "\<exists>p. t = p @ strip_scheme t"
  by (auto simp: strip_scheme_def or_else_def strip_prefix_Some_iff split: option.splits)

lemma trim_end_char_no_suffix: "s \<noteq> [] \<Longrightarrow> last s \<noteq> c \<Longrightarrow> trim_end_char c s = s"
  by (cases s rule: rev_cases) (simp_all add: trim_end_char_def)

lemma parse_unsigned_last:
  assumes "parse_unsigned bound ds = Some n"
  shows "ds \<noteq> [] \<and> is_ascii_digit (last ds)"
proof (cases "strip_prefix ''+'' ds")
  case None
  then show ?thesis using assms by (auto simp: parse_unsigned_def list_all_iff split: if_splits)
next
  case (Some r)
  then have "ds = CHR ''+'' # r" by (simp add: strip_prefix_Some_iff)
  moreover have "r \<noteq> []" "list_all is_ascii_digit r"
    using assms Some by (auto simp: parse_unsigned_def split: if_splits)
  ultimately show ?thesis by (simp add: list_all_iff)
qed

text \<open>
  Interface and engine agree on the kind of endpoint. For every endpoint the interface accepts
  that does not start with \<open>https\<close>, it calls the endpoint a direct node exactly when the engine
  will open a direct RPC session for it, and both read the same host and port out of it.
\<close>
theorem direct_endpoint_agreement:
  assumes "validate_pool raw = Inr ()" "\<not> starts_with (trim raw) ''https://''"
  shows "is_direct_node_endpoint raw = is_direct_rpc (trim raw) \<and>
    endpoint_address (trim raw) = strip_scheme (trim raw)"
proof -
  let ?t = "trim raw" and ?a = "strip_scheme (trim raw)"
  from assms(1) obtain host digits port where a: "?a = host @ CHR '':'' # digits"
    "CHR '':'' \<notin> set digits" "parse_unsigned (2 ^ 16) digits = Some port"
    by (auto simp: validate_pool_iff names_host_and_port_def)
  have last: "digits \<noteq> []" "is_ascii_digit (last digits)" using parse_unsigned_last [OF a(3)] by auto
  then have slash: "last digits \<noteq> CHR ''/''" by (auto simp: is_ascii_digit_def)
  obtain p where p: "?t = p @ ?a" using strip_scheme_suffix by blast
  have ea: "endpoint_address ?t = ?a"
    using a(1) last(1) slash by (simp add: endpoint_address_strip_scheme trim_end_char_no_suffix)
  have "last ?t = last digits" "?t \<noteq> []" using last(1) by (subst p, simp add: a(1))+
  then have et: "trim_end_char (CHR ''/'') ?t = ?t" using slash by (intro trim_end_char_no_suffix) auto
  have "rsplit_once (CHR '':'') ?a = Some (host, digits)" using a by (simp add: rsplit_once_Some_iff)
  moreover have "rsplit_once (CHR '':'') ?t = Some (p @ host, digits)"
    using a by (subst p) (simp add: rsplit_once_Some_iff)
  ultimately have "is_direct_node_endpoint raw = is_direct_rpc ?t"
    using assms(2) by (simp add: is_direct_node_endpoint_def is_direct_rpc_def ea et Let_def)
  with ea show ?thesis by simp
qed

text \<open>The scheme \<open>https\<close>: accepted by the interface, direct for it, a pool for the engine.\<close>

lemma https_endpoint_disagreement:
  "validate_pool ''https://node:443'' = Inr () \<and>
   is_direct_node_endpoint ''https://node:443'' \<and> \<not> is_direct_rpc ''https://node:443''"
proof -
  have facts: "strip_scheme (trim ''https://node:443'') = ''https://node'' @ CHR '':'' # ''443''"
    "\<not> has_whitespace ''https://node:443''" "is_direct_node_endpoint ''https://node:443''"
    "\<not> is_direct_rpc ''https://node:443''" by code_simp+
  have "parse_unsigned (2 ^ 16) ''443'' = Some 443"
    by (simp add: parse_unsigned_def digits_val_def is_ascii_digit_def strip_prefix_def starts_with_def)
  then have "names_host_and_port (''https://node'' @ CHR '':'' # ''443'') ''https://node'' 443"
    unfolding names_host_and_port_def by (intro conjI exI [of _ "''443''"]) simp_all
  then have "validate_pool ''https://node:443'' = Inr ()"
    unfolding validate_pool_iff facts(1) using facts(2) by (intro conjI exI) simp_all
  with facts show ?thesis by simp
qed

lemma direct_endpoint_agreement_witness:
  "is_direct_node_endpoint ''node:8645'' = is_direct_rpc ''node:8645'' \<and>
   endpoint_address ''node:8645'' = ''node:8645''"
proof -
  have facts: "trim ''node:8645'' = ''node:8645''" "strip_scheme ''node:8645'' = ''node'' @ CHR '':'' # ''8645''"
    "\<not> has_whitespace ''node:8645''" "\<not> starts_with ''node:8645'' ''https://''" by code_simp+
  have "parse_unsigned (2 ^ 16) ''8645'' = Some 8645"
    by (simp add: parse_unsigned_def digits_val_def is_ascii_digit_def strip_prefix_def starts_with_def)
  then have "names_host_and_port (''node'' @ CHR '':'' # ''8645'') ''node'' 8645"
    unfolding names_host_and_port_def by (intro conjI exI [of _ "''8645''"]) simp_all
  then have "validate_pool ''node:8645'' = Inr ()"
    unfolding validate_pool_iff facts(1,2) using facts(3) by (intro conjI exI) simp_all
  then show ?thesis
    using direct_endpoint_agreement [of "''node:8645''"] facts(1,2,4) by simp
qed

end
