(* ===== verification/Rpc.thy ===== *)
theory Rpc
  imports Json Endpoint
begin

text \<open>
  The bounded HTTP/JSON-RPC client of the direct-node mode (\<open>src/rpc.rs\<close> and \<open>rpc_call\<close> of
  \<open>src/main.rs\<close>). A reply stream is the bytes the peer delivers and how they end: a clean close
  or an error (a timeout, a reset). The JSON parser and printer and the socket are parameters.
  The response reader is proved equivalent to a specification of the response framing.
\<close>

section \<open>Errors and streams\<close>

datatype io_kind =
  InvalidData | InvalidInput | TimedOut | WouldBlock | UnexpectedEof | ConnectionRefused |
  AddrNotAvailable | PermissionDenied | OutOfMemory | OtherKind

type_synonym io_error = "io_kind \<times> str"

definition invalid :: "str \<Rightarrow> io_error" where "invalid message = (InvalidData, message)"

record stream =
  st_bytes :: str
  st_end :: "io_error option"

definition MAX_HEADER_BYTES :: nat where "MAX_HEADER_BYTES = 32 * 1024"
definition MAX_BODY_BYTES :: nat where "MAX_BODY_BYTES = 1024 * 1024 * 2 + 256 * 1024"

abbreviation LF :: char where "LF \<equiv> CHR 0x0A"
abbreviation CR :: char where "CR \<equiv> CHR 0x0D"
abbreviation CRLF :: str where "CRLF \<equiv> [CR, LF]"

text \<open>\<open>reader.take(limit).read_until(b'\n')\<close>: up to a line feed, the limit or the end.\<close>

definition read_until_lf :: "nat \<Rightarrow> stream \<Rightarrow> io_error + str \<times> stream" where
  "read_until_lf limit s =
     (let avail = take limit (st_bytes s) in
      case split_once LF avail of
        Some (pre, post) \<Rightarrow> Inr (pre @ [LF], s\<lparr>st_bytes := post @ drop limit (st_bytes s)\<rparr>)
      | None \<Rightarrow>
          if length avail = limit then Inr (avail, s\<lparr>st_bytes := drop limit (st_bytes s)\<rparr>)
          else (case st_end s of
                  None \<Rightarrow> Inr (avail, s\<lparr>st_bytes := []\<rparr>)
                | Some e \<Rightarrow> Inl e))"

text \<open>\<open>String::from_utf8\<close>: the well-formed UTF-8 byte sequences.\<close>

fun utf8_valid :: "str \<Rightarrow> bool" where
  "utf8_valid [] = True"
| "utf8_valid (a # s) =
     (let x = byte_of a in
      if x < 128 then utf8_valid s
      else if 194 \<le> x \<and> x \<le> 223 then (case s of b # t \<Rightarrow> is_continuation b \<and> utf8_valid t | _ \<Rightarrow> False)
      else if 224 \<le> x \<and> x \<le> 239 then
        (case s of b # c # t \<Rightarrow> is_continuation b \<and> is_continuation c \<and>
             (x = 224 \<longrightarrow> 160 \<le> byte_of b) \<and> (x = 237 \<longrightarrow> byte_of b < 160) \<and> utf8_valid t
         | _ \<Rightarrow> False)
      else if 240 \<le> x \<and> x \<le> 244 then
        (case s of b # c # d # t \<Rightarrow> is_continuation b \<and> is_continuation c \<and> is_continuation d \<and>
             (x = 240 \<longrightarrow> 144 \<le> byte_of b) \<and> (x = 244 \<longrightarrow> byte_of b < 144) \<and> utf8_valid t
         | _ \<Rightarrow> False)
      else False)"

definition header_line :: "nat \<Rightarrow> stream \<Rightarrow> io_error + str \<times> nat \<times> stream" where
  "header_line used s =
     and_then (read_until_lf (MAX_HEADER_BYTES - used + 1) s) (\<lambda>(bytes, s').
     let used' = used + length bytes in
     and_then (ensure (used' \<le> MAX_HEADER_BYTES)
       (invalid ''node RPC HTTP headers exceed the safety limit'')) (\<lambda>_.
     and_then (ensure (ends_with bytes CRLF)
       (invalid ''node returned incomplete or malformed HTTP headers'')) (\<lambda>_.
     let line = take (length bytes - 2) bytes in
     and_then (ensure (utf8_valid line) (invalid ''node returned non-UTF-8 HTTP headers'')) (\<lambda>_.
     Inr (line, used', s')))))"

section \<open>Status and headers\<close>

text \<open>The first two parts of \<open>splitn(3, ' ')\<close>.\<close>

definition status_parts :: "str \<Rightarrow> str \<times> str" where
  "status_parts line =
     (case split_once (CHR '' '') line of
        None \<Rightarrow> (line, [])
      | Some (version, rest) \<Rightarrow>
          (version, case split_once (CHR '' '') rest of None \<Rightarrow> rest | Some (code, _) \<Rightarrow> code))"

definition check_status :: "str \<Rightarrow> io_error + unit" where
  "check_status line =
     (let (version, code) = status_parts line in
      and_then (ensure ((version = ''HTTP/1.0'' \<or> version = ''HTTP/1.1'') \<and> length code = 3 \<and>
          list_all is_ascii_digit code) (invalid ''node returned malformed HTTP status'')) (\<lambda>_.
      ensure (starts_with code ''2'') (invalid (''node RPC returned HTTP status '' @ code))))"

text \<open>
  A byte literal of the source is an ASCII character, the horizontal tab is \<open>0x09\<close>; the
  apostrophe of the token characters is \<open>0x27\<close> and the backquote \<open>0x60\<close>.
\<close>

definition token_chars :: str where
  "token_chars = ''!#$%&'' @ [CHR 0x27] @ ''*+-.^_'' @ [CHR 0x60] @ ''|~''"

definition header_fields :: "str \<Rightarrow> (str \<times> str) option" where
  "header_fields line =
     (case split_once (CHR '':'') line of
        None \<Rightarrow> None
      | Some (name, val) \<Rightarrow>
          if name = [] \<or> \<not> list_all (\<lambda>c. is_ascii_alphanumeric c \<or> c \<in> set token_chars) name \<or>
             list_ex (\<lambda>c. is_ascii_control c \<and> c \<noteq> CHR 0x09) val
          then None else Some (name, trim val))"

definition header_step :: "str \<Rightarrow> nat option \<Rightarrow> io_error + nat option" where
  "header_step line content_length =
     and_then (ok_or (header_fields line) (invalid ''node returned malformed HTTP header'')) (\<lambda>(name, val).
     if eq_ignore_ascii_case name ''content-length'' then
       and_then (ensure (content_length = None \<and> val \<noteq> [] \<and> list_all is_ascii_digit val)
         (invalid ''node returned invalid or duplicate Content-Length'')) (\<lambda>_.
       and_then (ok_or (parse_unsigned (2 ^ 64) val)
         (invalid ''node returned invalid Content-Length'')) (\<lambda>n.
       and_then (ensure (n \<le> MAX_BODY_BYTES)
         (invalid ''node RPC body exceeds the safety limit'')) (\<lambda>_.
       Inr (Some n))))
     else if eq_ignore_ascii_case name ''transfer-encoding'' then
       Inl (invalid ''node RPC Transfer-Encoding is unsupported'')
     else if eq_ignore_ascii_case name ''content-encoding'' \<and> \<not> eq_ignore_ascii_case val ''identity'' then
       Inl (invalid ''node RPC Content-Encoding is unsupported'')
     else Inr content_length)"

section \<open>Lines\<close>

definition line_ok :: "str \<Rightarrow> bool" where
  "line_ok line \<longleftrightarrow> LF \<notin> set line \<and> utf8_valid line"

lemma ends_with_CRLF_iff: "ends_with bytes CRLF \<longleftrightarrow> (\<exists>l. bytes = l @ CRLF)"
proof -
  have "ends_with bytes CRLF \<longleftrightarrow> (\<exists>r. rev bytes = rev CRLF @ r)" by (simp add: ends_with_def starts_with_iff)
  also have "\<dots> \<longleftrightarrow> (\<exists>l. bytes = l @ CRLF)" by (metis rev_append rev_rev_ident)
  finally show ?thesis .
qed

lemma read_until_lf_line:
  "read_until_lf limit s = Inr (line @ CRLF, s') \<and> LF \<notin> set line \<longleftrightarrow>
   st_bytes s = line @ CRLF @ st_bytes s' \<and> LF \<notin> set line \<and> length line + 2 \<le> limit \<and>
   s' = s\<lparr>st_bytes := st_bytes s'\<rparr>"
proof (intro iffI; elim conjE)
  assume r: "read_until_lf limit s = Inr (line @ CRLF, s')" and lf: "LF \<notin> set line"
  let ?a = "take limit (st_bytes s)"
  have "split_once LF ?a \<noteq> None"
  proof
    assume n: "split_once LF ?a = None"
    then have "?a = line @ CRLF"
      using r by (auto simp: read_until_lf_def Let_def split: if_splits option.splits)
    with n show False by (simp add: split_once_None_iff)
  qed
  then obtain pre post where sp: "split_once LF ?a = Some (pre, post)" by auto
  then have a: "?a = pre @ LF # post" by (simp add: split_once_Some_iff)
  have s': "line @ CRLF = pre @ [LF]" "s' = s\<lparr>st_bytes := post @ drop limit (st_bytes s)\<rparr>"
    using r sp by (simp_all add: read_until_lf_def)
  then have pre: "pre = line @ [CR]" by simp
  have "st_bytes s = ?a @ drop limit (st_bytes s)" by simp
  then have "st_bytes s = line @ CRLF @ st_bytes s'" by (simp add: a pre s'(2))
  moreover have "length line + 2 \<le> limit" using arg_cong [OF a, of length] by (simp add: pre)
  ultimately show "st_bytes s = line @ CRLF @ st_bytes s' \<and> LF \<notin> set line \<and> length line + 2 \<le> limit \<and>
      s' = s\<lparr>st_bytes := st_bytes s'\<rparr>" using lf s'(2) by simp
next
  assume b: "st_bytes s = line @ CRLF @ st_bytes s'" and lf: "LF \<notin> set line"
    and len: "length line + 2 \<le> limit" and s': "s' = s\<lparr>st_bytes := st_bytes s'\<rparr>"
  have "take limit (st_bytes s) = (line @ [CR]) @ LF # take (limit - (length line + 2)) (st_bytes s')"
    using len by (simp add: b take_Cons')
  then have "split_once LF (take limit (st_bytes s)) =
      Some (line @ [CR], take (limit - (length line + 2)) (st_bytes s'))"
    using lf by (simp add: split_once_Some_iff)
  moreover have "drop limit (st_bytes s) = drop (limit - (length line + 2)) (st_bytes s')"
    using len by (simp add: b drop_Cons')
  ultimately show "read_until_lf limit s = Inr (line @ CRLF, s') \<and> LF \<notin> set line"
    using lf s' by (simp add: read_until_lf_def)
qed

lemma read_until_lf_unique_lf:
  "read_until_lf limit s = Inr (line @ CRLF, s') \<Longrightarrow> LF \<notin> set line"
  by (auto simp: read_until_lf_def Let_def split_once_Some_iff split_once_None_iff
      split: option.splits if_splits)

lemma header_line_iff:
  assumes "used \<le> MAX_HEADER_BYTES"
  shows "header_line used s = Inr (line, used', s') \<longleftrightarrow>
    st_bytes s = line @ CRLF @ st_bytes s' \<and> line_ok line \<and>
    used' = used + length line + 2 \<and> used' \<le> MAX_HEADER_BYTES \<and> s' = s\<lparr>st_bytes := st_bytes s'\<rparr>"
proof -
  have "header_line used s = Inr (line, used', s') \<longleftrightarrow>
      (\<exists>bytes. read_until_lf (MAX_HEADER_BYTES - used + 1) s = Inr (bytes, s') \<and>
         used' = used + length bytes \<and> used' \<le> MAX_HEADER_BYTES \<and> bytes = line @ CRLF \<and> utf8_valid line)"
    by (auto simp: header_line_def result_simps Let_def ends_with_CRLF_iff)
  also have "\<dots> \<longleftrightarrow> read_until_lf (MAX_HEADER_BYTES - used + 1) s = Inr (line @ CRLF, s') \<and> LF \<notin> set line \<and>
      used' = used + length line + 2 \<and> used' \<le> MAX_HEADER_BYTES \<and> utf8_valid line"
    using read_until_lf_unique_lf by auto
  also have "\<dots> \<longleftrightarrow> st_bytes s = line @ CRLF @ st_bytes s' \<and> line_ok line \<and>
      used' = used + length line + 2 \<and> used' \<le> MAX_HEADER_BYTES \<and> s' = s\<lparr>st_bytes := st_bytes s'\<rparr>"
    using assms read_until_lf_line [of "MAX_HEADER_BYTES - used + 1" s line s'] by (auto simp: line_ok_def)
  finally show ?thesis .
qed

section \<open>The header loop\<close>

function header_loop :: "nat \<Rightarrow> nat option \<Rightarrow> stream \<Rightarrow> io_error + nat option \<times> stream" where
  "header_loop used content_length s =
     (case header_line used s of
        Inl e \<Rightarrow> Inl e
      | Inr (line, used', s') \<Rightarrow>
          if line = [] then Inr (content_length, s')
          else (case header_step line content_length of
                  Inl e \<Rightarrow> Inl e
                | Inr content_length' \<Rightarrow> header_loop used' content_length' s'))"
  by pat_completeness auto

lemma header_line_consumes:
  assumes "header_line used s = Inr (line, used', s')"
  shows "length (st_bytes s') < length (st_bytes s)"
proof -
  obtain bytes where b: "read_until_lf (MAX_HEADER_BYTES - used + 1) s = Inr (bytes, s')" "ends_with bytes CRLF"
    using assms by (auto simp: header_line_def result_simps Let_def)
  then obtain l where "bytes = l @ CRLF" by (auto simp: ends_with_CRLF_iff)
  with b(1) have "read_until_lf (MAX_HEADER_BYTES - used + 1) s = Inr (l @ CRLF, s')" by simp
  with read_until_lf_line read_until_lf_unique_lf have "st_bytes s = l @ CRLF @ st_bytes s'" by blast
  then show ?thesis by simp
qed

termination header_loop
  by (relation "measure (\<lambda>(used, content_length, s). length (st_bytes s))")
     (auto dest: header_line_consumes)

declare header_loop.simps [simp del]

definition take_body :: "nat option \<Rightarrow> stream \<Rightarrow> io_error + str" where
  "take_body content_length s =
     (case content_length of
        Some n \<Rightarrow>
          if n \<le> length (st_bytes s) then Inr (take n (st_bytes s))
          else (case st_end s of
                  None \<Rightarrow> Inl (UnexpectedEof, ''failed to fill whole buffer'') | Some e \<Rightarrow> Inl e)
      | None \<Rightarrow>
          if MAX_BODY_BYTES < length (st_bytes s)
          then Inl (invalid ''node RPC body exceeds the safety limit'')
          else (case st_end s of None \<Rightarrow> Inr (st_bytes s) | Some e \<Rightarrow> Inl e))"

definition read_response :: "stream \<Rightarrow> io_error + str" where
  "read_response s =
     and_then (header_line 0 s) (\<lambda>(status_line, used, s1).
     and_then (check_status status_line) (\<lambda>_.
     and_then (header_loop used None s1) (\<lambda>(content_length, s2).
     take_body content_length s2)))"

section \<open>Decoding, deadline and call\<close>

text \<open>The JSON parser and printer of \<open>serde_json\<close>.\<close>

record serde =
  parse_json :: "str \<Rightarrow> str + json"
  show_json :: "json \<Rightarrow> str"

definition decode_reply :: "serde \<Rightarrow> str \<Rightarrow> str \<Rightarrow> io_error + json" where
  "decode_reply S body method =
     and_then (map_err (\<lambda>e. invalid (''node returned invalid JSON: '' @ e)) (parse_json S body)) (\<lambda>v.
     and_then (ensure (get_str ''jsonrpc'' v = Some ''2.0'' \<and> get_u64 ''id'' v = Some 1)
       (invalid ''node RPC reply has invalid JSON-RPC version or mismatched id'')) (\<lambda>_.
     and_then (ensure (absent_or_null ''error'' v)
       (OtherKind, ''node RPC '' @ method @ '' failed: '' @
          show_json S (case jget ''error'' v of Some e \<Rightarrow> e | None \<Rightarrow> JNull))) (\<lambda>_.
     ok_or (jget ''result'' v) (invalid ''node RPC reply has no result''))))"

definition remaining :: "nat \<Rightarrow> nat \<Rightarrow> io_error + nat" where
  "remaining deadline now =
     (if now < deadline then Inr (deadline - now)
      else Inl (TimedOut, ''node RPC deadline exceeded''))"

definition request_body :: "serde \<Rightarrow> str \<Rightarrow> json \<Rightarrow> str" where
  "request_body S method params = show_json S (JObject
     [(''jsonrpc'', JString ''2.0''), (''id'', ju64 1), (''method'', JString method),
      (''params'', params)])"

definition request_text :: "str \<Rightarrow> str \<Rightarrow> str" where
  "request_text address body =
     ''POST / HTTP/1.1'' @ CRLF @ ''Host: '' @ address @ CRLF @
     ''Content-Type: application/json'' @ CRLF @ ''Content-Length: '' @ decimal (length body) @ CRLF @
     ''Connection: close'' @ CRLF @ CRLF @ body"

text \<open>
  One exchange with a peer: \<open>ex_connect\<close> and \<open>ex_send\<close> are the results of connecting and of writing
  a request, \<open>ex_stream\<close> what comes back, and the two clock readings are taken before connecting
  and after the reply was read.
\<close>

record exchange =
  ex_connect :: "str \<Rightarrow> nat \<Rightarrow> io_error + unit"
  ex_send :: "str \<Rightarrow> io_error + unit"
  ex_stream :: stream
  ex_connect_at :: nat
  ex_done_at :: nat

definition rpc_exchange ::
  "serde \<Rightarrow> exchange \<Rightarrow> nat \<Rightarrow> str \<Rightarrow> str \<Rightarrow> json \<Rightarrow> nat \<Rightarrow> io_error + json"
where
  "rpc_exchange S E started address method params timeout =
     (let deadline = started + timeout in
      and_then (remaining deadline (ex_connect_at E)) (\<lambda>left.
      and_then (ex_connect E address left) (\<lambda>_.
      and_then (ex_send E (request_text address (request_body S method params))) (\<lambda>_.
      and_then (read_response (ex_stream E)) (\<lambda>body.
      and_then (remaining deadline (ex_done_at E)) (\<lambda>_.
      decode_reply S body method))))))"

text \<open>The advice that a refused connection adds, with its typographic quotes in UTF-8.\<close>

definition refused_advice :: "str \<Rightarrow> str \<Rightarrow> str" where
  "refused_advice address message =
     ''SOV node refused '' @ address @
     ''. Check that SOV Station'' @ [CHR 0x27] @ ''s node is running and the RPC address and port are correct. If connecting from another machine, enable '' @
     [CHR 0xE2, CHR 0x80, CHR 0x98] @ ''Expose node RPC on LAN'' @ [CHR 0xE2, CHR 0x80, CHR 0x99] @
     '' in SOV Station, restart its node, and allow the RPC port through its firewall ('' @ message @ '')''"

definition rpc_call_with_timeout ::
  "serde \<Rightarrow> exchange \<Rightarrow> nat \<Rightarrow> str \<Rightarrow> str \<Rightarrow> json \<Rightarrow> nat \<Rightarrow> io_error + json"
where
  "rpc_call_with_timeout S E started endpoint method params timeout =
     (let address = endpoint_address endpoint in
      map_err (\<lambda>(kind, message).
          if kind = ConnectionRefused then (kind, refused_advice address message) else (kind, message))
        (rpc_exchange S E started address method params timeout))"

definition DIRECT_RPC_TIMEOUT :: nat where "DIRECT_RPC_TIMEOUT = 5000"

definition rpc_call ::
  "serde \<Rightarrow> exchange \<Rightarrow> nat \<Rightarrow> str \<Rightarrow> str \<Rightarrow> json \<Rightarrow> io_error + json"
where
  "rpc_call S E started endpoint method params =
     rpc_call_with_timeout S E started endpoint method params DIRECT_RPC_TIMEOUT"

section \<open>Specification of the framing\<close>

fun steps_over :: "str list \<Rightarrow> nat option \<Rightarrow> io_error + nat option" where
  "steps_over [] content_length = Inr content_length"
| "steps_over (l # ls) content_length = and_then (header_step l content_length) (steps_over ls)"

definition wire_lines :: "str list \<Rightarrow> str" where
  "wire_lines ls = concat (List.map (\<lambda>l. l @ CRLF) ls)"

lemma wire_lines_simps [simp]:
  "wire_lines [] = []" "wire_lines (l # ls) = l @ CRLF @ wire_lines ls"
  by (simp_all add: wire_lines_def)

lemma header_loop_sound:
  "used \<le> MAX_HEADER_BYTES \<Longrightarrow> header_loop used cl s = Inr (cl', s') \<Longrightarrow>
   \<exists>lines. st_bytes s = wire_lines lines @ CRLF @ st_bytes s' \<and>
     (\<forall>l \<in> set lines. l \<noteq> [] \<and> line_ok l) \<and> used + length (wire_lines lines) + 2 \<le> MAX_HEADER_BYTES \<and>
     steps_over lines cl = Inr cl' \<and> s' = s\<lparr>st_bytes := st_bytes s'\<rparr>"
proof (induction used cl s rule: header_loop.induct)
  case (1 used cl s)
  from 1(3) obtain line used' s1 where h: "header_line used s = Inr (line, used', s1)"
    by (subst (asm) header_loop.simps) (auto split: sum.splits)
  note line = h [unfolded header_line_iff [OF 1(2)]]
  show ?case
  proof (cases "line = []")
    case True
    then have "cl' = cl" "s' = s1" using 1(3) h by (subst (asm) header_loop.simps, simp)+
    then show ?thesis using line True by (intro exI [of _ "[]"]) simp
  next
    case False
    then obtain cl1 where step: "header_step line cl = Inr cl1" "header_loop used' cl1 s1 = Inr (cl', s')"
      using 1(3) h by (subst (asm) header_loop.simps) (auto split: sum.splits)
    have "used' \<le> MAX_HEADER_BYTES" using line by simp
    from 1(1) [OF h refl refl False step(1) this step(2)]
    obtain lines where l: "st_bytes s1 = wire_lines lines @ CRLF @ st_bytes s'"
      "\<forall>l \<in> set lines. l \<noteq> [] \<and> line_ok l" "used' + length (wire_lines lines) + 2 \<le> MAX_HEADER_BYTES"
      "steps_over lines cl1 = Inr cl'" "s' = s1\<lparr>st_bytes := st_bytes s'\<rparr>" by blast
    have "s' = s\<lparr>st_bytes := st_bytes s'\<rparr>" using l(5) line by (metis stream.update_convs(1) stream.surjective)
    then show ?thesis using l line False step(1) by (intro exI [of _ "line # lines"]) simp
  qed
qed

lemma header_loop_complete:
  "(\<forall>l \<in> set lines. l \<noteq> [] \<and> line_ok l) \<Longrightarrow> used + length (wire_lines lines) + 2 \<le> MAX_HEADER_BYTES \<Longrightarrow>
   steps_over lines cl = Inr cl' \<Longrightarrow> st_bytes s = wire_lines lines @ CRLF @ rest \<Longrightarrow>
   header_loop used cl s = Inr (cl', s\<lparr>st_bytes := rest\<rparr>)"
proof (induction lines arbitrary: used cl s)
  case Nil
  then have "header_line used s = Inr ([], used + 2, s\<lparr>st_bytes := rest\<rparr>)"
    by (subst header_line_iff) (auto simp: line_ok_def)
  then show ?case using Nil by (subst header_loop.simps) simp
next
  case (Cons l lines)
  let ?s1 = "s\<lparr>st_bytes := wire_lines lines @ CRLF @ rest\<rparr>"
  have h: "header_line used s = Inr (l, used + length l + 2, ?s1)"
    using Cons.prems by (subst header_line_iff) auto
  obtain cl1 where step: "header_step l cl = Inr cl1" "steps_over lines cl1 = Inr cl'"
    using Cons.prems(3) by (auto simp: result_simps)
  have "header_loop (used + length l + 2) cl1 ?s1 = Inr (cl', ?s1\<lparr>st_bytes := rest\<rparr>)"
    using Cons.prems by (intro Cons.IH step(2)) auto
  then show ?case using Cons.prems(1) h step(1) by (subst header_loop.simps) simp
qed

text \<open>A response with a status line, header lines and what follows the empty line.\<close>

definition framed :: "stream \<Rightarrow> str \<Rightarrow> str list \<Rightarrow> str \<Rightarrow> bool" where
  "framed s status lines rest \<longleftrightarrow>
     st_bytes s = status @ CRLF @ wire_lines lines @ CRLF @ rest \<and>
     line_ok status \<and> list_all (\<lambda>l. l \<noteq> [] \<and> line_ok l) lines \<and>
     length status + 2 + length (wire_lines lines) + 2 \<le> MAX_HEADER_BYTES"

lemma read_response_framed:
  "read_response s = Inr body \<longleftrightarrow>
     (\<exists>status lines rest cl. framed s status lines rest \<and> check_status status = Inr () \<and>
        steps_over lines None = Inr cl \<and> take_body cl (s\<lparr>st_bytes := rest\<rparr>) = Inr body)"
proof
  assume "read_response s = Inr body"
  then obtain status used s1 cl s2 where r: "header_line 0 s = Inr (status, used, s1)"
    "check_status status = Inr ()" "header_loop used None s1 = Inr (cl, s2)" "take_body cl s2 = Inr body"
    by (auto simp: read_response_def result_simps)
  have status: "st_bytes s = status @ CRLF @ st_bytes s1" "line_ok status" "used = length status + 2"
    "used \<le> MAX_HEADER_BYTES" "s1 = s\<lparr>st_bytes := st_bytes s1\<rparr>"
    using r(1) by (simp_all add: header_line_iff)
  from header_loop_sound [OF status(4) r(3)] obtain lines where l:
    "st_bytes s1 = wire_lines lines @ CRLF @ st_bytes s2" "\<forall>l \<in> set lines. l \<noteq> [] \<and> line_ok l"
    "used + length (wire_lines lines) + 2 \<le> MAX_HEADER_BYTES" "steps_over lines None = Inr cl"
    "s2 = s1\<lparr>st_bytes := st_bytes s2\<rparr>" by blast
  have "s2 = s\<lparr>st_bytes := st_bytes s2\<rparr>" using l(5) status(5) by (metis stream.update_convs(1) stream.surjective)
  then have "framed s status lines (st_bytes s2)" "take_body cl (s\<lparr>st_bytes := st_bytes s2\<rparr>) = Inr body"
    using status l r(4) by (simp_all add: framed_def list_all_iff)
  then show "\<exists>status lines rest cl. framed s status lines rest \<and> check_status status = Inr () \<and>
      steps_over lines None = Inr cl \<and> take_body cl (s\<lparr>st_bytes := rest\<rparr>) = Inr body"
    using r(2) l(4) by blast
next
  assume "\<exists>status lines rest cl. framed s status lines rest \<and> check_status status = Inr () \<and>
      steps_over lines None = Inr cl \<and> take_body cl (s\<lparr>st_bytes := rest\<rparr>) = Inr body"
  then obtain status lines rest cl where r: "framed s status lines rest" "check_status status = Inr ()"
    "steps_over lines None = Inr cl" "take_body cl (s\<lparr>st_bytes := rest\<rparr>) = Inr body" by blast
  let ?s1 = "s\<lparr>st_bytes := wire_lines lines @ CRLF @ rest\<rparr>"
  have "header_line 0 s = Inr (status, length status + 2, ?s1)"
    using r(1) by (subst header_line_iff) (auto simp: framed_def)
  moreover have "header_loop (length status + 2) None ?s1 = Inr (cl, ?s1\<lparr>st_bytes := rest\<rparr>)"
    using r(1,3) by (intro header_loop_complete) (auto simp: framed_def list_all_iff)
  ultimately show "read_response s = Inr body" using r(2,4) by (simp add: read_response_def)
qed

text \<open>What a header line may be, and the length that a Content-Length line declares.\<close>

definition named :: "str \<Rightarrow> str \<Rightarrow> bool" where
  "named n line = (case header_fields line of
       Some (name, _) \<Rightarrow> eq_ignore_ascii_case name n | None \<Rightarrow> False)"

definition acceptable :: "str \<Rightarrow> bool" where
  "acceptable line = (case header_fields line of
       None \<Rightarrow> False
     | Some (name, val) \<Rightarrow> \<not> eq_ignore_ascii_case name ''transfer-encoding'' \<and>
         (eq_ignore_ascii_case name ''content-encoding'' \<longrightarrow> eq_ignore_ascii_case val ''identity''))"

definition declared_length :: "str \<Rightarrow> nat option" where
  "declared_length line = (case header_fields line of
       None \<Rightarrow> None
     | Some (_, val) \<Rightarrow>
         if val \<noteq> [] \<and> list_all is_ascii_digit val
         then opt_filter (\<lambda>n. n \<le> MAX_BODY_BYTES) (parse_unsigned (2 ^ 64) val) else None)"

definition length_lines :: "str list \<Rightarrow> str list" where
  "length_lines lines = List.filter (named ''content-length'') lines"

lemma header_names_distinct:
  "eq_ignore_ascii_case name ''content-length'' \<Longrightarrow> \<not> eq_ignore_ascii_case name ''transfer-encoding''"
  "eq_ignore_ascii_case name ''content-length'' \<Longrightarrow> \<not> eq_ignore_ascii_case name ''content-encoding''"
proof -
  have "\<not> eq_ignore_ascii_case ''content-length'' ''transfer-encoding''"
    "\<not> eq_ignore_ascii_case ''content-length'' ''content-encoding''" by code_simp+
  then show "eq_ignore_ascii_case name ''content-length'' \<Longrightarrow> \<not> eq_ignore_ascii_case name ''transfer-encoding''"
    "eq_ignore_ascii_case name ''content-length'' \<Longrightarrow> \<not> eq_ignore_ascii_case name ''content-encoding''"
    by (simp_all add: eq_ignore_ascii_case_def)
qed

lemma header_step_iff:
  "header_step line cl = Inr cl' \<longleftrightarrow> acceptable line \<and>
     (if named ''content-length'' line then cl = None \<and> cl' \<noteq> None \<and> declared_length line = cl' else cl' = cl)"
proof (cases "header_fields line")
  case None
  then show ?thesis by (simp add: header_step_def acceptable_def)
next
  case (Some nv)
  obtain name val where nv: "nv = (name, val)" by (cases nv)
  show ?thesis
  proof (cases "eq_ignore_ascii_case name ''content-length''")
    case True
    then show ?thesis using Some nv header_names_distinct [OF True]
      by (auto simp: header_step_def acceptable_def named_def declared_length_def result_simps)
  next
    case False
    then show ?thesis using Some nv by (auto simp: header_step_def acceptable_def named_def)
  qed
qed

lemma steps_over_iff:
  "steps_over lines cl = Inr cl' \<longleftrightarrow> list_all acceptable lines \<and>
     (length_lines lines = [] \<and> cl' = cl \<or>
      (\<exists>l n. length_lines lines = [l] \<and> cl = None \<and> declared_length l = Some n \<and> cl' = Some n))"
proof (induction lines arbitrary: cl)
  case Nil
  then show ?case by (auto simp: length_lines_def)
next
  case (Cons l lines)
  have "steps_over (l # lines) cl = Inr cl' \<longleftrightarrow>
      (\<exists>cl1. header_step l cl = Inr cl1 \<and> steps_over lines cl1 = Inr cl')"
    by (simp add: result_simps)
  then show ?case unfolding Cons.IH header_step_iff
    by (cases "named ''content-length'' l") (auto simp: length_lines_def)
qed

definition body_for :: "str list \<Rightarrow> str \<Rightarrow> bool \<Rightarrow> str \<Rightarrow> bool" where
  "body_for lines rest clean body \<longleftrightarrow>
     (case length_lines lines of
        [] \<Rightarrow> clean \<and> body = rest
      | [l] \<Rightarrow> (case declared_length l of
            Some n \<Rightarrow> n \<le> length rest \<and> body = take n rest | None \<Rightarrow> False)
      | _ \<Rightarrow> False) \<and> length body \<le> MAX_BODY_BYTES"

lemma take_body_iff:
  "(\<exists>cl. steps_over lines None = Inr cl \<and> take_body cl (s\<lparr>st_bytes := rest\<rparr>) = Inr body) \<longleftrightarrow>
   list_all acceptable lines \<and> body_for lines rest (st_end s = None) body"
proof -
  have le: "n \<le> MAX_BODY_BYTES" if "declared_length l = Some n" for l n
    using that by (auto simp: declared_length_def split: option.splits if_splits)
  consider "length_lines lines = []" | l where "length_lines lines = [l]"
    | l l' ls where "length_lines lines = l # l' # ls" by (metis list.exhaust)
  then show ?thesis
  proof cases
    case 1
    then show ?thesis
      by (auto simp: steps_over_iff body_for_def take_body_def not_less split: if_splits option.splits)
  next
    case (2 l)
    then show ?thesis using le
      by (cases "declared_length l")
         (auto simp: steps_over_iff body_for_def take_body_def dest: le_trans split: if_splits option.splits)
  next
    case 3
    then show ?thesis by (auto simp: steps_over_iff body_for_def)
  qed
qed

text \<open>
  C33: The response reader, exactly. It returns a body precisely for a 2xx HTTP/1.0 or 1.1 response
  whose status and header lines take at most 32 KiB and end in CRLF, with valid field names and
  values, no Transfer-Encoding, no Content-Encoding but identity and at most one well-formed
  Content-Length of at most 2.25 MiB; the body is then the declared number of bytes, or, when
  no length is declared, everything up to a clean close, within the same limit.
\<close>
theorem read_response_exact:
  "read_response s = Inr body \<longleftrightarrow>
     (\<exists>status lines rest. framed s status lines rest \<and> check_status status = Inr () \<and>
        list_all acceptable lines \<and> body_for lines rest (st_end s = None) body)"
  unfolding read_response_framed take_body_iff [symmetric] by blast

text \<open>
  The call is answered in time, by the right message, or not at all. If a call returns a value,
  the peer's response was read before the deadline, its body parsed as a JSON-RPC 2.0 reply to
  request 1 without an error, and the value is the result of that reply.
\<close>
theorem rpc_exchange_result:
  assumes "rpc_exchange S E started address method params timeout = Inr v"
  shows "ex_done_at E < started + timeout \<and> ex_connect_at E < started + timeout \<and>
    (\<exists>body reply. read_response (ex_stream E) = Inr body \<and> parse_json S body = Inr reply \<and>
       jget ''jsonrpc'' reply = Some (JString ''2.0'') \<and> jget ''id'' reply = Some (ju64 1) \<and>
       absent_or_null ''error'' reply \<and> jget ''result'' reply = Some v)"
  using assms
  by (auto simp: rpc_exchange_def remaining_def decode_reply_def result_simps Let_def json_access
      Option.bind_eq_Some_conv as_str_Some_iff as_u64_Some_iff split: if_splits)

section \<open>Witnesses\<close>

definition demo_reply :: json where
  "demo_reply = JObject [(''jsonrpc'', JString ''2.0''), (''id'', JNumber (PosInt 1)), (''result'', JBool True)]"

definition demo_serde :: serde where
  "demo_serde = \<lparr>parse_json = (\<lambda>_. Inr demo_reply), show_json = (\<lambda>_. ''{}'')\<rparr>"

definition demo_stream :: stream where
  "demo_stream = \<lparr>st_bytes = ''HTTP/1.1 200 OK'' @ CRLF @ CRLF @ ''{}'', st_end = None\<rparr>"

definition demo_exchange :: exchange where
  "demo_exchange = \<lparr>ex_connect = (\<lambda>_ _. Inr ()), ex_send = (\<lambda>_. Inr ()), ex_stream = demo_stream,
     ex_connect_at = 10, ex_done_at = 90\<rparr>"

lemma demo_response: "read_response demo_stream = Inr ''{}''"
proof -
  have ok: "line_ok ''HTTP/1.1 200 OK''" "check_status ''HTTP/1.1 200 OK'' = Inr ()"
    by (simp_all add: line_ok_def) code_simp+
  have "framed demo_stream ''HTTP/1.1 200 OK'' [] ''{}''"
    using ok(1) by (simp add: framed_def demo_stream_def MAX_HEADER_BYTES_def)
  moreover have "take_body None (demo_stream\<lparr>st_bytes := ''{}''\<rparr>) = Inr ''{}''"
    by (simp add: take_body_def demo_stream_def MAX_BODY_BYTES_def)
  ultimately show ?thesis using ok(2) unfolding read_response_framed by force
qed

lemma rpc_exchange_result_witness:
  "rpc_exchange demo_serde demo_exchange 0 ''n:1'' ''m'' JNull 100 = Inr (JBool True) \<and>
   ex_done_at demo_exchange < 100"
proof -
  have r: "rpc_exchange demo_serde demo_exchange 0 ''n:1'' ''m'' JNull 100 = Inr (JBool True)"
    by (simp add: rpc_exchange_def demo_exchange_def remaining_def demo_response decode_reply_def
        demo_serde_def demo_reply_def json_access absent_or_null_def)
  from rpc_exchange_result [OF r] r show ?thesis by simp
qed

end
