(* ===== verification/BTree.thy ===== *)
theory BTree
  imports Prelude
begin

text \<open>
  The containers of the block feed: \<open>BTreeMap\<close> as an association list in strictly ascending
  key order, and bounded queues trimmed from the front. Two interfaces are stated as locales:
  \<open>ordered_map\<close>, interpreted on the association lists, and \<open>bounded_history\<close> (a queue that keeps
  the newest \<open>cap\<close> entries), interpreted by the components that push to one.
\<close>

section \<open>Ordered maps\<close>

type_synonym ('k, 'v) btree = "('k \<times> 'v) list"

definition bt_ok :: "('k::linorder, 'v) btree \<Rightarrow> bool" where
  "bt_ok m \<longleftrightarrow> sorted_wrt (<) (List.map fst m)"

definition bt_get :: "('k, 'v) btree \<Rightarrow> 'k \<Rightarrow> 'v option" where
  "bt_get m k = map_of m k"

fun bt_insert :: "'k::linorder \<Rightarrow> 'v \<Rightarrow> ('k, 'v) btree \<Rightarrow> ('k, 'v) btree" where
  "bt_insert k v [] = [(k, v)]"
| "bt_insert k v ((k', v') # m) =
     (if k < k' then (k, v) # (k', v') # m
      else if k = k' then (k, v) # m
      else (k', v') # bt_insert k v m)"

definition bt_retain :: "('k \<Rightarrow> bool) \<Rightarrow> ('k, 'v) btree \<Rightarrow> ('k, 'v) btree" where
  "bt_retain p m = List.filter (\<lambda>(k, v). p k) m"

definition bt_remove :: "'k \<Rightarrow> ('k, 'v) btree \<Rightarrow> ('k, 'v) btree" where
  "bt_remove k m = bt_retain (\<lambda>k'. k' \<noteq> k) m"

text \<open>Every law is stated on the lookup function, so a client never looks at the list.\<close>

locale ordered_map =
  fixes ok :: "'m \<Rightarrow> bool"
    and get :: "'m \<Rightarrow> 'k::linorder \<Rightarrow> 'v option"
    and ins :: "'k \<Rightarrow> 'v \<Rightarrow> 'm \<Rightarrow> 'm"
    and retain :: "('k \<Rightarrow> bool) \<Rightarrow> 'm \<Rightarrow> 'm"
    and count :: "'m \<Rightarrow> nat"
  assumes ok_ins: "ok m \<Longrightarrow> ok (ins k v m)"
    and ok_retain: "ok m \<Longrightarrow> ok (retain p m)"
    and get_ins: "ok m \<Longrightarrow> get (ins k v m) = (get m)(k \<mapsto> v)"
    and get_retain: "ok m \<Longrightarrow> get (retain p m) = (\<lambda>k. if p k then get m k else None)"
    and finite_get: "ok m \<Longrightarrow> finite (dom (get m))"
    and count_card: "ok m \<Longrightarrow> count m = card (dom (get m))"
begin

lemma dom_ins: "ok m \<Longrightarrow> dom (get (ins k v m)) = insert k (dom (get m))"
  by (simp add: get_ins)

lemma dom_retain: "ok m \<Longrightarrow> dom (get (retain p m)) = {k \<in> dom (get m). p k}"
  by (auto simp: get_retain split: if_splits)

lemma count_ins_le: "ok m \<Longrightarrow> count (ins k v m) \<le> Suc (count m)"
  by (simp add: count_card ok_ins dom_ins finite_get card_insert_if)

lemma count_retain_within:
  assumes "ok m" "\<And>k. p k \<Longrightarrow> k \<in> S" "finite S"
  shows "count (retain p m) \<le> card S"
  using assms by (auto simp: count_card ok_retain dom_retain intro!: card_mono)

end

lemma set_bt_insert: "fst ` set (bt_insert k v m) = insert k (fst ` set m)"
  by (induction m rule: bt_insert.induct) auto

lemma bt_ok_insert: "bt_ok m \<Longrightarrow> bt_ok (bt_insert k v m)"
proof (induction k v m rule: bt_insert.induct)
  case (2 k v k' v' m)
  then have tail: "\<forall>x \<in> fst ` set m. k' < x" "sorted_wrt (<) (List.map fst m)"
    by (auto simp: bt_ok_def)
  consider "k < k'" | "k = k'" | "k' < k" by force
  then show ?case
  proof cases
    case 3
    then have "bt_ok (bt_insert k v m)" using 2 by (auto simp: bt_ok_def)
    moreover have "\<forall>x \<in> fst ` set (bt_insert k v m). k' < x" using 3 tail(1) by (simp add: set_bt_insert)
    ultimately show ?thesis using 3 by (auto simp: bt_ok_def)
  qed (use tail in \<open>auto simp: bt_ok_def\<close>)
qed (simp add: bt_ok_def)

lemma bt_get_insert: "bt_get (bt_insert k v m) = (bt_get m)(k \<mapsto> v)"
  by (induction k v m rule: bt_insert.induct) (auto simp: bt_get_def fun_eq_iff)

lemma bt_ok_distinct: "bt_ok m \<Longrightarrow> distinct (List.map fst m)"
  by (simp add: bt_ok_def strict_sorted_iff)

lemma bt_get_retain: "bt_get (bt_retain p m) = (\<lambda>k. if p k then bt_get m k else None)"
  by (induction m) (auto simp: bt_get_def bt_retain_def fun_eq_iff)

lemma bt_ok_retain: "bt_ok m \<Longrightarrow> bt_ok (bt_retain p m)"
  by (simp add: bt_ok_def bt_retain_def sorted_wrt_map sorted_wrt_filter)

lemma dom_bt_get: "dom (bt_get m) = fst ` set m"
proof -
  have "bt_get m = map_of m" by (simp add: bt_get_def fun_eq_iff)
  then show ?thesis by (simp add: dom_map_of_conv_image_fst)
qed

lemma length_bt: "bt_ok m \<Longrightarrow> length m = card (dom (bt_get m))"
  using distinct_card [OF bt_ok_distinct, of m] by (simp add: dom_bt_get)

interpretation btree: ordered_map bt_ok bt_get bt_insert bt_retain length
  by unfold_locales
    (auto simp: bt_ok_insert bt_ok_retain bt_get_insert bt_get_retain dom_bt_get length_bt)

lemma bt_remove_first: "bt_ok (kv # m) \<Longrightarrow> bt_remove (fst kv) (kv # m) = m"
  by (cases kv) (auto simp: bt_ok_def bt_remove_def bt_retain_def filter_id_conv)

section \<open>Bounded histories\<close>

text \<open>\<open>while q.len() > cap { q.pop_front(); }\<close>\<close>

fun pop_excess :: "nat \<Rightarrow> 'a list \<Rightarrow> 'a list" where
  "pop_excess cap [] = []"
| "pop_excess cap (x # xs) = (if length (x # xs) > cap then pop_excess cap xs else x # xs)"

definition newest :: "nat \<Rightarrow> 'a list \<Rightarrow> 'a list" where
  "newest n xs = drop (length xs - n) xs"

lemma pop_excess_eq: "pop_excess cap xs = newest cap xs"
  by (induction xs) (auto simp: newest_def Suc_diff_le)

lemma length_newest [simp]: "length (newest n xs) = min n (length xs)"
  by (simp add: newest_def)

lemma newest_newest_append: "newest n (newest n xs @ ys) = newest n (xs @ ys)"
proof (cases "length xs \<le> n")
  case True
  then show ?thesis by (simp add: newest_def)
next
  case False
  then have eq: "length (newest n xs @ ys) - n = length ys" by simp
  have "newest n (newest n xs @ ys) = drop (length ys + (length xs - n)) (xs @ ys)"
    unfolding newest_def [of n "newest n xs @ ys"] eq using False by (simp add: newest_def)
  moreover have "length ys + (length xs - n) = length (xs @ ys) - n" using False by simp
  ultimately show ?thesis by (simp only: newest_def [of n "xs @ ys"])
qed

lemma newest_all: "length xs \<le> n \<Longrightarrow> newest n xs = xs"
  by (simp add: newest_def)

lemma in_set_newest: "x \<in> set (newest n xs) \<Longrightarrow> x \<in> set xs"
  by (auto simp: newest_def dest: in_set_dropD)

locale bounded_history =
  fixes items :: "'s \<Rightarrow> 'a list" and push :: "'a \<Rightarrow> 's \<Rightarrow> 's" and cap :: nat
  assumes items_push: "items (push x s) = newest cap (items s @ [x])"
begin

lemma items_fold:
  "length (items s) \<le> cap \<Longrightarrow> items (fold push xs s) = newest cap (items s @ xs)"
proof (induction xs arbitrary: s)
  case Nil
  then show ?case by (simp add: newest_all)
next
  case (Cons x xs)
  have "length (items (push x s)) \<le> cap" by (simp add: items_push)
  from Cons.IH [OF this] show ?case by (simp add: items_push newest_newest_append)
qed

lemma items_bounded: "length (items s) \<le> cap \<Longrightarrow> length (items (fold push xs s)) \<le> cap"
  by (simp add: items_fold)

end

end
