(* ===== verification/Attribution.thy ===== *)
theory Attribution
  imports BTree
begin

text \<open>
  Which blocks are this miner's own (\<open>src/blockflow.rs\<close>, \<open>SealedBlocks\<close> and \<open>MineMark\<close>): the
  bounded memory of accepted submissions and the classification of a block against it.
\<close>

definition MAX_SEALED_TRACKED :: nat where "MAX_SEALED_TRACKED = 32"

record sealed_blocks =
  sealed_entries :: "(u64 \<times> str) list"

definition sealed_default :: sealed_blocks where
  "sealed_default = \<lparr>sealed_entries = []\<rparr>"

definition sealed_record :: "u64 \<Rightarrow> str \<Rightarrow> sealed_blocks \<Rightarrow> sealed_blocks" where
  "sealed_record height hash s =
     s\<lparr>sealed_entries := pop_excess MAX_SEALED_TRACKED (sealed_entries s @ [(height, hash)])\<rparr>"

definition sealed :: "sealed_blocks \<Rightarrow> u64 \<Rightarrow> str option \<Rightarrow> bool" where
  "sealed s height hash =
     (case hash of
        Some h \<Rightarrow> list_ex (\<lambda>(_, own). own = h) (sealed_entries s)
      | None \<Rightarrow> list_ex (\<lambda>(own, _). own = height) (sealed_entries s))"

datatype mine_mark = MarkHash | MarkHeight | UnverifiedHeight | NotMine

definition mine_mark :: "sealed_blocks \<Rightarrow> u64 \<Rightarrow> bool \<Rightarrow> str option \<Rightarrow> mine_mark" where
  "mine_mark s height detail_fetched hash =
     (if detail_fetched
      then if sealed s height hash
           then if hash \<noteq> None then MarkHash else MarkHeight
           else NotMine
      else if sealed s height None then UnverifiedHeight
      else NotMine)"

definition proven :: "mine_mark \<Rightarrow> bool" where
  "proven m = (case m of MarkHash \<Rightarrow> True | MarkHeight \<Rightarrow> True | _ \<Rightarrow> False)"

definition mark_basis :: "mine_mark \<Rightarrow> str option" where
  "mark_basis m = (case m of
       MarkHash \<Rightarrow> Some ''hash'' | MarkHeight \<Rightarrow> Some ''height''
     | UnverifiedHeight \<Rightarrow> Some ''unverified'' | NotMine \<Rightarrow> None)"

abbreviation record_accepted :: "u64 \<times> str \<Rightarrow> sealed_blocks \<Rightarrow> sealed_blocks" where
  "record_accepted e \<equiv> sealed_record (fst e) (snd e)"

interpretation accepted: bounded_history sealed_entries record_accepted MAX_SEALED_TRACKED
  by unfold_locales (simp add: sealed_record_def pop_excess_eq)

lemma sealed_entries_run:
  "sealed_entries (fold record_accepted es sealed_default) = newest 32 es"
  using accepted.items_fold [of sealed_default es]
  by (simp add: sealed_default_def MAX_SEALED_TRACKED_def)

lemma sealed_iff [simp]:
  "sealed s height (Some h) \<longleftrightarrow> h \<in> snd ` set (sealed_entries s)"
  "sealed s height None \<longleftrightarrow> height \<in> fst ` set (sealed_entries s)"
  by (auto simp: sealed_def list_ex_iff image_iff) force+

lemma mine_mark_cases:
  "mine_mark s height fetched hash =
     (case (fetched, hash) of
        (True, Some h) \<Rightarrow> if h \<in> snd ` set (sealed_entries s) then MarkHash else NotMine
      | (True, None) \<Rightarrow> if height \<in> fst ` set (sealed_entries s) then MarkHeight else NotMine
      | (False, _) \<Rightarrow>
          if height \<in> fst ` set (sealed_entries s) then UnverifiedHeight else NotMine)"
  by (simp add: mine_mark_def split: option.split bool.split)

text \<open>
  Attribution proves what it says. After any sequence of accepted submissions a block is a
  proven win exactly when its detail was fetched and either its disclosed hash is one of the
  newest 32 accepted hashes or, where no hash was disclosed, its height is one of the newest 32
  accepted heights; without the detail it is never proven, and a height match is then reported
  under the distinct tag ''unverified''.
\<close>
theorem mine_mark_proven_iff:
  "(proven (mine_mark (fold record_accepted es sealed_default) height fetched hash) \<longleftrightarrow>
      fetched \<and> (case hash of
                    Some h \<Rightarrow> h \<in> snd ` set (newest 32 es)
                  | None \<Rightarrow> height \<in> fst ` set (newest 32 es))) \<and>
   (mark_basis (mine_mark (fold record_accepted es sealed_default) height fetched hash) =
      Some ''unverified'' \<longleftrightarrow> \<not> fetched \<and> height \<in> fst ` set (newest 32 es))"
  by (simp add: mine_mark_cases sealed_entries_run proven_def mark_basis_def
      split: option.splits bool.splits)

end
