(* ===== verification/Histogram.thy ===== *)
theory Histogram
  imports Json
begin

text \<open>
  Read-only node data (\<open>src/blockflow.rs\<close>): the tolerant readers of block, fee and
  mempool replies, the strict parser of the mempool fee histogram, and the packing of its
  buckets into pending blocks. The packing loop is a partial function (its inner loop would
  never end at capacity zero); that it always returns, and that it computes the chunks of the
  flattened transaction list, are lemmas here.
\<close>

section \<open>Readers\<close>

definition MAX_HASH_CHARS :: nat where "MAX_HASH_CHARS = 128"
definition MAX_PROJECTED_BLOCKS :: nat where "MAX_PROJECTED_BLOCKS = 6"
definition MAX_BACKLOG_BLOCKS :: nat where "MAX_BACKLOG_BLOCKS = 24"
definition MAX_HISTOGRAM_BUCKETS :: nat where "MAX_HISTOGRAM_BUCKETS = 512"

definition block_facet :: "json \<Rightarrow> json" where
  "block_facet v =
     (case jget ''block'' v of
        Some inner \<Rightarrow> if is_object inner then inner else v
      | None \<Rightarrow> v)"

definition tx_count :: "json \<Rightarrow> u64 option" where
  "tx_count v =
     (let facet = block_facet v in
      case get_array ''transactions'' facet of
        Some transactions \<Rightarrow> Some (of_nat (length transactions))
      | None \<Rightarrow>
          (case get_array ''txIds'' facet of
             Some ids \<Rightarrow> Some (of_nat (length ids))
           | None \<Rightarrow> get_u64 ''txCount'' facet))"

text \<open>A disclosed hash, trimmed, non-empty and at most 128 bytes.\<close>

definition bounded_hash :: "str option \<Rightarrow> str option" where
  "bounded_hash h =
     opt_filter (\<lambda>s. s \<noteq> [] \<and> length s \<le> MAX_HASH_CHARS) (map_option trim h)"

definition block_hash :: "json \<Rightarrow> str option" where
  "block_hash v =
     (let facet = block_facet v in
      bounded_hash (Option.bind
        (or_else (jget ''hash'' facet) (Option.bind (jget ''header'' facet) (jget ''hash''))) as_str))"

definition read_timestamp :: "json \<Rightarrow> u64 option" where
  "read_timestamp v =
     Option.bind (or_else (jget ''timestamp_ms'' v) (jget ''timestampMs'' v)) as_u64"

definition block_timestamp_ms :: "json \<Rightarrow> u64 option" where
  "block_timestamp_ms v =
     (let facet = block_facet v in
      or_else (Option.bind (jget ''header'' facet) read_timestamp) (read_timestamp facet))"

definition grains :: "json \<Rightarrow> u64 option" where
  "grains v = or_else (as_u64 v) (Option.bind (as_str v) (\<lambda>raw. parse_u64 (trim raw)))"

definition fee_grains :: "json \<Rightarrow> u64 option" where
  "fee_grains v = or_else (as_u64 v) (Option.bind (jget ''feeGrains'' v) grains)"

definition fee_floor_grains :: "json \<Rightarrow> u64 option" where
  "fee_floor_grains v = or_else (Option.bind (jget ''floorGrains'' v) grains) (fee_grains v)"

fun find_map :: "('a \<Rightarrow> 'b option) \<Rightarrow> 'a list \<Rightarrow> 'b option" where
  "find_map f [] = None"
| "find_map f (x # xs) = or_else (f x) (find_map f xs)"

definition mempool_size :: "json \<Rightarrow> u64 option" where
  "mempool_size v =
     or_else (as_u64 v)
       (find_map (\<lambda>key. get_u64 key v) [''size'', ''count'', ''mempool'', ''pending''])"

section \<open>The fee histogram\<close>

record bucket =
  fee_rate_grains :: u64
  bucket_tx_count :: u64

record histogram =
  hist_tx_count :: u64
  hist_max_block_txs :: u64
  hist_buckets :: "bucket list"

definition parse_bucket :: "json \<Rightarrow> bucket option" where
  "parse_bucket b =
     Option.bind (Option.bind (jget ''feeRateGrains'' b) grains) (\<lambda>rate.
     Option.bind (Option.bind (jget ''txCount'' b) grains) (\<lambda>n.
     Some \<lparr>fee_rate_grains = rate, bucket_tx_count = n\<rparr>))"

text \<open>\<open>windows(2).all(..)\<close>: every bucket's rate is at least the next one's.\<close>

fun buckets_ordered :: "bucket list \<Rightarrow> bool" where
  "buckets_ordered (a # b # bs) =
     (fee_rate_grains a \<ge> fee_rate_grains b \<and> buckets_ordered (b # bs))"
| "buckets_ordered _ = True"

fun checked_sum :: "u64 \<Rightarrow> bucket list \<Rightarrow> u64 option" where
  "checked_sum acc [] = Some acc"
| "checked_sum acc (b # bs) =
     (case checked_add acc (bucket_tx_count b) of
        None \<Rightarrow> None | Some acc' \<Rightarrow> checked_sum acc' bs)"

definition mempool_histogram :: "json \<Rightarrow> histogram option" where
  "mempool_histogram v =
     Option.bind (Option.bind (jget ''txCount'' v) grains) (\<lambda>count.
     Option.bind (Option.bind (jget ''maxBlockTxs'' v) grains) (\<lambda>max_block_txs.
     if max_block_txs = 0 then None
     else Option.bind (get_array ''buckets'' v) (\<lambda>raw_buckets.
     if length raw_buckets > MAX_HISTOGRAM_BUCKETS then None
     else Option.bind (collect_opt (List.map parse_bucket raw_buckets)) (\<lambda>buckets.
     if \<not> buckets_ordered buckets then None
     else Option.bind (checked_sum 0 buckets) (\<lambda>bucket_sum.
     if bucket_sum \<noteq> count then None
     else Some \<lparr>hist_tx_count = count, hist_max_block_txs = max_block_txs,
                hist_buckets = buckets\<rparr>)))))"

section \<open>Packing\<close>

record projected =
  proj_tx_count :: u64
  proj_fee_min :: u64
  proj_fee_max :: u64

text \<open>\<open>last_mut\<close>: the code never calls it on an empty vector (\<open>pack_bucket_chunks\<close>).\<close>

fun update_last :: "('a \<Rightarrow> 'a) \<Rightarrow> 'a list \<Rightarrow> 'a list" where
  "update_last f [] = []"
| "update_last f [x] = [f x]"
| "update_last f (x # y # xs) = x # update_last f (y # xs)"

definition widen :: "u64 \<Rightarrow> projected \<Rightarrow> projected" where
  "widen rate b = b\<lparr>proj_fee_min := min (proj_fee_min b) rate,
     proj_fee_max := max (proj_fee_max b) rate\<rparr>"

partial_function (option) pack_bucket ::
  "nat \<Rightarrow> u64 \<Rightarrow> u64 \<Rightarrow> u64 \<Rightarrow> projected list \<Rightarrow> u64 \<Rightarrow> (projected list \<times> u64) option"
where
  "pack_bucket cap max_txs rate remaining blocks room =
     (if remaining = 0 then Some (blocks, room)
      else if room = 0 \<and> length blocks > cap
      then Some (update_last (\<lambda>b. widen rate
             (b\<lparr>proj_tx_count := saturating_add (proj_tx_count b) remaining\<rparr>)) blocks, room)
      else
        let blocks' = (if room = 0
              then blocks @ [\<lparr>proj_tx_count = 0, proj_fee_min = rate, proj_fee_max = rate\<rparr>]
              else blocks);
            room' = (if room = 0 then max_txs else room);
            taken = min remaining room'
        in pack_bucket cap max_txs rate (remaining - taken)
             (update_last (\<lambda>b. widen rate (b\<lparr>proj_tx_count := proj_tx_count b + taken\<rparr>)) blocks')
             (room' - taken))"

fun pack_buckets ::
  "nat \<Rightarrow> u64 \<Rightarrow> bucket list \<Rightarrow> projected list \<Rightarrow> u64 \<Rightarrow> projected list option"
where
  "pack_buckets cap max_txs [] blocks room = Some blocks"
| "pack_buckets cap max_txs (b # bs) blocks room =
     Option.bind (pack_bucket cap max_txs (fee_rate_grains b) (bucket_tx_count b) blocks room)
       (\<lambda>(blocks', room'). pack_buckets cap max_txs bs blocks' room')"

definition packed_pending_blocks :: "histogram \<Rightarrow> nat \<Rightarrow> projected list option" where
  "packed_pending_blocks h cap =
     (if hist_max_block_txs h = 0 \<or> hist_tx_count h = 0 then Some []
      else map_option (\<lambda>blocks. if length blocks \<le> 1 then [] else drop 1 blocks)
             (pack_buckets cap (hist_max_block_txs h) (hist_buckets h) [] 0))"

definition projected_blocks :: "histogram \<Rightarrow> projected list option" where
  "projected_blocks h = packed_pending_blocks h MAX_PROJECTED_BLOCKS"

definition backlog_blocks :: "histogram \<Rightarrow> projected list option" where
  "backlog_blocks h = packed_pending_blocks h MAX_BACKLOG_BLOCKS"

definition backlog_depth :: "histogram \<Rightarrow> u64" where
  "backlog_depth h =
     (if hist_max_block_txs h = 0 then 0
      else div_ceil (saturating_sub (hist_tx_count h) (hist_max_block_txs h)) (hist_max_block_txs h))"

section \<open>Specification: chunks of the transaction list\<close>

text \<open>One fee rate per transaction, in admission order.\<close>

definition flatten :: "bucket list \<Rightarrow> u64 list" where
  "flatten bs = concat (List.map (\<lambda>b. replicate (unat (bucket_tx_count b)) (fee_rate_grains b)) bs)"

text \<open>At most \<open>k + 1\<close> chunks of \<open>m\<close> transactions; the last one takes the whole tail.\<close>

fun chunk_tail :: "nat \<Rightarrow> nat \<Rightarrow> 'a list \<Rightarrow> 'a list list" where
  "chunk_tail k m [] = []"
| "chunk_tail 0 m xs = [xs]"
| "chunk_tail (Suc k) m xs = take m xs # chunk_tail k m (drop m xs)"

fun chunk_room :: "nat \<Rightarrow> nat \<Rightarrow> 'a list \<Rightarrow> nat" where
  "chunk_room k m [] = 0"
| "chunk_room 0 m xs = m - length xs"
| "chunk_room (Suc k) m xs = (if length xs \<le> m then m - length xs else chunk_room k m (drop m xs))"

definition summary :: "u64 list \<Rightarrow> projected" where
  "summary c = \<lparr>proj_tx_count = of_nat (length c), proj_fee_min = Min (set c),
     proj_fee_max = Max (set c)\<rparr>"

lemma update_last_Cons: "xs \<noteq> [] \<Longrightarrow> update_last f (x # xs) = x # update_last f xs"
  by (cases xs) auto

lemma update_last_snoc [simp]: "update_last f (xs @ [x]) = xs @ [f x]"
  by (induction xs) (auto simp: update_last_Cons)

lemma map_update_last:
  "(\<And>x. x \<in> set xs \<Longrightarrow> f (g x) = h (f x)) \<Longrightarrow>
   List.map f (update_last g xs) = update_last h (List.map f xs)"
  by (induction g xs rule: update_last.induct) auto

lemma chunk_tail_nonempty: "xs \<noteq> [] \<Longrightarrow> chunk_tail k m xs \<noteq> []"
  by (cases k; cases xs) auto

lemma chunk_tail_Nil_iff [simp]: "chunk_tail k m xs = [] \<longleftrightarrow> xs = []"
  by (cases k; cases xs) auto

lemma chunk_tail_elems: "0 < m \<Longrightarrow> c \<in> set (chunk_tail k m xs) \<Longrightarrow> c \<noteq> [] \<and> length c \<le> length xs"
proof (induction k m xs rule: chunk_tail.induct)
  case (3 k m x xs)
  then show ?case by (cases m) fastforce+
qed auto

lemma chunk_append_room:
  assumes "0 < m" "L \<noteq> []" "length ys \<le> chunk_room k m L"
  shows "chunk_tail k m (L @ ys) = update_last (\<lambda>c. c @ ys) (chunk_tail k m L) \<and>
    chunk_room k m (L @ ys) = chunk_room k m L - length ys"
  using assms
proof (induction k arbitrary: L)
  case 0
  then show ?case by (cases L) auto
next
  case (Suc k)
  obtain x L' where L: "L = x # L'" using Suc.prems(2) by (cases L) auto
  have tail: "chunk_tail (Suc k) m (L @ zs) = take m (L @ zs) # chunk_tail k m (drop m (L @ zs))"
    and room: "chunk_room (Suc k) m (L @ zs) =
      (if length (L @ zs) \<le> m then m - length (L @ zs) else chunk_room k m (drop m (L @ zs)))" for zs
    by (simp_all add: L)
  show ?case
  proof (cases "length L \<le> m")
    case True
    then have "length (L @ ys) \<le> m" using Suc.prems(3) by (simp add: L)
    then show ?thesis using tail [of ys] tail [of "[]"] room [of ys] room [of "[]"] True by simp
  next
    case False
    then have d: "drop m L \<noteq> []" and ys: "length ys \<le> chunk_room k m (drop m L)"
      using Suc.prems(3) by (simp_all add: L)
    from Suc.IH [OF Suc.prems(1) d ys] show ?thesis
      using tail [of ys] tail [of "[]"] room [of ys] room [of "[]"] False d
      by (simp add: update_last_Cons)
  qed
qed

lemma chunk_append_new:
  assumes "0 < m" "chunk_room k m L = 0" "length (chunk_tail k m L) \<le> k" "ys \<noteq> []" "length ys \<le> m"
  shows "chunk_tail k m (L @ ys) = chunk_tail k m L @ [ys] \<and>
    chunk_room k m (L @ ys) = m - length ys"
  using assms
proof (induction k arbitrary: L)
  case 0
  then show ?case by (cases ys) auto
next
  case (Suc k)
  show ?case
  proof (cases L)
    case Nil
    with Suc.prems show ?thesis by (cases ys) auto
  next
    case (Cons x L')
    have tail: "chunk_tail (Suc k) m (L @ zs) = take m (L @ zs) # chunk_tail k m (drop m (L @ zs))"
      and room: "chunk_room (Suc k) m (L @ zs) =
        (if length (L @ zs) \<le> m then m - length (L @ zs) else chunk_room k m (drop m (L @ zs)))" for zs
      by (simp_all add: Cons)
    have full: "m \<le> length L" using Suc.prems(2) room [of "[]"] by (simp split: if_splits)
    have "chunk_room k m (drop m L) = 0"
      using Suc.prems(2) room [of "[]"] full by (cases "length L = m") auto
    moreover have "length (chunk_tail k m (drop m L)) \<le> k"
      using Suc.prems(3) tail [of "[]"] by simp
    ultimately have ih: "chunk_tail k m (drop m L @ ys) = chunk_tail k m (drop m L) @ [ys] \<and>
        chunk_room k m (drop m L @ ys) = m - length ys"
      using Suc.IH Suc.prems(1,4,5) by blast
    have "\<not> length (L @ ys) \<le> m" using Suc.prems(4) full by (cases ys) auto
    then show ?thesis using ih tail [of ys] tail [of "[]"] room [of ys] full by simp
  qed
qed

lemma chunk_append_full:
  assumes "0 < m" "chunk_room k m L = 0" "k < length (chunk_tail k m L)"
  shows "chunk_tail k m (L @ ys) = update_last (\<lambda>c. c @ ys) (chunk_tail k m L) \<and>
    chunk_room k m (L @ ys) = 0"
  using assms
proof (induction k arbitrary: L)
  case 0
  then show ?case by (cases L) auto
next
  case (Suc k)
  obtain x L' where L: "L = x # L'" using Suc.prems(3) by (cases L) auto
  have tail: "chunk_tail (Suc k) m (L @ zs) = take m (L @ zs) # chunk_tail k m (drop m (L @ zs))"
    and room: "chunk_room (Suc k) m (L @ zs) =
      (if length (L @ zs) \<le> m then m - length (L @ zs) else chunk_room k m (drop m (L @ zs)))" for zs
    by (simp_all add: L)
  have len: "k < length (chunk_tail k m (drop m L))" using Suc.prems(3) tail [of "[]"] by simp
  then have ne: "drop m L \<noteq> []" by (cases "drop m L") auto
  then have big: "m < length L" by simp
  then have "chunk_room k m (drop m L) = 0" using Suc.prems(2) room [of "[]"] by simp
  from Suc.IH [OF Suc.prems(1) this len] show ?case
    using tail [of ys] tail [of "[]"] room [of ys] big ne
    by (simp add: update_last_Cons)
qed

section \<open>The packing loop computes the chunks\<close>

lemma chunk_room_le: "chunk_room k m xs \<le> m"
  by (induction k m xs rule: chunk_room.induct) auto

lemma summary_append:
  assumes "c \<noteq> []" "0 < n" "length c + n < 2 ^ 64"
  shows "widen rate ((summary c)\<lparr>proj_tx_count := proj_tx_count (summary c) + of_nat n\<rparr>) =
      summary (c @ replicate n rate)"
    "widen rate ((summary c)\<lparr>proj_tx_count := saturating_add (proj_tx_count (summary c)) (of_nat n)\<rparr>) =
      summary (c @ replicate n rate)"
proof -
  have S: "set (c @ replicate n rate) = insert rate (set c)" using assms(2) by auto
  have "Min (set (c @ replicate n rate)) = min (Min (set c)) rate"
    "Max (set (c @ replicate n rate)) = max (Max (set c)) rate"
    unfolding S using assms(1) by (simp_all add: min.commute max.commute)
  moreover have "saturating_add (of_nat (length c)) (of_nat n :: u64) = of_nat (length c) + of_nat n"
    using assms(3) by (simp add: saturating_add_def unat_of_nat)
  ultimately show "widen rate ((summary c)\<lparr>proj_tx_count := proj_tx_count (summary c) + of_nat n\<rparr>) =
      summary (c @ replicate n rate)"
    "widen rate ((summary c)\<lparr>proj_tx_count := saturating_add (proj_tx_count (summary c)) (of_nat n)\<rparr>) =
      summary (c @ replicate n rate)"
    by (simp_all add: widen_def summary_def)
qed

lemma summary_new:
  assumes "0 < n"
  shows "widen rate \<lparr>proj_tx_count = 0 + of_nat n, proj_fee_min = rate, proj_fee_max = rate\<rparr> =
    summary (replicate n rate)"
proof -
  have "set (replicate n rate) = {rate}" using assms by auto
  then show ?thesis by (simp add: widen_def summary_def)
qed

lemma update_last_summary:
  assumes "0 < m" "0 < n" "length L + n < 2 ^ 64"
  shows "update_last (\<lambda>b. widen rate (b\<lparr>proj_tx_count := proj_tx_count b + of_nat n\<rparr>))
      (List.map summary (chunk_tail k m L)) =
    List.map summary (update_last (\<lambda>c. c @ replicate n rate) (chunk_tail k m L))"
    "update_last (\<lambda>b. widen rate (b\<lparr>proj_tx_count := saturating_add (proj_tx_count b) (of_nat n)\<rparr>))
      (List.map summary (chunk_tail k m L)) =
    List.map summary (update_last (\<lambda>c. c @ replicate n rate) (chunk_tail k m L))"
proof -
  have c: "c \<noteq> [] \<and> length c + n < 2 ^ 64" if "c \<in> set (chunk_tail k m L)" for c
    using chunk_tail_elems [OF assms(1) that] assms(3) by linarith
  show "update_last (\<lambda>b. widen rate (b\<lparr>proj_tx_count := proj_tx_count b + of_nat n\<rparr>))
      (List.map summary (chunk_tail k m L)) =
    List.map summary (update_last (\<lambda>c. c @ replicate n rate) (chunk_tail k m L))"
    by (rule map_update_last [symmetric]) (use c assms(2) summary_append(1) in metis)
  show "update_last (\<lambda>b. widen rate (b\<lparr>proj_tx_count := saturating_add (proj_tx_count b) (of_nat n)\<rparr>))
      (List.map summary (chunk_tail k m L)) =
    List.map summary (update_last (\<lambda>c. c @ replicate n rate) (chunk_tail k m L))"
    by (rule map_update_last [symmetric]) (use c assms(2) summary_append(2) in metis)
qed

lemma pack_bucket_step:
  fixes max_txs remaining rate :: u64
  assumes "0 < unat max_txs" "0 < unat remaining"
    and fit: "length L + unat remaining < 2 ^ 64" and room: "unat room = chunk_room cap (unat max_txs) L"
    and nofull: "room \<noteq> 0 \<or> length (chunk_tail cap (unat max_txs) L) \<le> cap"
  shows "\<exists>taken room'. 0 < unat taken \<and> unat taken \<le> unat remaining \<and>
    unat room' = chunk_room cap (unat max_txs) (L @ replicate (unat taken) rate) \<and>
    pack_bucket cap max_txs rate remaining (List.map summary (chunk_tail cap (unat max_txs) L)) room =
    pack_bucket cap max_txs rate (remaining - taken)
      (List.map summary (chunk_tail cap (unat max_txs) (L @ replicate (unat taken) rate))) room'"
proof -
  let ?m = "unat max_txs" and ?bs = "List.map summary (chunk_tail cap (unat max_txs) L)"
  have rem: "remaining \<noteq> 0" using assms(2) by auto
  show ?thesis
  proof (cases "room = 0")
    case True
    define taken where "taken = min remaining max_txs"
    have t: "unat taken = min (unat remaining) ?m"
      by (auto simp: taken_def min_def word_le_nat_alt)
    let ?ys = "replicate (unat taken) rate"
    have ys: "?ys \<noteq> []" "length ?ys \<le> ?m" using t assms(1,2) by auto
    have new: "chunk_tail cap ?m (L @ ?ys) = chunk_tail cap ?m L @ [?ys] \<and>
        chunk_room cap ?m (L @ ?ys) = ?m - length ?ys"
      using chunk_append_new [OF assms(1) _ _ ys] room nofull True by simp
    have "unat (max_txs - taken) = ?m - unat taken"
      using t by (simp add: unat_sub word_le_nat_alt)
    moreover have "widen rate \<lparr>proj_tx_count = 0 + taken, proj_fee_min = rate, proj_fee_max = rate\<rparr> =
        summary ?ys"
    proof -
      have "0 < unat taken" using t assms(1,2) by simp
      from summary_new [OF this, of rate] show ?thesis by simp
    qed
    moreover have "pack_bucket cap max_txs rate remaining ?bs room =
        pack_bucket cap max_txs rate (remaining - taken)
          (update_last (\<lambda>b. widen rate (b\<lparr>proj_tx_count := proj_tx_count b + taken\<rparr>))
            (?bs @ [\<lparr>proj_tx_count = 0, proj_fee_min = rate, proj_fee_max = rate\<rparr>]))
          (max_txs - taken)"
      using True rem nofull by (subst pack_bucket.simps) (simp add: taken_def Let_def)
    ultimately have "pack_bucket cap max_txs rate remaining ?bs room =
        pack_bucket cap max_txs rate (remaining - taken)
          (List.map summary (chunk_tail cap ?m (L @ ?ys))) (max_txs - taken)"
      and "unat (max_txs - taken) = chunk_room cap ?m (L @ ?ys)"
      using new by simp_all
    then show ?thesis using t assms(1,2) by (intro exI [of _ taken] exI [of _ "max_txs - taken"]) simp
  next
    case False
    define taken where "taken = min remaining room"
    have t: "unat taken = min (unat remaining) (unat room)"
      by (auto simp: taken_def min_def word_le_nat_alt)
    have pos: "0 < unat room" using False by (simp add: unat_gt_0)
    have L: "L \<noteq> []" using pos room by auto
    let ?ys = "replicate (unat taken) rate"
    have app: "chunk_tail cap ?m (L @ ?ys) = update_last (\<lambda>c. c @ ?ys) (chunk_tail cap ?m L) \<and>
        chunk_room cap ?m (L @ ?ys) = chunk_room cap ?m L - length ?ys"
      using chunk_append_room [OF assms(1) L, of ?ys] t room by simp
    have "unat (room - taken) = unat room - unat taken"
      using t by (simp add: unat_sub word_le_nat_alt)
    moreover have "update_last (\<lambda>b. widen rate (b\<lparr>proj_tx_count := proj_tx_count b + taken\<rparr>)) ?bs =
        List.map summary (update_last (\<lambda>c. c @ ?ys) (chunk_tail cap ?m L))"
    proof -
      have "0 < unat taken" "length L + unat taken < 2 ^ 64" using t fit pos assms(2) by auto
      from update_last_summary(1) [OF assms(1) this, of rate cap] show ?thesis by simp
    qed
    moreover have "pack_bucket cap max_txs rate remaining ?bs room =
        pack_bucket cap max_txs rate (remaining - taken)
          (update_last (\<lambda>b. widen rate (b\<lparr>proj_tx_count := proj_tx_count b + taken\<rparr>)) ?bs)
          (room - taken)"
      using False rem by (subst pack_bucket.simps) (simp add: taken_def Let_def)
    ultimately have "pack_bucket cap max_txs rate remaining ?bs room =
        pack_bucket cap max_txs rate (remaining - taken)
          (List.map summary (chunk_tail cap ?m (L @ ?ys))) (room - taken)"
      and "unat (room - taken) = chunk_room cap ?m (L @ ?ys)"
      using app room by simp_all
    then show ?thesis using t pos assms(2) by (intro exI [of _ taken] exI [of _ "room - taken"]) simp
  qed
qed

lemma pack_bucket_chunks:
  fixes max_txs remaining rate :: u64
  assumes "0 < unat max_txs"
  shows "length L + unat remaining < 2 ^ 64 \<Longrightarrow> unat room = chunk_room cap (unat max_txs) L \<Longrightarrow>
    \<exists>room'. unat room' = chunk_room cap (unat max_txs) (L @ replicate (unat remaining) rate) \<and>
    pack_bucket cap max_txs rate remaining (List.map summary (chunk_tail cap (unat max_txs) L)) room =
    Some (List.map summary (chunk_tail cap (unat max_txs) (L @ replicate (unat remaining) rate)), room')"
proof (induction "unat remaining" arbitrary: remaining L room rule: less_induct)
  case less
  let ?m = "unat max_txs"
  show ?case
  proof (cases "remaining = 0")
    case True
    with less.prems show ?thesis by (subst pack_bucket.simps) auto
  next
    case False
    then have pos: "0 < unat remaining" by (simp add: unat_gt_0)
    show ?thesis
    proof (cases "room = 0 \<and> cap < length (chunk_tail cap ?m L)")
      case True
      with less.prems(2) have "chunk_room cap ?m L = 0" by simp
      from chunk_append_full [OF assms this, of "replicate (unat remaining) rate"] True
      show ?thesis
        using False pos less.prems update_last_summary(2) [OF assms pos less.prems(1), of rate cap]
        by (subst pack_bucket.simps) (auto intro: exI [of _ 0])
    next
      case nofull: False
      then obtain taken room' where t: "0 < unat taken" "unat taken \<le> unat remaining"
        "unat room' = chunk_room cap ?m (L @ replicate (unat taken) rate)"
        "pack_bucket cap max_txs rate remaining (List.map summary (chunk_tail cap ?m L)) room =
         pack_bucket cap max_txs rate (remaining - taken)
           (List.map summary (chunk_tail cap ?m (L @ replicate (unat taken) rate))) room'"
        using pack_bucket_step [OF assms pos less.prems] by (metis not_le)
      have d: "unat (remaining - taken) = unat remaining - unat taken"
        using t(2) by (simp add: unat_sub word_le_nat_alt)
      have cat: "(L @ replicate (unat taken) rate) @ replicate (unat (remaining - taken)) rate =
          L @ replicate (unat remaining) rate"
        using t(2) by (simp add: d flip: replicate_add)
      have "unat (remaining - taken) < unat remaining" using d t(1,2) by linarith
      from less.hyps [OF this _ t(3)] less.prems(1) d t(2)
      show ?thesis unfolding t(4) cat by simp
    qed
  qed
qed

lemma length_flatten: "length (flatten bs) = (\<Sum>b\<leftarrow>bs. unat (bucket_tx_count b))"
  by (simp add: flatten_def length_concat comp_def)

lemma flatten_Cons: "flatten (b # bs) =
  replicate (unat (bucket_tx_count b)) (fee_rate_grains b) @ flatten bs"
  by (simp add: flatten_def)

lemma pack_buckets_chunks:
  assumes "0 < unat max_txs"
  shows "length L + length (flatten bs) < 2 ^ 64 \<Longrightarrow> unat room = chunk_room cap (unat max_txs) L \<Longrightarrow>
    pack_buckets cap max_txs bs (List.map summary (chunk_tail cap (unat max_txs) L)) room =
    Some (List.map summary (chunk_tail cap (unat max_txs) (L @ flatten bs)))"
proof (induction bs arbitrary: L room)
  case Nil
  then show ?case by (simp add: flatten_def)
next
  case (Cons b bs)
  let ?ys = "replicate (unat (bucket_tx_count b)) (fee_rate_grains b)"
  have len: "length L + unat (bucket_tx_count b) < 2 ^ 64"
    using Cons.prems(1) by (simp add: flatten_Cons)
  from pack_bucket_chunks [OF assms len Cons.prems(2), of "fee_rate_grains b"]
  obtain room' where r: "unat room' = chunk_room cap (unat max_txs) (L @ ?ys)"
    "pack_bucket cap max_txs (fee_rate_grains b) (bucket_tx_count b)
       (List.map summary (chunk_tail cap (unat max_txs) L)) room =
     Some (List.map summary (chunk_tail cap (unat max_txs) (L @ ?ys)), room')" by blast
  from Cons.IH [OF _ r(1)] Cons.prems(1) r(2) show ?case by (simp add: flatten_Cons)
qed

section \<open>Validated histograms\<close>

definition histogram_ok :: "histogram \<Rightarrow> bool" where
  "histogram_ok h \<longleftrightarrow> hist_max_block_txs h \<noteq> 0 \<and> buckets_ordered (hist_buckets h) \<and>
     length (hist_buckets h) \<le> MAX_HISTOGRAM_BUCKETS \<and>
     length (flatten (hist_buckets h)) = unat (hist_tx_count h)"

lemma checked_sum_Some:
  "checked_sum acc bs = Some s \<Longrightarrow> unat s = unat acc + length (flatten bs)"
  by (induction bs arbitrary: acc)
     (auto simp: flatten_def checked_add_Some_iff split: option.splits)

lemma mempool_histogram_ok: "mempool_histogram v = Some h \<Longrightarrow> histogram_ok h"
  by (auto simp: mempool_histogram_def histogram_ok_def Option.bind_eq_Some_conv
      collect_opt_Some_iff dest: checked_sum_Some split: if_splits dest!: arg_cong [where f = length])

lemma packed_pending_blocks_chunks:
  assumes "histogram_ok h"
  shows "packed_pending_blocks h cap =
    Some (List.map summary (drop 1 (chunk_tail cap (unat (hist_max_block_txs h)) (flatten (hist_buckets h)))))"
proof -
  let ?m = "unat (hist_max_block_txs h)" and ?L = "flatten (hist_buckets h)"
  have m: "0 < ?m" using assms by (simp add: histogram_ok_def unat_gt_0)
  have L: "length ?L = unat (hist_tx_count h)" using assms by (simp add: histogram_ok_def)
  show ?thesis
  proof (cases "hist_tx_count h = 0")
    case True
    with L show ?thesis by (simp add: packed_pending_blocks_def)
  next
    case False
    have "length ?L < 2 ^ 64" using L unsigned_less [of "hist_tx_count h", where ?'a = nat] by simp
    then have "pack_buckets cap (hist_max_block_txs h) (hist_buckets h) [] 0 =
        Some (List.map summary (chunk_tail cap ?m ?L))"
      using pack_buckets_chunks [OF m, of "[]" "hist_buckets h" 0 cap] by simp
    then show ?thesis
      using False assms by (simp add: packed_pending_blocks_def histogram_ok_def drop_map)
  qed
qed

section \<open>What the chunks say\<close>

lemma concat_chunk_tail: "concat (chunk_tail k m xs) = xs"
  by (induction k m xs rule: chunk_tail.induct) auto

lemma length_chunk_tail:
  "0 < m \<Longrightarrow> length (chunk_tail k m xs) = min (Suc k) ((length xs + m - 1) div m)"
proof (induction k m xs rule: chunk_tail.induct)
  case (1 k m)
  then show ?case by simp
next
  case (2 m x xs)
  have "1 \<le> (length (x # xs) + m - 1) div m" using 2 by (simp add: Suc_leI div_greater_zero_iff)
  then show ?case by simp
next
  case (3 k m x xs)
  let ?n = "length (x # xs)"
  have "(?n + m - 1) div m = Suc ((?n - m + m - 1) div m)"
  proof (cases "m \<le> ?n")
    case True
    then have "?n + m - 1 = (?n - m + m - 1) + m" using 3 by simp
    then show ?thesis using 3 by (metis div_add_self2 add.commute Suc_eq_plus1 less_not_refl)
  next
    case False
    then have "?n + m - 1 = (?n - 1) + m" using 3 by simp
    moreover have "(?n - 1) div m = 0" using False by simp
    ultimately have "(?n + m - 1) div m = 1" using 3 by (metis div_add_self2 add_0 less_not_refl)
    moreover have "(?n - m + m - 1) div m = 0" using False 3 by simp
    ultimately show ?thesis by simp
  qed
  then show ?case using 3 by simp
qed

lemma butlast_chunk_tail:
  "0 < m \<Longrightarrow> c \<in> set (butlast (chunk_tail k m xs)) \<Longrightarrow> length c = m"
proof (induction k m xs rule: chunk_tail.induct)
  case (3 k m x xs)
  show ?case
  proof (cases "drop m (x # xs) = []")
    case True
    with 3 show ?thesis by simp
  next
    case False
    with 3 show ?thesis by (auto split: if_splits)
  qed
qed auto

lemma hd_chunk_tail:
  "0 < m \<Longrightarrow> 1 < length (chunk_tail k m xs) \<Longrightarrow> length (hd (chunk_tail k m xs)) = m"
proof -
  assume m: "0 < m" and len: "1 < length (chunk_tail k m xs)"
  obtain a b cs where abc: "chunk_tail k m xs = a # b # cs"
    using len by (cases "chunk_tail k m xs" rule: remdups_adj.cases) auto
  then have "a \<in> set (butlast (chunk_tail k m xs))" by simp
  from butlast_chunk_tail [OF m this] show ?thesis by (simp add: abc)
qed

lemma summary_counts:
  "length xs < 2 ^ 64 \<Longrightarrow> (\<And>c. c \<in> set cs \<Longrightarrow> length c \<le> length xs) \<Longrightarrow>
   (\<Sum>p\<leftarrow>List.map summary cs. unat (proj_tx_count p)) = length (concat cs)"
proof (induction cs)
  case Nil
  then show ?case by simp
next
  case (Cons c cs)
  then have "length c < 2 ^ 64" by (meson le_less_trans list.set_intros(1))
  then show ?case using Cons by (simp add: summary_def unat_of_nat)
qed

lemma unat_backlog_depth:
  "histogram_ok h \<Longrightarrow> unat (backlog_depth h) =
    (unat (hist_tx_count h) - unat (hist_max_block_txs h) + unat (hist_max_block_txs h) - 1) div
    unat (hist_max_block_txs h)"
  by (simp add: histogram_ok_def backlog_depth_def unat_div_ceil unat_gt_0 unat_saturating_sub)

lemma chunk_tail_bounded:
  "0 < m \<Longrightarrow> length xs \<le> Suc k * m \<Longrightarrow> c \<in> set (chunk_tail k m xs) \<Longrightarrow> length c \<le> m"
  by (induction k m xs rule: chunk_tail.induct) auto

lemma sorted_concat_chunks:
  fixes cs :: "'a::linorder list list"
  assumes "sorted_wrt (\<ge>) (concat cs)" "\<forall>c \<in> set cs. c \<noteq> []"
  shows "sorted_wrt (\<lambda>c d. Max (set d) \<le> Min (set c)) cs"
  using assms
proof (induction cs)
  case Nil
  then show ?case by simp
next
  case (Cons c cs)
  have "Max (set d) \<le> Min (set c)" if d: "d \<in> set cs" for d
  proof -
    have "\<forall>x \<in> set c. \<forall>y \<in> set d. y \<le> x" using Cons.prems(1) d by (auto simp: sorted_wrt_append)
    moreover have "c \<noteq> []" "d \<noteq> []" using Cons.prems(2) d by auto
    ultimately show ?thesis by (simp add: Max_le_iff)
  qed
  then show ?case using Cons by (auto simp: sorted_wrt_append)
qed

lemma buckets_ordered_sorted:
  "buckets_ordered bs \<Longrightarrow> sorted_wrt (\<ge>) (List.map fee_rate_grains bs)"
proof (induction bs rule: buckets_ordered.induct)
  case (1 a b bs)
  then have ab: "fee_rate_grains b \<le> fee_rate_grains a"
    and s: "sorted_wrt (\<ge>) (List.map fee_rate_grains (b # bs))" by auto
  then show ?case by fastforce
qed auto

lemma flatten_sorted:
  "sorted_wrt (\<ge>) (List.map fee_rate_grains bs) \<Longrightarrow> sorted_wrt (\<ge>) (flatten bs)"
proof (induction bs)
  case Nil
  then show ?case by (simp add: flatten_def)
next
  case (Cons b bs)
  have "sorted_wrt (\<ge>) (replicate n (r :: u64))" for n r
    by (induction n) auto
  moreover have "\<forall>x \<in> set (flatten bs). x \<le> fee_rate_grains b"
    using Cons.prems by (auto simp: flatten_def)
  ultimately show ?case using Cons by (auto simp: flatten_Cons sorted_wrt_append)
qed

lemma ceil_div_pred:
  fixes n m :: nat
  assumes m: "0 < m"
  shows "(n + m - 1) div m - 1 = (n - m + m - 1) div m"
proof (cases "m \<le> n")
  case True
  then have "n + m - 1 = (n - 1) + m" using m by simp
  then have "(n + m - 1) div m = Suc ((n - 1) div m)" using m by (simp only: div_add_self2)
  then show ?thesis using True by simp
next
  case False
  then have "n + m - 1 < 2 * m" by simp
  then have "(n + m - 1) div m < 2" by (rule less_mult_imp_div_less)
  then show ?thesis using False m by simp
qed

lemma ceil_div_le_one:
  fixes n m :: nat
  assumes m: "0 < m" and le: "(n + m - 1) div m \<le> 1"
  shows "n \<le> m"
proof (rule ccontr)
  assume "\<not> n \<le> m"
  then have "2 * m \<le> n + m - 1" by simp
  then have "2 \<le> (n + m - 1) div m" using less_eq_div_iff_mult_less_eq [OF m] by simp
  with le show False by simp
qed

lemma pending_block_counts:
  assumes h: "histogram_ok h" and cap: "0 < cap"
  defines "ps \<equiv> List.map summary
    (drop 1 (chunk_tail cap (unat (hist_max_block_txs h)) (flatten (hist_buckets h))))"
  shows "length ps = min cap (unat (backlog_depth h))"
    "(\<Sum>p\<leftarrow>ps. unat (proj_tx_count p)) = unat (hist_tx_count h) - unat (hist_max_block_txs h)"
    "\<forall>p \<in> set (butlast ps). proj_tx_count p = hist_max_block_txs h"
    "unat (backlog_depth h) \<le> cap \<longrightarrow> (\<forall>p \<in> set ps. proj_tx_count p \<le> hist_max_block_txs h)"
proof -
  let ?m = "unat (hist_max_block_txs h)" and ?L = "flatten (hist_buckets h)"
  let ?n = "unat (hist_tx_count h)"
  let ?cs = "chunk_tail cap ?m ?L"
  have m: "0 < ?m" using h by (simp add: histogram_ok_def unat_gt_0)
  have L: "length ?L = ?n" using h by (simp add: histogram_ok_def)
  have L64: "length ?L < 2 ^ 64" using L unsigned_less [of "hist_tx_count h", where ?'a = nat] by simp
  have len: "length ?cs = min (Suc cap) ((?n + ?m - 1) div ?m)" using length_chunk_tail [OF m, of cap ?L] L by simp
  have depth: "unat (backlog_depth h) = (?n - ?m + ?m - 1) div ?m" by (rule unat_backlog_depth [OF h])
  have ceil: "(?n + ?m - 1) div ?m - 1 = unat (backlog_depth h)"
    unfolding depth by (rule ceil_div_pred [OF m])
  show "length ps = min cap (unat (backlog_depth h))"
    using len ceil by (simp add: ps_def)
  have len_c: "length c \<le> length ?L" if "c \<in> set ?cs" for c
    using chunk_tail_elems [OF m that] by simp
  have "(\<Sum>p\<leftarrow>ps. unat (proj_tx_count p)) = length (concat (drop 1 ?cs))"
    unfolding ps_def by (rule summary_counts [OF L64]) (use len_c in_set_dropD in fastforce)
  also have "\<dots> = ?n - ?m"
  proof (cases "1 < length ?cs")
    case True
    then obtain c cs where cs: "?cs = c # cs" by (cases ?cs) auto
    have "length c = ?m" using hd_chunk_tail [OF m True] cs by simp
    moreover have "length (concat ?cs) = ?n" by (simp add: concat_chunk_tail L)
    ultimately show ?thesis by (simp add: cs)
  next
    case False
    then have "(?n + ?m - 1) div ?m \<le> 1" using len cap by auto
    then have "?n \<le> ?m" by (rule ceil_div_le_one [OF m])
    then show ?thesis using False by simp
  qed
  finally show "(\<Sum>p\<leftarrow>ps. unat (proj_tx_count p)) = ?n - ?m" .
  have sum: "unat (proj_tx_count (summary c)) = length c" if "c \<in> set ?cs" for c
    using len_c [OF that] L64 by (simp add: summary_def unat_of_nat)
  show "\<forall>p \<in> set (butlast ps). proj_tx_count p = hist_max_block_txs h"
  proof
    fix p assume "p \<in> set (butlast ps)"
    then obtain c where c: "c \<in> set (butlast (drop 1 ?cs))" "p = summary c"
      by (auto simp: ps_def simp flip: map_butlast)
    then have "c \<in> set (butlast ?cs)" by (metis butlast_drop in_set_dropD)
    then have "length c = ?m" "c \<in> set ?cs"
      by (auto intro: butlast_chunk_tail [OF m] dest: in_set_butlastD)
    then show "proj_tx_count p = hist_max_block_txs h"
      using sum c(2) by (metis word_unat_eq_iff)
  qed
  show "unat (backlog_depth h) \<le> cap \<longrightarrow> (\<forall>p \<in> set ps. proj_tx_count p \<le> hist_max_block_txs h)"
  proof (intro impI ballI)
    fix p assume d: "unat (backlog_depth h) \<le> cap" and "p \<in> set ps"
    then obtain c where c: "c \<in> set ?cs" "p = summary c"
      unfolding ps_def by (metis (no_types, lifting) in_set_dropD list.set_map imageE)
    have "(?n + ?m - 1) div ?m \<le> Suc cap" using ceil d by simp
    then have "?n + ?m - 1 < (Suc cap + 1) * ?m"
      using m by (metis Suc_eq_plus1 div_less_iff_less_mult le_imp_less_Suc)
    then have "?n \<le> Suc cap * ?m" by simp
    then have "length c \<le> ?m" using chunk_tail_bounded [OF m _ c(1)] L by simp
    then show "proj_tx_count p \<le> hist_max_block_txs h"
      using sum [OF c(1)] c(2) by (simp add: word_le_nat_alt)
  qed
qed

lemma butlast_nth_mem: "Suc i < length xs \<Longrightarrow> xs ! i \<in> set (butlast xs)"
  by (metis in_set_conv_nth length_butlast less_diff_conv nth_butlast Suc_eq_plus1)

lemma pending_fee_order:
  fixes cap :: nat
  assumes h: "histogram_ok h"
  defines "ps \<equiv> List.map summary
    (drop 1 (chunk_tail cap (unat (hist_max_block_txs h)) (flatten (hist_buckets h))))"
  shows "sorted_wrt (\<lambda>a b. proj_fee_max b \<le> proj_fee_min a) ps"
proof -
  let ?cs = "chunk_tail cap (unat (hist_max_block_txs h)) (flatten (hist_buckets h))"
  have m: "0 < unat (hist_max_block_txs h)" using h by (simp add: histogram_ok_def unat_gt_0)
  have "sorted_wrt (\<ge>) (concat ?cs)"
    using h by (simp add: concat_chunk_tail histogram_ok_def flatten_sorted buckets_ordered_sorted)
  then have "sorted_wrt (\<lambda>c d. Max (set d) \<le> Min (set c)) ?cs"
    using chunk_tail_elems [OF m] by (intro sorted_concat_chunks) auto
  then have "sorted_wrt (\<lambda>c d. Max (set d) \<le> Min (set c)) (drop 1 ?cs)"
    by (cases ?cs) auto
  then show ?thesis by (simp add: ps_def sorted_wrt_map summary_def)
qed

section \<open>Properties\<close>

text \<open>
  C18: Packing refines chunking. For every histogram the parser accepts, both packers return,
  and what they return is the list of summaries of the chunks of the flattened transaction
  list (capacity transactions each, whole remaining tail in the last one), without the first
  chunk, which is the block the pool will seal next.
\<close>
theorem packing_refines_chunking:
  assumes "mempool_histogram v = Some h"
  shows "projected_blocks h = Some (List.map summary (drop 1
      (chunk_tail 6 (unat (hist_max_block_txs h)) (flatten (hist_buckets h))))) \<and>
    backlog_blocks h = Some (List.map summary (drop 1
      (chunk_tail 24 (unat (hist_max_block_txs h)) (flatten (hist_buckets h)))))"
  using packed_pending_blocks_chunks [OF mempool_histogram_ok [OF assms]]
  by (simp add: projected_blocks_def backlog_blocks_def MAX_PROJECTED_BLOCKS_def MAX_BACKLOG_BLOCKS_def)

text \<open>
  Nothing is lost or invented. The pending blocks drawn for an accepted histogram are as many
  as the backlog depth allows under the cap, hold exactly the transactions that do not fit in
  the next block, are full except the last one, and never exceed the node's capacity unless
  the last one is the aggregated tail beyond the cap.
\<close>
theorem pending_blocks_account_for_pool:
  assumes "mempool_histogram v = Some h" "0 < cap"
  shows "\<exists>ps. packed_pending_blocks h cap = Some ps \<and>
    length ps = min cap (unat (backlog_depth h)) \<and>
    (\<Sum>p\<leftarrow>ps. unat (proj_tx_count p)) = unat (hist_tx_count h) - unat (hist_max_block_txs h) \<and>
    list_all (\<lambda>p. proj_tx_count p = hist_max_block_txs h) (butlast ps) \<and>
    (cap < unat (backlog_depth h) \<or> list_all (\<lambda>p. proj_tx_count p \<le> hist_max_block_txs h) ps)"
  using packed_pending_blocks_chunks [OF mempool_histogram_ok [OF assms(1)], of cap]
    pending_block_counts [OF mempool_histogram_ok [OF assms(1)] assms(2)]
  by (auto simp: list_all_iff not_less)

text \<open>
  Fee order. In the pending blocks drawn for an accepted histogram, no transaction of a later
  block offers more than any transaction of an earlier one: the greatest rate of the later
  block is at most the least rate of the earlier block.
\<close>
theorem pending_blocks_fee_ordered:
  assumes "mempool_histogram v = Some h"
  shows "\<exists>ps. packed_pending_blocks h cap = Some ps \<and>
    sorted_wrt (\<lambda>earlier later. proj_fee_max later \<le> proj_fee_min earlier) ps"
  using packed_pending_blocks_chunks [OF mempool_histogram_ok [OF assms]]
    pending_fee_order [OF mempool_histogram_ok [OF assms]] by blast

section \<open>A concrete pool\<close>

definition sample_pool :: json where
  "sample_pool = JObject
     [(''txCount'', JNumber (PosInt 10)), (''maxBlockTxs'', JNumber (PosInt 4)),
      (''buckets'', JArray
        [JObject [(''feeRateGrains'', JString ''9''), (''txCount'', JNumber (PosInt 5))],
         JObject [(''feeRateGrains'', JNumber (PosInt 3)), (''txCount'', JNumber (PosInt 5))]])]"

definition sample_histogram :: histogram where
  "sample_histogram = \<lparr>hist_tx_count = 10, hist_max_block_txs = 4,
     hist_buckets = [\<lparr>fee_rate_grains = 9, bucket_tx_count = 5\<rparr>,
                     \<lparr>fee_rate_grains = 3, bucket_tx_count = 5\<rparr>]\<rparr>"

lemma parse_sample_rate: "parse_u64 (trim ''9'') = Some 9"
proof -
  have "trim ''9'' = ''9''" "\<not> starts_with ''9'' ''+''" by code_simp+
  then show ?thesis
    by (simp add: parse_u64_def parse_unsigned_def strip_prefix_def digits_val_def
        is_ascii_digit_def)
qed

lemma sample_flat: "flatten (hist_buckets sample_histogram) = [9, 9, 9, 9, 9, 3, 3, 3, 3, 3]"
proof -
  have "replicate 5 x = [x, x, x, x, x]" for x :: u64 by (simp add: numeral_eq_Suc)
  then show ?thesis by (simp add: sample_histogram_def flatten_def)
qed

lemma sample_chunks:
  "chunk_tail 6 4 [9, 9, 9, 9, 9, 3, 3, 3, 3, 3 :: u64] = [[9, 9, 9, 9], [9, 3, 3, 3], [3, 3]]"
  by (simp add: eval_nat_numeral)

lemma sample_pool_accepted: "mempool_histogram sample_pool = Some sample_histogram"
  by (simp add: sample_pool_def sample_histogram_def mempool_histogram_def grains_def
      get_array_def parse_bucket_def checked_add_def MAX_HISTOGRAM_BUCKETS_def parse_sample_rate)

lemma packing_refines_chunking_witness:
  "projected_blocks sample_histogram = Some
     [\<lparr>proj_tx_count = 4, proj_fee_min = 3, proj_fee_max = 9\<rparr>,
      \<lparr>proj_tx_count = 2, proj_fee_min = 3, proj_fee_max = 3\<rparr>]"
  using packing_refines_chunking [OF sample_pool_accepted]
  unfolding sample_flat by (simp add: sample_histogram_def sample_chunks summary_def)

lemma pending_blocks_account_for_pool_witness:
  "\<exists>ps. packed_pending_blocks sample_histogram 1 = Some ps \<and> length ps = 1 \<and>
     (\<Sum>p\<leftarrow>ps. unat (proj_tx_count p)) = 6"
  using pending_blocks_account_for_pool [OF sample_pool_accepted, of 1]
  by (auto simp: sample_histogram_def backlog_depth_def saturating_sub_def div_ceil_def)

lemma pending_blocks_fee_ordered_witness:
  "\<exists>ps. packed_pending_blocks sample_histogram 2 = Some ps \<and>
     sorted_wrt (\<lambda>earlier later. proj_fee_max later \<le> proj_fee_min earlier) ps"
  by (rule pending_blocks_fee_ordered [OF sample_pool_accepted])

end
