(* ===== verification/RecentBlocks.thy ===== *)
theory RecentBlocks
  imports Attribution Histogram
begin

text \<open>
  The cache of recent confirmed blocks behind the block strip (\<open>src/blockflow.rs\<close>,
  \<open>RecentBlocks\<close>): which heights a refresh fetches, what an insertion evicts, and the tiles that
  are drawn. The abstract view of a cache is its lookup function, reached only through the
  ordered-map interface.
\<close>

section \<open>Operations\<close>

definition RECENT_DEPTH :: u64 where "RECENT_DEPTH = 33"
definition MAX_FETCH_PER_REFRESH :: nat where "MAX_FETCH_PER_REFRESH = 4"

record block_info =
  info_hash :: "str option"
  info_tx_count :: "u64 option"
  info_timestamp_ms :: "u64 option"

record tile =
  tile_height :: u64
  tile_tx_count :: "u64 option"
  tile_timestamp_ms :: "u64 option"
  tile_mine :: mine_mark

record recent_blocks =
  blocks :: "(u64, block_info) btree"

definition recent_default :: recent_blocks where
  "recent_default = \<lparr>blocks = []\<rparr>"

definition window_start :: "u64 \<Rightarrow> u64" where
  "window_start tip = saturating_sub tip (RECENT_DEPTH - 1)"

text \<open>
  The two loops walk down from the tip and stop at the start of the window; the distance to it,
  taken modulo \<open>2 ^ 64\<close>, falls in each round, so they end from any height.
\<close>

lemma unat_pred: "a < (h :: u64) \<Longrightarrow> unat (h - 1) = unat h - 1"
  by (metis not_less_zero unat_0 unat_minus_one word_less_nat_alt)

lemma distance_decreases: "height \<noteq> start \<Longrightarrow> unat (height - 1 - start) < unat (height - start :: u64)"
proof -
  assume "height \<noteq> start"
  then have "height - start \<noteq> 0" by simp
  then have "unat (height - start - 1) < unat (height - start)"
    by (simp add: unat_minus_one unat_gt_0)
  then show ?thesis by (simp add: algebra_simps)
qed

function refresh_loop :: "recent_blocks \<Rightarrow> u64 \<Rightarrow> u64 list \<Rightarrow> u64 \<Rightarrow> u64 list" where
  "refresh_loop r start targets height =
     (let missing = bt_get (blocks r) height = None;
          targets' = (if missing then targets @ [height] else targets)
      in if missing \<and> length targets' \<ge> MAX_FETCH_PER_REFRESH then targets'
         else if height = start then targets'
         else refresh_loop r start targets' (height - 1))"
  by auto
termination
  by (relation "measure (\<lambda>(r, start, targets, height). unat (height - start))")
     (auto simp: distance_decreases)

definition refresh_targets :: "recent_blocks \<Rightarrow> u64 \<Rightarrow> u64 list" where
  "refresh_targets r tip = refresh_loop r (window_start tip) [] tip"

definition insert_block :: "u64 \<Rightarrow> u64 \<Rightarrow> block_info \<Rightarrow> recent_blocks \<Rightarrow> recent_blocks" where
  "insert_block tip height info r =
     (let reorged = (case bt_get (blocks r) height of
              None \<Rightarrow> False
            | Some existing \<Rightarrow> info_hash existing \<noteq> None \<and> info_hash info \<noteq> None \<and>
                info_hash existing \<noteq> info_hash info);
          kept = (if reorged then bt_retain (\<lambda>cached. cached \<le> height) (blocks r) else blocks r);
          start = window_start tip
      in r\<lparr>blocks := bt_retain (\<lambda>cached. start \<le> cached \<and> cached \<le> tip)
            (bt_insert height info kept)\<rparr>)"

definition make_tile :: "recent_blocks \<Rightarrow> sealed_blocks \<Rightarrow> u64 \<Rightarrow> tile" where
  "make_tile r s height =
     (let info = bt_get (blocks r) height in
      \<lparr>tile_height = height,
       tile_tx_count = Option.bind info info_tx_count,
       tile_timestamp_ms = Option.bind info info_timestamp_ms,
       tile_mine = mine_mark s height (info \<noteq> None) (Option.bind info info_hash)\<rparr>)"

function tiles_loop :: "recent_blocks \<Rightarrow> sealed_blocks \<Rightarrow> u64 \<Rightarrow> tile list \<Rightarrow> u64 \<Rightarrow> tile list" where
  "tiles_loop r s start tiles height =
     (let tiles' = tiles @ [make_tile r s height] in
      if height = start then tiles' else tiles_loop r s start tiles' (height - 1))"
  by auto
termination
  by (relation "measure (\<lambda>(r, s, start, tiles, height). unat (height - start))")
     (auto simp: distance_decreases)

definition tiles :: "recent_blocks \<Rightarrow> u64 \<Rightarrow> sealed_blocks \<Rightarrow> tile list" where
  "tiles r tip s = tiles_loop r s (window_start tip) [] tip"

declare refresh_loop.simps [simp del] tiles_loop.simps [simp del]

section \<open>The window\<close>

text \<open>The heights of the window, newest first.\<close>

definition window :: "u64 \<Rightarrow> u64 list" where
  "window tip = rev (List.map of_nat [unat (window_start tip) ..< Suc (unat tip)])"

lemma unat_window_start: "unat (window_start tip) = unat tip - 32"
  by (simp add: window_start_def RECENT_DEPTH_def unat_saturating_sub)

lemma window_start_le: "window_start tip \<le> tip"
  by (simp add: word_le_nat_alt unat_window_start)

lemma length_window: "length (window tip) = min 33 (Suc (unat tip))"
  by (auto simp: window_def unat_window_start)

lemma set_window: "set (window tip) = {h. window_start tip \<le> h \<and> h \<le> tip}"
proof -
  have "h \<in> of_nat ` {unat (window_start tip) ..< Suc (unat tip)}"
    if "window_start tip \<le> h" "h \<le> tip" for h
    using that by (intro image_eqI [of _ _ "unat h"]) (auto simp: word_le_nat_alt)
  moreover have "window_start tip \<le> of_nat n \<and> of_nat n \<le> tip"
    if "unat (window_start tip) \<le> n" "n \<le> unat tip" for n
  proof -
    have "unat (of_nat n :: u64) = n"
      using that(2) unsigned_less [of tip, where ?'a = nat] by (simp add: unat_of_nat)
    then show ?thesis using that by (simp add: word_le_nat_alt)
  qed
  ultimately show ?thesis by (auto simp: window_def image_iff simp del: upt_Suc)
qed

text \<open>Walking down from a height to the start visits this list.\<close>

definition descent :: "u64 \<Rightarrow> u64 \<Rightarrow> u64 list" where
  "descent start height = rev (List.map of_nat [unat start ..< Suc (unat height)])"

lemma descent_start: "descent start start = [start]"
  by (simp add: descent_def)

lemma descent_step: "start < height \<Longrightarrow> descent start height = height # descent start (height - 1)"
proof -
  assume "start < height"
  then have lt: "unat start < unat height" by (simp add: word_less_nat_alt)
  then have "Suc (unat (height - 1)) = unat height" using unat_pred [OF \<open>start < height\<close>] by simp
  then show ?thesis using lt by (simp add: descent_def)
qed

lemma descent_induct [consumes 1, case_names start step]:
  assumes "start \<le> (height :: u64)" "P start"
    and "\<And>h. start < h \<Longrightarrow> start \<le> h - 1 \<Longrightarrow> P (h - 1) \<Longrightarrow> P h"
  shows "P height"
  using assms(1)
proof (induction "unat (height - start)" arbitrary: height rule: less_induct)
  case less
  show ?case
  proof (cases "height = start")
    case True
    then show ?thesis using assms(2) by simp
  next
    case False
    then have lt: "start < height" using less.prems by simp
    then have "start \<le> height - 1" by (simp add: word_le_nat_alt word_less_nat_alt unat_pred [OF lt])
    moreover have "unat (height - 1 - start) < unat (height - start)"
      by (rule distance_decreases [OF False])
    ultimately show ?thesis using assms(3) [OF lt] less.hyps by blast
  qed
qed

lemma window_descent: "window tip = descent (window_start tip) tip"
  by (simp add: window_def descent_def)


section \<open>What the operations compute\<close>

definition missing :: "recent_blocks \<Rightarrow> u64 \<Rightarrow> bool" where
  "missing r h \<longleftrightarrow> bt_get (blocks r) h = None"

lemma refresh_loop_take:
  "start \<le> height \<Longrightarrow> length targets < MAX_FETCH_PER_REFRESH \<Longrightarrow>
   refresh_loop r start targets height =
     targets @ take (MAX_FETCH_PER_REFRESH - length targets) (List.filter (missing r) (descent start height))"
proof (induction arbitrary: targets rule: descent_induct)
  case start
  then show ?case
    by (subst refresh_loop.simps) (auto simp: descent_start missing_def Let_def)
next
  case (step h)
  then have ne: "h \<noteq> start" by simp
  show ?case
  proof (cases "missing r h \<and> MAX_FETCH_PER_REFRESH \<le> Suc (length targets)")
    case True
    then have "MAX_FETCH_PER_REFRESH - length targets = 1" using step.prems by auto
    then show ?thesis using True step.hyps(1)
      by (subst refresh_loop.simps) (simp add: descent_step missing_def Let_def)
  next
    case False
    let ?t = "if missing r h then targets @ [h] else targets"
    have "length ?t < MAX_FETCH_PER_REFRESH" using False step.prems by auto
    note ih = step.IH [OF this]
    have "refresh_loop r start targets h = refresh_loop r start ?t (h - 1)"
      using False ne by (subst refresh_loop.simps) (auto simp: missing_def Let_def)
    then show ?thesis using ih step.hyps(1) step.prems
      by (auto simp: descent_step Suc_diff_Suc simp flip: take_Suc_Cons)
  qed
qed

lemma refresh_targets_take:
  "refresh_targets r tip = take 4 (List.filter (missing r) (window tip))"
  using refresh_loop_take [OF window_start_le, of "[]" r]
  by (simp add: refresh_targets_def window_descent MAX_FETCH_PER_REFRESH_def)

lemma tiles_loop_map:
  "start \<le> height \<Longrightarrow>
   tiles_loop r s start acc height = acc @ List.map (make_tile r s) (descent start height)"
proof (induction arbitrary: acc rule: descent_induct)
  case start
  then show ?case by (subst tiles_loop.simps) (simp add: descent_start)
next
  case (step h)
  then have "h \<noteq> start" by simp
  then show ?case
    using step.IH [of "acc @ [make_tile r s h]"]
    by (subst tiles_loop.simps) (simp add: descent_step [OF step.hyps(1)])
qed

lemma tiles_map: "tiles r tip s = List.map (make_tile r s) (window tip)"
  by (simp add: tiles_def tiles_loop_map [OF window_start_le] window_descent)

definition reorged :: "block_info option \<Rightarrow> block_info \<Rightarrow> bool" where
  "reorged old info \<longleftrightarrow> (\<exists>b h h'. old = Some b \<and> info_hash b = Some h \<and> info_hash info = Some h' \<and> h \<noteq> h')"

lemma reorged_iff:
  "(case old of None \<Rightarrow> False
    | Some b \<Rightarrow> info_hash b \<noteq> None \<and> info_hash info \<noteq> None \<and> info_hash b \<noteq> info_hash info) \<longleftrightarrow>
   reorged old info"
  by (auto simp: reorged_def split: option.split)

lemma get_insert_block:
  "bt_get (blocks (insert_block tip height info r)) k =
     (if k \<notin> set (window tip) then None
      else if k = height then Some info
      else if reorged (bt_get (blocks r) height) info \<and> height < k then None
      else bt_get (blocks r) k)"
  by (cases "reorged (bt_get (blocks r) height) info")
     (auto simp: insert_block_def set_window bt_get_insert bt_get_retain reorged_iff Let_def not_le
        split: if_splits)

text \<open>The invariant of the cache for the tip it was last filled for.\<close>

definition recent_ok :: "u64 \<Rightarrow> recent_blocks \<Rightarrow> bool" where
  "recent_ok tip r \<longleftrightarrow> bt_ok (blocks r) \<and> dom (bt_get (blocks r)) \<subseteq> set (window tip)"

lemma insert_block_ok:
  assumes "bt_ok (blocks r)"
  shows "recent_ok tip (insert_block tip height info r) \<and>
    length (blocks (insert_block tip height info r)) \<le> 33"
proof -
  let ?r = "insert_block tip height info r"
  have ok: "bt_ok (blocks ?r)"
    using assms by (simp add: insert_block_def btree.ok_ins btree.ok_retain Let_def)
  have dom: "dom (bt_get (blocks ?r)) \<subseteq> set (window tip)"
    by (auto simp: get_insert_block split: if_splits)
  then have "card (dom (bt_get (blocks ?r))) \<le> length (window tip)"
    by (meson List.finite_set card_length card_mono order_trans)
  then show ?thesis
    using ok dom by (simp add: recent_ok_def btree.count_card [OF ok] length_window)
qed

section \<open>Properties\<close>

lemma strip_heights:
  "List.map (unat \<circ> tile_height) (tiles r tip s) = rev [unat tip - 32 ..< Suc (unat tip)]"
proof -
  have "unat (of_nat n :: u64) = n" if "n \<in> set [unat tip - 32 ..< Suc (unat tip)]" for n
    using that unsigned_less [of tip, where ?'a = nat] by (auto simp: unat_of_nat)
  then have "List.map (\<lambda>n. unat (of_nat n :: u64)) [unat tip - 32 ..< Suc (unat tip)] =
      [unat tip - 32 ..< Suc (unat tip)]" by (intro map_idI) auto
  then show ?thesis
    by (simp add: tiles_map make_tile_def window_def unat_window_start Let_def comp_def
        del: upt_Suc flip: rev_map)
qed

text \<open>
  The strip. The tiles are one per height of the window, newest first and without a gap: the
  tip and the 32 heights below it, or all heights down to 0 on a shorter chain. A refresh
  fetches the newest four heights of that window that the cache does not hold.
\<close>
theorem strip_covers_window:
  "List.map (unat \<circ> tile_height) (tiles r tip s) = rev [unat tip - 32 ..< Suc (unat tip)] \<and>
   refresh_targets r tip =
     take 4 (List.filter (\<lambda>h. bt_get (blocks r) h = None) (window tip))"
proof -
  have "(\<lambda>h. bt_get (blocks r) h = None) = missing r" by (simp add: missing_def fun_eq_iff)
  then show ?thesis using strip_heights by (simp add: refresh_targets_take)
qed

text \<open>
  Insertion and reorganisation. After an insertion the cache holds at most 33 blocks, all
  inside the window of the tip; the new block replaces the one at its height, every other
  block of the window is kept, except that when the disclosed hash at the height changed
  every cached block above it is evicted.
\<close>
theorem insert_block_refines_map:
  assumes "bt_ok (blocks r)"
  shows "length (blocks (insert_block tip height info r)) \<le> 33 \<and>
    bt_ok (blocks (insert_block tip height info r)) \<and>
    bt_get (blocks (insert_block tip height info r)) k =
     (if k \<notin> set (window tip) then None
      else if k = height then Some info
      else if reorged (bt_get (blocks r) height) info \<and> height < k then None
      else bt_get (blocks r) k)"
  using insert_block_ok [OF assms, of tip height info] get_insert_block
  by (simp add: recent_ok_def)

lemma insert_block_refines_map_witness:
  "bt_get (blocks (insert_block 50 40 \<lparr>info_hash = Some ''b'', info_tx_count = None, info_timestamp_ms = None\<rparr>
      \<lparr>blocks = [(40, \<lparr>info_hash = Some ''a'', info_tx_count = None, info_timestamp_ms = None\<rparr>),
                 (41, \<lparr>info_hash = Some ''c'', info_tx_count = None, info_timestamp_ms = None\<rparr>)]\<rparr>)) 41 = None"
  using insert_block_refines_map [of "\<lparr>blocks =
      [(40, \<lparr>info_hash = Some ''a'', info_tx_count = None, info_timestamp_ms = None\<rparr>),
       (41, \<lparr>info_hash = Some ''c'', info_tx_count = None, info_timestamp_ms = None\<rparr>)]\<rparr>" 50 40
      "\<lparr>info_hash = Some ''b'', info_tx_count = None, info_timestamp_ms = None\<rparr>" 41]
  by (auto simp: bt_ok_def bt_get_def reorged_def)

end
