(* ===== verification/TipFeed.thy ===== *)
theory TipFeed
  imports BTree Histogram Transition
begin

text \<open>
  The network block feed (\<open>src/blockflow.rs\<close>, \<open>TipWatch\<close>): the detector of tip advances and the
  bounded memory of announced blocks. Besides the functional behaviour of each operation there
  is a step relation over the operations, with the set of all heights ever registered beside
  the state, and the invariant that explains when a height can be announced twice.
\<close>

section \<open>State and operations\<close>

definition MAX_GAP_BLOCKS :: u64 where "MAX_GAP_BLOCKS = 4"
definition MAX_REPORTED_TRACKED :: nat where "MAX_REPORTED_TRACKED = 64"

datatype tip_advance =
    Baseline u64
  | Blocks (adv_report: "u64 list") (adv_omitted: u64) (adv_from: u64) (adv_to: u64)
  | Unchanged

datatype block_record = New | AlreadyReported | Reorg str

record tip_watch =
  last_tip :: "u64 option"
  needs_baseline :: bool
  reported :: "(u64, str option) btree"

definition tip_watch_default :: tip_watch where
  "tip_watch_default = \<lparr>last_tip = None, needs_baseline = False, reported = []\<rparr>"

definition begin_session :: "tip_watch \<Rightarrow> tip_watch" where
  "begin_session w = w\<lparr>needs_baseline := True\<rparr>"

fun prune_reported :: "(u64, str option) btree \<Rightarrow> (u64, str option) btree" where
  "prune_reported [] = []"
| "prune_reported (e # m) =
     (if length (e # m) > MAX_REPORTED_TRACKED then prune_reported m else e # m)"

definition prune :: "tip_watch \<Rightarrow> tip_watch" where
  "prune w = w\<lparr>reported := prune_reported (reported w)\<rparr>"

text \<open>The inclusive range \<open>a..=b\<close> of \<open>u64\<close> values, ascending.\<close>

definition heights_upto :: "u64 \<Rightarrow> u64 \<Rightarrow> u64 list" where
  "heights_upto a b = List.map of_nat [unat a ..< Suc (unat b)]"

definition observe_tip :: "u64 \<Rightarrow> tip_watch \<Rightarrow> tip_advance \<times> tip_watch" where
  "observe_tip tip w =
     (if needs_baseline w \<or> last_tip w = None then
        (Baseline tip,
         prune (w\<lparr>needs_baseline := False, last_tip := Some tip,
           reported := (case bt_get (reported w) tip of
               None \<Rightarrow> bt_insert tip None (reported w) | Some _ \<Rightarrow> reported w)\<rparr>))
      else
        let last = the (last_tip w) in
        if tip \<le> last then (Unchanged, w\<lparr>last_tip := Some (min tip last)\<rparr>)
        else
          let gap = tip - last;
              n = min gap MAX_GAP_BLOCKS;
              first_reported = tip - n + 1
          in (Blocks (heights_upto first_reported tip) (gap - n) (last + 1)
                (saturating_sub first_reported 1),
              w\<lparr>last_tip := Some tip\<rparr>))"

definition record_block ::
  "u64 \<Rightarrow> str option \<Rightarrow> bool \<Rightarrow> tip_watch \<Rightarrow> block_record \<times> tip_watch"
where
  "record_block height raw announce_new w =
     (let hash = bounded_hash raw;
          set_hash = (\<lambda>h. prune (w\<lparr>reported := bt_insert height h (reported w)\<rparr>))
      in case bt_get (reported w) height of
           Some existing \<Rightarrow>
             (case (existing, hash) of
                (Some previous, Some new) \<Rightarrow>
                  if previous \<noteq> new then (Reorg previous, set_hash hash)
                  else (AlreadyReported, prune w)
              | (None, Some _) \<Rightarrow> (AlreadyReported, set_hash hash)
              | _ \<Rightarrow> (AlreadyReported, prune w))
         | None \<Rightarrow> (if announce_new then New else AlreadyReported, set_hash hash))"

definition record_reported :: "u64 \<Rightarrow> str option \<Rightarrow> tip_watch \<Rightarrow> block_record \<times> tip_watch" where
  "record_reported height hash w = record_block height hash True w"

definition observe_fetched :: "u64 \<Rightarrow> str option \<Rightarrow> tip_watch \<Rightarrow> block_record \<times> tip_watch" where
  "observe_fetched height hash w = record_block height hash False w"

section \<open>The memory\<close>

definition remembered :: "tip_watch \<Rightarrow> u64 \<Rightarrow> str option option" where
  "remembered w = bt_get (reported w)"

definition watch_ok :: "tip_watch \<Rightarrow> bool" where
  "watch_ok w \<longleftrightarrow> bt_ok (reported w) \<and> length (reported w) \<le> MAX_REPORTED_TRACKED"

lemma prune_reported_newest: "prune_reported m = newest MAX_REPORTED_TRACKED m"
  by (induction m) (auto simp: newest_def Suc_diff_le)

lemma prune_id: "length (reported w) \<le> MAX_REPORTED_TRACKED \<Longrightarrow> prune w = w"
  by (simp add: prune_def prune_reported_newest newest_all)

lemma bt_ok_drop: "bt_ok m \<Longrightarrow> bt_ok (drop n m)"
  by (simp add: bt_ok_def sorted_wrt_drop flip: drop_map)

lemma bt_ok_newest: "bt_ok m \<Longrightarrow> bt_ok (newest n m)"
  by (simp add: newest_def bt_ok_drop)

lemma watch_ok_prune: "bt_ok (reported w) \<Longrightarrow> watch_ok (prune w)"
  by (simp add: watch_ok_def prune_def prune_reported_newest bt_ok_newest)

lemma watch_ok_observe_tip: "watch_ok w \<Longrightarrow> watch_ok (snd (observe_tip tip w))"
proof -
  assume ok: "watch_ok w"
  then have "watch_ok (prune w')"
    if "reported w' = (case bt_get (reported w) tip of
      None \<Rightarrow> bt_insert tip None (reported w) | Some _ \<Rightarrow> reported w)" for w'
    using that by (intro watch_ok_prune) (auto simp: watch_ok_def bt_ok_insert split: option.split)
  moreover have "watch_ok (w\<lparr>last_tip := t\<rparr>)" for t using ok by (simp add: watch_ok_def)
  ultimately show ?thesis by (auto simp: observe_tip_def Let_def)
qed

lemma watch_ok_record: "watch_ok w \<Longrightarrow> watch_ok (snd (record_block height raw ann w))"
proof -
  assume ok: "watch_ok w"
  then have "watch_ok (prune (w\<lparr>reported := bt_insert height h (reported w)\<rparr>))" for h
    by (intro watch_ok_prune) (simp add: watch_ok_def bt_ok_insert)
  moreover have "watch_ok (prune w)" using ok by (intro watch_ok_prune) (simp add: watch_ok_def)
  ultimately show ?thesis by (simp add: record_block_def Let_def split: option.split)
qed

lemma watch_ok_begin_session: "watch_ok w \<Longrightarrow> watch_ok (begin_session w)"
  by (simp add: watch_ok_def begin_session_def)

lemma watch_ok_default: "watch_ok tip_watch_default"
  by (simp add: watch_ok_def tip_watch_default_def bt_ok_def)

section \<open>What the memory forgets\<close>

text \<open>
  A height is covered when it is remembered or at least 64 greater heights are: the oldest
  heights are the ones that pruning drops.
\<close>

definition covered :: "(u64, 'v) btree \<Rightarrow> u64 \<Rightarrow> bool" where
  "covered m h \<longleftrightarrow> h \<in> dom (bt_get m) \<or> MAX_REPORTED_TRACKED \<le> card {k \<in> dom (bt_get m). h < k}"

lemma ascending_split:
  fixes xs :: "'a::linorder list"
  shows "sorted_wrt (<) xs \<Longrightarrow> xs = List.filter (\<lambda>x. x \<le> h) xs @ List.filter (\<lambda>x. h < x) xs"
proof (induction xs)
  case (Cons x xs)
  show ?case
  proof (cases "x \<le> h")
    case False
    then have "\<forall>y \<in> set xs. h < y" using Cons.prems by auto
    then have "List.filter (\<lambda>y. y \<le> h) xs = []" "List.filter (\<lambda>y. h < y) xs = xs"
      by (auto simp: filter_empty_conv filter_id_conv not_le)
    with False show ?thesis by (simp add: not_le)
  qed (use Cons in auto)
qed simp

lemma newest_above:
  fixes xs :: "'a::linorder list"
  assumes s: "sorted_wrt (<) xs" and n: "n \<le> card {x \<in> set xs. h < x}" and x: "x \<in> set (newest n xs)"
  shows "h < x"
proof -
  let ?lo = "List.filter (\<lambda>x. x \<le> h) xs" and ?hi = "List.filter (\<lambda>x. h < x) xs"
  have split: "xs = ?lo @ ?hi" by (rule ascending_split [OF s])
  have "distinct ?hi" using s by (simp add: strict_sorted_iff)
  then have "n \<le> length ?hi" using n by (simp flip: distinct_card)
  moreover have "length xs = length ?lo + length ?hi" by (simp only: arg_cong [OF split, of length] length_append [symmetric])
  ultimately have "length ?lo \<le> length xs - n" by linarith
  then have "newest n xs = drop (length xs - n - length ?lo) ?hi"
    unfolding newest_def by (subst split) simp
  with x show ?thesis by (auto dest: in_set_dropD)
qed

lemma dropped_below:
  fixes xs :: "'a::linorder list"
  assumes "sorted_wrt (<) xs" "h \<in> set xs" "h \<notin> set (newest n xs)"
  shows "length (newest n xs) = n \<and> (\<forall>x \<in> set (newest n xs). h < x)"
proof -
  let ?k = "length xs - n"
  have xs: "xs = take ?k xs @ newest n xs" by (simp add: newest_def)
  then have h: "h \<in> set (take ?k xs)" using assms(2,3) by (metis Un_iff set_append)
  then have "n < length xs" by (cases "?k = 0") auto
  moreover have "\<forall>x \<in> set (newest n xs). h < x"
    using assms(1) h by (subst (asm) xs) (auto simp: sorted_wrt_append)
  ultimately show ?thesis by simp
qed

lemma covered_insert: "covered m h \<or> h = k \<Longrightarrow> covered (bt_insert k v m) h"
  unfolding covered_def bt_get_insert
proof (elim disjE)
  assume "MAX_REPORTED_TRACKED \<le> card {k \<in> dom (bt_get m). h < k}"
  also have "\<dots> \<le> card {k' \<in> dom ((bt_get m)(k \<mapsto> v)). h < k'}"
    by (rule card_mono) (auto simp: dom_bt_get intro: finite_subset [of _ "UNIV"])
  finally show "h \<in> dom ((bt_get m)(k \<mapsto> v)) \<or>
      MAX_REPORTED_TRACKED \<le> card {k' \<in> dom ((bt_get m)(k \<mapsto> v)). h < k'}" ..
qed auto

lemma covered_newest:
  assumes ok: "bt_ok m" and c: "covered m h"
  shows "covered (newest MAX_REPORTED_TRACKED m) h"
proof -
  let ?n = MAX_REPORTED_TRACKED and ?ks = "List.map fst m"
  have s: "sorted_wrt (<) ?ks" using ok by (simp add: bt_ok_def)
  have dom: "dom (bt_get (newest ?n m)) = set (newest ?n ?ks)" by (simp add: dom_bt_get newest_def drop_map)
  have "distinct (newest ?n ?ks)" using s by (simp add: newest_def strict_sorted_iff)
  then have card: "card (set (newest ?n ?ks)) = length (newest ?n ?ks)" by (rule distinct_card)
  have full: "covered (newest ?n m) h"
    if "length (newest ?n ?ks) = ?n" "\<forall>x \<in> set (newest ?n ?ks). h < x"
  proof -
    have "{k \<in> set (newest ?n ?ks). h < k} = set (newest ?n ?ks)" using that(2) by auto
    then show ?thesis using that(1) card by (simp add: covered_def dom)
  qed
  from c consider "h \<in> set ?ks" | "?n \<le> card {k \<in> set ?ks. h < k}"
    by (auto simp: covered_def dom_bt_get)
  then show ?thesis
  proof cases
    case 1
    show ?thesis
    proof (cases "h \<in> set (newest ?n ?ks)")
      case True
      then show ?thesis by (simp add: covered_def dom)
    next
      case False
      from dropped_below [OF s 1 False] full show ?thesis by blast
    qed
  next
    case 2
    have "card {k \<in> set ?ks. h < k} \<le> length ?ks"
      using card_mono [of "set ?ks" "{k \<in> set ?ks. h < k}"] card_length [of ?ks] by simp
    then have "length (newest ?n ?ks) = ?n" using 2 by simp
    then show ?thesis using newest_above [OF s 2] full by blast
  qed
qed

lemma covered_within_bound:
  assumes "bt_ok m" "length m \<le> MAX_REPORTED_TRACKED" "covered m h" "bt_get m h = None"
  shows "length m = MAX_REPORTED_TRACKED \<and> (\<forall>k \<in> dom (bt_get m). h < k)"
proof -
  let ?D = "dom (bt_get m)"
  have fin: "finite ?D" by (simp add: dom_bt_get)
  have "MAX_REPORTED_TRACKED \<le> card {k \<in> ?D. h < k}" using assms(3,4) by (auto simp: covered_def)
  moreover have "card {k \<in> ?D. h < k} \<le> card ?D" by (rule card_mono [OF fin]) auto
  moreover have "card ?D = length m" using length_bt [OF assms(1)] by simp
  ultimately have "card {k \<in> ?D. h < k} = card ?D" "length m = MAX_REPORTED_TRACKED" using assms(2) by auto
  moreover from this have "{k \<in> ?D. h < k} = ?D" by (intro card_subset_eq [OF fin]) auto
  ultimately show ?thesis by blast
qed

section \<open>The feed as a machine\<close>

text \<open>
  A step is one call of the public operations, in any order and with any arguments; the second
  component collects every height that was ever announced or registered.
\<close>

inductive feed_step :: "tip_watch \<times> u64 set \<Rightarrow> tip_watch \<times> u64 set \<Rightarrow> bool" where
  feed_session: "feed_step (w, S) (begin_session w, S)"
| feed_tip: "observe_tip tip w = (adv, w') \<Longrightarrow>
    feed_step (w, S) (w', case adv of Baseline t \<Rightarrow> insert t S | _ \<Rightarrow> S)"
| feed_block: "record_block height raw ann w = (r, w') \<Longrightarrow> feed_step (w, S) (w', insert height S)"

inductive_cases feed_stepE: "feed_step s t"

definition feed_initial :: "tip_watch \<times> u64 set \<Rightarrow> bool" where
  "feed_initial s \<longleftrightarrow> s = (tip_watch_default, {})"

definition feed_inv :: "tip_watch \<times> u64 set \<Rightarrow> bool" where
  "feed_inv s \<longleftrightarrow> watch_ok (fst s) \<and> (\<forall>h \<in> snd s. covered (reported (fst s)) h)"

lemma covered_prune_insert:
  assumes "bt_ok (reported w)" "covered (reported w) h \<or> h = k"
  shows "covered (reported (prune (w\<lparr>reported := bt_insert k v (reported w)\<rparr>))) h"
  using covered_newest [OF bt_ok_insert [OF assms(1)] covered_insert [OF assms(2)]]
  by (simp add: prune_def prune_reported_newest)

lemma covered_observe_tip:
  assumes ok: "watch_ok w" and h: "covered (reported w) h \<or> fst (observe_tip tip w) = Baseline h"
  shows "covered (reported (snd (observe_tip tip w))) h"
proof (cases "needs_baseline w \<or> last_tip w = None")
  case False
  with h show ?thesis by (auto simp: observe_tip_def Let_def split: if_splits)
next
  case True
  have bt: "bt_ok (reported w)" and len: "length (reported w) \<le> MAX_REPORTED_TRACKED"
    using ok by (simp_all add: watch_ok_def)
  have h': "covered (reported w) h \<or> h = tip" using h True by (auto simp: observe_tip_def)
  show ?thesis
  proof (cases "bt_get (reported w) tip")
    case None
    have "covered (newest MAX_REPORTED_TRACKED (bt_insert tip None (reported w))) h"
      by (rule covered_newest [OF bt_ok_insert [OF bt] covered_insert [OF h']])
    with True None show ?thesis by (auto simp: observe_tip_def prune_def prune_reported_newest)
  next
    case (Some x)
    then have "covered (reported w) h" using h' by (auto simp: covered_def)
    with True Some len show ?thesis
      by (auto simp: observe_tip_def prune_def prune_reported_newest newest_all)
  qed
qed

lemma covered_record:
  assumes ok: "watch_ok w" and h: "covered (reported w) h \<or> h = height"
  shows "covered (reported (snd (record_block height raw ann w))) h"
proof -
  have bt: "bt_ok (reported w)" and len: "length (reported w) \<le> MAX_REPORTED_TRACKED"
    using ok by (simp_all add: watch_ok_def)
  have ins: "covered (reported (prune (w\<lparr>reported := bt_insert height v (reported w)\<rparr>))) h" for v
    by (rule covered_prune_insert [OF bt h])
  have keep: "covered (reported (prune w)) h" if "bt_get (reported w) height \<noteq> None"
    using h that by (auto simp: prune_id [OF len] covered_def)
  show ?thesis using ins keep by (simp add: record_block_def Let_def split: option.split)
qed

interpretation feed: machine_invariant feed_initial feed_step feed_inv
proof unfold_locales
  show "feed_inv s" if "feed_initial s" for s
    using that by (simp add: feed_initial_def feed_inv_def watch_ok_default)
  show "feed_inv t" if inv: "feed_inv s" and step: "feed_step s t" for s t
    using step
  proof (cases rule: feed_step.cases)
    case (feed_session w S)
    then show ?thesis using inv by (simp add: feed_inv_def watch_ok_begin_session) (simp add: begin_session_def)
  next
    case (feed_tip tip w adv w' S)
    have ok: "watch_ok w" using inv feed_tip by (simp add: feed_inv_def)
    have adv: "fst (observe_tip tip w) = adv" "snd (observe_tip tip w) = w'" using feed_tip by simp_all
    have "covered (reported w') h" if "h \<in> (case adv of Baseline t \<Rightarrow> insert t S | _ \<Rightarrow> S)" for h
      using covered_observe_tip [OF ok, of h tip] that inv feed_tip(1)
      by (auto simp: adv feed_inv_def split: tip_advance.splits)
    then show ?thesis using watch_ok_observe_tip [OF ok, of tip] feed_tip(2) by (simp add: feed_inv_def adv)
  next
    case (feed_block height raw ann w r w' S)
    have ok: "watch_ok w" using inv feed_block by (simp add: feed_inv_def)
    have w': "snd (record_block height raw ann w) = w'" using feed_block by simp
    have "covered (reported w') h" if "h \<in> insert height S" for h
      using covered_record [OF ok, of h height raw ann] that inv feed_block(1)
      by (auto simp: w' feed_inv_def)
    then show ?thesis using watch_ok_record [OF ok, of height raw ann] feed_block(2)
      by (simp add: feed_inv_def w')
  qed
qed

lemma record_New_iff:
  "fst (record_block height raw ann w) = New \<longleftrightarrow> ann \<and> remembered w height = None"
  by (auto simp: record_block_def remembered_def Let_def split: option.splits)

text \<open>
  C19: No duplicate announcements. In every state the feed can reach, through any interleaving of
  sessions, tip polls, reports and backfills, the memory holds at most 64 heights, and a
  height that was announced or registered before is announced as new again only when the
  memory is full and every remembered height is greater than it.
\<close>
theorem no_duplicate_announcement:
  assumes "reach feed_initial feed_step (w, S)"
  shows "length (reported w) \<le> 64 \<and>
    (h \<in> S \<longrightarrow> fst (record_reported h hash w) = New \<longrightarrow>
       length (reported w) = 64 \<and> (\<forall>k. remembered w k \<noteq> None \<longrightarrow> h < k))"
proof -
  have inv: "feed_inv (w, S)" by (rule feed.inv_reach [OF assms])
  then have "bt_ok (reported w)" "length (reported w) \<le> MAX_REPORTED_TRACKED"
    "h \<in> S \<Longrightarrow> covered (reported w) h" by (auto simp: feed_inv_def watch_ok_def)
  then show ?thesis
    using covered_within_bound [of "reported w" h]
    by (auto simp: record_reported_def record_New_iff remembered_def MAX_REPORTED_TRACKED_def)
qed

text \<open>
  Classification of a registered block. It is new exactly when it was announced and its height
  is not remembered, a reorganisation exactly when a hash disclosed earlier for the height
  differs from the usable hash disclosed now, and already reported in every other case; a
  hash that is empty or longer than 128 bytes counts as not disclosed.
\<close>
theorem record_block_classifies:
  "fst (record_block height raw ann w) =
     (case remembered w height of
        None \<Rightarrow> if ann then New else AlreadyReported
      | Some None \<Rightarrow> AlreadyReported
      | Some (Some previous) \<Rightarrow>
          (case bounded_hash raw of
             Some new \<Rightarrow> if new = previous then AlreadyReported else Reorg previous
           | None \<Rightarrow> AlreadyReported))"
  by (auto simp: record_block_def remembered_def Let_def split: option.splits)

section \<open>Coverage of a session\<close>

lemma upt_split: "i \<le> j \<Longrightarrow> j \<le> k \<Longrightarrow> [i ..< j] @ [j ..< k] = [i ..< k]"
  using upt_add_eq_append [of i j "k - j"] by simp

fun observe_tips :: "u64 list \<Rightarrow> tip_watch \<Rightarrow> tip_advance list \<times> tip_watch" where
  "observe_tips [] w = ([], w)"
| "observe_tips (t # ts) w =
     (let (adv, w') = observe_tip t w; (advs, w'') = observe_tips ts w' in (adv # advs, w''))"

text \<open>The heights an advance accounts for: the omitted interval, then the reported heights.\<close>

fun accounted :: "tip_advance \<Rightarrow> nat list" where
  "accounted (Blocks report omitted from to) = [unat from ..< Suc (unat to)] @ List.map unat report"
| "accounted _ = []"

fun advance_ok :: "tip_advance \<Rightarrow> bool" where
  "advance_ok (Baseline t) = False"
| "advance_ok (Blocks report omitted from to) =
     (report \<noteq> [] \<and> length report \<le> 4 \<and> unat omitted = length [unat from ..< Suc (unat to)] \<and>
      (omitted \<noteq> 0 \<longrightarrow> length report = 4))"
| "advance_ok Unchanged = True"

lemma map_unat_heights_upto:
  "List.map unat (heights_upto a b) = [unat a ..< Suc (unat b)]"
proof -
  have "unat (of_nat n :: u64) = n" if "n \<in> set [unat a ..< Suc (unat b)]" for n
    using that unat_u64_less [of b] by (auto simp: unat_of_nat)
  then show ?thesis unfolding heights_upto_def map_map comp_def by (intro map_idI) auto
qed

lemma observe_tip_advance:
  assumes w: "\<not> needs_baseline w" "last_tip w = Some lst" and lt: "lst < tip"
  shows "accounted (fst (observe_tip tip w)) = [Suc (unat lst) ..< Suc (unat tip)] \<and>
    advance_ok (fst (observe_tip tip w)) \<and> snd (observe_tip tip w) = w\<lparr>last_tip := Some tip\<rparr>"
proof -
  let ?n = "min (tip - lst) MAX_GAP_BLOCKS" and ?g = "unat tip - unat lst"
  let ?first = "tip - ?n + 1"
  have g: "unat (tip - lst) = ?g" using lt by (simp add: unat_sub word_less_nat_alt word_le_nat_alt)
  have lt': "unat lst < unat tip" using lt by (simp add: word_less_nat_alt)
  have n: "unat ?n = min ?g 4" by (simp add: min_def word_le_nat_alt g MAX_GAP_BLOCKS_def)
  have "unat (tip - ?n) = unat tip - min ?g 4" using n lt' by (simp add: unat_sub word_le_nat_alt)
  moreover have "unat tip - min ?g 4 + 1 < 2 ^ 64" using unat_u64_less [of tip] lt' by linarith
  ultimately have first: "unat ?first = Suc (unat tip - min ?g 4)" by (simp add: unat_word_ariths)
  have lo: "unat (lst + 1) = Suc (unat lst)"
    using lt' unat_u64_less [of tip] by (simp add: unat_word_ariths)
  have hi: "unat (saturating_sub ?first 1) = unat tip - min ?g 4"
    by (simp add: unat_saturating_sub first)
  have om: "unat (tip - lst - ?n) = ?g - min ?g 4" using n g by (simp add: unat_sub word_le_nat_alt)
  have len: "length (heights_upto ?first tip) = min ?g 4"
    using lt' first by (simp add: heights_upto_def)
  have adv: "fst (observe_tip tip w) = Blocks (heights_upto ?first tip) (tip - lst - ?n) (lst + 1)
      (saturating_sub ?first 1)"
    using w lt by (simp add: observe_tip_def Let_def not_le)
  have "[Suc (unat lst) ..< Suc (unat tip - min ?g 4)] @ [Suc (unat tip - min ?g 4) ..< Suc (unat tip)]
      = [Suc (unat lst) ..< Suc (unat tip)]"
    using lt' by (intro upt_split) auto
  then have "accounted (fst (observe_tip tip w)) = [Suc (unat lst) ..< Suc (unat tip)]"
    by (simp only: adv accounted.simps map_unat_heights_upto first lo hi)
  moreover have "heights_upto ?first tip \<noteq> []" using len lt' by auto
  moreover have "tip - lst - ?n \<noteq> 0 \<longrightarrow> length (heights_upto ?first tip) = 4"
    using om len by (auto simp: unat_eq_0 [symmetric])
  ultimately show ?thesis
    using w lt om len lt'
    by (auto simp: adv observe_tip_def Let_def not_le lo hi simp del: upt_Suc)
qed

lemma observe_tips_coverage:
  assumes "\<not> needs_baseline w" "last_tip w = Some lst" "sorted (lst # ts)"
  shows "concat (List.map accounted (fst (observe_tips ts w))) =
      [Suc (unat lst) ..< Suc (unat (List.last (lst # ts)))] \<and>
    list_all advance_ok (fst (observe_tips ts w))"
  using assms
proof (induction ts arbitrary: w lst)
  case Nil
  then show ?case by simp
next
  case (Cons t ts)
  show ?case
  proof (cases "lst < t")
    case True
    let ?w = "w\<lparr>last_tip := Some t\<rparr>"
    note adv = observe_tip_advance [OF Cons.prems(1,2) True]
    have ih: "concat (List.map accounted (fst (observe_tips ts ?w))) =
        [Suc (unat t) ..< Suc (unat (List.last (t # ts)))] \<and> list_all advance_ok (fst (observe_tips ts ?w))"
      using Cons.prems by (intro Cons.IH) auto
    have "unat lst \<le> unat t" "unat t \<le> unat (List.last (t # ts))"
      using True Cons.prems(3) by (auto simp: word_le_nat_alt [symmetric])
    then have "[Suc (unat lst) ..< Suc (unat t)] @ [Suc (unat t) ..< Suc (unat (List.last (t # ts)))] =
        [Suc (unat lst) ..< Suc (unat (List.last (t # ts)))]"
      by (intro upt_split) auto
    then show ?thesis using adv ih by (simp add: case_prod_beta Let_def del: upt_Suc)
  next
    case False
    then have t: "t = lst" using Cons.prems(3) by auto
    have "observe_tip t w = (Unchanged, w)" using Cons.prems(1,2) t by (simp add: observe_tip_def)
    moreover have "concat (List.map accounted (fst (observe_tips ts w))) =
        [Suc (unat lst) ..< Suc (unat (List.last (lst # ts)))] \<and>
      list_all advance_ok (fst (observe_tips ts w))"
      using Cons.prems by (intro Cons.IH) auto
    ultimately show ?thesis using t by (simp add: case_prod_beta Let_def del: upt_Suc)
  qed
qed

text \<open>
  A session accounts for every block. After a connect or reconnect the first poll announces
  one baseline and nothing else; from then on, as long as the polled tips do not fall, the
  heights reported one by one and the heights summarised as omitted are together exactly the
  heights after the baseline up to the last tip, in order and each once, with no second
  baseline, at most four reported per advance and the omitted count exact.
\<close>
theorem session_accounts_for_every_block:
  assumes "sorted (t # ts)"
  shows "\<exists>advs. fst (observe_tips (t # ts) (begin_session w)) = Baseline t # advs \<and>
    concat (List.map accounted advs) = [Suc (unat t) ..< Suc (unat (List.last (t # ts)))] \<and>
    list_all advance_ok advs"
proof -
  let ?w = "snd (observe_tip t (begin_session w))"
  have "fst (observe_tip t (begin_session w)) = Baseline t" "\<not> needs_baseline ?w" "last_tip ?w = Some t"
    by (simp_all add: observe_tip_def begin_session_def prune_def)
  moreover from this have "concat (List.map accounted (fst (observe_tips ts ?w))) =
      [Suc (unat t) ..< Suc (unat (List.last (t # ts)))] \<and> list_all advance_ok (fst (observe_tips ts ?w))"
    using assms by (intro observe_tips_coverage) auto
  ultimately show ?thesis by (simp add: case_prod_beta Let_def del: upt_Suc)
qed

section \<open>Witnesses\<close>

definition feed_after_five :: tip_watch where
  "feed_after_five = \<lparr>last_tip = None, needs_baseline = False, reported = [(5, None)]\<rparr>"

lemma feed_after_five_reachable: "reach feed_initial feed_step (feed_after_five, {5})"
proof -
  have "record_block 5 None True tip_watch_default = (New, feed_after_five)"
    by (simp add: record_block_def tip_watch_default_def feed_after_five_def bt_get_def
        bounded_hash_def prune_def MAX_REPORTED_TRACKED_def)
  from feed_block [OF this, of "{}"] show ?thesis
    by (intro reach_step [OF reach_init]) (simp_all add: feed_initial_def)
qed

lemma no_duplicate_announcement_witness:
  "fst (record_reported 5 None feed_after_five) \<noteq> New \<and>
   reach feed_initial feed_step (feed_after_five, {5})"
  using no_duplicate_announcement [OF feed_after_five_reachable, of 5 None] feed_after_five_reachable
  by (simp add: feed_after_five_def)

lemma session_accounts_for_every_block_witness:
  "\<exists>advs. fst (observe_tips [10, 12, 12, 20] (begin_session tip_watch_default)) = Baseline 10 # advs \<and>
     concat (List.map accounted advs) = [11, 12, 13, 14, 15, 16, 17, 18, 19, 20]"
  using session_accounts_for_every_block [of 10 "[12, 12, 20]" tip_watch_default]
  by (auto simp: upt_rec)

end
