(* ===== verification/ChainFeed.thy ===== *)
theory ChainFeed
  imports RecentBlocks TipFeed
begin

text \<open>
  The telemetry half of the direct-RPC cycle (\<open>src/main.rs\<close>, \<open>run_rpc_session\<close> after the work is
  installed, with \<open>chain_block_log_line\<close>, \<open>mempool_backlog_json\<close> and \<open>emit_chain_reorg\<close>): the
  network block feed, the backfill of the strip and the \<open>block_flow\<close> snapshot. Replies of the
  node are arguments: \<open>fetch h\<close> is the reply to \<open>sov_getBlockByHeight\<close> for height \<open>h\<close>, \<open>None\<close> when
  the call failed or the shared two-second budget was spent. Everything a cycle writes is a
  list of effects; the console copy of a logged line differs only by its time stamp.
\<close>

section \<open>Lines and events\<close>

datatype effect = Emit json | LogInfo str | LogWarn str | Console str

definition peer_count_from_info :: "json \<Rightarrow> u64 option" where
  "peer_count_from_info info = get_u64 ''peers'' info"

definition show_u64 :: "u64 \<Rightarrow> str" where "show_u64 n = decimal (unat n)"

text \<open>The characters outside ASCII, in UTF-8.\<close>

definition ellipsis :: str where "ellipsis = [CHR 0xE2, CHR 0x80, CHR 0xA6]"
definition em_dash :: str where "em_dash = [CHR 0xE2, CHR 0x80, CHR 0x94]"
definition black_star :: str where "black_star = [CHR 0xE2, CHR 0x98, CHR 0x85]"

definition short_hash :: "str \<Rightarrow> str" where
  "short_hash hash =
     (let short = take_chars 16 hash in
      if char_count hash > 16 then short @ ellipsis else short)"

definition chain_block_log_line ::
  "u64 \<Rightarrow> bool \<Rightarrow> str option \<Rightarrow> u64 option \<Rightarrow> mine_mark \<Rightarrow> str"
where
  "chain_block_log_line height detail_fetched hash txs mark =
     (if proven mark then black_star @ '' BLOCK FOUND (YOURS)''
      else if mark = UnverifiedHeight
           then ''BLOCK FOUND (possibly YOURS '' @ em_dash @ '' unverified)''
      else ''BLOCK FOUND (network)'') @ '' height '' @ show_u64 height @
     (if detail_fetched
      then (case hash of
              Some h \<Rightarrow> '' | hash '' @ short_hash h
            | None \<Rightarrow> '' | hash not disclosed by node'')
      else '' | detail fetch failed this cycle; hash unknown'' @
           (if mark = UnverifiedHeight
            then '' '' @ em_dash @ '' height matches your accepted submission but could not be hash-checked''
            else [])) @
     (case txs of Some n \<Rightarrow> '' | '' @ show_u64 n @ '' tx'' | None \<Rightarrow> [])"

definition projected_json :: "projected \<Rightarrow> json" where
  "projected_json b = JObject
     [(''tx_count'', ju64 (proj_tx_count b)), (''fee_min_grains'', ju64 (proj_fee_min b)),
      (''fee_max_grains'', ju64 (proj_fee_max b))]"

text \<open>\<open>None\<close> only if packing did not return, which the packing lemmas exclude.\<close>

definition mempool_backlog_json :: "histogram option \<Rightarrow> json option" where
  "mempool_backlog_json histogram =
     (case histogram of
        None \<Rightarrow> Some JNull
      | Some h \<Rightarrow> map_option (\<lambda>blocks. JObject
          [(''tx_count'', ju64 (hist_tx_count h)), (''max_block_txs'', ju64 (hist_max_block_txs h)),
           (''depth_blocks'', ju64 (backlog_depth h)),
           (''blocks'', JArray (List.map projected_json blocks))]) (backlog_blocks h))"

definition emit_chain_reorg :: "u64 \<Rightarrow> str \<Rightarrow> str option \<Rightarrow> effect list" where
  "emit_chain_reorg height previous_hash new_hash =
     [LogWarn (''REORG at height '' @ show_u64 height @ '': block '' @
        (case new_hash of None \<Rightarrow> ''(hash not disclosed)'' | Some h \<Rightarrow> short_hash h) @
        '' replaced '' @ short_hash previous_hash),
      Emit (JObject [(''event'', JString ''chain_reorg''), (''height'', ju64 height),
        (''old_hash'', JString previous_hash), (''new_hash'', jopt JString new_hash)])]"

section \<open>The block feed\<close>

type_synonym fetch = "u64 \<Rightarrow> json option"
type_synonym feed_state = "recent_blocks \<times> tip_watch"

definition block_info_of :: "json \<Rightarrow> block_info" where
  "block_info_of block = \<lparr>info_hash = block_hash block, info_tx_count = tx_count block,
     info_timestamp_ms = block_timestamp_ms block\<rparr>"

definition chain_block_event ::
  "u64 \<Rightarrow> bool \<Rightarrow> str option \<Rightarrow> u64 option \<Rightarrow> u64 option \<Rightarrow> mine_mark \<Rightarrow> json"
where
  "chain_block_event height detail_fetched hash txs timestamp_ms mark = JObject
     [(''event'', JString ''chain_block''), (''height'', ju64 height),
      (''hash'', jopt JString hash), (''tx_count'', jopt (\<lambda>n. ju64 n) txs),
      (''timestamp_ms'', jopt (\<lambda>n. ju64 n) timestamp_ms), (''mine'', JBool (proven mark)),
      (''detail_fetch_failed'', JBool (\<not> detail_fetched)),
      (''mine_unverified'', JBool (mark = UnverifiedHeight)),
      (''mine_basis'', jopt JString (mark_basis mark))]"

definition report_block ::
  "fetch \<Rightarrow> sealed_blocks \<Rightarrow> u64 \<Rightarrow> u64 \<Rightarrow> feed_state \<Rightarrow> effect list \<times> feed_state"
where
  "report_block fetch s tip height = (\<lambda>(r, w).
     let block = fetch height;
         detail_fetched = (block \<noteq> None);
         hash = Option.bind block block_hash;
         txs = Option.bind block tx_count;
         timestamp_ms = Option.bind block block_timestamp_ms;
         r' = (case block of Some b \<Rightarrow> insert_block tip height (block_info_of b) r | None \<Rightarrow> r);
         (rec, w') = record_reported height hash w
     in (case rec of
           New \<Rightarrow>
             let mark = mine_mark s height detail_fetched hash in
             [LogInfo (chain_block_log_line height detail_fetched hash txs mark),
              Emit (chain_block_event height detail_fetched hash txs timestamp_ms mark)]
         | Reorg previous \<Rightarrow> emit_chain_reorg height previous hash
         | AlreadyReported \<Rightarrow> [], r', w'))"

fun report_blocks ::
  "fetch \<Rightarrow> sealed_blocks \<Rightarrow> u64 \<Rightarrow> u64 list \<Rightarrow> feed_state \<Rightarrow> effect list \<times> feed_state"
where
  "report_blocks fetch s tip [] st = ([], st)"
| "report_blocks fetch s tip (h # hs) st =
     (let (out, st') = report_block fetch s tip h st;
          (outs, st'') = report_blocks fetch s tip hs st'
      in (out @ outs, st''))"

definition announce_gap :: "u64 list \<Rightarrow> u64 \<Rightarrow> u64 \<Rightarrow> u64 \<Rightarrow> effect list" where
  "announce_gap report omitted lo hi =
     (if omitted > 0
      then [LogInfo (''tip advanced by '' @ show_u64 (omitted + of_nat (length report)) @
              '' blocks; reporting the newest '' @ decimal (length report) @ '' '' @ ellipsis @
              '' and '' @ show_u64 omitted @ '' more (heights '' @ show_u64 lo @ ''-'' @
              show_u64 hi @ '' not shown individually)''),
            Emit (JObject [(''event'', JString ''chain_gap''), (''omitted'', ju64 omitted),
              (''from'', ju64 lo), (''to'', ju64 hi)])]
      else [])"

definition block_feed ::
  "fetch \<Rightarrow> sealed_blocks \<Rightarrow> u64 \<Rightarrow> feed_state \<Rightarrow> effect list \<times> feed_state"
where
  "block_feed fetch s tip = (\<lambda>(r, w).
     let (advance, w') = observe_tip tip w in
     case advance of
       Baseline height \<Rightarrow>
         ([LogInfo (''BLOCK FEED live at height '' @ show_u64 height @
             ''; every new network block will be reported''),
           Emit (JObject [(''event'', JString ''chain_baseline''), (''height'', ju64 height)])],
          r, w')
     | Blocks report omitted lo hi \<Rightarrow>
         let (outs, st) = report_blocks fetch s tip report (r, w') in
         (announce_gap report omitted lo hi @ outs, st)
     | Unchanged \<Rightarrow> ([], r, w'))"

section \<open>Backfill of the strip\<close>

fun backfill_blocks :: "fetch \<Rightarrow> u64 \<Rightarrow> u64 list \<Rightarrow> feed_state \<Rightarrow> effect list \<times> feed_state" where
  "backfill_blocks fetch tip [] st = ([], st)"
| "backfill_blocks fetch tip (height # hs) (r, w) =
     (case fetch height of
        None \<Rightarrow> ([], r, w)
      | Some block \<Rightarrow>
          let r' = insert_block tip height (block_info_of block) r;
              (rec, w') = observe_fetched height (block_hash block) w;
              out = (case rec of
                  Reorg previous \<Rightarrow> emit_chain_reorg height previous (block_hash block) | _ \<Rightarrow> []);
              (outs, st) = backfill_blocks fetch tip hs (r', w')
          in (out @ outs, st))"

definition backfill :: "fetch \<Rightarrow> u64 \<Rightarrow> feed_state \<Rightarrow> effect list \<times> feed_state" where
  "backfill fetch tip st = backfill_blocks fetch tip (refresh_targets (fst st) tip) st"

section \<open>The snapshot\<close>

definition tile_json :: "tile \<Rightarrow> json" where
  "tile_json t = JObject
     [(''height'', ju64 (tile_height t)), (''tx_count'', jopt (\<lambda>n. ju64 n) (tile_tx_count t)),
      (''timestamp_ms'', jopt (\<lambda>n. ju64 n) (tile_timestamp_ms t)),
      (''mine'', JBool (proven (tile_mine t))), (''mine_basis'', jopt JString (mark_basis (tile_mine t)))]"

definition block_flow_event ::
  "u64 \<Rightarrow> u64 \<Rightarrow> u64 option \<Rightarrow> json option \<Rightarrow> json option \<Rightarrow> recent_blocks \<Rightarrow> sealed_blocks \<Rightarrow> json option"
where
  "block_flow_event tip template_height template_tx_count fee_reply histogram_reply r s =
     (let histogram = Option.bind histogram_reply mempool_histogram in
      Option.bind (case histogram of None \<Rightarrow> Some [] | Some h \<Rightarrow> projected_blocks h) (\<lambda>projected.
      Option.bind (mempool_backlog_json histogram) (\<lambda>backlog.
      Some (JObject
        [(''event'', JString ''block_flow''), (''tip_height'', ju64 tip),
         (''template'', JObject [(''height'', ju64 template_height),
            (''tx_count'', jopt (\<lambda>n. ju64 n) template_tx_count)]),
         (''fee_grains'', jopt (\<lambda>n. ju64 n) (Option.bind fee_reply fee_floor_grains)),
         (''backlog'', backlog),
         (''projected'', JArray (List.map projected_json projected)),
         (''recent'', JArray (List.map tile_json (tiles r tip s)))]))))"

section \<open>Lemmas\<close>

lemma snd_report_block:
  "snd (snd (report_block fetch s tip h (r, w))) =
     snd (record_reported h (Option.bind (fetch h) block_hash) w)"
  by (simp add: report_block_def case_prod_beta Let_def)

definition is_event :: "str \<Rightarrow> json \<Rightarrow> bool" where
  "is_event name e \<longleftrightarrow> get_str ''event'' e = Some name"

lemma report_block_chain_block:
  assumes "Emit e \<in> set (fst (report_block fetch s tip h (r, w)))" "is_event ''chain_block'' e"
  shows "e = chain_block_event h (fetch h \<noteq> None) (Option.bind (fetch h) block_hash)
      (Option.bind (fetch h) tx_count) (Option.bind (fetch h) block_timestamp_ms)
      (mine_mark s h (fetch h \<noteq> None) (Option.bind (fetch h) block_hash)) \<and>
    remembered w h = None"
  using assms record_New_iff [of h "Option.bind (fetch h) block_hash" True w]
  by (auto simp: report_block_def case_prod_beta Let_def emit_chain_reorg_def is_event_def get_str_def
      record_reported_def split: block_record.splits)

lemma report_blocks_chain_block:
  assumes "Emit e \<in> set (fst (report_blocks fetch s tip hs st))" "is_event ''chain_block'' e"
  shows "\<exists>h \<in> set hs. e = chain_block_event h (fetch h \<noteq> None) (Option.bind (fetch h) block_hash)
      (Option.bind (fetch h) tx_count) (Option.bind (fetch h) block_timestamp_ms)
      (mine_mark s h (fetch h \<noteq> None) (Option.bind (fetch h) block_hash))"
  using assms
proof (induction fetch s tip hs st rule: report_blocks.induct)
  case (2 fetch s tip h hs st)
  obtain out st' where o: "report_block fetch s tip h st = (out, st')" by (metis surj_pair)
  show ?case
  proof (cases "Emit e \<in> set out")
    case True
    then show ?thesis
      using report_block_chain_block [of e fetch s tip h "fst st" "snd st"] 2(3) o by simp
  next
    case False
    then have "Emit e \<in> set (fst (report_blocks fetch s tip hs st'))"
      using 2(2) o by (simp add: case_prod_beta Let_def)
    then show ?thesis using 2(1) [OF o [symmetric] refl] 2(3) by auto
  qed
qed simp

lemma block_feed_chain_block:
  assumes "Emit e \<in> set (fst (block_feed fetch s tip st))" "is_event ''chain_block'' e"
  shows "\<exists>h. e = chain_block_event h (fetch h \<noteq> None) (Option.bind (fetch h) block_hash)
      (Option.bind (fetch h) tx_count) (Option.bind (fetch h) block_timestamp_ms)
      (mine_mark s h (fetch h \<noteq> None) (Option.bind (fetch h) block_hash))"
proof -
  from assms obtain hs st' where "Emit e \<in> set (fst (report_blocks fetch s tip hs st'))"
    by (auto simp: block_feed_def announce_gap_def case_prod_beta Let_def is_event_def get_str_def
        split: tip_advance.splits if_splits)
  from report_blocks_chain_block [OF this assms(2)] show ?thesis by blast
qed

text \<open>
  C34: A block is announced as ours only with proof. Whatever the node replies, a \<open>chain_block\<close>
  event that claims \<open>mine\<close> is about a height whose detail the node returned, and the disclosed
  hash is that of a submission the node accepted or, when the node disclosed no hash for that
  detail, the height is one of an accepted submission.
\<close>
theorem chain_block_mine_is_proven:
  assumes "Emit e \<in> set (fst (block_feed fetch s tip st))"
    and "is_event ''chain_block'' e" "get_bool ''mine'' e = Some True"
  shows "\<exists>h block. get_u64 ''height'' e = Some h \<and> fetch h = Some block \<and>
    get_str ''hash'' e = block_hash block \<and>
    (case block_hash block of
       Some hash \<Rightarrow> hash \<in> snd ` set (sealed_entries s)
     | None \<Rightarrow> h \<in> fst ` set (sealed_entries s))"
proof -
  from block_feed_chain_block [OF assms(1,2)] obtain h where
    e: "e = chain_block_event h (fetch h \<noteq> None) (Option.bind (fetch h) block_hash)
      (Option.bind (fetch h) tx_count) (Option.bind (fetch h) block_timestamp_ms)
      (mine_mark s h (fetch h \<noteq> None) (Option.bind (fetch h) block_hash))" by blast
  then have p: "proven (mine_mark s h (fetch h \<noteq> None) (Option.bind (fetch h) block_hash))"
    using assms(3) by (simp add: chain_block_event_def get_bool_def)
  show ?thesis
  proof (cases "fetch h")
    case None
    with p show ?thesis by (simp add: mine_mark_cases proven_def split: if_splits)
  next
    case (Some block)
    with p show ?thesis
      by (auto simp: e chain_block_event_def get_u64_def get_str_def mine_mark_cases proven_def
          split: option.splits if_splits)
  qed
qed

subsection \<open>The snapshot\<close>

lemma backlog_blocks_Some:
  assumes "mempool_histogram v = Some h"
  obtains ps where "backlog_blocks h = Some ps"
    "ps = [] \<longleftrightarrow> unat (hist_tx_count h) \<le> unat (hist_max_block_txs h)"
proof -
  have ok: "histogram_ok h" by (rule mempool_histogram_ok [OF assms])
  let ?ps = "List.map summary (drop 1
      (chunk_tail 24 (unat (hist_max_block_txs h)) (flatten (hist_buckets h))))"
  have b: "backlog_blocks h = Some ?ps"
    using packed_pending_blocks_chunks [OF ok] by (simp add: backlog_blocks_def MAX_BACKLOG_BLOCKS_def)
  have pos: "0 < unat (hist_max_block_txs h)" using ok by (simp add: histogram_ok_def unat_gt_0)
  have "length ?ps = min 24 (unat (backlog_depth h))" using pending_block_counts(1) [OF ok] by simp
  then have "?ps = [] \<longleftrightarrow> min 24 (unat (backlog_depth h)) = 0" by (simp only: length_0_conv [symmetric])
  also have "\<dots> \<longleftrightarrow> unat (backlog_depth h) = 0" by (simp only: min_def) simp
  also have "\<dots> \<longleftrightarrow> unat (hist_tx_count h) \<le> unat (hist_max_block_txs h)"
    using pos by (auto simp: unat_backlog_depth [OF ok] div_eq_0_iff)
  finally show ?thesis using that b by blast
qed

text \<open>
  Unavailable is not empty. The snapshot is always built, and its \<open>backlog\<close> is null exactly
  when the node served no valid fee histogram; otherwise it is an object with the exact depth
  whose list of pending blocks is empty exactly when every pending transaction fits in the
  next block.
\<close>
theorem backlog_unavailable_is_not_clear:
  "\<exists>e. block_flow_event tip th ttx fee reply r s = Some e \<and>
    (jget ''backlog'' e = Some JNull \<longleftrightarrow> Option.bind reply mempool_histogram = None) \<and>
    (case Option.bind reply mempool_histogram of
       None \<Rightarrow> True
     | Some h \<Rightarrow> \<exists>b bs. jget ''backlog'' e = Some b \<and>
         get_u64 ''depth_blocks'' b = Some (backlog_depth h) \<and> get_array ''blocks'' b = Some bs \<and>
         (bs = [] \<longleftrightarrow> unat (hist_tx_count h) \<le> unat (hist_max_block_txs h)))"
proof (cases "Option.bind reply mempool_histogram")
  case None
  then show ?thesis by (simp add: block_flow_event_def mempool_backlog_json_def)
next
  case (Some h)
  then obtain v where v: "mempool_histogram v = Some h" by (auto simp: Option.bind_eq_Some_conv)
  obtain ps where ps: "backlog_blocks h = Some ps"
    "ps = [] \<longleftrightarrow> unat (hist_tx_count h) \<le> unat (hist_max_block_txs h)"
    using backlog_blocks_Some [OF v] .
  obtain qs where "projected_blocks h = Some qs"
    using packed_pending_blocks_chunks [OF mempool_histogram_ok [OF v]]
    by (auto simp: projected_blocks_def)
  then show ?thesis
    using Some ps by (simp add: block_flow_event_def mempool_backlog_json_def get_u64_def get_array_def)
qed

subsection \<open>Backfill\<close>

lemma missing_insert_block:
  assumes "h \<in> set (window tip)" "height \<in> set (window tip)" "missing r height"
  shows "missing (insert_block tip height info r) h \<longleftrightarrow> missing r h \<and> h \<noteq> height"
  using assms by (auto simp: missing_def get_insert_block reorged_def)

lemma missing_backfill_blocks:
  assumes "\<And>h. fetch h \<noteq> None"
  shows "set hs \<subseteq> set (window tip) \<Longrightarrow> distinct hs \<Longrightarrow> list_all (missing r) hs \<Longrightarrow>
    h \<in> set (window tip) \<Longrightarrow>
    missing (fst (snd (backfill_blocks fetch tip hs (r, w)))) h \<longleftrightarrow> missing r h \<and> h \<notin> set hs"
proof (induction hs arbitrary: r w)
  case (Cons height hs)
  obtain block where b: "fetch height = Some block" using assms [of height] by blast
  let ?r = "insert_block tip height (block_info_of block) r"
  have m: "missing ?r k \<longleftrightarrow> missing r k \<and> k \<noteq> height" if "k \<in> set (window tip)" for k
    using Cons.prems by (intro missing_insert_block [OF that]) auto
  have "list_all (missing ?r) hs" using Cons.prems m by (auto simp: list_all_iff)
  then have "missing (fst (snd (backfill_blocks fetch tip hs (?r, w')))) h \<longleftrightarrow>
      missing ?r h \<and> h \<notin> set hs" for w'
    using Cons.prems by (intro Cons.IH) auto
  then show ?case using b m [OF Cons.prems(4)] by (auto simp: case_prod_beta Let_def)
qed simp

lemma distinct_window: "distinct (window tip)"
proof -
  have "inj_on (of_nat :: nat \<Rightarrow> u64) {unat (window_start tip) ..< Suc (unat tip)}"
  proof (rule inj_onI)
    fix m n assume "m \<in> {unat (window_start tip) ..< Suc (unat tip)}"
      "n \<in> {unat (window_start tip) ..< Suc (unat tip)}" and eq: "(of_nat m :: u64) = of_nat n"
    then have "m < 2 ^ 64" "n < 2 ^ 64" using unsigned_less [of tip, where ?'a = nat] by auto
    then show "m = n" using arg_cong [OF eq, of unat] by (simp add: unat_of_nat)
  qed
  then show ?thesis by (simp add: window_def distinct_map del: upt_Suc)
qed

definition backfill_cycle :: "fetch \<Rightarrow> u64 \<Rightarrow> feed_state \<Rightarrow> feed_state" where
  "backfill_cycle fetch tip st = snd (backfill fetch tip st)"

lemma filter_drop_taken:
  assumes "distinct xs" "L = List.filter P xs"
  shows "List.filter (\<lambda>x. P x \<and> x \<notin> set (take n L)) xs = drop n L"
proof -
  have "List.filter (\<lambda>x. P x \<and> x \<notin> set (take n L)) xs = List.filter (\<lambda>x. x \<notin> set (take n L)) L"
    by (simp add: assms(2))
  also have "\<dots> = List.filter (\<lambda>x. x \<notin> set (take n L)) (take n L @ drop n L)" by simp
  also have "\<dots> = drop n L"
  proof -
    have "distinct (take n L @ drop n L)" using assms by simp
    then have "set (take n L) \<inter> set (drop n L) = {}" unfolding distinct_append by blast
    then show ?thesis unfolding filter_append
      by (auto simp: filter_empty_conv filter_id_conv intro: append_self_conv2 [THEN iffD2])
  qed
  finally show ?thesis .
qed

lemma backfill_cycle_missing:
  assumes "\<And>h. fetch h \<noteq> None"
  shows "List.filter (missing (fst (backfill_cycle fetch tip st))) (window tip) =
    drop 4 (List.filter (missing (fst st)) (window tip))"
proof -
  obtain r w where st: "st = (r, w)" by (metis surj_pair)
  let ?L = "List.filter (missing r) (window tip)"
  have t: "refresh_targets r tip = take 4 ?L" by (rule refresh_targets_take)
  have "set (take 4 ?L) \<subseteq> set (window tip)" "distinct (take 4 ?L)" "list_all (missing r) (take 4 ?L)"
    using distinct_window [of tip] by (auto simp: list_all_iff dest: in_set_takeD)
  then have "missing (fst (backfill_cycle fetch tip st)) h \<longleftrightarrow> missing r h \<and> h \<notin> set (take 4 ?L)"
    if "h \<in> set (window tip)" for h
    using missing_backfill_blocks [OF assms, where hs = "take 4 ?L" and r = r and w = w and h = h] that
    by (simp add: backfill_cycle_def backfill_def st t)
  then have "List.filter (missing (fst (backfill_cycle fetch tip st))) (window tip) =
      List.filter (\<lambda>h. missing r h \<and> h \<notin> set (take 4 ?L)) (window tip)"
    by (intro filter_cong) auto
  then show ?thesis using filter_drop_taken [OF distinct_window refl] st by simp
qed

lemma backfill_cycles_missing:
  assumes "\<And>h. fetch h \<noteq> None"
  shows "List.filter (missing (fst ((backfill_cycle fetch tip ^^ n) st))) (window tip) =
    drop (4 * n) (List.filter (missing (fst st)) (window tip))"
  by (induction n) (simp_all add: backfill_cycle_missing [OF assms] add.commute)

text \<open>
  The strip fills. While the tip stands and the node serves the blocks it is asked for, nine
  refreshes fill the whole window from any cache, four heights at a time: every tile then has
  its block and nothing is left to fetch.
\<close>
theorem backfill_fills_window:
  assumes "\<And>h. fetch h \<noteq> None" "9 \<le> n"
  shows "refresh_targets (fst ((backfill_cycle fetch tip ^^ n) st)) tip = [] \<and>
    list_all (\<lambda>h. bt_get (blocks (fst ((backfill_cycle fetch tip ^^ n) st))) h \<noteq> None) (window tip)"
proof -
  have "length (List.filter (missing (fst st)) (window tip)) \<le> 33"
    using length_filter_le [of "missing (fst st)" "window tip"] by (simp add: length_window)
  then have "List.filter (missing (fst ((backfill_cycle fetch tip ^^ n) st))) (window tip) = []"
    using assms(2) by (simp add: backfill_cycles_missing [OF assms(1)])
  then show ?thesis
    by (auto simp: refresh_targets_take filter_empty_conv list_all_iff missing_def)
qed

subsection \<open>Witnesses\<close>

definition sample_block :: json where
  "sample_block = JObject [(''hash'', JString ''h''), (''txCount'', JNumber (PosInt 3))]"

lemma backfill_fills_window_witness:
  "refresh_targets (fst ((backfill_cycle (\<lambda>h. Some sample_block) 100 ^^ 9)
      (recent_default, tip_watch_default))) 100 = []"
  using backfill_fills_window [of "\<lambda>h. Some sample_block" 9 100 "(recent_default, tip_watch_default)"]
  by simp

definition sample_watch :: tip_watch where
  "sample_watch = \<lparr>last_tip = Some 11, needs_baseline = False, reported = []\<rparr>"

definition sample_sealed :: sealed_blocks where
  "sample_sealed = \<lparr>sealed_entries = [(12, ''h'')]\<rparr>"

definition sample_event :: json where
  "sample_event = chain_block_event 12 True (Some ''h'') (Some 3) None MarkHash"

lemma block_hash_sample: "block_hash sample_block = Some ''h''"
proof -
  have "trim ''h'' = ''h''" by code_simp
  then show ?thesis
    by (simp add: block_hash_def block_facet_def sample_block_def bounded_hash_def opt_filter_def
        MAX_HASH_CHARS_def)
qed

lemma sample_event_emitted:
  "Emit sample_event \<in> set (fst (block_feed (\<lambda>h. Some sample_block) sample_sealed 12
     (recent_default, sample_watch)))"
proof -
  have adv: "observe_tip 12 sample_watch = (Blocks [12] 0 12 11, sample_watch\<lparr>last_tip := Some 12\<rparr>)"
    by (simp add: observe_tip_def sample_watch_def MAX_GAP_BLOCKS_def heights_upto_def
        saturating_sub_def Let_def min_def upt_rec)
  have facts: "tx_count sample_block = Some 3" "block_timestamp_ms sample_block = None"
    by (simp_all add: tx_count_def block_timestamp_ms_def read_timestamp_def block_facet_def
        sample_block_def get_array_def get_u64_def)
  have "fst (record_reported 12 (Some ''h'') (sample_watch\<lparr>last_tip := Some 12\<rparr>)) = New"
    by (simp add: record_reported_def record_New_iff remembered_def sample_watch_def bt_get_def)
  moreover have "mine_mark sample_sealed 12 True (Some ''h'') = MarkHash"
    by (simp add: mine_mark_cases sample_sealed_def)
  ultimately show ?thesis
    by (simp add: block_feed_def adv report_block_def block_hash_sample facts sample_event_def
        case_prod_beta Let_def)
qed

lemma chain_block_mine_is_proven_witness:
  "get_bool ''mine'' sample_event = Some True \<and> ''h'' \<in> snd ` set (sealed_entries sample_sealed)"
proof -
  have mine: "get_bool ''mine'' sample_event = Some True" "is_event ''chain_block'' sample_event"
    by (simp_all add: sample_event_def chain_block_event_def get_bool_def proven_def is_event_def
        get_str_def)
  from chain_block_mine_is_proven [OF sample_event_emitted mine(2,1)]
  have "''h'' \<in> snd ` set (sealed_entries sample_sealed)" by (auto simp: block_hash_sample)
  with mine show ?thesis by simp
qed

end
