(* ===== verification/Wire.thy ===== *)
theory Wire
  imports Json
begin

text \<open>
  The header wire contract of \<open>src/wire.rs\<close>: the block header that a template's blob
  encodes, the identifier of a blob and the account-name rule. The codecs and the hash come
  from crates (borsh, hex, blake3) whose code is not in the repository; they are the fields of
  \<open>externals\<close>, an argument of every definition that calls them.
\<close>

section \<open>Header and external functions\<close>

record header =
  hd_height :: u64
  hd_prev_hash :: bytes
  hd_tx_root :: bytes
  hd_receipts_root :: bytes
  hd_state_root :: bytes
  hd_timestamp_ms :: u64
  hd_proposer :: str
  hd_version_bits :: u32
  hd_bits :: u32
  hd_nonce :: u64

record externals =
  hex_encode :: "bytes \<Rightarrow> str"
  hex_decode :: "str \<Rightarrow> bytes option"
  blake3_hash :: "bytes \<Rightarrow> bytes"
  decode_header :: "bytes \<Rightarrow> header option"

definition template_id_for_blob :: "externals \<Rightarrow> bytes \<Rightarrow> str" where
  "template_id_for_blob X blob = hex_encode X (blake3_hash X blob)"

section \<open>Account identifiers\<close>

datatype account_error =
    AccountLength nat
  | AccountEdgeSeparator
  | AccountBadCharacter
  | AccountAdjacentSeparators

definition separator :: "char \<Rightarrow> bool" where
  "separator c \<longleftrightarrow> c = CHR ''-'' \<or> c = CHR ''_'' \<or> c = CHR ''.''"

fun account_chars :: "bool \<Rightarrow> str \<Rightarrow> account_error + unit" where
  "account_chars previous_was_separator [] = Inr ()"
| "account_chars previous_was_separator (c # s) =
     (if \<not> (is_ascii_lowercase c \<or> is_ascii_digit c \<or> separator c)
      then Inl AccountBadCharacter
      else if separator c \<and> previous_was_separator then Inl AccountAdjacentSeparators
      else account_chars (separator c) s)"

definition validate_account_id :: "str \<Rightarrow> account_error + unit" where
  "validate_account_id account =
     (if \<not> (2 \<le> length account \<and> length account \<le> 64)
      then Inl (AccountLength (length account))
      else if separator (hd account) \<or> separator (last account)
      then Inl AccountEdgeSeparator
      else account_chars False account)"

section \<open>The account language\<close>

text \<open>Non-empty words of lower-case letters and digits, joined by single separators.\<close>

definition account_char :: "char \<Rightarrow> bool" where
  "account_char c \<longleftrightarrow> is_ascii_lowercase c \<or> is_ascii_digit c"

inductive account_body :: "str \<Rightarrow> bool" where
  word: "w \<noteq> [] \<Longrightarrow> list_all account_char w \<Longrightarrow> account_body w"
| join: "w \<noteq> [] \<Longrightarrow> list_all account_char w \<Longrightarrow> separator c \<Longrightarrow> account_body s \<Longrightarrow>
     account_body (w @ c # s)"

lemma separator_not_account_char: "separator c \<Longrightarrow> \<not> account_char c"
  by (auto simp: separator_def account_char_def is_ascii_lowercase_def is_ascii_digit_def)

lemma account_chars_word:
  "list_all account_char w \<Longrightarrow> w \<noteq> [] \<Longrightarrow>
   account_chars b (w @ s) = account_chars False s"
proof (induction w arbitrary: b)
  case Nil
  then show ?case by simp
next
  case (Cons c w)
  then have "account_char c" and w: "list_all account_char w" by simp_all
  then have c: "\<not> separator c" "is_ascii_lowercase c \<or> is_ascii_digit c"
    using separator_not_account_char by (auto simp: account_char_def)
  show ?case
  proof (cases "w = []")
    case True
    with c show ?thesis by simp
  next
    case False
    with Cons.IH w c show ?thesis by simp
  qed
qed

lemma account_body_nonempty: "account_body s \<Longrightarrow> s \<noteq> []"
  by (induction rule: account_body.induct) auto

lemma account_char_hd_last:
  "w \<noteq> [] \<Longrightarrow> list_all account_char w \<Longrightarrow> \<not> separator (hd w) \<and> \<not> separator (last w)"
  by (metis hd_in_set last_in_set list.pred_set separator_not_account_char)

lemma account_body_accepted:
  "account_body s \<Longrightarrow>
   account_chars False s = Inr () \<and> \<not> separator (hd s) \<and> \<not> separator (last s)"
proof (induction rule: account_body.induct)
  case (word w)
  then show ?case using account_chars_word [of w False "[]"] account_char_hd_last by simp
next
  case (join w c s)
  have ne: "s \<noteq> []" using join.hyps account_body_nonempty by blast
  obtain d r where s: "s = d # r" using ne by (cases s) auto
  have "account_chars True s = account_chars False s"
    using join.IH by (simp add: s)
  then show ?case
    using join account_chars_word [of w False "c # s"] account_char_hd_last [of w] ne by simp
qed

lemma account_chars_rest:
  "account_chars b s = Inr () \<Longrightarrow> \<forall>c \<in> set s. account_char c \<or> separator c"
  by (induction b s rule: account_chars.induct) (auto simp: account_char_def split: if_splits)

lemma accepted_account_body:
  "account_chars False s = Inr () \<Longrightarrow> s \<noteq> [] \<Longrightarrow> \<not> separator (hd s) \<Longrightarrow>
   \<not> separator (last s) \<Longrightarrow> account_body s"
proof (induction "length s" arbitrary: s rule: less_induct)
  case less
  let ?w = "takeWhile (\<lambda>c. \<not> separator c) s" and ?r = "dropWhile (\<lambda>c. \<not> separator c) s"
  have split: "s = ?w @ ?r" by simp
  have w: "?w \<noteq> []" using less.prems(2,3) by (cases s) auto
  have chars: "list_all account_char ?w"
    using account_chars_rest [OF less.prems(1)] set_takeWhileD
    unfolding list.pred_set by (metis (no_types, lifting))
  show ?case
  proof (cases ?r)
    case Nil
    with split have "s = ?w" by simp
    with w chars show ?thesis by (metis account_body.word)
  next
    case (Cons c r)
    have c: "separator c" using Cons by (metis (mono_tags) dropWhile_eq_Cons_conv)
    have "account_chars False (c # r) = Inr ()"
      using less.prems(1) account_chars_word [OF chars w, of False "c # r"] split Cons by metis
    then have rT: "account_chars True r = Inr ()" using c by (simp split: if_splits)
    have "last s = last (c # r)" using split Cons by (metis last_appendR list.distinct(1))
    then have rne: "r \<noteq> []" using c less.prems(4) by auto
    then have "last r = last s" using \<open>last s = last (c # r)\<close> by simp
    moreover obtain d r' where r: "r = d # r'" using rne by (cases r) auto
    moreover have "\<not> separator d" using rT r by (auto split: if_splits)
    moreover have "account_chars False r = Inr ()" using rT r by (simp split: if_splits)
    moreover have "length r < length s"
      by (metis Cons append_Cons length_append length_Cons less_add_Suc2 add_Suc_right le_add2
          le_less_trans lessI split)
    ultimately have "account_body r" using less.hyps [of r] less.prems(4) rne by simp
    then have "account_body (?w @ c # r)" using w chars c by (blast intro: account_body.join)
    with split Cons show ?thesis by metis
  qed
qed

lemma account_id_accepted_iff:
  "validate_account_id s = Inr () \<longleftrightarrow> 2 \<le> length s \<and> length s \<le> 64 \<and> account_body s"
proof
  assume "validate_account_id s = Inr ()"
  then have "2 \<le> length s" "length s \<le> 64" "\<not> separator (hd s)" "\<not> separator (last s)"
    "account_chars False s = Inr ()"
    by (auto simp: validate_account_id_def split: if_splits)
  then show "2 \<le> length s \<and> length s \<le> 64 \<and> account_body s"
    using accepted_account_body [of s] by fastforce
next
  assume "2 \<le> length s \<and> length s \<le> 64 \<and> account_body s"
  then show "validate_account_id s = Inr ()"
    using account_body_accepted [of s] by (simp add: validate_account_id_def)
qed

section \<open>Properties\<close>

text \<open>
  the account check accepts exactly the strings of 2 to 64 bytes that are words of
  lower-case letters and digits joined by single separators.
\<close>

theorem validate_account_id_iff:
  "validate_account_id s = Inr () \<longleftrightarrow> 2 \<le> length s \<and> length s \<le> 64 \<and> account_body s"
  by (rule account_id_accepted_iff)

end
