(* ===== verification/Target.thy ===== *)
theory Target
  imports Prelude Complex_Main
begin

unbundle bit_operations_syntax

text \<open>
  Proof-of-work targets (\<open>src/main.rs\<close>): \<open>target_from_compact\<close> decodes the compact
  \<open>nBits\<close> of a header into the 32-byte big-endian target, and
  \<open>expected_hashes_for_target\<close> turns a target into the expected number of hashes. The
  floating-point sum of the latter is modelled by exact reals.
\<close>

section \<open>The code\<close>

definition write_target_byte :: "nat \<Rightarrow> bytes \<Rightarrow> nat \<times> u8 \<Rightarrow> bytes" where
  "write_target_byte sz target ob =
     (let offset = fst ob; byte = snd ob in
      if sz \<le> 32 + offset
      then let index = 32 + offset - sz in
           if index < 32 then target[index := byte] else target
      else target)"

definition target_from_compact :: "u32 \<Rightarrow> bytes option" where
  "target_from_compact bits =
     (let sz = unat (drop_bit 24 bits);
          mantissa = bits AND 0x007fffff;
          target = replicate 32 0 in
      if bits AND 0x00800000 \<noteq> 0 then None
      else if mantissa = 0 then Some (replicate 32 0)
      else if sz > 34 \<or> (mantissa > 0xff \<and> sz > 33) \<or> (mantissa > 0xffff \<and> sz > 32)
      then None
      else if sz \<le> 3
      then let value = drop_bit (8 * (3 - sz)) mantissa in
           Some (target[29 := ucast (drop_bit 16 value), 30 := ucast (drop_bit 8 value),
                        31 := ucast value])
      else Some (foldl (write_target_byte sz) target
                   [(0, ucast (drop_bit 16 mantissa)), (1, ucast (drop_bit 8 mantissa)),
                    (2, ucast mantissa)]))"

text \<open>
  The success probability is summed from the inclusive \<open>+ 1\<close> (\<open>2^-256\<close>) and each byte
  at its weight \<open>2^(-8 * (index + 1))\<close>; the result is its reciprocal.
\<close>

fun success_probability :: "nat \<Rightarrow> bytes \<Rightarrow> real \<Rightarrow> real" where
  "success_probability index [] acc = acc"
| "success_probability index (b # bs) acc =
     success_probability (Suc index) bs (acc + real (unat b) * (1 / 2 ^ (8 * (index + 1))))"

definition expected_hashes_for_target :: "bytes \<Rightarrow> real" where
  "expected_hashes_for_target target = 1 / success_probability 0 target (1 / 2 ^ 256)"

section \<open>Big-endian values\<close>

definition be_value :: "bytes \<Rightarrow> nat" where
  "be_value bs = foldl (\<lambda>n b. 256 * n + unat b) 0 bs"

lemma foldl_be: "foldl (\<lambda>n b. 256 * n + unat b) a bs = a * 256 ^ length bs + be_value bs"
proof (induction bs arbitrary: a)
  case Nil
  then show ?case by (simp add: be_value_def)
next
  case (Cons b bs)
  show ?case
    using Cons [of "256 * a + unat b"] Cons [of "unat b"]
    by (simp add: be_value_def algebra_simps)
qed

lemma be_value_simps [simp]:
  "be_value [] = 0"
  "be_value (b # bs) = unat b * 256 ^ length bs + be_value bs"
  using foldl_be [of "unat b" bs] by (simp_all add: be_value_def)

lemma be_value_replicate_0 [simp]: "be_value (replicate n 0) = 0"
  by (induction n) auto

lemma be_value_bound: "be_value bs < 256 ^ length bs"
proof (induction bs)
  case Nil
  then show ?case by simp
next
  case (Cons b bs)
  have "unat b + 1 \<le> 256" using unsigned_less [of b, where ?'a = nat] by simp
  then have "(unat b + 1) * 256 ^ length bs \<le> 256 * 256 ^ length bs" by (rule mult_le_mono1)
  moreover have "be_value (b # bs) < (unat b + 1) * 256 ^ length bs" using Cons by simp
  ultimately show ?case by (simp only: list.size power_Suc add_0_right One_nat_def add_Suc_right)
qed

lemma be_value_update:
  "i < length bs \<Longrightarrow>
   be_value (bs[i := b]) + unat (bs ! i) * 256 ^ (length bs - 1 - i) =
   be_value bs + unat b * 256 ^ (length bs - 1 - i)"
proof (induction bs arbitrary: i)
  case Nil
  then show ?case by simp
next
  case (Cons c bs)
  then show ?case by (cases i) auto
qed

lemma be_value_set_zero:
  "i < length bs \<Longrightarrow> bs ! i = 0 \<Longrightarrow>
   be_value (bs[i := b]) = be_value bs + unat b * 256 ^ (length bs - 1 - i)"
  using be_value_update [of i bs b] by simp

section \<open>What a compact value means\<close>

definition compact_exponent :: "u32 \<Rightarrow> nat" where
  "compact_exponent bits = unat bits div 2 ^ 24"

definition compact_mantissa :: "u32 \<Rightarrow> nat" where
  "compact_mantissa bits = unat bits mod 2 ^ 23"

definition compact_negative :: "u32 \<Rightarrow> bool" where
  "compact_negative bits \<longleftrightarrow> odd (unat bits div 2 ^ 23)"

definition compact_value :: "u32 \<Rightarrow> nat" where
  "compact_value bits =
     (if compact_exponent bits \<le> 3
      then compact_mantissa bits div 256 ^ (3 - compact_exponent bits)
      else compact_mantissa bits * 256 ^ (compact_exponent bits - 3))"

lemma unat_mantissa: "unat (bits AND 0x007fffff :: u32) = compact_mantissa bits"
proof -
  have "(0x007fffff :: u32) = mask 23" by (simp add: mask_eq_exp_minus_1)
  then have "bits AND 0x007fffff = take_bit 23 bits" by (simp add: take_bit_eq_mask)
  then show ?thesis
    by (simp add: compact_mantissa_def take_bit_eq_mod unat_mod_distrib)
qed

lemma sign_bit: "(bits AND 0x00800000 :: u32) \<noteq> 0 \<longleftrightarrow> compact_negative bits"
proof -
  have "(0x00800000 :: u32) = 2 ^ 23" by simp
  then have "(bits AND 0x00800000) \<noteq> 0 \<longleftrightarrow> bit bits 23"
    by (simp only: and_exp_eq_0_iff_not_bit not_not)
  moreover have "bit bits 23 \<longleftrightarrow> bit (unat bits) 23"
    by (simp add: bit_unsigned_iff)
  ultimately show ?thesis by (simp add: compact_negative_def bit_iff_odd)
qed

lemma unat_exponent: "unat (drop_bit 24 (bits :: u32)) = compact_exponent bits"
  by (simp add: compact_exponent_def drop_bit_eq_div unat_div_distrib)

lemma compact_mantissa_bound: "compact_mantissa bits < 2 ^ 23"
  by (simp add: compact_mantissa_def)

lemma unat_shift: "unat (drop_bit n (w :: u32)) = unat w div 2 ^ n"
proof -
  have "take_bit LENGTH(32) (unat w) = unat w"
    using unsigned_less [of w, where ?'a = nat] by (rule take_bit_nat_eq_self)
  moreover have "unat (drop_bit n w) = drop_bit n (take_bit LENGTH(32) (unat w))"
    by (rule unsigned_drop_bit_eq)
  ultimately show ?thesis by (metis drop_bit_eq_div)
qed

lemma unat_byte_at:
  "unat (ucast (drop_bit n (w :: u32)) :: u8) = unat w div 2 ^ n mod 256"
proof -
  have "unat (ucast (drop_bit n w) :: u8) = take_bit 8 (unat (drop_bit n w))"
    by (simp add: unsigned_ucast_eq)
  then show ?thesis by (simp only: unat_shift take_bit_eq_mod) simp
qed

lemma unat_byte_0: "unat (ucast (w :: u32) :: u8) = unat w mod 256"
  using unat_byte_at [of 0 w] by simp

section \<open>Writing the three mantissa bytes\<close>

lemma write_target_byte_length [simp]: "length (write_target_byte sz t ob) = length t"
  by (simp add: write_target_byte_def Let_def)

lemma write_target_byte_nth:
  "(sz \<le> 32 + fst ob \<Longrightarrow> j \<noteq> 32 + fst ob - sz) \<Longrightarrow> write_target_byte sz t ob ! j = t ! j"
  by (cases "sz \<le> 32 + fst ob") (auto simp: write_target_byte_def Let_def)

lemma write_target_byte_value:
  assumes "length t = 32" "offset < sz"
    and "sz \<le> 32 + offset \<Longrightarrow> t ! (32 + offset - sz) = 0"
    and "32 + offset < sz \<Longrightarrow> b = 0"
  shows "be_value (write_target_byte sz t (offset, b)) =
    be_value t + unat b * 256 ^ (sz - 1 - offset)"
proof (cases "sz \<le> 32 + offset")
  case True
  then have "32 + offset - sz < 32" and "32 - 1 - (32 + offset - sz) = sz - 1 - offset"
    using assms(2) by linarith+
  with True assms(1,3) show ?thesis
    by (simp add: write_target_byte_def be_value_set_zero)
next
  case False
  with assms(4) show ?thesis by (simp add: write_target_byte_def)
qed

lemma mantissa_bytes:
  fixes m :: nat
  assumes "m < 2 ^ 23"
  shows "m = (m div 2 ^ 16 mod 256) * 65536 + (m div 2 ^ 8 mod 256) * 256 + m mod 256"
proof -
  have "m div 2 ^ 16 mod 256 = m div 65536" using assms by simp
  moreover have "m div 2 ^ 8 mod 256 = m div 256 mod 256" by simp
  moreover have "m div 65536 = m div 256 div 256" by (simp add: div_mult2_eq [symmetric])
  moreover have "m = 256 * (m div 256) + m mod 256" by simp
  moreover have "m div 256 = 256 * (m div 256 div 256) + m div 256 mod 256" by simp
  ultimately show ?thesis by linarith
qed

lemma large_target_value:
  fixes mant :: u32
  assumes sz: "4 \<le> sz" "sz \<le> 34" and m: "unat mant < 2 ^ 23"
    and fit: "sz = 34 \<Longrightarrow> unat mant \<le> 0xff" "33 \<le> sz \<Longrightarrow> unat mant \<le> 0xffff"
  defines "t \<equiv> foldl (write_target_byte sz) (replicate 32 0)
     [(0, ucast (drop_bit 16 mant)), (1, ucast (drop_bit 8 mant)), (2, ucast mant)]"
  shows "length t = 32 \<and> be_value t = unat mant * 256 ^ (sz - 3)"
proof -
  let ?m = "unat mant"
  let ?b0 = "ucast (drop_bit 16 mant) :: u8" and ?b1 = "ucast (drop_bit 8 mant) :: u8"
    and ?b2 = "ucast mant :: u8"
  let ?t0 = "replicate 32 0 :: bytes"
  let ?t1 = "write_target_byte sz ?t0 (0, ?b0)"
  let ?t2 = "write_target_byte sz ?t1 (1, ?b1)"
  let ?t3 = "write_target_byte sz ?t2 (2, ?b2)"
  have bytes: "unat ?b0 = ?m div 2 ^ 16 mod 256" "unat ?b1 = ?m div 2 ^ 8 mod 256"
    "unat ?b2 = ?m mod 256"
    by (rule unat_byte_at unat_byte_0)+
  have b0: "?b0 = 0" if "33 \<le> sz"
    using fit(2) that bytes(1) by (simp add: word_unat_eq_iff del: unsigned_ucast_eq)
  have b1: "?b1 = 0" if "34 \<le> sz"
    using fit(1) sz that bytes(2) by (simp add: word_unat_eq_iff del: unsigned_ucast_eq)
  have z1: "?t1 ! (33 - sz) = 0" if "sz \<le> 33"
    using sz that by (subst write_target_byte_nth) auto
  have z2: "?t2 ! (34 - sz) = 0"
  proof -
    have "?t2 ! (34 - sz) = ?t1 ! (34 - sz)"
      by (rule write_target_byte_nth) (use sz in auto)
    also have "\<dots> = ?t0 ! (34 - sz)"
      by (rule write_target_byte_nth) (use sz in auto)
    finally show ?thesis using sz by simp
  qed
  have v1: "be_value ?t1 = unat ?b0 * 256 ^ (sz - 1)"
    using sz b0 by (subst write_target_byte_value) auto
  have v2: "be_value ?t2 = be_value ?t1 + unat ?b1 * 256 ^ (sz - 2)"
    using sz b1 z1 by (subst write_target_byte_value) auto
  have v3: "be_value ?t3 = be_value ?t2 + unat ?b2 * 256 ^ (sz - 3)"
    using sz z2 by (subst write_target_byte_value) auto
  have p: "256 ^ (sz - 1) = 65536 * (256 :: nat) ^ (sz - 3)" "256 ^ (sz - 2) = 256 * (256 :: nat) ^ (sz - 3)"
  proof -
    have "sz - 1 = 2 + (sz - 3)" "sz - 2 = 1 + (sz - 3)" using sz by linarith+
    then show "256 ^ (sz - 1) = 65536 * (256 :: nat) ^ (sz - 3)"
      "256 ^ (sz - 2) = 256 * (256 :: nat) ^ (sz - 3)"
      by (simp_all only: power_add) simp_all
  qed
  have "be_value ?t3 = (unat ?b0 * 65536 + unat ?b1 * 256 + unat ?b2) * 256 ^ (sz - 3)"
    unfolding v3 v2 v1 p by (simp add: algebra_simps)
  also have "\<dots> = ?m * 256 ^ (sz - 3)"
    by (simp only: bytes mantissa_bytes [OF m, symmetric])
  finally show ?thesis by (simp add: t_def)
qed

lemma small_target_value:
  fixes v :: u32
  assumes "unat v < 2 ^ 23"
  defines "t \<equiv> (replicate 32 0)[29 := ucast (drop_bit 16 v), 30 := ucast (drop_bit 8 v),
     31 := ucast v]"
  shows "length t = 32 \<and> be_value t = unat v"
proof -
  let ?b0 = "ucast (drop_bit 16 v) :: u8" and ?b1 = "ucast (drop_bit 8 v) :: u8"
    and ?b2 = "ucast v :: u8"
  let ?t0 = "replicate 32 0 :: bytes"
  have "be_value (?t0[29 := ?b0]) = unat ?b0 * 65536"
    by (subst be_value_set_zero) auto
  moreover have "be_value (?t0[29 := ?b0, 30 := ?b1]) = be_value (?t0[29 := ?b0]) + unat ?b1 * 256"
    by (subst be_value_set_zero) auto
  moreover have "be_value t = be_value (?t0[29 := ?b0, 30 := ?b1]) + unat ?b2"
    unfolding t_def by (subst be_value_set_zero) auto
  ultimately have "be_value t = unat ?b0 * 65536 + unat ?b1 * 256 + unat ?b2" by linarith
  also have "\<dots> = unat v"
    by (simp only: unat_byte_at [of 16 v] unat_byte_at [of 8 v] unat_byte_0 [of v]
        mantissa_bytes [OF assms(1), symmetric])
  finally show ?thesis by (simp add: t_def)
qed

lemma compact_value_small: "compact_exponent bits \<le> 3 \<Longrightarrow> compact_value bits < 2 ^ 23"
  using compact_mantissa_bound [of bits]
  by (simp add: compact_value_def) (meson div_le_dividend le_less_trans)

lemma compact_value_large:
  assumes "4 \<le> compact_exponent bits" "compact_mantissa bits \<noteq> 0"
  shows "compact_value bits < 2 ^ 256 \<longleftrightarrow>
    \<not> (compact_exponent bits > 34 \<or> (compact_mantissa bits > 0xff \<and> compact_exponent bits > 33) \<or>
       (compact_mantissa bits > 0xffff \<and> compact_exponent bits > 32))"
proof -
  let ?m = "compact_mantissa bits" and ?e = "compact_exponent bits"
  have m: "?m < 2 ^ 23" by (rule compact_mantissa_bound)
  have v: "compact_value bits = ?m * 256 ^ (?e - 3)" using assms by (simp add: compact_value_def)
  have two: "(2 :: nat) ^ 256 = 256 ^ 32" by simp
  consider "?e \<le> 32" | "?e = 33" | "?e = 34" | "35 \<le> ?e" by linarith
  then show ?thesis
  proof cases
    case 1
    then have "(256 :: nat) ^ (?e - 3) \<le> 256 ^ 29" by (intro power_increasing) auto
    then have "?m * 256 ^ (?e - 3) \<le> 2 ^ 23 * 256 ^ 29" using m by (intro mult_le_mono) auto
    also have "\<dots> < (2 :: nat) ^ 256" by simp
    finally show ?thesis using 1 by (simp add: v)
  next
    case 4
    then have "(256 :: nat) ^ 32 \<le> 256 ^ (?e - 3)" by (intro power_increasing) auto
    also have "\<dots> \<le> ?m * 256 ^ (?e - 3)" using assms(2) by simp
    finally have "2 ^ 256 \<le> compact_value bits" unfolding v two .
    then show ?thesis using 4 by simp
  qed (auto simp: v)
qed

lemma target_from_compact_cases:
  "case target_from_compact bits of
     None \<Rightarrow> compact_negative bits \<or> 2 ^ 256 \<le> compact_value bits
   | Some t \<Rightarrow> \<not> compact_negative bits \<and> length t = 32 \<and> be_value t = compact_value bits"
proof -
  let ?mant = "bits AND 0x007fffff :: u32" and ?e = "compact_exponent bits"
  let ?m = "compact_mantissa bits"
  have cmp: "?mant = 0 \<longleftrightarrow> ?m = 0" "?mant > 0xff \<longleftrightarrow> ?m > 0xff" "?mant > 0xffff \<longleftrightarrow> ?m > 0xffff"
    by (simp_all add: word_less_nat_alt word_unat_eq_iff flip: unat_mantissa)
  show ?thesis
  proof (cases "compact_negative bits")
    case True
    then show ?thesis by (simp add: target_from_compact_def sign_bit)
  next
    case nonneg: False
    consider (zero) "?m = 0" | (small) "?m \<noteq> 0" "?e \<le> 3" | (large) "?m \<noteq> 0" "4 \<le> ?e"
      by linarith
    then show ?thesis
    proof cases
      case zero
      then show ?thesis
        using nonneg by (simp add: target_from_compact_def sign_bit cmp compact_value_def)
    next
      case small
      let ?v = "drop_bit (8 * (3 - ?e)) ?mant"
      have "unat ?v = ?m div 2 ^ (8 * (3 - ?e))"
        using unat_shift [of "8 * (3 - ?e)" ?mant] by (simp add: unat_mantissa)
      then have v: "unat ?v = compact_value bits"
        using small by (simp add: compact_value_def power_mult)
      then have "unat ?v < 2 ^ 23" using compact_value_small small by simp
      note t = small_target_value [OF this]
      have res: "target_from_compact bits = Some ((replicate 32 0)
          [29 := ucast (drop_bit 16 ?v), 30 := ucast (drop_bit 8 ?v), 31 := ucast ?v])"
        using small nonneg by (simp add: target_from_compact_def sign_bit cmp unat_exponent Let_def)
      show ?thesis unfolding res option.case using t v nonneg by metis
    next
      case large
      let ?over = "?e > 34 \<or> (?m > 0xff \<and> ?e > 33) \<or> (?m > 0xffff \<and> ?e > 32)"
      show ?thesis
      proof (cases ?over)
        case True
        then have "target_from_compact bits = None"
          using large nonneg by (simp add: target_from_compact_def sign_bit cmp unat_exponent)
        then show ?thesis using True compact_value_large [of bits] large by simp
      next
        case False
        have res: "target_from_compact bits = Some (foldl (write_target_byte ?e) (replicate 32 0)
          [(0, ucast (drop_bit 16 ?mant)), (1, ucast (drop_bit 8 ?mant)), (2, ucast ?mant)])"
          using False large nonneg
          by (simp add: target_from_compact_def sign_bit cmp unat_exponent Let_def)
        have "unat ?mant < 2 ^ 23" using compact_mantissa_bound by (simp add: unat_mantissa)
        from large_target_value [OF large(2) _ this] False show ?thesis
          using nonneg large unfolding res by (auto simp: unat_mantissa compact_value_def)
      qed
    qed
  qed
qed

section \<open>Properties\<close>

text \<open>
  C35: the compact difficulty of a header decodes to the 32-byte big-endian target with
  exactly the value mantissa times 256 to the exponent minus three (rounded down when the
  exponent is below three), and is refused exactly when the sign bit is set or that value does
  not fit in 256 bits: no accepted header commits to a target other than the one decoded.
\<close>

theorem target_from_compact_exact:
  "case target_from_compact bits of
     None \<Rightarrow> compact_negative bits \<or> 2 ^ 256 \<le> compact_value bits
   | Some t \<Rightarrow> \<not> compact_negative bits \<and> length t = 32 \<and> be_value t = compact_value bits"
  by (rule target_from_compact_cases)

lemma success_probability_eq:
  "success_probability i bs acc = acc + real (be_value bs) / 256 ^ (i + length bs)"
proof (induction i bs acc rule: success_probability.induct)
  case (1 index acc)
  then show ?case by simp
next
  case (2 index b bs acc)
  have p: "(2 :: real) ^ (8 * (index + 1)) = 256 ^ (index + 1)"
    by (subst power_mult) simp
  show ?case
    unfolding success_probability.simps unfolding 2 unfolding p
    by (simp add: power_add add_divide_distrib)
qed

lemma expected_hashes_value:
  assumes "length target = 32"
  shows "expected_hashes_for_target target = 2 ^ 256 / (real (be_value target) + 1)"
proof -
  have "(256 :: real) ^ 32 = 2 ^ 256" by simp
  then have "success_probability 0 target (1 / 2 ^ 256) = (real (be_value target) + 1) / 2 ^ 256"
    using assms by (simp add: success_probability_eq add_divide_distrib)
  then show ?thesis by (simp only: expected_hashes_for_target_def) simp
qed

text \<open>
  over exact arithmetic the reported expectation for a 32-byte target is 2^256 divided by
  the target's value plus one, the mean number of uniform 256-bit digests up to the first one
  at or below the target.
\<close>

theorem expected_hashes_exact:
  assumes "length target = 32"
  shows "expected_hashes_for_target target = 2 ^ 256 / (real (be_value target) + 1)"
  using assms by (rule expected_hashes_value)

theorem expected_hashes_exact_witness:
  "length (replicate 32 0 :: bytes) = 32 \<and> expected_hashes_for_target (replicate 32 0) = 2 ^ 256"
proof -
  have h: "length (replicate 32 0 :: bytes) = 32" by simp
  show ?thesis
    using expected_hashes_exact [OF h] by (simp only: be_value_replicate_0 h) simp
qed

end
