(* ===== verification/Job.thy ===== *)
theory Job
  imports Wire Target
begin

text \<open>
  Mining jobs (\<open>src/main.rs\<close>): the \<open>Job\<close> record, its two constructors
  (\<open>from_stratum\<close> for a pool's job, \<open>from_rpc\<close> for a node's block template), the coinbase
  and submission checks of direct mining, and the nonce bytes. Every refusal is a constructor
  of \<open>job_error\<close>, in the order of the code's checks. A \<open>usize\<close> is a 64-bit word, so
  the conversion of an offset never fails.
\<close>

section \<open>Data\<close>

datatype pow_algo = Sha256d | RandomX

record job =
  job_id :: str
  job_blob :: bytes
  job_nonce_offset :: nat
  job_target :: bytes
  job_block_target :: "bytes option"
  job_algo :: pow_algo
  job_pow_key :: bytes
  job_height :: u64
  job_timestamp_ms :: "u64 option"
  job_coinbase :: "str option"

datatype job_error =
    MissingString str
  | MissingInteger str
  | JobIdTooLong
  | InvalidHex str
  | BlobLength nat
  | NonceSizeNot8
  | NonceOffset nat nat
  | TargetLength str nat
  | UnsupportedAlgorithm str
  | EmptySeed
  | PowKeyLength nat
  | EmptyProposer
  | InvalidProposer account_error
  | InvalidHeader
  | ProposerMismatch
  | HeightMismatch
  | TimestampMismatch
  | VersionBitsMismatch
  | BitsMismatch
  | InvalidCompactBits
  | TargetMismatch
  | TemplateIdMismatch

definition MAX_BLOB_BYTES :: nat where "MAX_BLOB_BYTES = 1024 * 1024"

section \<open>Field readers\<close>

definition stratum_string :: "json \<Rightarrow> str \<Rightarrow> job_error + str" where
  "stratum_string v name = ok_or (opt_filter (\<lambda>s. s \<noteq> []) (get_str name v)) (MissingString name)"

definition rpc_string :: "json \<Rightarrow> str \<Rightarrow> job_error + str" where
  "rpc_string v name = ok_or (get_str name v) (MissingString name)"

definition job_number :: "json \<Rightarrow> str \<Rightarrow> job_error + u64" where
  "job_number v name = ok_or (get_u64 name v) (MissingInteger name)"

definition decode_hex :: "externals \<Rightarrow> str \<Rightarrow> str \<Rightarrow> job_error + bytes" where
  "decode_hex X name s = ok_or (hex_decode X s) (InvalidHex name)"

definition decode_target :: "externals \<Rightarrow> str \<Rightarrow> str \<Rightarrow> job_error + bytes" where
  "decode_target X name s =
     and_then (decode_hex X name s) (\<lambda>b.
     and_then (ensure (length b = 32) (TargetLength name (length b))) (\<lambda>_. Inr b))"

text \<open>\<open>network_target_full\<close> if the key is present, else \<open>network_target\<close>; only a string
  is decoded, and a string that does not decode refuses the job.\<close>

definition stratum_block_target :: "externals \<Rightarrow> json \<Rightarrow> job_error + bytes option" where
  "stratum_block_target X v =
     (case Option.bind (or_else (jget ''network_target_full'' v) (jget ''network_target'' v)) as_str of
        None \<Rightarrow> Inr None
      | Some encoded \<Rightarrow> and_then (decode_target X ''network_target'' encoded) (\<lambda>t. Inr (Some t)))"

definition stratum_algo :: "str \<Rightarrow> job_error + pow_algo" where
  "stratum_algo s =
     (if s = ''rx/0'' then Inr RandomX else if s = ''sha256d'' then Inr Sha256d
      else Inl (UnsupportedAlgorithm s))"

definition rpc_algo :: "str \<Rightarrow> job_error + pow_algo" where
  "rpc_algo s =
     (if s = ''RandomX'' then Inr RandomX else if s = ''Sha256d'' then Inr Sha256d
      else Inl (UnsupportedAlgorithm s))"

definition blob_length_ok :: "bytes \<Rightarrow> bool" where
  "blob_length_ok blob \<longleftrightarrow> \<not> (length blob < 8 \<or> length blob > MAX_BLOB_BYTES)"

section \<open>Constructors\<close>

definition from_stratum :: "externals \<Rightarrow> json \<Rightarrow> job_error + job" where
  "from_stratum X v =
     and_then (stratum_string v ''job_id'') (\<lambda>id.
     and_then (ensure (\<not> length id > 256) JobIdTooLong) (\<lambda>_.
     and_then (and_then (stratum_string v ''blob'') (decode_hex X ''blob'')) (\<lambda>blob.
     and_then (ensure (blob_length_ok blob) (BlobLength (length blob))) (\<lambda>_.
     and_then (job_number v ''nonce_offset'') (\<lambda>nonce_offset.
     and_then (job_number v ''nonce_size'') (\<lambda>nonce_size.
     and_then (ensure (nonce_size = 8) NonceSizeNot8) (\<lambda>_.
     and_then (ensure (unat nonce_offset = length blob - 8)
       (NonceOffset (unat nonce_offset) (length blob))) (\<lambda>_.
     and_then (and_then (stratum_string v ''target_full'') (decode_target X ''target_full'')) (\<lambda>target.
     and_then (stratum_block_target X v) (\<lambda>block_target.
     and_then (and_then (stratum_string v ''algo'') stratum_algo) (\<lambda>algo.
     and_then (ok_or (get_str ''seed_hash'' v) (MissingString ''seed_hash'')) (\<lambda>seed.
     and_then (decode_hex X ''seed_hash'' seed) (\<lambda>pow_key.
     and_then (ensure (\<not> (algo = RandomX \<and> pow_key = [])) EmptySeed) (\<lambda>_.
     and_then (job_number v ''height'') (\<lambda>height.
     Inr \<lparr>job_id = id, job_blob = blob, job_nonce_offset = unat nonce_offset,
          job_target = target, job_block_target = block_target, job_algo = algo,
          job_pow_key = pow_key, job_height = height, job_timestamp_ms = None,
          job_coinbase = opt_filter (\<lambda>a. a \<noteq> [])
            (Option.bind (or_else (jget ''coinbase'' v) (jget ''coinbase_account'' v)) as_str)\<rparr>
     )))))))))))))))"

text \<open>The optional \<open>versionBits\<close> and \<open>bits\<close> of a template must repeat the header's.\<close>

definition bits_agree :: "u64 option \<Rightarrow> u32 \<Rightarrow> bool" where
  "bits_agree field hdr =
     (case field of None \<Rightarrow> True
      | Some b \<Rightarrow> \<not> (unat b > 0xffffffff \<or> hdr \<noteq> ucast b))"

text \<open>The header checks of \<open>from_rpc\<close>, from the decoded header to the template id.\<close>

definition authenticate_header ::
  "externals \<Rightarrow> json \<Rightarrow> bytes \<Rightarrow> str \<Rightarrow> str \<Rightarrow> u64 \<Rightarrow> u64 \<Rightarrow> bytes \<Rightarrow> job_error + unit" where
  "authenticate_header X v blob template_id coinbase height timestamp_ms target =
     and_then (ok_or (decode_header X blob) InvalidHeader) (\<lambda>h.
     and_then (ensure (hd_proposer h = coinbase) ProposerMismatch) (\<lambda>_.
     and_then (ensure (hd_height h = height) HeightMismatch) (\<lambda>_.
     and_then (ensure (hd_timestamp_ms h = timestamp_ms) TimestampMismatch) (\<lambda>_.
     and_then (ensure (bits_agree (get_u64 ''versionBits'' v) (hd_version_bits h))
       VersionBitsMismatch) (\<lambda>_.
     and_then (ensure (bits_agree (get_u64 ''bits'' v) (hd_bits h)) BitsMismatch) (\<lambda>_.
     and_then (ok_or (target_from_compact (hd_bits h)) InvalidCompactBits) (\<lambda>committed_target.
     and_then (ensure (target = committed_target) TargetMismatch) (\<lambda>_.
     ensure (template_id_for_blob X blob = template_id) TemplateIdMismatch))))))))"

definition from_rpc :: "externals \<Rightarrow> json \<Rightarrow> job_error + job" where
  "from_rpc X v =
     and_then (rpc_string v ''templateId'') (\<lambda>template_id.
     and_then (job_number v ''height'') (\<lambda>height.
     and_then (job_number v ''timestampMs'') (\<lambda>timestamp_ms.
     and_then (and_then (rpc_string v ''blob'') (decode_hex X ''blob'')) (\<lambda>blob.
     and_then (ensure (blob_length_ok blob) (BlobLength (length blob))) (\<lambda>_.
     and_then (job_number v ''nonceOffset'') (\<lambda>nonce_offset.
     and_then (ensure (unat nonce_offset = length blob - 8)
       (NonceOffset (unat nonce_offset) (length blob))) (\<lambda>_.
     and_then (and_then (rpc_string v ''target'') (decode_target X ''target'')) (\<lambda>target.
     and_then (and_then (rpc_string v ''powAlgo'') rpc_algo) (\<lambda>algo.
     and_then (and_then (rpc_string v ''powKey'') (decode_hex X ''powKey'')) (\<lambda>pow_key.
     and_then (ensure (length pow_key = 32) (PowKeyLength (length pow_key))) (\<lambda>_.
     and_then (rpc_string v ''proposer'') (\<lambda>proposer.
     let coinbase = trim proposer in
     and_then (ensure (coinbase \<noteq> []) EmptyProposer) (\<lambda>_.
     and_then (map_err InvalidProposer (validate_account_id coinbase)) (\<lambda>_.
     and_then (authenticate_header X v blob template_id coinbase height timestamp_ms target) (\<lambda>_.
     Inr \<lparr>job_id = template_id, job_blob = blob, job_nonce_offset = unat nonce_offset,
          job_target = target, job_block_target = Some target, job_algo = algo,
          job_pow_key = pow_key, job_height = height, job_timestamp_ms = Some timestamp_ms,
          job_coinbase = Some coinbase\<rparr>
     )))))))))))))))"

section \<open>The coinbase a miner asks for\<close>

definition requested_coinbase :: "str \<Rightarrow> str option" where
  "requested_coinbase user =
     (let user = trim user in
      if user \<noteq> [] \<and> user \<noteq> ''xus-miner'' then Some user else None)"

datatype coinbase_error = CoinbaseUndisclosed | CoinbaseMismatch str str

definition validate_rpc_coinbase :: "str option \<Rightarrow> job \<Rightarrow> coinbase_error + unit" where
  "validate_rpc_coinbase requested j =
     (case job_coinbase j of
        None \<Rightarrow> Inl CoinbaseUndisclosed
      | Some actual \<Rightarrow>
          (case requested of
             None \<Rightarrow> Inr ()
           | Some expected \<Rightarrow>
               if actual \<noteq> expected then Inl (CoinbaseMismatch expected actual) else Inr ()))"

section \<open>The node's reply to a submission\<close>

datatype submission_error =
    SubmissionRefused "str option"
  | SubmissionNoAccepted
  | SubmissionNoHeight
  | SubmissionHeight u64
  | SubmissionNoHash
  | SubmissionHash str

definition validate_rpc_submission ::
  "externals \<Rightarrow> json \<Rightarrow> job \<Rightarrow> bytes \<Rightarrow> submission_error + unit" where
  "validate_rpc_submission X result j sealed_blob =
     (case get_bool ''accepted'' result of
        Some False \<Rightarrow> Inl (SubmissionRefused (get_str ''error'' result))
      | None \<Rightarrow> Inl SubmissionNoAccepted
      | Some True \<Rightarrow>
          and_then (ok_or (get_u64 ''height'' result) SubmissionNoHeight) (\<lambda>height.
          and_then (ensure (height = job_height j) (SubmissionHeight height)) (\<lambda>_.
          and_then (ok_or (get_str ''hash'' result) SubmissionNoHash) (\<lambda>hash.
          ensure (hash = template_id_for_blob X sealed_blob) (SubmissionHash hash)))))"

section \<open>Nonce bytes\<close>

fun le_bytes :: "nat \<Rightarrow> nat \<Rightarrow> bytes" where
  "le_bytes 0 x = []"
| "le_bytes (Suc k) x = of_nat x # le_bytes k (x div 256)"

definition nonce_le :: "u64 \<Rightarrow> bytes" where
  "nonce_le nonce = le_bytes 8 (unat nonce)"

definition nonce_wire :: "externals \<Rightarrow> u64 \<Rightarrow> str" where
  "nonce_wire X nonce = hex_encode X (nonce_le nonce)"

text \<open>\<open>blob[offset..offset + 8].copy_from_slice(...)\<close>: \<open>None\<close> is the slice panic.\<close>

definition write_nonce :: "bytes \<Rightarrow> nat \<Rightarrow> u64 \<Rightarrow> bytes option" where
  "write_nonce blob offset nonce =
     (if offset + 8 \<le> length blob
      then Some (take offset blob @ nonce_le nonce @ drop (offset + 8) blob) else None)"

section \<open>Little-endian nonces\<close>

definition le_value :: "bytes \<Rightarrow> nat" where
  "le_value bs = foldr (\<lambda>b n. unat b + 256 * n) bs 0"

lemma le_value_simps [simp]:
  "le_value [] = 0" "le_value (b # bs) = unat b + 256 * le_value bs"
  by (simp_all add: le_value_def)

lemma length_le_bytes [simp]: "length (le_bytes k x) = k"
  by (induction k arbitrary: x) auto

lemma le_value_le_bytes: "le_value (le_bytes k x) = x mod 256 ^ k"
proof (induction k arbitrary: x)
  case 0
  then show ?case by simp
next
  case (Suc k)
  have "unat (of_nat x :: u8) = x mod 256" by (simp add: unat_of_nat)
  then show ?case using Suc [of "x div 256"] mod_mult2_eq [of x 256 "256 ^ k"] by simp
qed

lemma length_nonce_le [simp]: "length (nonce_le n) = 8"
  by (simp add: nonce_le_def)

lemma le_value_nonce_le [simp]: "le_value (nonce_le n) = unat n"
proof -
  have "unat n < 256 ^ 8" using unsigned_less [of n, where ?'a = nat] by simp
  then show ?thesis by (simp only: nonce_le_def le_value_le_bytes mod_less)
qed

lemma nonce_le_inject: "nonce_le m = nonce_le n \<Longrightarrow> m = n"
  by (metis le_value_nonce_le word_unat_eq_iff)

section \<open>Well-formed jobs\<close>

definition well_formed_job :: "job \<Rightarrow> bool" where
  "well_formed_job j \<longleftrightarrow>
     8 \<le> length (job_blob j) \<and> length (job_blob j) \<le> MAX_BLOB_BYTES \<and>
     job_nonce_offset j = length (job_blob j) - 8 \<and>
     length (job_target j) = 32 \<and>
     (\<forall>t \<in> set_option (job_block_target j). length t = 32) \<and>
     (job_algo j = RandomX \<longrightarrow> job_pow_key j \<noteq> [])"

lemma decode_target_Inr: "decode_target X name s = Inr t \<Longrightarrow> length t = 32"
  by (auto simp: decode_target_def result_simps)

lemma stratum_block_target_Inr:
  "stratum_block_target X v = Inr bt \<Longrightarrow> t \<in> set_option bt \<Longrightarrow> length t = 32"
  by (auto simp: stratum_block_target_def result_simps split: option.splits dest: decode_target_Inr)

lemma blob_length_okD: "blob_length_ok b \<Longrightarrow> 8 \<le> length b \<and> length b \<le> MAX_BLOB_BYTES"
  by (auto simp: blob_length_ok_def)

lemma from_stratum_well_formed: "from_stratum X v = Inr j \<Longrightarrow> well_formed_job j"
  by (auto simp: from_stratum_def result_simps well_formed_job_def
      dest: decode_target_Inr stratum_block_target_Inr blob_length_okD)

lemma from_rpc_well_formed: "from_rpc X v = Inr j \<Longrightarrow> well_formed_job j"
  by (auto simp: from_rpc_def Let_def result_simps well_formed_job_def
      dest: decode_target_Inr blob_length_okD)

text \<open>What a source of work promises its consumer, the sealing loop.\<close>

locale work_source =
  fixes parse :: "json \<Rightarrow> job_error + job"
  assumes parse_well_formed: "parse v = Inr j \<Longrightarrow> well_formed_job j"
begin

lemma nonce_write_total:
  assumes "parse v = Inr j" and "length blob = length (job_blob j)"
  shows "write_nonce blob (job_nonce_offset j) n =
    Some (take (length blob - 8) blob @ nonce_le n)"
  using parse_well_formed [OF assms(1)] assms(2) by (simp add: well_formed_job_def write_nonce_def)

lemma nonce_write_keeps_shape:
  assumes "parse v = Inr j" and "length blob = length (job_blob j)"
    and "write_nonce blob (job_nonce_offset j) n = Some blob'"
  shows "length blob' = length blob"
    "take (job_nonce_offset j) blob' = take (job_nonce_offset j) blob"
    "le_value (drop (job_nonce_offset j) blob') = unat n"
  using parse_well_formed [OF assms(1)] nonce_write_total [OF assms(1,2), of n] assms(2,3)
  by (auto simp: well_formed_job_def)

lemma distinct_nonces_distinct_blobs:
  assumes "parse v = Inr j" and "length blob = length (job_blob j)"
    and "write_nonce blob (job_nonce_offset j) m = Some b"
    and "write_nonce blob (job_nonce_offset j) n = Some b"
  shows "m = n"
  using nonce_write_total [OF assms(1,2)] assms(3,4) by (auto intro: nonce_le_inject)

end

interpretation stratum: work_source "from_stratum X" for X
  by unfold_locales (rule from_stratum_well_formed)

interpretation rpc: work_source "from_rpc X" for X
  by unfold_locales (rule from_rpc_well_formed)

lemma authenticate_header_Inr_iff:
  "authenticate_header X v blob tid coinbase height ts target = Inr u \<longleftrightarrow>
   (\<exists>h. decode_header X blob = Some h \<and> hd_proposer h = coinbase \<and> hd_height h = height \<and>
      hd_timestamp_ms h = ts \<and> bits_agree (get_u64 ''versionBits'' v) (hd_version_bits h) \<and>
      bits_agree (get_u64 ''bits'' v) (hd_bits h) \<and>
      target_from_compact (hd_bits h) = Some target \<and> template_id_for_blob X blob = tid)"
  by (auto simp: authenticate_header_def result_simps)

lemma from_rpc_authenticated_aux:
  assumes "from_rpc X v = Inr j"
  obtains h tid coinbase where
    "decode_header X (job_blob j) = Some h" "hd_height h = job_height j"
    "job_timestamp_ms j = Some (hd_timestamp_ms h)" "job_coinbase j = Some (hd_proposer h)"
    "validate_account_id (hd_proposer h) = Inr ()"
    "target_from_compact (hd_bits h) = Some (job_target j)"
    "job_block_target j = Some (job_target j)"
    "job_id j = template_id_for_blob X (job_blob j)" "length (job_pow_key j) = 32"
  using assms
  by (auto simp: from_rpc_def Let_def result_simps authenticate_header_Inr_iff)

section \<open>Properties\<close>

text \<open>
  C2: a template that becomes a job is authenticated by its own header: the blob decodes to a
  header with the job's height and timestamp that pays the displayed, valid account; the
  target the miner hashes against has exactly the value the header's compact bits commit to
  (a node cannot substitute an easier one); the block target equals it; and the job's id is
  the hash of the blob.
\<close>

theorem from_rpc_authenticated:
  assumes "from_rpc X v = Inr j"
  shows "\<exists>h. decode_header X (job_blob j) = Some h \<and>
    job_height j = hd_height h \<and> job_timestamp_ms j = Some (hd_timestamp_ms h) \<and>
    job_coinbase j = Some (hd_proposer h) \<and> account_body (hd_proposer h) \<and>
    \<not> compact_negative (hd_bits h) \<and> be_value (job_target j) = compact_value (hd_bits h) \<and>
    job_block_target j = Some (job_target j) \<and>
    job_id j = template_id_for_blob X (job_blob j) \<and> length (job_pow_key j) = 32"
proof -
  from assms obtain h where h: "decode_header X (job_blob j) = Some h"
      "hd_height h = job_height j" "job_timestamp_ms j = Some (hd_timestamp_ms h)"
      "job_coinbase j = Some (hd_proposer h)" "validate_account_id (hd_proposer h) = Inr ()"
      "target_from_compact (hd_bits h) = Some (job_target j)"
      "job_block_target j = Some (job_target j)"
      "job_id j = template_id_for_blob X (job_blob j)" "length (job_pow_key j) = 32"
    by (rule from_rpc_authenticated_aux)
  from h(5) have "account_body (hd_proposer h)" by (simp add: account_id_accepted_iff)
  moreover have "\<not> compact_negative (hd_bits h)" "be_value (job_target j) = compact_value (hd_bits h)"
    using target_from_compact_cases [of "hd_bits h"] h(6) by simp_all
  ultimately show ?thesis using h by auto
qed

text \<open>
  on every job of either source, writing any nonce into a buffer of the blob's length
  succeeds (the slice is in range), keeps the length and every byte before the nonce, leaves
  exactly that nonce in little-endian order at the end, and different nonces give different
  preimages.
\<close>

theorem nonce_write_correct:
  assumes "from_stratum X v = Inr j \<or> from_rpc X v = Inr j"
    and "length blob = length (job_blob j)"
  shows "\<exists>blob'. write_nonce blob (job_nonce_offset j) n = Some blob' \<and>
    length blob' = length blob \<and>
    take (length blob - 8) blob' = take (length blob - 8) blob \<and>
    le_value (drop (length blob - 8) blob') = unat n \<and>
    (\<forall>m. write_nonce blob (job_nonce_offset j) m = Some blob' \<longleftrightarrow> m = n)"
  using assms(1)
proof
  assume j: "from_stratum X v = Inr j"
  note w = stratum.nonce_write_total [OF j assms(2)]
  from w [of n] show ?thesis
    using stratum.nonce_write_keeps_shape [OF j assms(2), of n]
      stratum.distinct_nonces_distinct_blobs [OF j assms(2)] assms(2)
      from_stratum_well_formed [OF j] by (auto simp: well_formed_job_def)
next
  assume j: "from_rpc X v = Inr j"
  note w = rpc.nonce_write_total [OF j assms(2)]
  from w [of n] show ?thesis
    using rpc.nonce_write_keeps_shape [OF j assms(2), of n]
      rpc.distinct_nonces_distinct_blobs [OF j assms(2)] assms(2)
      from_rpc_well_formed [OF j] by (auto simp: well_formed_job_def)
qed

lemma submission_accepted_iff:
  "validate_rpc_submission X result j sealed = Inr () \<longleftrightarrow>
   jget ''accepted'' result = Some (JBool True) \<and>
   jget ''height'' result = Some (ju64 (job_height j)) \<and>
   jget ''hash'' result = Some (JString (template_id_for_blob X sealed))"
  by (auto simp: validate_rpc_submission_def result_simps json_access as_bool_Some_iff
      as_u64_Some_iff as_str_Some_iff Option.bind_eq_Some_conv split: option.splits bool.splits)

text \<open>
  a submission counts as accepted exactly when the node answered \<open>accepted: true\<close> with
  the mined height and the hash of the locally sealed block.
\<close>

theorem validate_rpc_submission_iff:
  "validate_rpc_submission X result j sealed = Inr () \<longleftrightarrow>
   jget ''accepted'' result = Some (JBool True) \<and>
   jget ''height'' result = Some (ju64 (job_height j)) \<and>
   jget ''hash'' result = Some (JString (template_id_for_blob X sealed))"
  by (rule submission_accepted_iff)

end
