(* ===== verification/Memory.thy ===== *)
theory Memory
  imports Job RustStr Complex_Main
begin

text \<open>
  The memory preflight of the engine (\<open>src/main.rs\<close>): the estimate of what RandomX needs, the
  head room kept for the system, the verdict on a reading of the operating system's counters,
  the gate that every session consults before it installs a job, and the parser of the macOS
  \<open>memory_pressure\<close> report. The floating-point constants are exact rationals here; the products
  with a power of two are exact in \<open>f64\<close>, and the rounding of 2.3 itself does not change the
  ceiling.
\<close>

section \<open>Sizes\<close>

definition gib_to_bytes :: "rat \<Rightarrow> u64" where
  "gib_to_bytes gib = of_int \<lceil>gib * 1073741824\<rceil>"

definition mib_to_bytes :: "rat \<Rightarrow> u64" where
  "mib_to_bytes mib = of_int \<lceil>mib * 1048576\<rceil>"

definition RANDOMX_DATASET_GIB :: rat where "RANDOMX_DATASET_GIB = 23 / 10"
definition RANDOMX_LIGHT_CACHE_MIB :: rat where "RANDOMX_LIGHT_CACHE_MIB = 256"
definition RANDOMX_WORKER_MIB :: rat where "RANDOMX_WORKER_MIB = 32"
definition MIN_MEMORY_HEADROOM_GIB :: rat where "MIN_MEMORY_HEADROOM_GIB = 3 / 2"
definition MAX_MEMORY_HEADROOM_GIB :: rat where "MAX_MEMORY_HEADROOM_GIB = 4"

definition randomx_memory_bytes_for :: "u64 \<Rightarrow> bool \<Rightarrow> u64" where
  "randomx_memory_bytes_for workers force_light =
     saturating_add
       (if force_light then mib_to_bytes RANDOMX_LIGHT_CACHE_MIB else gib_to_bytes RANDOMX_DATASET_GIB)
       (saturating_mul (mib_to_bytes RANDOMX_WORKER_MIB) workers)"

definition randomx_memory_bytes :: "u64 \<Rightarrow> u64" where
  "randomx_memory_bytes workers = randomx_memory_bytes_for workers False"

definition clamp :: "'a::linorder \<Rightarrow> 'a \<Rightarrow> 'a \<Rightarrow> 'a" where
  "clamp x lo hi = (if x < lo then lo else if x > hi then hi else x)"

definition memory_headroom_bytes :: "u64 \<Rightarrow> u64" where
  "memory_headroom_bytes ram = clamp (ram div 10)
     (gib_to_bytes MIN_MEMORY_HEADROOM_GIB) (gib_to_bytes MAX_MEMORY_HEADROOM_GIB)"

section \<open>Verdict\<close>

record preflight =
  pf_available :: "u64 option"
  pf_total :: "u64 option"
  pf_engine :: u64
  pf_reserve :: u64

datatype memory_error = InconsistentScan | NotEnough bool u64 u64 u64 u64 | UnconfirmedScan

definition validate_headless_memory :: "u64 \<Rightarrow> bool \<Rightarrow> u64 \<Rightarrow> u64 \<Rightarrow> memory_error + preflight" where
  "validate_headless_memory workers force_light available ram =
     (if ram = 0 \<or> available > ram then Inl InconsistentScan
      else
        let engine = randomx_memory_bytes_for workers force_light;
            reserve = memory_headroom_bytes ram;
            required = saturating_add engine reserve
        in if available < required then Inl (NotEnough force_light workers engine reserve available)
           else Inr \<lparr>pf_available = Some available, pf_total = Some ram,
                  pf_engine = engine, pf_reserve = reserve\<rparr>)"

definition resolve_headless_memory ::
  "u64 \<Rightarrow> bool \<Rightarrow> u64 \<Rightarrow> u64 \<Rightarrow> bool \<Rightarrow> memory_error + preflight"
where
  "resolve_headless_memory workers force_light available ram confirmed =
     (if ram > 0 \<and> available \<le> ram
      then validate_headless_memory workers force_light available ram
      else if \<not> confirmed then Inl UnconfirmedScan
      else Inr \<lparr>pf_available = None, pf_total = None,
             pf_engine = randomx_memory_bytes_for workers force_light,
             pf_reserve = gib_to_bytes MIN_MEMORY_HEADROOM_GIB\<rparr>)"

section \<open>The gate\<close>

record memory_gate =
  mg_workers :: u64
  mg_force_light :: bool
  mg_confirmed :: bool
  mg_approved :: "preflight option"

definition memory_gate_new :: "u64 \<Rightarrow> bool \<Rightarrow> bool \<Rightarrow> memory_gate" where
  "memory_gate_new workers force_light confirmed =
     \<lparr>mg_workers = workers, mg_force_light = force_light, mg_confirmed = confirmed,
      mg_approved = None\<rparr>"

text \<open>\<open>probe\<close> is the reading of the operating system's counters, \<open>None\<close> when it failed.\<close>

definition ensure_safe ::
  "pow_algo \<Rightarrow> (u64 \<times> u64) option \<Rightarrow> memory_gate \<Rightarrow> (memory_error + unit) \<times> memory_gate"
where
  "ensure_safe algo probe g =
     (if algo \<noteq> RandomX \<or> mg_approved g \<noteq> None then (Inr (), g)
      else
        let (available, ram) = (case probe of Some counters \<Rightarrow> counters | None \<Rightarrow> (0, 0)) in
        case resolve_headless_memory (mg_workers g) (mg_force_light g) available ram (mg_confirmed g) of
          Inl e \<Rightarrow> (Inl e, g)
        | Inr p \<Rightarrow> (Inr (), g\<lparr>mg_approved := Some p\<rparr>))"

section \<open>The macOS report\<close>

text \<open>\<open>str::lines\<close>: split at line feeds, no empty last line, one carriage return stripped.\<close>

fun split_at :: "char \<Rightarrow> str \<Rightarrow> str list" where
  "split_at c [] = [[]]"
| "split_at c (x # xs) =
     (if x = c then [] # split_at c xs
      else case split_at c xs of [] \<Rightarrow> [[x]] | l # ls \<Rightarrow> (x # l) # ls)"

definition str_lines :: "str \<Rightarrow> str list" where
  "str_lines s =
     (let parts = split_at (CHR 0x0A) s;
          parts' = (if last parts = [] then butlast parts else parts)
      in List.map (\<lambda>l. case strip_suffix [CHR 0x0D] l of Some r \<Rightarrow> r | None \<Rightarrow> l) parts')"

text \<open>\<open>split_whitespace().next()\<close>: the first run of characters that are not white space.\<close>

fun until_whitespace :: "str \<Rightarrow> str" where
  "until_whitespace [] = []"
| "until_whitespace (c # s) =
     (if list_ex (starts_with (c # s)) ws_chars then [] else c # until_whitespace s)"

definition first_word :: "str \<Rightarrow> str option" where
  "first_word s = (let t = trim_start s in if t = [] then None else Some (until_whitespace t))"

definition scan_line :: "str \<Rightarrow> u64 option \<times> u64 option \<Rightarrow> u64 option \<times> u64 option" where
  "scan_line line st =
     (case strip_prefix ''The system has '' line of
        Some rest \<Rightarrow> (Option.bind (first_word rest) parse_u64, snd st)
      | None \<Rightarrow>
          (case strip_prefix ''System-wide memory free percentage:'' line of
             Some rest \<Rightarrow> (fst st, Option.bind (strip_suffix ''%'' (trim rest)) (\<lambda>v. parse_u64 (trim v)))
           | None \<Rightarrow> st))"

datatype report_error = NoTotal | NoPercentage

text \<open>The product is taken in \<open>u128\<close>, where it cannot overflow.\<close>

definition parse_macos_memory_pressure :: "str \<Rightarrow> report_error + u64 \<times> u64" where
  "parse_macos_memory_pressure raw =
     (let (ram, free_percent) = foldl (\<lambda>st line. scan_line (trim line) st) (None, None) (str_lines raw) in
      and_then (ok_or (opt_filter (\<lambda>t. t > 0) ram) NoTotal) (\<lambda>ram.
      and_then (ok_or (opt_filter (\<lambda>p. p \<le> 100) free_percent) NoPercentage) (\<lambda>free_percent.
      Inr (of_nat (unat ram * unat free_percent div 100), ram))))"

section \<open>Lemmas\<close>

lemma byte_constants:
  "gib_to_bytes RANDOMX_DATASET_GIB = 2469606196"
  "mib_to_bytes RANDOMX_LIGHT_CACHE_MIB = 268435456"
  "mib_to_bytes RANDOMX_WORKER_MIB = 33554432"
  "gib_to_bytes MIN_MEMORY_HEADROOM_GIB = 1610612736"
  "gib_to_bytes MAX_MEMORY_HEADROOM_GIB = 4294967296"
proof -
  have "\<lceil>12348030976 / 5 :: rat\<rceil> = 2469606196" by (rule ceiling_unique) simp_all
  then show "gib_to_bytes RANDOMX_DATASET_GIB = 2469606196"
    by (simp add: gib_to_bytes_def RANDOMX_DATASET_GIB_def)
qed (simp_all add: gib_to_bytes_def mib_to_bytes_def RANDOMX_LIGHT_CACHE_MIB_def
      RANDOMX_WORKER_MIB_def MIN_MEMORY_HEADROOM_GIB_def MAX_MEMORY_HEADROOM_GIB_def)

definition engine_need :: "nat \<Rightarrow> bool \<Rightarrow> nat" where
  "engine_need workers force_light =
     (if force_light then 268435456 else 2469606196) + 33554432 * workers"

definition headroom :: "nat \<Rightarrow> nat" where
  "headroom ram = max 1610612736 (min 4294967296 (ram div 10))"

lemma unat_engine:
  "unat (randomx_memory_bytes_for workers force_light) =
     min (engine_need (unat workers) force_light) (2 ^ 64 - 1)"
proof -
  have "unat (saturating_mul 33554432 workers) = min (33554432 * unat workers) (2 ^ 64 - 1)"
    by (simp add: unat_saturating_mul)
  then show ?thesis
    by (auto simp: randomx_memory_bytes_for_def unat_saturating_add byte_constants engine_need_def)
qed

lemma unat_headroom: "unat (memory_headroom_bytes ram) = headroom (unat ram)"
proof -
  have d: "unat (ram div 10) = unat ram div 10" by (simp add: unat_div_distrib)
  show ?thesis
    by (auto simp: memory_headroom_bytes_def byte_constants clamp_def headroom_def word_less_nat_alt d)
qed

section \<open>Properties\<close>

lemma validate_iff:
  assumes "unat workers \<le> 64"
  shows "(\<exists>p. validate_headless_memory workers force_light available ram = Inr p) \<longleftrightarrow>
    0 < ram \<and> available \<le> ram \<and>
    engine_need (unat workers) force_light + headroom (unat ram) \<le> unat available"
proof -
  have e: "engine_need (unat workers) force_light \<le> 5000000000" using assms by (simp add: engine_need_def)
  moreover have "headroom (unat ram) \<le> 4294967296" by (simp add: headroom_def)
  ultimately have "unat (saturating_add (randomx_memory_bytes_for workers force_light) (memory_headroom_bytes ram)) =
      engine_need (unat workers) force_light + headroom (unat ram)"
    by (simp add: unat_saturating_add unat_engine unat_headroom)
  then show ?thesis
    by (auto simp: validate_headless_memory_def Let_def word_less_nat_alt word_le_nat_alt unat_gt_0 not_less)
qed

text \<open>
  C13: The memory gate fails closed. A RandomX job passes the gate exactly when an earlier job was
  approved, or the scan of the memory counters is consistent and the available memory covers
  the engine (2.3 GiB, or 256 MiB in light mode, plus 32 MiB per worker) and the head room (a
  tenth of the memory, at least 1.5 and at most 4 GiB) without any saturation, or the scan
  failed and the operator confirmed the memory beforehand. An approval is never withdrawn.
\<close>
theorem memory_gate_fails_closed:
  assumes "unat (mg_workers g) \<le> 64"
  shows "(fst (ensure_safe RandomX probe g) = Inr () \<longleftrightarrow>
      mg_approved g \<noteq> None \<or>
      (case probe of
         Some (available, ram) \<Rightarrow>
           if 0 < ram \<and> available \<le> ram
           then engine_need (unat (mg_workers g)) (mg_force_light g) + headroom (unat ram) \<le> unat available
           else mg_confirmed g
       | None \<Rightarrow> mg_confirmed g)) \<and>
    (mg_approved g \<noteq> None \<longrightarrow> snd (ensure_safe algo probe g) = g) \<and>
    (fst (ensure_safe RandomX probe g) = Inr () \<longrightarrow> mg_approved (snd (ensure_safe RandomX probe g)) \<noteq> None)"
proof (cases "mg_approved g")
  case (Some p)
  then show ?thesis by (simp add: ensure_safe_def)
next
  case None
  obtain available ram where probe: "(case probe of Some counters \<Rightarrow> counters | None \<Rightarrow> (0, 0)) = (available, ram)"
    by (metis surj_pair)
  let ?r = "resolve_headless_memory (mg_workers g) (mg_force_light g) available ram (mg_confirmed g)"
  have "(\<exists>p. ?r = Inr p) \<longleftrightarrow>
      (if 0 < ram \<and> available \<le> ram
       then engine_need (unat (mg_workers g)) (mg_force_light g) + headroom (unat ram) \<le> unat available
       else mg_confirmed g)"
    using validate_iff [OF assms, of "mg_force_light g" available ram]
    by (auto simp: resolve_headless_memory_def)
  moreover have "fst (ensure_safe RandomX probe g) = Inr () \<longleftrightarrow> (\<exists>p. ?r = Inr p)"
    "fst (ensure_safe RandomX probe g) = Inr () \<longrightarrow> mg_approved (snd (ensure_safe RandomX probe g)) \<noteq> None"
    using None probe by (auto simp: ensure_safe_def split: sum.split)
  ultimately show ?thesis using None probe by (auto split: option.splits)
qed

text \<open>
  The macOS report. When the parser accepts a \<open>memory_pressure\<close> report, the total is positive
  and the available memory is the whole-number percentage of it that the report states, at
  most 100, so the reading passes the gate's consistency check.
\<close>
theorem memory_pressure_consistent:
  assumes "parse_macos_memory_pressure raw = Inr (available, ram)"
  shows "0 < ram \<and> available \<le> ram \<and>
    (\<exists>p \<le> 100. unat available = unat ram * p div 100)"
proof -
  from assms obtain percent :: u64 where p: "percent \<le> 100" "0 < ram"
    "available = of_nat (unat ram * unat percent div 100)"
    by (auto simp: parse_macos_memory_pressure_def result_simps split: prod.splits)
  have le: "unat percent \<le> 100" using p(1) by (simp add: word_le_nat_alt)
  then have "unat ram * unat percent div 100 \<le> unat ram"
    by (metis div_le_mono mult_le_mono2 nonzero_mult_div_cancel_right zero_neq_numeral)
  moreover from this have "unat (of_nat (unat ram * unat percent div 100) :: u64) = unat ram * unat percent div 100"
    using unsigned_less [of ram, where ?'a = nat] by (simp add: unat_of_nat)
  ultimately show ?thesis using p le by (auto simp: word_le_nat_alt)
qed

section \<open>Witnesses\<close>

lemma memory_gate_fails_closed_witness:
  "fst (ensure_safe RandomX (Some (8589934592, 17179869184)) (memory_gate_new 4 False False)) = Inr () \<and>
   fst (ensure_safe RandomX None (memory_gate_new 4 False False)) \<noteq> Inr ()"
  using memory_gate_fails_closed [of "memory_gate_new 4 False False" "Some (8589934592, 17179869184)"]
    memory_gate_fails_closed [of "memory_gate_new 4 False False" None]
  by (simp add: memory_gate_new_def engine_need_def headroom_def word_le_nat_alt)

definition sample_report :: str where
  "sample_report = ''The system has 100 (x)'' @ [CHR 0x0A] @ ''System-wide memory free percentage: 40%'' @ [CHR 0x0A]"

lemma sample_report_parsed: "parse_macos_memory_pressure sample_report = Inr (40, 100)"
proof -
  have ls: "List.map trim (str_lines sample_report) =
      [''The system has 100 (x)'', ''System-wide memory free percentage: 40%'']" by code_simp
  have strip: "strip_prefix ''The system has '' ''The system has 100 (x)'' = Some ''100 (x)''"
    "strip_prefix ''The system has '' ''System-wide memory free percentage: 40%'' = None"
    "strip_prefix ''System-wide memory free percentage:'' ''System-wide memory free percentage: 40%'' = Some '' 40%''"
    "first_word ''100 (x)'' = Some ''100''" "strip_suffix ''%'' (trim '' 40%'') = Some ''40''" "trim ''40'' = ''40''"
    by code_simp+
  have "decimal 100 = ''100''" "decimal 40 = ''40''" by code_simp+
  then have "parse_unsigned (2 ^ 64) ''100'' = Some 100" "parse_unsigned (2 ^ 64) ''40'' = Some 40"
    using parse_decimal [of 100 "2 ^ 64"] parse_decimal [of 40 "2 ^ 64"] by simp_all
  then have u: "parse_u64 ''100'' = Some 100" "parse_u64 ''40'' = Some 40" by (simp_all add: parse_u64_def)
  have "foldl (\<lambda>st line. scan_line (trim line) st) (None, None) (str_lines sample_report) =
      foldl (\<lambda>st line. scan_line line st) (None, None) (List.map trim (str_lines sample_report))"
    by (simp add: foldl_map)
  also have "\<dots> = (Some 100, Some 40)" unfolding ls by (simp add: scan_line_def strip u)
  finally show ?thesis by (simp add: parse_macos_memory_pressure_def opt_filter_def)
qed

lemma memory_pressure_consistent_witness:
  "(40 :: u64) \<le> 100 \<and> (\<exists>p \<le> 100. unat (40 :: u64) = unat (100 :: u64) * p div 100) \<and>
   parse_macos_memory_pressure sample_report = Inr (40, 100)"
  using memory_pressure_consistent [OF sample_report_parsed] sample_report_parsed by blast

end
