(* ===== verification/Native.thy ===== *)
theory Native
  imports Job
begin

text \<open>
  The ownership wrapper around the native RandomX library (\<open>src/randomx_native.rs\<close>). The C
  functions are the fields of \<open>natives\<close>: what each call returns at the moment of one operation.
  A null pointer is \<open>None\<close>; the first argument of a call that an operation may repeat is the
  number of the attempt, so a repeated call may answer differently. The only law used about
  the library is that a cache or dataset initialised with a key hashes with that key.
\<close>

section \<open>The native library\<close>

definition FLAG_DEFAULT :: u32 where "FLAG_DEFAULT = 0"
definition FLAG_FULL_MEM :: u32 where "FLAG_FULL_MEM = push_bit 2 1"

record natives =
  native_flags :: u32
  alloc_cache :: "nat \<Rightarrow> u32 \<Rightarrow> nat option"
  alloc_dataset :: "u32 \<Rightarrow> nat option"
  dataset_item_count :: nat
  create_vm :: "nat \<Rightarrow> u32 \<Rightarrow> nat option \<Rightarrow> nat option \<Rightarrow> nat option"
  calculate_hash :: "bytes \<Rightarrow> bytes \<Rightarrow> bytes"

section \<open>Runtime mode\<close>

text \<open>\<open>RUNTIME_MODE\<close>: unset, or set once to the value of \<open>force_light\<close>.\<close>

type_synonym runtime_mode = "bool option"

definition configure_runtime_mode :: "bool \<Rightarrow> runtime_mode \<Rightarrow> (str + unit) \<times> runtime_mode" where
  "configure_runtime_mode force_light mode =
     (case mode of
        Some existing \<Rightarrow>
          (if existing = force_light then Inr ()
           else Inl ''RandomX execution mode was already configured for this process'', mode)
      | None \<Rightarrow> (Inr (), Some force_light))"

definition force_light_mining :: "runtime_mode \<Rightarrow> bool" where
  "force_light_mining mode = (case mode of Some force_light \<Rightarrow> force_light | None \<Rightarrow> False)"

definition recommended_flags :: "natives \<Rightarrow> runtime_mode \<Rightarrow> u32" where
  "recommended_flags N mode = (if force_light_mining mode then FLAG_DEFAULT else native_flags N)"

section \<open>Caches, datasets, virtual machines\<close>

text \<open>An \<open>Arc\<close> is its pointer with the key the memory was initialised with.\<close>

record cache =
  ca_pointer :: nat
  ca_key :: bytes

record dataset =
  ds_pointer :: nat
  ds_key :: bytes

definition cache_new :: "natives \<Rightarrow> nat \<Rightarrow> u32 \<Rightarrow> bytes \<Rightarrow> str + cache" where
  "cache_new N attempt flags key =
     (if key = [] then Inl ''RandomX cache key cannot be empty''
      else case alloc_cache N attempt flags of
        None \<Rightarrow> Inl ''RandomX cache allocation failed''
      | Some p \<Rightarrow> Inr \<lparr>ca_pointer = p, ca_key = key\<rparr>)"

definition dataset_new :: "natives \<Rightarrow> u32 \<Rightarrow> bytes \<Rightarrow> str + dataset" where
  "dataset_new N cache_flags key =
     and_then (cache_new N 0 cache_flags key) (\<lambda>cache.
     and_then (ok_or (alloc_dataset N FLAG_DEFAULT) ''RandomX full dataset allocation failed'') (\<lambda>p.
     and_then (ensure (dataset_item_count N \<noteq> 0) ''RandomX reported a zero-sized dataset'') (\<lambda>_.
     Inr \<lparr>ds_pointer = p, ds_key = ca_key cache\<rparr>)))"

datatype vm_backing = LightBacking cache | FastBacking dataset

record vm =
  vm_pointer :: nat
  vm_backed :: vm_backing

definition vm_light :: "natives \<Rightarrow> nat \<Rightarrow> u32 \<Rightarrow> cache \<Rightarrow> str + vm" where
  "vm_light N attempt flags cache =
     (let light_flags = flags AND NOT FLAG_FULL_MEM in
      case create_vm N attempt light_flags (Some (ca_pointer cache)) None of
        None \<Rightarrow> Inl (''RandomX light VM creation failed for flags 0x'' @ hex02 (unat light_flags))
      | Some p \<Rightarrow> Inr \<lparr>vm_pointer = p, vm_backed = LightBacking cache\<rparr>)"

definition vm_fast :: "natives \<Rightarrow> nat \<Rightarrow> u32 \<Rightarrow> dataset \<Rightarrow> str + vm" where
  "vm_fast N attempt flags dataset =
     (let fast_flags = flags OR FLAG_FULL_MEM in
      case create_vm N attempt fast_flags None (Some (ds_pointer dataset)) of
        None \<Rightarrow> Inl (''RandomX fast VM creation failed for flags 0x'' @ hex02 (unat fast_flags))
      | Some p \<Rightarrow> Inr \<lparr>vm_pointer = p, vm_backed = FastBacking dataset\<rparr>)"

fun backing_key :: "vm_backing \<Rightarrow> bytes" where
  "backing_key (LightBacking c) = ca_key c"
| "backing_key (FastBacking d) = ds_key d"

definition vm_hash :: "natives \<Rightarrow> vm \<Rightarrow> bytes \<Rightarrow> str + bytes" where
  "vm_hash N vm input =
     (if input = [] then Inl ''RandomX input cannot be empty''
      else Inr (calculate_hash N (backing_key (vm_backed vm)) input))"

lemma cache_new_key: "cache_new N i flags key = Inr c \<Longrightarrow> ca_key c = key"
  by (auto simp: cache_new_def split: if_splits option.splits)

lemma dataset_new_key: "dataset_new N flags key = Inr d \<Longrightarrow> ds_key d = key"
  by (auto simp: dataset_new_def result_simps dest: cache_new_key)

lemma vm_light_backing: "vm_light N i flags c = Inr v \<Longrightarrow> vm_backed v = LightBacking c"
  by (auto simp: vm_light_def Let_def split: option.splits)

lemma vm_fast_backing: "vm_fast N i flags d = Inr v \<Longrightarrow> vm_backed v = FastBacking d"
  by (auto simp: vm_fast_def Let_def split: option.splits)

end
