(* ===== verification/Pow.thy ===== *)
theory Pow
  imports Native Transition
begin

text \<open>
  Proof-of-work sealing (\<open>src/pow.rs\<close>): the manager of the process-wide full dataset, the shared
  light cache, the per-worker engine slots and the hash entry points. The manager's mutex makes
  each of its operations one step; a worker runs several of them in turn, so the operations are
  also composed into a machine whose steps interleave the workers. Time is in milliseconds;
  \<open>refs d\<close> is the number of references to the dataset that workers hold, so that
  \<open>Arc::strong_count\<close> of the manager's own dataset is \<open>1 + refs d\<close>.
\<close>

section \<open>Modes\<close>

definition FAST_RETRY_DELAY :: nat where "FAST_RETRY_DELAY = 15000"

datatype mining_mode = ModeSha256d | RandomXFastShared | RandomXLightFallback | RandomXLightRecovery

definition telemetry_name :: "mining_mode \<Rightarrow> str" where
  "telemetry_name m = (case m of
       ModeSha256d \<Rightarrow> ''sha256d'' | RandomXFastShared \<Rightarrow> ''fast-shared''
     | RandomXLightFallback \<Rightarrow> ''light-fallback'' | RandomXLightRecovery \<Rightarrow> ''light-recovery'')"

record mining_hash =
  mh_digest :: bytes
  mh_mode :: mining_mode

datatype randomx_mode = ModeLight | FastShared | LightFallback | LightRecovery

record engine =
  en_vm :: vm
  en_mode :: randomx_mode
  en_retry_fast_at :: "nat option"

section \<open>The shared full dataset\<close>

datatype outcome =
    Ready dataset
  | Releasing bytes dataset nat
  | Unavailable str nat

type_synonym manager = "(bytes \<times> outcome) option"

datatype releasing_action = PromotePrevious | WaitForRelease | DropPreviousAndBuild | Retarget

definition releasing_action_for :: "bytes \<Rightarrow> bytes \<Rightarrow> bytes \<Rightarrow> bool \<Rightarrow> bool \<Rightarrow> releasing_action" where
  "releasing_action_for managed_key previous_key requested_key retry_pending workers_still_own =
     (if previous_key = requested_key then PromotePrevious
      else if managed_key \<noteq> requested_key then Retarget
      else if retry_pending \<or> workers_still_own then WaitForRelease
      else DropPreviousAndBuild)"

definition build_fast_dataset :: "natives \<Rightarrow> runtime_mode \<Rightarrow> bytes \<Rightarrow> str + dataset" where
  "build_fast_dataset N mode key =
     map_err (\<lambda>e. ''optimized dataset initialization failed ('' @ e @ '')'')
       (dataset_new N (recommended_flags N mode) key)"

definition build_and_publish ::
  "natives \<Rightarrow> runtime_mode \<Rightarrow> nat \<Rightarrow> bytes \<Rightarrow> (str + dataset) \<times> manager"
where
  "build_and_publish N mode now key =
     (case build_fast_dataset N mode key of
        Inr d \<Rightarrow> (Inr d, Some (key, Ready d))
      | Inl reason \<Rightarrow> (Inl reason, Some (key, Unavailable reason (now + FAST_RETRY_DELAY))))"

definition releasing_reason :: str where
  "releasing_reason = ''RandomX seed changed; releasing the previous shared dataset before rebuilding''"

definition waiting_reason :: str where
  "waiting_reason = ''RandomX seed changed; waiting for every worker to release the previous shared dataset''"

definition shared_fast_dataset ::
  "natives \<Rightarrow> runtime_mode \<Rightarrow> (dataset \<Rightarrow> nat) \<Rightarrow> nat \<Rightarrow> bytes \<Rightarrow> manager \<Rightarrow> (str + dataset) \<times> manager"
where
  "shared_fast_dataset N mode refs now key mgr =
     (case mgr of
        None \<Rightarrow> build_and_publish N mode now key
      | Some (managed_key, Ready d) \<Rightarrow>
          if managed_key = key then (Inr d, Some (managed_key, Ready d))
          else (Inl releasing_reason,
                Some (key, Releasing managed_key d (now + FAST_RETRY_DELAY)))
      | Some (managed_key, Unavailable reason retry_at) \<Rightarrow>
          if managed_key = key \<and> now < retry_at
          then (Inl reason, Some (managed_key, Unavailable reason retry_at))
          else build_and_publish N mode now key
      | Some (managed_key, Releasing previous_key previous retry_at) \<Rightarrow>
          (case releasing_action_for managed_key previous_key key (now < retry_at)
                  (1 + refs previous > 1) of
             PromotePrevious \<Rightarrow> (Inr previous, Some (previous_key, Ready previous))
           | WaitForRelease \<Rightarrow>
               (Inl waiting_reason,
                Some (managed_key, Releasing previous_key previous
                  (if now < retry_at then retry_at else now + FAST_RETRY_DELAY)))
           | DropPreviousAndBuild \<Rightarrow> build_and_publish N mode now key
           | Retarget \<Rightarrow>
               (Inl releasing_reason,
                Some (key, Releasing previous_key previous (now + FAST_RETRY_DELAY)))))"

definition release_fast_dataset_if_unused ::
  "(dataset \<Rightarrow> nat) \<Rightarrow> nat \<Rightarrow> bytes \<Rightarrow> str \<Rightarrow> manager \<Rightarrow> manager"
where
  "release_fast_dataset_if_unused refs now key failure mgr =
     (case mgr of
        Some (managed_key, Ready d) \<Rightarrow>
          if managed_key = key \<and> 1 + refs d = 1
          then Some (key, Unavailable
            (''released unused full dataset after every fast VM allocation failed: '' @ failure)
            (now + FAST_RETRY_DELAY))
          else mgr
      | _ \<Rightarrow> mgr)"

section \<open>The shared light cache\<close>

record light_cache =
  lc_key :: bytes
  lc_flags :: u32
  lc_cache :: cache

definition build_light_cache :: "natives \<Rightarrow> runtime_mode \<Rightarrow> bytes \<Rightarrow> str + u32 \<times> cache" where
  "build_light_cache N mode key =
     (let optimized = recommended_flags N mode in
      case cache_new N 0 optimized key of
        Inr c \<Rightarrow> Inr (optimized, c)
      | Inl optimized_error \<Rightarrow>
          (case cache_new N 1 FLAG_DEFAULT key of
             Inr c \<Rightarrow> Inr (FLAG_DEFAULT, c)
           | Inl portable_error \<Rightarrow> Inl (''optimized light cache allocation failed ('' @
               optimized_error @ ''); portable light cache allocation also failed ('' @
               portable_error @ '')'')))"

definition shared_light_cache ::
  "natives \<Rightarrow> runtime_mode \<Rightarrow> bytes \<Rightarrow> light_cache option \<Rightarrow> (str + u32 \<times> cache) \<times> light_cache option"
where
  "shared_light_cache N mode key lc =
     (case opt_filter (\<lambda>existing. lc_key existing = key) lc of
        Some existing \<Rightarrow> (Inr (lc_flags existing, lc_cache existing), lc)
      | None \<Rightarrow>
          (case build_light_cache N mode key of
             Inl e \<Rightarrow> (Inl e, None)
           | Inr (flags, c) \<Rightarrow>
               (Inr (flags, c), Some \<lparr>lc_key = key, lc_flags = flags, lc_cache = c\<rparr>)))"

section \<open>Building an engine\<close>

definition light_vm_from :: "natives \<Rightarrow> u32 \<times> cache \<Rightarrow> str + vm" where
  "light_vm_from N fc =
     (case vm_light N 0 (fst fc) (snd fc) of
        Inr v \<Rightarrow> Inr v
      | Inl optimized_error \<Rightarrow>
          map_err (\<lambda>portable_error. ''optimized light VM creation failed ('' @ optimized_error @
            ''); portable light VM creation also failed ('' @ portable_error @ '')'')
            (vm_light N 1 FLAG_DEFAULT (snd fc)))"

definition light_engine :: "nat \<Rightarrow> randomx_mode \<Rightarrow> vm \<Rightarrow> engine" where
  "light_engine now m v = \<lparr>en_vm = v, en_mode = m,
     en_retry_fast_at = (if m = LightFallback then Some (now + FAST_RETRY_DELAY) else None)\<rparr>"

definition build_light_vm ::
  "natives \<Rightarrow> runtime_mode \<Rightarrow> nat \<Rightarrow> bytes \<Rightarrow> randomx_mode \<Rightarrow> light_cache option \<Rightarrow>
   (str + engine) \<times> light_cache option"
where
  "build_light_vm N mode now key m lc =
     (let (result, lc') = shared_light_cache N mode key lc in
      (and_then result (\<lambda>fc. and_then (light_vm_from N fc) (\<lambda>v. Inr (light_engine now m v))), lc'))"

definition fast_vm_from :: "natives \<Rightarrow> runtime_mode \<Rightarrow> dataset \<Rightarrow> str + vm" where
  "fast_vm_from N mode d =
     (case vm_fast N 0 (recommended_flags N mode OR FLAG_FULL_MEM) d of
        Inr v \<Rightarrow> Inr v
      | Inl optimized_error \<Rightarrow>
          map_err (\<lambda>portable_error. ''optimized fast VM creation failed ('' @ optimized_error @
            ''); portable fast VM creation also failed ('' @ portable_error @ '')'')
            (vm_fast N 1 FLAG_FULL_MEM d))"

definition fast_engine :: "vm \<Rightarrow> engine" where
  "fast_engine v = \<lparr>en_vm = v, en_mode = FastShared, en_retry_fast_at = None\<rparr>"

definition build_mining_vm ::
  "natives \<Rightarrow> runtime_mode \<Rightarrow> (dataset \<Rightarrow> nat) \<Rightarrow> nat \<Rightarrow> bytes \<Rightarrow> manager \<Rightarrow> light_cache option \<Rightarrow>
   (str + engine) \<times> manager \<times> light_cache option"
where
  "build_mining_vm N mode refs now key mgr lc =
     (if force_light_mining mode then
        (let (r, lc') = build_light_vm N mode now key LightRecovery lc in (r, mgr, lc'))
      else
        let (acquired, mgr') = shared_fast_dataset N mode refs now key mgr in
        case and_then acquired (fast_vm_from N mode) of
          Inr v \<Rightarrow> (Inr (fast_engine v), mgr', lc)
        | Inl fast_error \<Rightarrow>
            let mgr'' = release_fast_dataset_if_unused refs now key fast_error mgr';
                (r, lc') = build_light_vm N mode now key LightFallback lc
            in (map_err (\<lambda>light_error. ''fast RandomX unavailable ('' @ fast_error @
                  ''); safe light-memory fallback also failed ('' @ light_error @ '')'') r,
                mgr'', lc'))"

section \<open>Hashing\<close>

type_synonym engine_slot = "(bytes \<times> engine) option"

definition engine_needs_build :: "engine_slot \<Rightarrow> bytes \<Rightarrow> bool \<Rightarrow> nat \<Rightarrow> bool" where
  "engine_needs_build slot key mining now =
     (case slot of
        None \<Rightarrow> True
      | Some (existing_key, engine) \<Rightarrow>
          existing_key \<noteq> key \<or>
          (mining \<and> en_mode engine = LightFallback \<and>
           (case en_retry_fast_at engine of Some retry_at \<Rightarrow> retry_at \<le> now | None \<Rightarrow> False)))"

text \<open>
  The shared state and the engine slots of one thread; \<open>ps_built\<close> counts the calls of the
  \<open>before_build\<close> callback.
\<close>

record pow_state =
  ps_manager :: manager
  ps_light :: "light_cache option"
  ps_slot_light :: engine_slot
  ps_slot_mining :: engine_slot
  ps_built :: nat

definition slot_of :: "bool \<Rightarrow> pow_state \<Rightarrow> engine_slot" where
  "slot_of mining s = (if mining then ps_slot_mining s else ps_slot_light s)"

definition set_slot :: "bool \<Rightarrow> engine_slot \<Rightarrow> pow_state \<Rightarrow> pow_state" where
  "set_slot mining slot s =
     (if mining then s\<lparr>ps_slot_mining := slot\<rparr> else s\<lparr>ps_slot_light := slot\<rparr>)"

definition build_engine ::
  "natives \<Rightarrow> runtime_mode \<Rightarrow> (dataset \<Rightarrow> nat) \<Rightarrow> nat \<Rightarrow> bytes \<Rightarrow> bool \<Rightarrow> pow_state \<Rightarrow>
   (str + engine) \<times> pow_state"
where
  "build_engine N mode refs now key mining s =
     (if mining then
        (let (r, mgr, lc) = build_mining_vm N mode refs now key (ps_manager s) (ps_light s)
         in (r, s\<lparr>ps_manager := mgr, ps_light := lc\<rparr>))
      else
        (let (r, lc) = build_light_vm N mode now key ModeLight (ps_light s)
         in (r, s\<lparr>ps_light := lc\<rparr>)))"

definition randomx_hash ::
  "natives \<Rightarrow> runtime_mode \<Rightarrow> (dataset \<Rightarrow> nat) \<Rightarrow> nat \<Rightarrow> bytes \<Rightarrow> bytes \<Rightarrow> bool \<Rightarrow> pow_state \<Rightarrow>
   (str + bytes \<times> randomx_mode) \<times> pow_state"
where
  "randomx_hash N mode refs now key input mining s =
     (let (built, s') =
        (if engine_needs_build (slot_of mining s) key mining now then
           let (r, s1) = build_engine N mode refs now key mining
                 (set_slot mining None (s\<lparr>ps_built := ps_built s + 1\<rparr>))
           in case r of
                Inl e \<Rightarrow> (Inl e, s1)
              | Inr e \<Rightarrow> (Inr (), set_slot mining (Some (key, e)) s1)
         else (Inr (), s))
      in (and_then built (\<lambda>_.
          and_then (ok_or (slot_of mining s') ''RandomX VM missing after successful initialization'')
            (\<lambda>(_, engine).
          and_then (vm_hash N (en_vm engine) input) (\<lambda>digest. Inr (digest, en_mode engine)))), s'))"

definition mining_mode_of :: "randomx_mode \<Rightarrow> str + mining_mode" where
  "mining_mode_of m = (case m of
       FastShared \<Rightarrow> Inr RandomXFastShared | LightFallback \<Rightarrow> Inr RandomXLightFallback
     | LightRecovery \<Rightarrow> Inr RandomXLightRecovery
     | ModeLight \<Rightarrow> Inl ''internal RandomX mode error: verifier VM entered mining path'')"

definition sha256d :: "(bytes \<Rightarrow> bytes) \<Rightarrow> bytes \<Rightarrow> bytes" where
  "sha256d sha256 x = sha256 (sha256 x)"

definition pow_hash_mining ::
  "(bytes \<Rightarrow> bytes) \<Rightarrow> natives \<Rightarrow> runtime_mode \<Rightarrow> (dataset \<Rightarrow> nat) \<Rightarrow> nat \<Rightarrow> pow_algo \<Rightarrow> bytes \<Rightarrow> bytes \<Rightarrow>
   pow_state \<Rightarrow> (str + mining_hash) \<times> pow_state"
where
  "pow_hash_mining sha256 N mode refs now algo key input s =
     (case algo of
        Sha256d \<Rightarrow> (Inr \<lparr>mh_digest = sha256d sha256 input, mh_mode = ModeSha256d\<rparr>, s)
      | RandomX \<Rightarrow>
          let (r, s') = randomx_hash N mode refs now key input True s in
          (and_then r (\<lambda>(digest, m). and_then (mining_mode_of m) (\<lambda>mm.
             Inr \<lparr>mh_digest = digest, mh_mode = mm\<rparr>)), s'))"

end
