(* ===== verification/PowMachine.thy ===== *)
theory PowMachine
  imports Pow
begin

text \<open>
  The workers of \<open>src/pow.rs\<close> as a machine. A worker that needs an engine runs
  \<open>build_mining_vm\<close> in the atomic parts the two mutexes leave: clear its slot, ask the dataset
  manager, create the fast VM, give back an unused dataset, ask for the light cache, create the
  light VM. The parts of different workers interleave freely, every native call may succeed or
  fail, and a worker may exit (its thread ends or panics) at any point, which drops what it
  holds. The phase of a worker is the part it runs next.
\<close>

section \<open>Machine\<close>

datatype phase =
    Idle
  | WantFast bytes
  | HasDataset bytes dataset
  | FastFailed bytes str
  | WantLight bytes randomx_mode
  | HasCache bytes randomx_mode "u32 \<times> cache"

record worker =
  wk_slot :: engine_slot
  wk_phase :: phase

record machine =
  mc_manager :: manager
  mc_light :: "light_cache option"
  mc_workers :: "worker list"

definition idle_worker :: worker where
  "idle_worker = \<lparr>wk_slot = None, wk_phase = Idle\<rparr>"

definition slot_datasets :: "engine_slot \<Rightarrow> dataset list" where
  "slot_datasets slot = (case slot of
       Some (_, e) \<Rightarrow> (case vm_backed (en_vm e) of FastBacking d \<Rightarrow> [d] | LightBacking _ \<Rightarrow> [])
     | None \<Rightarrow> [])"

definition phase_datasets :: "phase \<Rightarrow> dataset list" where
  "phase_datasets p = (case p of HasDataset _ d \<Rightarrow> [d] | _ \<Rightarrow> [])"

definition held :: "worker \<Rightarrow> dataset list" where
  "held w = slot_datasets (wk_slot w) @ phase_datasets (wk_phase w)"

definition held_by_all :: "worker list \<Rightarrow> dataset list" where
  "held_by_all ws = concat (List.map held ws)"

definition refs_of :: "worker list \<Rightarrow> dataset \<Rightarrow> nat" where
  "refs_of ws d = length (List.filter (\<lambda>x. x = d) (held_by_all ws))"

definition manager_datasets :: "manager \<Rightarrow> dataset list" where
  "manager_datasets mgr = (case mgr of
       Some (_, Ready d) \<Rightarrow> [d] | Some (_, Releasing _ d _) \<Rightarrow> [d] | _ \<Rightarrow> [])"

text \<open>The full datasets that are allocated: what the manager and the workers hold.\<close>

definition alive :: "machine \<Rightarrow> dataset set" where
  "alive m = set (manager_datasets (mc_manager m)) \<union> set (held_by_all (mc_workers m))"

definition after_acquire :: "bytes \<Rightarrow> str + dataset \<Rightarrow> worker" where
  "after_acquire key r = \<lparr>wk_slot = None,
     wk_phase = (case r of Inr d \<Rightarrow> HasDataset key d | Inl e \<Rightarrow> FastFailed key e)\<rparr>"

definition after_attach :: "bytes \<Rightarrow> str + vm \<Rightarrow> worker" where
  "after_attach key r = (case r of
       Inr v \<Rightarrow> \<lparr>wk_slot = Some (key, fast_engine v), wk_phase = Idle\<rparr>
     | Inl e \<Rightarrow> \<lparr>wk_slot = None, wk_phase = FastFailed key e\<rparr>)"

definition after_cache :: "bytes \<Rightarrow> randomx_mode \<Rightarrow> str + u32 \<times> cache \<Rightarrow> worker" where
  "after_cache key rm r = \<lparr>wk_slot = None,
     wk_phase = (case r of Inr fc \<Rightarrow> HasCache key rm fc | Inl e \<Rightarrow> Idle)\<rparr>"

definition after_light :: "bytes \<Rightarrow> randomx_mode \<Rightarrow> nat \<Rightarrow> str + vm \<Rightarrow> worker" where
  "after_light key rm now r = (case r of
       Inr v \<Rightarrow> \<lparr>wk_slot = Some (key, light_engine now rm v), wk_phase = Idle\<rparr>
     | Inl e \<Rightarrow> idle_worker)"

definition set_worker :: "nat \<Rightarrow> worker \<Rightarrow> machine \<Rightarrow> machine" where
  "set_worker i w m = m\<lparr>mc_workers := (mc_workers m)[i := w]\<rparr>"

inductive pow_step :: "runtime_mode \<Rightarrow> machine \<Rightarrow> machine \<Rightarrow> bool" for mode where
  begin_build:
    "i < length (mc_workers m) \<Longrightarrow> wk_phase (mc_workers m ! i) = Idle \<Longrightarrow>
     engine_needs_build (wk_slot (mc_workers m ! i)) key True now \<Longrightarrow>
     pow_step mode m (set_worker i \<lparr>wk_slot = None, wk_phase =
       (if force_light_mining mode then WantLight key LightRecovery else WantFast key)\<rparr> m)"
| acquire:
    "i < length (mc_workers m) \<Longrightarrow> wk_phase (mc_workers m ! i) = WantFast key \<Longrightarrow>
     shared_fast_dataset N mode (refs_of (mc_workers m)) now key (mc_manager m) = (r, mgr) \<Longrightarrow>
     pow_step mode m (set_worker i (after_acquire key r) (m\<lparr>mc_manager := mgr\<rparr>))"
| attach:
    "i < length (mc_workers m) \<Longrightarrow> wk_phase (mc_workers m ! i) = HasDataset key d \<Longrightarrow>
     pow_step mode m (set_worker i (after_attach key (fast_vm_from N mode d)) m)"
| give_back:
    "i < length (mc_workers m) \<Longrightarrow> wk_phase (mc_workers m ! i) = FastFailed key e \<Longrightarrow>
     pow_step mode m (set_worker i \<lparr>wk_slot = None, wk_phase = WantLight key LightFallback\<rparr>
       (m\<lparr>mc_manager := release_fast_dataset_if_unused (refs_of (mc_workers m)) now key e
          (mc_manager m)\<rparr>))"
| take_cache:
    "i < length (mc_workers m) \<Longrightarrow> wk_phase (mc_workers m ! i) = WantLight key rm \<Longrightarrow>
     shared_light_cache N mode key (mc_light m) = (r, lc) \<Longrightarrow>
     pow_step mode m (set_worker i (after_cache key rm r) (m\<lparr>mc_light := lc\<rparr>))"
| light_vm:
    "i < length (mc_workers m) \<Longrightarrow> wk_phase (mc_workers m ! i) = HasCache key rm fc \<Longrightarrow>
     pow_step mode m (set_worker i (after_light key rm now (light_vm_from N fc)) m)"
| worker_exit:
    "i < length (mc_workers m) \<Longrightarrow> pow_step mode m (set_worker i idle_worker m)"

definition pow_initial :: "machine \<Rightarrow> bool" where
  "pow_initial m \<longleftrightarrow> mc_manager m = None \<and> mc_light m = None \<and>
     (\<forall>w \<in> set (mc_workers m). w = idle_worker)"

section \<open>Invariant\<close>

text \<open>
  What a manager state promises: the key it is filed under is the dataset's own, and workers
  hold no dataset but the one the manager holds too.
\<close>

definition manager_ok :: "manager \<Rightarrow> dataset set \<Rightarrow> bool" where
  "manager_ok mgr D = (case mgr of
       None \<Rightarrow> D = {}
     | Some (k, Ready d) \<Rightarrow> ds_key d = k \<and> D \<subseteq> {d}
     | Some (k, Releasing pk d t) \<Rightarrow> ds_key d = pk \<and> D \<subseteq> {d}
     | Some (k, Unavailable r t) \<Rightarrow> D = {})"

definition slot_ok :: "engine_slot \<Rightarrow> bool" where
  "slot_ok slot = (case slot of None \<Rightarrow> True
     | Some (k, e) \<Rightarrow> backing_key (vm_backed (en_vm e)) = k \<and>
         (en_mode e = FastShared \<longleftrightarrow> (\<exists>d. vm_backed (en_vm e) = FastBacking d)) \<and>
         (en_mode e = LightFallback \<longleftrightarrow> en_retry_fast_at e \<noteq> None) \<and> en_mode e \<noteq> ModeLight)"

definition phase_ok :: "phase \<Rightarrow> bool" where
  "phase_ok p = (case p of
       HasDataset k d \<Rightarrow> ds_key d = k
     | WantLight k rm \<Rightarrow> rm = LightRecovery \<or> rm = LightFallback
     | HasCache k rm fc \<Rightarrow> ca_key (snd fc) = k \<and> (rm = LightRecovery \<or> rm = LightFallback)
     | _ \<Rightarrow> True)"

definition worker_ok :: "worker \<Rightarrow> bool" where
  "worker_ok w \<longleftrightarrow> slot_ok (wk_slot w) \<and> phase_ok (wk_phase w) \<and>
     (wk_phase w \<noteq> Idle \<longrightarrow> wk_slot w = None)"

definition light_ok :: "light_cache option \<Rightarrow> bool" where
  "light_ok lc = (case lc of None \<Rightarrow> True | Some c \<Rightarrow> ca_key (lc_cache c) = lc_key c)"

definition pow_inv :: "machine \<Rightarrow> bool" where
  "pow_inv m \<longleftrightarrow> manager_ok (mc_manager m) (set (held_by_all (mc_workers m))) \<and>
     (\<forall>w \<in> set (mc_workers m). worker_ok w) \<and> light_ok (mc_light m)"

lemmas worker_defs = worker_ok_def slot_ok_def phase_ok_def idle_worker_def

lemma set_held_by_all: "set (held_by_all ws) = (\<Union>w \<in> set ws. set (held w))"
  by (simp add: held_by_all_def)

lemma refs_of_0_iff: "refs_of ws d = 0 \<longleftrightarrow> d \<notin> set (held_by_all ws)"
  by (auto simp: refs_of_def filter_empty_conv)

lemma held_update:
  assumes "i < length ws"
  shows "set (held_by_all (ws[i := w])) \<subseteq> set (held_by_all ws) \<union> set (held w)"
  using set_update_subset_insert [of ws i w] by (auto simp: set_held_by_all)

lemma worker_update:
  "(\<forall>w \<in> set ws. worker_ok w) \<Longrightarrow> worker_ok w' \<Longrightarrow> \<forall>w \<in> set (ws[i := w']). worker_ok w"
  using set_update_subset_insert [of ws i w'] by auto

lemma manager_ok_mono: "manager_ok mgr D \<Longrightarrow> D' \<subseteq> D \<Longrightarrow> manager_ok mgr D'"
  by (auto simp: manager_ok_def split: option.splits prod.splits outcome.splits)

subsection \<open>The operations keep it\<close>

lemma build_and_publish_ok:
  "build_and_publish N mode now key = (r, mgr) \<Longrightarrow>
   manager_ok mgr (case r of Inr d \<Rightarrow> {d} | Inl e \<Rightarrow> {}) \<and> (\<forall>d. r = Inr d \<longrightarrow> ds_key d = key)"
  by (auto simp: build_and_publish_def build_fast_dataset_def manager_ok_def map_err_def
      dest: dataset_new_key split: sum.splits)

lemma drop_only_unowned:
  "releasing_action_for k pk key pending (1 + (n :: nat) > 1) = DropPreviousAndBuild \<Longrightarrow> n = 0"
  by (simp add: releasing_action_for_def split: if_splits)

lemma shared_fast_dataset_ok:
  assumes "manager_ok mgr D" "\<And>d. refs d = 0 \<longleftrightarrow> d \<notin> D"
    "shared_fast_dataset N mode refs now key mgr = (r, mgr')"
  shows "manager_ok mgr' (D \<union> (case r of Inr d \<Rightarrow> {d} | Inl e \<Rightarrow> {})) \<and>
    (\<forall>d. r = Inr d \<longrightarrow> ds_key d = key)"
proof -
  have built: ?thesis if "D = {}" "build_and_publish N mode now key = (r, mgr')"
    using build_and_publish_ok [OF that(2)] that(1) by simp
  show ?thesis
  proof (cases mgr)
    case None
    then show ?thesis using assms built by (simp add: manager_ok_def shared_fast_dataset_def)
  next
    case (Some ko)
    obtain k oc where ko: "ko = (k, oc)" by (cases ko)
    show ?thesis
    proof (cases oc)
      case (Ready d)
      then show ?thesis using assms(1,3) Some ko
        by (auto simp: shared_fast_dataset_def manager_ok_def split: if_splits)
    next
      case (Unavailable reason t)
      then show ?thesis using assms(1,3) Some ko built
        by (auto simp: shared_fast_dataset_def manager_ok_def split: if_splits)
    next
      case (Releasing pk p t)
      have keep: "ds_key p = pk" "D \<subseteq> {p}" using assms(1) Some ko Releasing by (simp_all add: manager_ok_def)
      show ?thesis
      proof (cases "releasing_action_for k pk key (now < t) (1 + refs p > 1)")
        case DropPreviousAndBuild
        then have "refs p = 0" by (rule drop_only_unowned)
        then have "D = {}" using assms(2) keep(2) by auto
        then show ?thesis using built assms(3) Some ko Releasing DropPreviousAndBuild
          by (simp add: shared_fast_dataset_def)
      next
        case PromotePrevious
        then have "pk = key" by (auto simp: releasing_action_for_def split: if_splits)
        then show ?thesis using assms(3) Some ko Releasing PromotePrevious keep
          by (auto simp: shared_fast_dataset_def manager_ok_def)
      qed (use assms(3) Some ko Releasing keep in \<open>auto simp: shared_fast_dataset_def manager_ok_def\<close>)
    qed
  qed
qed

lemma release_ok:
  assumes "manager_ok mgr D" "\<And>d. refs d = 0 \<longleftrightarrow> d \<notin> D"
  shows "manager_ok (release_fast_dataset_if_unused refs now key e mgr) D"
  using assms
  by (auto simp: release_fast_dataset_if_unused_def manager_ok_def split: option.splits prod.splits
      outcome.splits)

lemma shared_light_cache_ok:
  "light_ok lc \<Longrightarrow> shared_light_cache N mode key lc = (r, lc') \<Longrightarrow>
   light_ok lc' \<and> (\<forall>fc. r = Inr fc \<longrightarrow> ca_key (snd fc) = key)"
  by (auto simp: shared_light_cache_def light_ok_def build_light_cache_def Let_def opt_filter_def
      dest: cache_new_key split: option.splits sum.splits if_splits)

lemma fast_vm_from_backing: "fast_vm_from N mode d = Inr v \<Longrightarrow> vm_backed v = FastBacking d"
  by (auto simp: fast_vm_from_def result_simps dest: vm_fast_backing split: sum.splits)

lemma light_vm_from_backing: "light_vm_from N fc = Inr v \<Longrightarrow> vm_backed v = LightBacking (snd fc)"
  by (auto simp: light_vm_from_def result_simps dest: vm_light_backing split: sum.splits)

lemma worker_ok_idle: "worker_ok idle_worker"
  by (simp add: worker_defs)

lemma worker_ok_acquire: "(\<forall>d. r = Inr d \<longrightarrow> ds_key d = key) \<Longrightarrow> worker_ok (after_acquire key r)"
  by (auto simp: worker_defs after_acquire_def split: sum.split)

lemma worker_ok_attach: "ds_key d = key \<Longrightarrow> worker_ok (after_attach key (fast_vm_from N mode d))"
  by (auto simp: worker_defs after_attach_def fast_engine_def dest: fast_vm_from_backing split: sum.split)

lemma worker_ok_cache:
  "(\<forall>fc. r = Inr fc \<longrightarrow> ca_key (snd fc) = key) \<Longrightarrow> rm = LightRecovery \<or> rm = LightFallback \<Longrightarrow>
   worker_ok (after_cache key rm r)"
  by (auto simp: worker_defs after_cache_def split: sum.split)

lemma worker_ok_light:
  "ca_key (snd fc) = key \<Longrightarrow> rm = LightRecovery \<or> rm = LightFallback \<Longrightarrow>
   worker_ok (after_light key rm now (light_vm_from N fc))"
  by (auto simp: worker_defs after_light_def light_engine_def dest: light_vm_from_backing split: sum.split)

subsection \<open>Every reachable machine satisfies it\<close>

lemma set_worker_simps [simp]:
  "mc_workers (set_worker i w m) = (mc_workers m)[i := w]"
  "mc_manager (set_worker i w m) = mc_manager m"
  "mc_light (set_worker i w m) = mc_light m"
  by (simp_all add: set_worker_def)

lemma held_phase:
  "i < length ws \<Longrightarrow> wk_phase (ws ! i) = HasDataset key d \<Longrightarrow> d \<in> set (held_by_all ws)"
proof -
  assume "i < length ws" "wk_phase (ws ! i) = HasDataset key d"
  then have "ws ! i \<in> set ws" "d \<in> set (held (ws ! i))" by (simp_all add: held_def phase_datasets_def)
  then show ?thesis by (auto simp: set_held_by_all)
qed

lemma pow_inv_update:
  assumes inv: "pow_inv m" and i: "i < length (mc_workers m)"
    and w: "worker_ok w" and lc: "light_ok lc"
    and mgr: "manager_ok mgr (set (held_by_all (mc_workers m)) \<union> set (held w))"
  shows "pow_inv (set_worker i w (m\<lparr>mc_manager := mgr, mc_light := lc\<rparr>))"
proof -
  have "\<forall>w \<in> set (mc_workers m). worker_ok w" using inv by (simp add: pow_inv_def)
  from worker_update [OF this w] show ?thesis
    using lc manager_ok_mono [OF mgr held_update [OF i]] by (simp add: pow_inv_def)
qed

lemma pow_inv_update_worker:
  assumes inv: "pow_inv m" and i: "i < length (mc_workers m)" and w: "worker_ok w"
    and held: "set (held w) \<subseteq> set (held_by_all (mc_workers m))"
  shows "pow_inv (set_worker i w m)"
proof -
  have "set (held_by_all (mc_workers m)) \<union> set (held w) = set (held_by_all (mc_workers m))"
    using held by auto
  then show ?thesis
    using pow_inv_update [OF inv i w, of "mc_light m" "mc_manager m"] inv by (simp add: pow_inv_def)
qed

lemma held_simps:
  "held \<lparr>wk_slot = None, wk_phase = p\<rparr> = phase_datasets p"
  "held idle_worker = []"
  "set (held (after_acquire key r)) = (case r of Inr d \<Rightarrow> {d} | Inl e \<Rightarrow> {})"
  "held (after_cache key rm c) = []"
  "held (after_light key rm now (light_vm_from N fc)) = []"
  "set (held (after_attach key (fast_vm_from N mode d))) \<subseteq> {d}"
  by (auto simp: held_def slot_datasets_def phase_datasets_def idle_worker_def after_acquire_def
      after_cache_def after_light_def after_attach_def light_engine_def fast_engine_def
      dest: light_vm_from_backing fast_vm_from_backing split: sum.splits)

lemma pow_inv_step:
  assumes inv: "pow_inv m" and step: "pow_step mode m m'"
  shows "pow_inv m'"
  using step
proof (cases rule: pow_step.cases)
  case (begin_build i now key)
  then show ?thesis
    by (auto simp: worker_defs held_simps phase_datasets_def intro!: pow_inv_update_worker [OF inv])
next
  case (acquire i key N now r mgr)
  have D: "refs_of (mc_workers m) d = 0 \<longleftrightarrow> d \<notin> set (held_by_all (mc_workers m))" for d
    by (rule refs_of_0_iff)
  have "manager_ok (mc_manager m) (set (held_by_all (mc_workers m)))" using inv by (simp add: pow_inv_def)
  from shared_fast_dataset_ok [OF this D acquire(4)]
  have mgr: "manager_ok mgr (set (held_by_all (mc_workers m)) \<union> set (held (after_acquire key r)))"
    and "worker_ok (after_acquire key r)" by (simp_all add: held_simps worker_ok_acquire)
  then show ?thesis
    using pow_inv_update [OF inv acquire(2), of "after_acquire key r" "mc_light m" mgr] inv acquire(1)
    by (simp add: pow_inv_def)
next
  case (attach i key d N)
  have "worker_ok (mc_workers m ! i)" using inv attach(2) by (simp add: pow_inv_def)
  then have "ds_key d = key" using attach(3) by (simp add: worker_ok_def phase_ok_def)
  then show ?thesis unfolding attach(1)
    using held_phase [OF attach(2,3)] held_simps(6) [of key N mode d]
    by (intro pow_inv_update_worker [OF inv attach(2)]) (auto simp: worker_ok_attach)
next
  case (give_back i key e now)
  let ?w = "\<lparr>wk_slot = None, wk_phase = WantLight key LightFallback\<rparr>"
  have D: "refs_of (mc_workers m) d = 0 \<longleftrightarrow> d \<notin> set (held_by_all (mc_workers m))" for d
    by (rule refs_of_0_iff)
  have "manager_ok (mc_manager m) (set (held_by_all (mc_workers m)))" using inv by (simp add: pow_inv_def)
  from release_ok [OF this D, of now key e] show ?thesis
    using pow_inv_update [OF inv give_back(2), of ?w "mc_light m"] inv give_back(1)
    by (simp add: pow_inv_def held_simps phase_datasets_def worker_defs)
next
  case (take_cache i key rm N r lc)
  have ok: "worker_ok (mc_workers m ! i)" "light_ok (mc_light m)" using inv take_cache(2) by (simp_all add: pow_inv_def)
  then have rm: "rm = LightRecovery \<or> rm = LightFallback"
    using take_cache(3) by (simp add: worker_ok_def phase_ok_def)
  note lc = shared_light_cache_ok [OF ok(2) take_cache(4)]
  then have "worker_ok (after_cache key rm r)" using worker_ok_cache rm by blast
  then show ?thesis
    using pow_inv_update [OF inv take_cache(2), of "after_cache key rm r" lc "mc_manager m"] inv take_cache(1) lc
    by (simp add: pow_inv_def held_simps)
next
  case (light_vm i key rm fc now N)
  have "worker_ok (mc_workers m ! i)" using inv light_vm(2) by (simp add: pow_inv_def)
  then have "ca_key (snd fc) = key" "rm = LightRecovery \<or> rm = LightFallback"
    using light_vm(3) by (simp_all add: worker_ok_def phase_ok_def)
  then show ?thesis unfolding light_vm(1)
    by (intro pow_inv_update_worker [OF inv light_vm(2)]) (auto simp: worker_ok_light held_simps)
next
  case (worker_exit i)
  then show ?thesis
    by (auto simp: held_simps worker_ok_idle intro!: pow_inv_update_worker [OF inv])
qed

lemma pow_inv_initial: "pow_initial m \<Longrightarrow> pow_inv m"
  by (auto simp: pow_initial_def pow_inv_def manager_ok_def light_ok_def set_held_by_all held_simps
      worker_ok_idle)

interpretation pow: machine_invariant pow_initial "pow_step mode" pow_inv for mode
  by unfold_locales (auto intro: pow_inv_initial pow_inv_step)

section \<open>Properties\<close>

lemma alive_single:
  "pow_inv m \<Longrightarrow> d \<in> alive m \<Longrightarrow> d' \<in> alive m \<Longrightarrow> d = d'"
  by (auto simp: pow_inv_def alive_def manager_ok_def manager_datasets_def
      split: option.splits prod.splits outcome.splits)

lemma build_only_when_free:
  assumes "manager_ok mgr D" "\<And>d. refs d = 0 \<longleftrightarrow> d \<notin> D"
    and "shared_fast_dataset N mode refs now key mgr \<noteq> shared_fast_dataset N' mode refs now key mgr"
  shows "D = {}"
proof (cases mgr)
  case None
  then show ?thesis using assms(1) by (simp add: manager_ok_def)
next
  case (Some ko)
  obtain k oc where ko: "ko = (k, oc)" by (cases ko)
  show ?thesis
  proof (cases oc)
    case (Releasing pk p t)
    then have "releasing_action_for k pk key (now < t) (1 + refs p > 1) = DropPreviousAndBuild"
      using assms(3) Some ko by (auto simp: shared_fast_dataset_def split: releasing_action.splits)
    then have "p \<notin> D" using drop_only_unowned assms(2) by blast
    moreover have "D \<subseteq> {p}" using assms(1) Some ko Releasing by (simp add: manager_ok_def)
    ultimately show ?thesis by auto
  qed (use assms Some ko in \<open>auto simp: shared_fast_dataset_def manager_ok_def split: if_splits\<close>)
qed

text \<open>
  C4: One full dataset at most. In every reachable machine, whatever the interleaving of the workers
  and the outcome of the native calls, all full datasets that the manager and the workers hold
  are one and the same; and the manager asks the native library for a new one (its answer
  depends on the library) only when no worker holds any, so two never coexist.
\<close>
theorem one_full_dataset:
  assumes "reach pow_initial (pow_step mode) m"
  shows "(\<forall>d d'. d \<in> alive m \<longrightarrow> d' \<in> alive m \<longrightarrow> d = d') \<and>
    (\<forall>N N' now key.
       shared_fast_dataset N mode (refs_of (mc_workers m)) now key (mc_manager m) \<noteq>
       shared_fast_dataset N' mode (refs_of (mc_workers m)) now key (mc_manager m) \<longrightarrow>
       held_by_all (mc_workers m) = [])"
proof -
  have inv: "pow_inv m" by (rule pow.inv_reach [OF assms])
  then have "manager_ok (mc_manager m) (set (held_by_all (mc_workers m)))" by (simp add: pow_inv_def)
  then show ?thesis
    using alive_single [OF inv] build_only_when_free [OF _ refs_of_0_iff] by (metis set_empty)
qed

text \<open>
  C12: No stale seed. In every reachable machine a worker that is not building and whose engine
  is not due for a rebuild for the key of its job hashes with that very key, in fast and in
  light mode alike, and the mode it reports is a mining mode.
\<close>
theorem hashes_with_the_requested_key:
  assumes "reach pow_initial (pow_step mode) m" "w \<in> set (mc_workers m)"
    and "wk_slot w = Some (k, e)" "\<not> engine_needs_build (wk_slot w) key True now"
  shows "vm_hash N (en_vm e) input =
      (if input = [] then Inl ''RandomX input cannot be empty''
       else Inr (calculate_hash N key input)) \<and>
    (\<exists>mm. mining_mode_of (en_mode e) = Inr mm) \<and> wk_phase w = Idle"
proof -
  have "worker_ok w" using pow.inv_reach [OF assms(1)] assms(2) by (simp add: pow_inv_def)
  then show ?thesis using assms(3,4)
    by (auto simp: worker_ok_def slot_ok_def engine_needs_build_def vm_hash_def mining_mode_of_def
        split: randomx_mode.split)
qed

section \<open>One thread\<close>

lemma light_engine_slot_ok:
  "ca_key (snd fc) = key \<Longrightarrow> light_vm_from N fc = Inr v \<Longrightarrow> m = LightRecovery \<or> m = LightFallback \<Longrightarrow>
   slot_ok (Some (key, light_engine now m v)) \<and> slot_datasets (Some (key, light_engine now m v)) = []"
  by (auto simp: slot_ok_def slot_datasets_def light_engine_def dest: light_vm_from_backing)

lemma build_light_vm_ok:
  assumes "light_ok lc" "m = LightRecovery \<or> m = LightFallback"
    and "build_light_vm N mode now key m lc = (r, lc')"
  shows "light_ok lc' \<and> (\<forall>e. r = Inr e \<longrightarrow> slot_ok (Some (key, e)) \<and> slot_datasets (Some (key, e)) = [])"
proof -
  obtain cr where c: "shared_light_cache N mode key lc = (cr, lc')"
    using assms(3) by (auto simp: build_light_vm_def split: prod.splits)
  have lc: "light_ok lc'" "\<And>fc. cr = Inr fc \<Longrightarrow> ca_key (snd fc) = key"
    using shared_light_cache_ok [OF assms(1) c] by auto
  have "slot_ok (Some (key, e)) \<and> slot_datasets (Some (key, e)) = []" if r: "r = Inr e" for e
  proof -
    obtain fc v where fc: "cr = Inr fc" "light_vm_from N fc = Inr v" "e = light_engine now m v"
      using assms(3) c r by (auto simp: build_light_vm_def result_simps)
    from light_engine_slot_ok [OF lc(2) [OF fc(1)] fc(2) assms(2)] show ?thesis by (simp add: fc(3))
  qed
  then show ?thesis using lc(1) by blast
qed

definition engine_datasets :: "str + engine \<Rightarrow> dataset list" where
  "engine_datasets r = (case r of Inr e \<Rightarrow> slot_datasets (Some ([], e)) | Inl _ \<Rightarrow> [])"

lemma slot_datasets_key: "slot_datasets (Some (k, e)) = slot_datasets (Some (k', e))"
  by (simp add: slot_datasets_def)

lemma engine_datasets_light:
  "(\<And>e. r = Inr e \<Longrightarrow> slot_datasets (Some (key, e)) = []) \<Longrightarrow> engine_datasets r = []"
  by (cases r) (simp_all add: engine_datasets_def slot_datasets_def)

lemma build_mining_vm_ok:
  assumes mgr: "manager_ok mgr D" and D: "\<And>d. refs d = 0 \<longleftrightarrow> d \<notin> D" and lc: "light_ok lc"
    and built: "build_mining_vm N mode refs now key mgr lc = (r, mgr', lc')"
  shows "manager_ok mgr' (D \<union> set (engine_datasets r)) \<and> light_ok lc' \<and>
    (\<forall>e. r = Inr e \<longrightarrow> slot_ok (Some (key, e)))"
proof (cases "force_light_mining mode")
  case True
  then obtain lr where "build_light_vm N mode now key LightRecovery lc = (r, lc')" "mgr' = mgr"
    using built by (auto simp: build_mining_vm_def split: prod.splits)
  with build_light_vm_ok [OF lc _ this(1)] mgr engine_datasets_light [of r key] show ?thesis by auto
next
  case False
  obtain acq m1 where a: "shared_fast_dataset N mode refs now key mgr = (acq, m1)" by (metis surj_pair)
  note a_ok = shared_fast_dataset_ok [OF mgr D a]
  have m1: "manager_ok m1 D" by (rule manager_ok_mono) (use a_ok in auto)
  show ?thesis
  proof (cases "and_then acq (fast_vm_from N mode)")
    case (Inr v)
    then obtain d where d: "acq = Inr d" "fast_vm_from N mode d = Inr v" by (auto simp: result_simps)
    then have "r = Inr (fast_engine v)" "mgr' = m1" "lc' = lc"
      using built False a Inr by (auto simp: build_mining_vm_def)
    then show ?thesis using a_ok d lc fast_vm_from_backing [OF d(2)]
      by (auto simp: engine_datasets_def slot_datasets_def slot_ok_def fast_engine_def)
  next
    case (Inl fe)
    obtain lr where l: "build_light_vm N mode now key LightFallback lc = (lr, lc')"
      and r: "r = map_err (\<lambda>light_error. ''fast RandomX unavailable ('' @ fe @
          ''); safe light-memory fallback also failed ('' @ light_error @ '')'') lr"
      and m': "mgr' = release_fast_dataset_if_unused refs now key fe m1"
      using built False a Inl by (auto simp: build_mining_vm_def Let_def split: prod.splits)
    have rel: "manager_ok mgr' D" unfolding m' by (rule release_ok [OF m1 D])
    note light = build_light_vm_ok [OF lc _ l]
    have "engine_datasets r = []"
      using light by (intro engine_datasets_light [of r key]) (auto simp: r result_simps)
    then show ?thesis using rel light by (auto simp: r result_simps)
  qed
qed

text \<open>
  What a worker's hash call does. For a state whose cached engine is filed under its own key,
  the call either returns the digest of the input under the requested key (twice SHA-256, or
  RandomX seeded with that key in a mining mode), or reports an error with the engine slot
  empty unless the input was empty, so that the next call builds again. The callback that
  shows a worker as initialising runs exactly when an engine is built, and the conditions on
  the cached engine, the manager and the light cache hold again afterwards.
\<close>
theorem pow_hash_mining_correct:
  assumes "slot_ok (ps_slot_mining s)" "light_ok (ps_light s)"
    and "manager_ok (ps_manager s) (D \<union> set (slot_datasets (ps_slot_mining s)))"
    and "\<And>d. refs d = 0 \<longleftrightarrow> d \<notin> D"
    and "pow_hash_mining sha256 N mode refs now algo key input s = (r, s')"
  shows "(case r of
       Inr h \<Rightarrow> mh_digest h =
           (case algo of Sha256d \<Rightarrow> sha256 (sha256 input) | RandomX \<Rightarrow> calculate_hash N key input)
     | Inl e \<Rightarrow> algo = RandomX \<and> (input = [] \<or> ps_slot_mining s' = None)) \<and>
    slot_ok (ps_slot_mining s') \<and> light_ok (ps_light s') \<and>
    manager_ok (ps_manager s') (D \<union> set (slot_datasets (ps_slot_mining s'))) \<and>
    ps_built s' = ps_built s +
      (if algo = RandomX \<and> engine_needs_build (ps_slot_mining s) key True now then 1 else 0)"
proof (cases algo)
  case Sha256d
  then show ?thesis using assms by (auto simp: pow_hash_mining_def sha256d_def)
next
  case RandomX
  have others: "manager_ok (ps_manager s) D" by (rule manager_ok_mono [OF assms(3)]) simp
  show ?thesis
  proof (cases "engine_needs_build (ps_slot_mining s) key True now")
    case False
    then obtain e where slot: "ps_slot_mining s = Some (key, e)"
      by (auto simp: engine_needs_build_def split: option.splits)
    have e: "backing_key (vm_backed (en_vm e)) = key" "en_mode e \<noteq> ModeLight"
      using assms(1) slot by (simp_all add: slot_ok_def)
    have "r = (if input = [] then Inl ''RandomX input cannot be empty''
        else map_sum id (\<lambda>mm. \<lparr>mh_digest = calculate_hash N key input, mh_mode = mm\<rparr>) (mining_mode_of (en_mode e)))"
      "s' = s"
      using assms(5) RandomX False slot e(1)
      by (auto simp: pow_hash_mining_def randomx_hash_def slot_of_def vm_hash_def and_then_def
          split: sum.splits)
    then show ?thesis using RandomX False assms(1-3) e(2)
      by (cases "en_mode e") (auto simp: mining_mode_of_def)
  next
    case True
    let ?s = "s\<lparr>ps_slot_mining := None, ps_built := ps_built s + 1\<rparr>"
    obtain b mgr lc where b: "build_mining_vm N mode refs now key (ps_manager s) (ps_light s) = (b, mgr, lc)"
      by (metis surj_pair)
    note ok = build_mining_vm_ok [OF others assms(4,2) b]
    show ?thesis
    proof (cases b)
      case (Inl e)
      then have "r = Inl e" "ps_slot_mining s' = None" "ps_light s' = lc" "ps_manager s' = mgr"
        "ps_built s' = ps_built s + 1"
        using assms(5) RandomX True b
        by (auto simp: pow_hash_mining_def randomx_hash_def slot_of_def set_slot_def build_engine_def)
      then show ?thesis using ok RandomX True Inl
        by (simp add: slot_ok_def slot_datasets_def engine_datasets_def)
    next
      case (Inr e)
      then have e: "slot_ok (Some (key, e))" using ok by simp
      then have e': "backing_key (vm_backed (en_vm e)) = key" "en_mode e \<noteq> ModeLight"
        by (simp_all add: slot_ok_def)
      have "r = (if input = [] then Inl ''RandomX input cannot be empty''
          else map_sum id (\<lambda>mm. \<lparr>mh_digest = calculate_hash N key input, mh_mode = mm\<rparr>) (mining_mode_of (en_mode e)))"
        "ps_slot_mining s' = Some (key, e)" "ps_light s' = lc" "ps_manager s' = mgr"
        "ps_built s' = ps_built s + 1"
        using assms(5) RandomX True b Inr e'(1)
        by (auto simp: pow_hash_mining_def randomx_hash_def slot_of_def set_slot_def build_engine_def
            vm_hash_def and_then_def split: sum.splits)
      then show ?thesis using ok RandomX True Inr e e'(2) slot_datasets_key [of key e "[]"]
        by (cases "en_mode e") (auto simp: mining_mode_of_def engine_datasets_def)
    qed
  qed
qed

section \<open>A seed change\<close>


section \<open>Witnesses\<close>

definition demo_natives :: natives where
  "demo_natives = \<lparr>native_flags = 10, alloc_cache = (\<lambda>_ _. Some 1), alloc_dataset = (\<lambda>_. Some 2),
     dataset_item_count = 7, create_vm = (\<lambda>_ _ _ _. Some 3), calculate_hash = (\<lambda>k x. k @ x)\<rparr>"

definition demo_dataset :: dataset where
  "demo_dataset = \<lparr>ds_pointer = 2, ds_key = [9]\<rparr>"

definition demo_engine :: engine where
  "demo_engine = fast_engine \<lparr>vm_pointer = 3, vm_backed = FastBacking demo_dataset\<rparr>"

definition demo_machine :: machine where
  "demo_machine = \<lparr>mc_manager = Some ([9], Ready demo_dataset), mc_light = None,
     mc_workers = [\<lparr>wk_slot = Some ([9], demo_engine), wk_phase = Idle\<rparr>]\<rparr>"

lemma demo_reachable: "reach pow_initial (pow_step None) demo_machine"
proof -
  let ?w0 = "idle_worker" and ?w1 = "\<lparr>wk_slot = None, wk_phase = WantFast [9]\<rparr>"
    and ?w2 = "\<lparr>wk_slot = None, wk_phase = HasDataset [9] demo_dataset\<rparr>"
  let ?m0 = "\<lparr>mc_manager = None, mc_light = None, mc_workers = [?w0]\<rparr>"
    and ?m1 = "\<lparr>mc_manager = None, mc_light = None, mc_workers = [?w1]\<rparr>"
    and ?m2 = "\<lparr>mc_manager = Some ([9], Ready demo_dataset), mc_light = None, mc_workers = [?w2]\<rparr>"
  have s0: "reach pow_initial (pow_step None) ?m0"
    by (rule reach_init) (simp add: pow_initial_def)
  have "pow_step None ?m0 ?m1"
    using begin_build [where i = 0 and m = ?m0 and key = "[9]" and now = 0 and mode = None]
    by (simp add: idle_worker_def engine_needs_build_def set_worker_def force_light_mining_def)
  with s0 have s1: "reach pow_initial (pow_step None) ?m1" by (rule reach_step)
  have "shared_fast_dataset demo_natives None (refs_of [?w1]) 0 [9] None =
      (Inr demo_dataset, Some ([9], Ready demo_dataset))"
    by (simp add: shared_fast_dataset_def build_and_publish_def build_fast_dataset_def dataset_new_def
        cache_new_def demo_natives_def demo_dataset_def)
  then have "pow_step None ?m1 ?m2"
    using acquire [where i = 0 and m = ?m1 and key = "[9]" and N = demo_natives and mode = None and now = 0] by (simp add: set_worker_def after_acquire_def)
  with s1 have s2: "reach pow_initial (pow_step None) ?m2" by (rule reach_step)
  have "fast_vm_from demo_natives None demo_dataset =
      Inr \<lparr>vm_pointer = 3, vm_backed = FastBacking demo_dataset\<rparr>"
    by (simp add: fast_vm_from_def vm_fast_def demo_natives_def Let_def)
  then have "pow_step None ?m2 demo_machine"
    using attach [where i = 0 and m = ?m2 and key = "[9]" and d = demo_dataset and mode = None and N = demo_natives]
    by (simp add: set_worker_def after_attach_def demo_machine_def demo_engine_def)
  with s2 show ?thesis by (rule reach_step)
qed

lemma one_full_dataset_witness:
  "alive demo_machine = {demo_dataset} \<and>
   (\<forall>N N' now key. shared_fast_dataset N None (refs_of (mc_workers demo_machine)) now key
      (mc_manager demo_machine) =
    shared_fast_dataset N' None (refs_of (mc_workers demo_machine)) now key (mc_manager demo_machine))"
proof -
  have "demo_dataset \<in> alive demo_machine"
    by (simp add: alive_def demo_machine_def manager_datasets_def)
  then have "alive demo_machine = {demo_dataset}"
    using one_full_dataset [OF demo_reachable] by blast
  moreover have "held_by_all (mc_workers demo_machine) \<noteq> []"
    by (simp add: demo_machine_def demo_engine_def fast_engine_def held_by_all_def held_def slot_datasets_def)
  ultimately show ?thesis using one_full_dataset [OF demo_reachable] by blast
qed

lemma hashes_with_the_requested_key_witness:
  "vm_hash demo_natives (en_vm demo_engine) [5] = Inr (calculate_hash demo_natives [9] [5])"
  using hashes_with_the_requested_key [OF demo_reachable, of
      "\<lparr>wk_slot = Some ([9], demo_engine), wk_phase = Idle\<rparr>" "[9]" demo_engine "[9]" 0 demo_natives "[5]"]
  by (simp add: demo_machine_def engine_needs_build_def demo_engine_def fast_engine_def)

lemma pow_hash_mining_correct_witness:
  "\<exists>h s'. pow_hash_mining id demo_natives None (\<lambda>_. 0) 0 RandomX [9] [5]
      \<lparr>ps_manager = None, ps_light = None, ps_slot_light = None, ps_slot_mining = None, ps_built = 0\<rparr> =
      (Inr h, s') \<and> mh_digest h = [9, 5] \<and> ps_built s' = 1"
proof -
  let ?s = "\<lparr>ps_manager = None, ps_light = None, ps_slot_light = None, ps_slot_mining = None, ps_built = 0\<rparr>"
  let ?call = "pow_hash_mining id demo_natives None (\<lambda>_. 0) 0 RandomX [9] [5] ?s"
  have ok: "\<exists>h. fst ?call = Inr h"
    by (simp add: pow_hash_mining_def randomx_hash_def slot_of_def set_slot_def engine_needs_build_def
        build_engine_def build_mining_vm_def force_light_mining_def shared_fast_dataset_def
        build_and_publish_def build_fast_dataset_def dataset_new_def cache_new_def fast_vm_from_def
        vm_fast_def demo_natives_def vm_hash_def fast_engine_def mining_mode_of_def Let_def)
  then obtain h s' where h: "?call = (Inr h, s')" by (metis prod.collapse)
  have "slot_ok None" "light_ok None" "manager_ok None ({} \<union> set (slot_datasets None))"
    by (simp_all add: slot_ok_def light_ok_def manager_ok_def slot_datasets_def)
  then have "mh_digest h = calculate_hash demo_natives [9] [5] \<and> ps_built s' = 1"
    using pow_hash_mining_correct [of ?s "{}" "\<lambda>_. 0" id demo_natives None 0 RandomX "[9]" "[5]", OF _ _ _ _ h]
    by (simp add: engine_needs_build_def)
  then show ?thesis using h by (auto simp: demo_natives_def)
qed


end
