(* ===== verification/SampleCodec.thy ===== *)
theory SampleCodec
  imports Job
begin

text \<open>
  One concrete instance of the external functions, on which the witnesses evaluate: lower-case
  hex as the hex crate documents it, the borsh layout of the header (fields in order, integers
  little-endian, a string as its 32-bit length and bytes, nothing left over), and a
  thirty-two byte stand-in for the hash. No theorem of the other theories depends on it.
\<close>

definition hex_digit :: "nat \<Rightarrow> char" where
  "hex_digit n = (if n < 10 then char_of (48 + n) else char_of (87 + n))"

definition sample_hex_encode :: "bytes \<Rightarrow> str" where
  "sample_hex_encode bs =
     concat (List.map (\<lambda>b. [hex_digit (unat b div 16), hex_digit (unat b mod 16)]) bs)"

definition hex_value :: "char \<Rightarrow> nat option" where
  "hex_value c =
     (let n = byte_of c in
      if 48 \<le> n \<and> n \<le> 57 then Some (n - 48)
      else if 97 \<le> n \<and> n \<le> 102 then Some (n - 87)
      else if 65 \<le> n \<and> n \<le> 70 then Some (n - 55) else None)"

fun sample_hex_decode :: "str \<Rightarrow> bytes option" where
  "sample_hex_decode [] = Some []"
| "sample_hex_decode [c] = None"
| "sample_hex_decode (c # d # s) =
     (case (hex_value c, hex_value d, sample_hex_decode s) of
        (Some a, Some b, Some r) \<Rightarrow> Some (of_nat (16 * a + b) # r)
      | _ \<Rightarrow> None)"

definition sample_decode_header :: "bytes \<Rightarrow> header option" where
  "sample_decode_header bs =
     (if length bs < 148 then None
      else let n = le_value (take 4 (drop 144 bs)); rest = drop (148 + n) bs in
        if length bs \<noteq> 148 + n + 16 then None
        else Some \<lparr>hd_height = of_nat (le_value (take 8 bs)),
          hd_prev_hash = take 32 (drop 8 bs), hd_tx_root = take 32 (drop 40 bs),
          hd_receipts_root = take 32 (drop 72 bs), hd_state_root = take 32 (drop 104 bs),
          hd_timestamp_ms = of_nat (le_value (take 8 (drop 136 bs))),
          hd_proposer = List.map (\<lambda>b. char_of (unat b)) (take n (drop 148 bs)),
          hd_version_bits = of_nat (le_value (take 4 rest)),
          hd_bits = of_nat (le_value (take 4 (drop 4 rest))),
          hd_nonce = of_nat (le_value (drop 8 rest))\<rparr>)"

definition sample_hash :: "bytes \<Rightarrow> bytes" where
  "sample_hash bs = take 32 (rev bs)"

definition sample :: externals where
  "sample = \<lparr>hex_encode = sample_hex_encode, hex_decode = sample_hex_decode,
     blake3_hash = sample_hash, decode_header = sample_decode_header\<rparr>"

text \<open>A header at height 7, timestamp 9, proposer \<open>ab\<close>, bits \<open>0x1d00ffff\<close>, nonce 0.\<close>

definition sample_blob :: bytes where
  "sample_blob = le_bytes 8 7 @ replicate 128 0 @ le_bytes 8 9 @ le_bytes 4 2 @ [97, 98] @
     le_bytes 4 0 @ le_bytes 4 0x1d00ffff @ le_bytes 8 0"

definition sample_target :: bytes where
  "sample_target = [0, 0, 0, 0, 255, 255, 0, 0, 0, 0, 0, 0, 0, 0, 0, 0, 0, 0, 0, 0, 0, 0, 0, 0, 0, 0, 0, 0, 0, 0, 0, 0]"

definition sample_template :: json where
  "sample_template = JObject
     [(''templateId'', JString (template_id_for_blob sample sample_blob)),
      (''height'', ju64 7), (''timestampMs'', ju64 9),
      (''blob'', JString (sample_hex_encode sample_blob)), (''nonceOffset'', ju64 158),
      (''target'', JString (sample_hex_encode sample_target)),
      (''powAlgo'', JString ''RandomX''),
      (''powKey'', JString (sample_hex_encode (replicate 32 1))),
      (''proposer'', JString ''ab'')]"

definition sample_job :: job where
  "sample_job = \<lparr>job_id = template_id_for_blob sample sample_blob, job_blob = sample_blob,
     job_nonce_offset = 158, job_target = sample_target, job_block_target = Some sample_target,
     job_algo = RandomX, job_pow_key = replicate 32 1, job_height = 7,
     job_timestamp_ms = Some 9, job_coinbase = Some ''ab''\<rparr>"

definition sample_header :: header where
  "sample_header = \<lparr>hd_height = 7, hd_prev_hash = replicate 32 0, hd_tx_root = replicate 32 0,
     hd_receipts_root = replicate 32 0, hd_state_root = replicate 32 0, hd_timestamp_ms = 9,
     hd_proposer = ''ab'', hd_version_bits = 0, hd_bits = 0x1d00ffff, hd_nonce = 0\<rparr>"

lemma hex_value_hex_digit:
  assumes "n < 16" shows "hex_value (hex_digit n) = Some n"
  using assms by (auto simp: hex_value_def hex_digit_def Let_def)

lemma sample_hex_roundtrip: "sample_hex_decode (sample_hex_encode bs) = Some bs"
proof (induction bs)
  case Nil
  then show ?case by (simp add: sample_hex_encode_def)
next
  case (Cons b bs)
  have "unat b < 256" using unsigned_less [of b, where ?'a = nat] by simp
  then have "unat b div 16 < 16" by simp
  moreover have "(of_nat (16 * (unat b div 16) + unat b mod 16) :: u8) = b"
    by (simp only: mult_div_mod_eq) simp
  ultimately show ?case
    using Cons hex_value_hex_digit [of "unat b div 16"] hex_value_hex_digit [of "unat b mod 16"]
    by (simp add: sample_hex_encode_def del: of_nat_add of_nat_mult)
qed

lemma sample_chars: "char_of (97 :: nat) = CHR ''a''" "char_of (98 :: nat) = CHR ''b''"
  by code_simp+

lemma sample_decode: "sample_decode_header sample_blob = Some sample_header"
  by (simp add: sample_decode_header_def sample_blob_def sample_header_def le_value_le_bytes Let_def sample_chars)

lemma sample_compact: "target_from_compact 0x1d00ffff = Some sample_target"
proof -
  have "replicate 32 (0 :: u8) = [0, 0, 0, 0, 0, 0, 0, 0, 0, 0, 0, 0, 0, 0, 0, 0, 0, 0, 0, 0, 0, 0, 0, 0, 0, 0, 0, 0, 0, 0, 0, 0]"
    by (simp add: numeral_eq_Suc)
  then show ?thesis
    by (simp add: target_from_compact_def write_target_byte_def sample_target_def Let_def)
qed

lemma sample_from_rpc: "from_rpc sample sample_template = Inr sample_job"
proof -
  have "validate_account_id ''ab'' = Inr ()" "trim ''ab'' = ''ab''" by code_simp+
  then show ?thesis
    by (simp add: from_rpc_def sample_template_def sample_job_def rpc_string_def job_number_def
        json_access decode_hex_def decode_target_def authenticate_header_def bits_agree_def
        sample_def sample_hex_roundtrip sample_decode sample_header_def sample_compact
        rpc_algo_def blob_length_ok_def MAX_BLOB_BYTES_def
        sample_blob_def [THEN arg_cong [where f = length]]
        sample_target_def [THEN arg_cong [where f = length]] Let_def)
qed

definition sample_stratum :: json where
  "sample_stratum = JObject
     [(''job_id'', JString ''j''), (''blob'', JString (sample_hex_encode sample_blob)),
      (''nonce_offset'', ju64 158), (''nonce_size'', ju64 8),
      (''target_full'', JString (sample_hex_encode sample_target)), (''algo'', JString ''sha256d''),
      (''seed_hash'', JString []), (''height'', ju64 7)]"

definition sample_stratum_job :: job where
  "sample_stratum_job = \<lparr>job_id = ''j'', job_blob = sample_blob, job_nonce_offset = 158,
     job_target = sample_target, job_block_target = None, job_algo = Sha256d, job_pow_key = [],
     job_height = 7, job_timestamp_ms = None, job_coinbase = None\<rparr>"

lemma sample_hex_nonempty: "bs \<noteq> [] \<Longrightarrow> sample_hex_encode bs \<noteq> []"
  by (cases bs) (simp_all add: sample_hex_encode_def)

lemma sample_from_stratum: "from_stratum sample sample_stratum = Inr sample_stratum_job"
proof -
  have "sample_blob \<noteq> []" "sample_target \<noteq> []" by (simp_all add: sample_blob_def sample_target_def)
  then have "sample_hex_encode sample_blob \<noteq> []" "sample_hex_encode sample_target \<noteq> []"
    by (simp_all add: sample_hex_nonempty)
  then show ?thesis
    by (simp add: from_stratum_def sample_stratum_def sample_stratum_job_def stratum_string_def
        job_number_def json_access decode_hex_def decode_target_def stratum_block_target_def sample_def
        sample_hex_roundtrip stratum_algo_def blob_length_ok_def MAX_BLOB_BYTES_def
        sample_blob_def [THEN arg_cong [where f = length]]
        sample_target_def [THEN arg_cong [where f = length]])
qed

section \<open>Witnesses\<close>

lemma from_rpc_authenticated_witness:
  "\<exists>h. decode_header sample sample_blob = Some h \<and> hd_height h = 7 \<and>
     account_body (hd_proposer h) \<and> be_value sample_target = compact_value (hd_bits h)"
  using from_rpc_authenticated [OF sample_from_rpc] by (auto simp: sample_job_def)

lemma nonce_write_correct_witness:
  "\<exists>blob'. write_nonce sample_blob 158 5 = Some blob' \<and>
     le_value (drop (length sample_blob - 8) blob') = 5"
  using nonce_write_correct [of sample sample_template sample_job sample_blob 5] sample_from_rpc
  by (auto simp: sample_job_def)

end
