(* ===== verification/Engine.thy ===== *)
theory Engine
  imports Rpc ChainFeed Memory PowMachine SampleCodec
begin

text \<open>
  The engine's shared state (\<open>src/main.rs\<close>, \<open>State\<close> and \<open>Connection\<close>) and the operations on it:
  job installation, round statistics, the share window of a pool connection, and the handling
  of pool messages. An \<open>Arc\<close> is a value with an identity, so that \<open>Arc::ptr_eq\<close> compares the
  identities; \<open>es_fresh\<close> is the next identity. Locks and atomics make each operation one step.
  Events written to standard output are collected in \<open>es_out\<close> when the engine was started with
  JSON events; a broken pipe ends the process and is not modelled.
\<close>

section \<open>State\<close>

definition FIRST_SUBMIT_ID :: u64 where "FIRST_SUBMIT_ID = 1000"
definition LOGIN_ID :: u64 where "LOGIN_ID = 1"
definition KEEPALIVE_ID :: u64 where "KEEPALIVE_ID = 2"
definition MAX_LINE_BYTES :: nat where "MAX_LINE_BYTES = 64 * 1024"

record round_stats =
  rs_height :: "u64 option"
  rs_hashes :: u64
  rs_hazard :: real

definition round_default :: round_stats where
  "round_default = \<lparr>rs_height = None, rs_hashes = 0, rs_hazard = 0\<rparr>"

record connection =
  cn_id :: nat
  cn_max_pending :: u64

record engine_state =
  es_job :: "(nat \<times> job) option"
  es_connection :: "connection option"
  es_pending :: "nat \<Rightarrow> u64"
  es_rpc_endpoint :: "str option"
  es_generation :: u64
  es_next_request :: u64
  es_interval_hashes :: u64
  es_total_hashes :: u64
  es_submitted :: u64
  es_accepted :: u64
  es_rejected :: u64
  es_mempool_size :: u64
  es_mempool_known :: bool
  es_peer_count :: u64
  es_peers_known :: bool
  es_round :: round_stats
  es_confirmed_coinbase :: "str option"
  es_sealed :: sealed_blocks
  es_watch :: tip_watch
  es_json_events :: bool
  es_fresh :: nat
  es_out :: "json list"

definition state_new :: "bool \<Rightarrow> engine_state" where
  "state_new json_events =
     \<lparr>es_job = None, es_connection = None, es_pending = (\<lambda>_. 0), es_rpc_endpoint = None,
      es_generation = 0, es_next_request = FIRST_SUBMIT_ID, es_interval_hashes = 0,
      es_total_hashes = 0, es_submitted = 0, es_accepted = 0, es_rejected = 0,
      es_mempool_size = 0, es_mempool_known = False, es_peer_count = 0, es_peers_known = False,
      es_round = round_default, es_confirmed_coinbase = None, es_sealed = sealed_default,
      es_watch = tip_watch_default, es_json_events = json_events, es_fresh = 0, es_out = []\<rparr>"

text \<open>\<open>emit\<close> while the pipe is whole; a broken pipe ends the process (\<open>emit_pipe\<close> of \<open>Startup\<close>).\<close>

definition emit :: "json \<Rightarrow> engine_state \<Rightarrow> engine_state" where
  "emit e st = (if es_json_events st then st\<lparr>es_out := es_out st @ [e]\<rparr> else st)"

definition bump_generation :: "engine_state \<Rightarrow> engine_state" where
  "bump_generation st = st\<lparr>es_generation := es_generation st + 1\<rparr>"

definition record_sealed_block :: "u64 \<Rightarrow> str \<Rightarrow> engine_state \<Rightarrow> engine_state" where
  "record_sealed_block height hash st = st\<lparr>es_sealed := sealed_record height hash (es_sealed st)\<rparr>"

section \<open>Jobs and rounds\<close>

definition algorithm_name :: "pow_algo \<Rightarrow> str" where
  "algorithm_name a = (case a of RandomX \<Rightarrow> ''RandomX'' | Sha256d \<Rightarrow> ''SHA-256d'')"

definition job_event :: "externals \<Rightarrow> job \<Rightarrow> json" where
  "job_event X j = JObject
     [(''event'', JString ''job''), (''job_id'', JString (job_id j)), (''height'', ju64 (job_height j)),
      (''algorithm'', JString (algorithm_name (job_algo j))),
      (''coinbase'', jopt JString (job_coinbase j)),
      (''network_target'', jopt (\<lambda>t. JString (hex_encode X t)) (job_block_target j)),
      (''expected_hashes'', jopt (\<lambda>t. JNumber (Float (expected_hashes_for_target t))) (job_block_target j))]"

definition enter_round :: "u64 \<Rightarrow> engine_state \<Rightarrow> engine_state" where
  "enter_round height st =
     (if rs_height (es_round st) \<noteq> Some height
      then st\<lparr>es_round := round_default\<lparr>rs_height := Some height\<rparr>\<rparr> else st)"

definition confirm_coinbase :: "job \<Rightarrow> engine_state \<Rightarrow> engine_state" where
  "confirm_coinbase j st =
     (case job_coinbase j of
        Some account \<Rightarrow>
          if es_confirmed_coinbase st \<noteq> Some account
          then st\<lparr>es_confirmed_coinbase := Some account\<rparr> else st
      | None \<Rightarrow> st)"

definition store_job :: "job \<Rightarrow> engine_state \<Rightarrow> engine_state" where
  "store_job j st = st\<lparr>es_job := Some (es_fresh st, j), es_fresh := es_fresh st + 1\<rparr>"

definition install_job :: "externals \<Rightarrow> job \<Rightarrow> engine_state \<Rightarrow> engine_state" where
  "install_job X j st =
     bump_generation (emit (job_event X j) (store_job j
       (confirm_coinbase j (enter_round (job_height j) st))))"

definition record_round_hashes :: "job \<Rightarrow> u64 \<Rightarrow> engine_state \<Rightarrow> engine_state" where
  "record_round_hashes j completed st =
     (case job_block_target j of
        None \<Rightarrow> st
      | Some block_target \<Rightarrow>
          let round = es_round st in
          if rs_height round = Some (job_height j)
          then st\<lparr>es_round := round\<lparr>rs_hashes := saturating_add (rs_hashes round) completed,
                 rs_hazard := rs_hazard round +
                   real (unat completed) / expected_hashes_for_target block_target\<rparr>\<rparr>
          else st)"

definition round_snapshot :: "engine_state \<Rightarrow> u64 option \<times> u64 \<times> real" where
  "round_snapshot st =
     (let round = es_round st in
      (rs_height round, rs_hashes round, - (exp (- rs_hazard round) - 1)))"

definition clear_connection :: "nat \<Rightarrow> engine_state \<Rightarrow> engine_state" where
  "clear_connection cid st =
     (case es_connection st of
        Some c \<Rightarrow>
          if cn_id c = cid
          then bump_generation (st\<lparr>es_connection := None, es_job := None, es_confirmed_coinbase := None\<rparr>)
          else st
      | None \<Rightarrow> st)"

definition job_cleared_event :: "job \<Rightarrow> json" where
  "job_cleared_event j = JObject
     [(''event'', JString ''job_cleared''), (''job_id'', JString (job_id j)),
      (''height'', ju64 (job_height j)), (''reason'', JString ''accepted_block'')]"

definition clear_job_if_current :: "nat \<times> job \<Rightarrow> engine_state \<Rightarrow> bool \<times> engine_state" where
  "clear_job_if_current completed st =
     (case es_job st of
        Some (jid, j) \<Rightarrow>
          if jid = fst completed
          then (True, emit (job_cleared_event (snd completed)) (bump_generation (st\<lparr>es_job := None\<rparr>)))
          else (False, st)
      | None \<Rightarrow> (False, st))"

section \<open>The share window\<close>

definition reserve_share :: "connection \<Rightarrow> engine_state \<Rightarrow> bool \<times> engine_state" where
  "reserve_share c st =
     (let pending = es_pending st (cn_id c) in
      if pending < cn_max_pending c
      then (True, st\<lparr>es_pending := (es_pending st)(cn_id c := pending + 1)\<rparr>)
      else (False, st))"

definition finish_share :: "connection \<Rightarrow> engine_state \<Rightarrow> engine_state" where
  "finish_share c st =
     st\<lparr>es_pending := (es_pending st)(cn_id c := saturating_sub (es_pending st (cn_id c)) 1)\<rparr>"

section \<open>Lines on the wire\<close>

definition frame_json :: "serde \<Rightarrow> json \<Rightarrow> io_error + str" where
  "frame_json S v =
     (let payload = show_json S v @ [LF] in
      and_then (ensure (length payload \<le> MAX_LINE_BYTES)
        (InvalidInput, ''outbound JSON exceeds line limit'')) (\<lambda>_. Inr payload))"

definition write_json :: "serde \<Rightarrow> (str \<Rightarrow> io_error + unit) \<Rightarrow> json \<Rightarrow> io_error + unit" where
  "write_json S send v = and_then (frame_json S v) send"

definition read_json_line :: "serde \<Rightarrow> stream \<Rightarrow> io_error + (json \<times> stream) option" where
  "read_json_line S s =
     and_then (read_until_lf (MAX_LINE_BYTES + 1) s) (\<lambda>(bytes, s').
     if bytes = [] then Inr None
     else
       and_then (ensure (length bytes \<le> MAX_LINE_BYTES \<and> ends_with bytes [LF])
         (invalid ''Stratum line exceeds 64 KiB or is unterminated'')) (\<lambda>_.
       and_then (map_err (\<lambda>e. invalid (''invalid JSON: '' @ e)) (parse_json S bytes)) (\<lambda>v.
       Inr (Some (v, s')))))"

section \<open>Pool messages\<close>

datatype message_error =
    BadJob job_error
  | UnsafeMemory memory_error
  | PushWithoutParams
  | LoginRejected json
  | LoginWithoutJob

type_synonym gated = "engine_state \<times> memory_gate"

definition install_job_value ::
  "externals \<Rightarrow> json \<Rightarrow> (u64 \<times> u64) option \<Rightarrow> gated \<Rightarrow> (message_error + unit) \<times> gated"
where
  "install_job_value X v probe = (\<lambda>(st, gate).
     case from_stratum X v of
       Inl e \<Rightarrow> (Inl (BadJob e), st, gate)
     | Inr j \<Rightarrow>
         (case ensure_safe (job_algo j) probe gate of
            (Inl e, gate') \<Rightarrow> (Inl (UnsafeMemory e), st, gate')
          | (Inr _, gate') \<Rightarrow> (Inr (), install_job X j st, gate')))"

definition share_event :: "engine_state \<Rightarrow> json" where
  "share_event st = JObject
     [(''event'', JString ''share''), (''submitted'', ju64 (es_submitted st)),
      (''accepted'', ju64 (es_accepted st)), (''rejected'', ju64 (es_rejected st))]"

definition settle_share :: "connection \<Rightarrow> json \<Rightarrow> engine_state \<Rightarrow> engine_state" where
  "settle_share c message st =
     (let st1 = finish_share c st;
          st2 = (if absent_or_null ''error'' message
                 then st1\<lparr>es_accepted := es_accepted st1 + 1\<rparr>
                 else st1\<lparr>es_rejected := es_rejected st1 + 1\<rparr>)
      in emit (share_event st2) st2)"

definition handle_message ::
  "externals \<Rightarrow> connection \<Rightarrow> json \<Rightarrow> (u64 \<times> u64) option \<Rightarrow> gated \<Rightarrow> (message_error + unit) \<times> gated"
where
  "handle_message X c message probe = (\<lambda>(st, gate).
     if get_str ''method'' message = Some ''job'' then
       (case jget ''params'' message of
          None \<Rightarrow> (Inl PushWithoutParams, st, gate)
        | Some params \<Rightarrow> install_job_value X params probe (st, gate))
     else if get_u64 ''id'' message = Some LOGIN_ID then
       (if \<not> absent_or_null ''error'' message
        then (Inl (LoginRejected (case jget ''error'' message of Some e \<Rightarrow> e | None \<Rightarrow> JNull)), st, gate)
        else case pointer2 ''result'' ''job'' message of
               None \<Rightarrow> (Inl LoginWithoutJob, st, gate)
             | Some v \<Rightarrow> install_job_value X v probe (st, gate))
     else if (case get_u64 ''id'' message of Some i \<Rightarrow> FIRST_SUBMIT_ID \<le> i | None \<Rightarrow> False) then
       (Inr (), settle_share c message st, gate)
     else (Inr (), st, gate))"

section \<open>What the operations do\<close>

lemma emit_fields [simp]:
  "es_job (emit e st) = es_job st" "es_connection (emit e st) = es_connection st"
  "es_pending (emit e st) = es_pending st" "es_rpc_endpoint (emit e st) = es_rpc_endpoint st"
  "es_generation (emit e st) = es_generation st" "es_round (emit e st) = es_round st"
  "es_confirmed_coinbase (emit e st) = es_confirmed_coinbase st" "es_sealed (emit e st) = es_sealed st"
  "es_submitted (emit e st) = es_submitted st" "es_accepted (emit e st) = es_accepted st"
  "es_rejected (emit e st) = es_rejected st" "es_fresh (emit e st) = es_fresh st"
  "es_watch (emit e st) = es_watch st" "es_json_events (emit e st) = es_json_events st"
  by (simp_all add: emit_def)

lemma install_job_fields:
  "es_job (install_job X j st) = Some (es_fresh st, j)"
  "es_generation (install_job X j st) = es_generation st + 1"
  "rs_height (es_round (install_job X j st)) = Some (job_height j)"
  "es_round (install_job X j st) =
     (if rs_height (es_round st) = Some (job_height j) then es_round st
      else round_default\<lparr>rs_height := Some (job_height j)\<rparr>)"
  "es_confirmed_coinbase (install_job X j st) =
     (case job_coinbase j of Some a \<Rightarrow> Some a | None \<Rightarrow> es_confirmed_coinbase st)"
  "es_fresh (install_job X j st) = es_fresh st + 1"
  by (auto simp: install_job_def bump_generation_def store_job_def confirm_coinbase_def enter_round_def
      round_default_def split: option.split)

lemma ensure_safe_approves:
  "fst (ensure_safe algo probe g) = Inr u \<Longrightarrow> algo = RandomX \<Longrightarrow> mg_approved (snd (ensure_safe algo probe g)) \<noteq> None"
  by (auto simp: ensure_safe_def split: prod.splits sum.splits if_splits)

lemma install_job_value_cases:
  assumes "install_job_value X v probe (st, gate) = (r, st', gate')"
  shows "(\<exists>e. r = Inl e \<and> st' = st) \<or>
    (\<exists>j. r = Inr () \<and> from_stratum X v = Inr j \<and> st' = install_job X j st \<and>
       (job_algo j = RandomX \<longrightarrow> mg_approved gate' \<noteq> None))"
proof (cases "from_stratum X v")
  case (Inl e)
  then show ?thesis using assms by (auto simp: install_job_value_def)
next
  case (Inr j)
  obtain er g where e: "ensure_safe (job_algo j) probe gate = (er, g)" by (metis surj_pair)
  show ?thesis
  proof (cases er)
    case (Inl m)
    then show ?thesis using assms Inr e by (auto simp: install_job_value_def)
  next
    case (Inr u)
    then have "job_algo j = RandomX \<longrightarrow> mg_approved g \<noteq> None"
      using ensure_safe_approves [of "job_algo j" probe gate u] e by auto
    then show ?thesis using assms Inr \<open>from_stratum X v = Inr j\<close> e by (simp add: install_job_value_def)
  qed
qed

lemma handle_message_cases:
  assumes "handle_message X c m probe (st, gate) = (r, st', gate')"
  shows "(r \<noteq> Inr () \<longrightarrow> st' = st) \<and>
    (st' = st \<or> st' = settle_share c m st \<or>
     (\<exists>v j. (if get_str ''method'' m = Some ''job'' then jget ''params'' m = Some v
         else get_u64 ''id'' m = Some LOGIN_ID \<and> absent_or_null ''error'' m \<and> pointer2 ''result'' ''job'' m = Some v) \<and>
        from_stratum X v = Inr j \<and> st' = install_job X j st \<and> r = Inr () \<and>
        (job_algo j = RandomX \<longrightarrow> mg_approved gate' \<noteq> None)))"
  using assms install_job_value_cases [of X _ probe st gate r st' gate']
  by (auto simp: handle_message_def split: if_splits option.splits)

lemma settle_share_job: "es_job (settle_share c m st) = es_job st"
  by (simp add: settle_share_def finish_share_def Let_def)

text \<open>
  C37: A pool job is installed only after its checks. Whatever message the pool sends, if the current
  job changes then the message is a push whose \<open>params\<close>, or a login reply without an error whose
  \<open>result.job\<close>, are a job that the parser accepted (so its nonce field is the
  trailing eight bytes of a blob within the size limit and its target has 32 bytes), the memory gate had
  approved it when its algorithm is RandomX, it is that very job under a fresh identity, and
  the generation moved by one; and a message that is refused leaves the state as it was.
\<close>
theorem pool_job_installed_only_if_checked:
  assumes "handle_message X c m probe (st, gate) = (r, st', gate')"
  shows "(es_job st' \<noteq> es_job st \<longrightarrow>
      (\<exists>v j. (if get_str ''method'' m = Some ''job'' then jget ''params'' m = Some v
         else get_u64 ''id'' m = Some LOGIN_ID \<and> absent_or_null ''error'' m \<and> pointer2 ''result'' ''job'' m = Some v) \<and>
         from_stratum X v = Inr j \<and> well_formed_job j \<and> es_job st' = Some (es_fresh st, j) \<and>
         (job_algo j = RandomX \<longrightarrow> mg_approved gate' \<noteq> None) \<and>
         es_generation st' = es_generation st + 1)) \<and>
    (r \<noteq> Inr () \<longrightarrow> st' = st)"
  using handle_message_cases [OF assms] stratum.parse_well_formed
  by (auto simp: settle_share_job install_job_fields)

section \<open>The share window of a connection\<close>

inductive share_step :: "connection \<Rightarrow> engine_state \<Rightarrow> engine_state \<Rightarrow> bool" for c where
  reserve: "share_step c st (snd (reserve_share c st))"
| finish: "share_step c st (finish_share c st)"
| reply: "handle_message X c m probe (st, gate) = (r, st', gate') \<Longrightarrow> share_step c st st'"

definition window_initial :: "connection \<Rightarrow> engine_state \<Rightarrow> bool" where
  "window_initial c st \<longleftrightarrow> es_pending st (cn_id c) = 0"

definition window_inv :: "connection \<Rightarrow> engine_state \<Rightarrow> bool" where
  "window_inv c st \<longleftrightarrow> es_pending st (cn_id c) \<le> cn_max_pending c"

lemma saturating_sub_le: "saturating_sub a b \<le> (a :: u64)"
  by (simp add: word_le_nat_alt unat_saturating_sub)

lemma window_reserve: "window_inv c st \<Longrightarrow> window_inv c (snd (reserve_share c st))"
  by (auto simp: window_inv_def reserve_share_def Let_def inc_le)

lemma window_finish: "window_inv c st \<Longrightarrow> window_inv c (finish_share c st)"
  using saturating_sub_le [of "es_pending st (cn_id c)" 1] by (simp add: window_inv_def finish_share_def)

lemma window_settle: "window_inv c st \<Longrightarrow> window_inv c (settle_share c m st)"
  using window_finish [of c st] by (simp add: settle_share_def Let_def window_inv_def finish_share_def)

lemma install_job_pending: "es_pending (install_job X j st) = es_pending st"
  by (simp add: install_job_def bump_generation_def store_job_def confirm_coinbase_def enter_round_def
      split: option.split)

interpretation window: machine_invariant "window_initial c" "share_step c" "window_inv c" for c
proof unfold_locales
  show "window_inv c st" if "window_initial c st" for st
    using that by (simp add: window_initial_def window_inv_def)
  show "window_inv c st'" if inv: "window_inv c st" and step: "share_step c st st'" for st st'
    using step
  proof (cases rule: share_step.cases)
    case (reply X m probe gate r gate')
    from handle_message_cases [OF reply(1)] show ?thesis
      using inv window_settle [OF inv] by (auto simp: window_inv_def install_job_pending)
  qed (use inv window_reserve window_finish in auto)
qed

text \<open>
  The share window is bounded. However workers reserve and give back shares and whatever the pool
  answers, a connection never has more shares awaiting a reply than its limit, a share can be
  reserved exactly while it has fewer, and the counter never wraps below zero.
\<close>
theorem share_window_bounded:
  assumes "reach (window_initial c) (share_step c) st"
  shows "es_pending st (cn_id c) \<le> cn_max_pending c \<and>
    (fst (reserve_share c st) \<longleftrightarrow> es_pending st (cn_id c) < cn_max_pending c) \<and>
    unat (es_pending (finish_share c st) (cn_id c)) = unat (es_pending st (cn_id c)) - 1"
  using window.inv_reach [OF assms]
  by (simp add: window_inv_def reserve_share_def finish_share_def Let_def unat_saturating_sub)

section \<open>Luck of a round\<close>

lemma record_rounds:
  assumes t: "job_block_target j = Some t"
  shows "rs_height (es_round st) = Some (job_height j) \<Longrightarrow>
    rs_height (es_round (fold (record_round_hashes j) cs st)) = Some (job_height j) \<and>
    unat (rs_hashes (es_round (fold (record_round_hashes j) cs st))) =
      min (unat (rs_hashes (es_round st)) + (\<Sum>c\<leftarrow>cs. unat c)) (2 ^ 64 - 1) \<and>
    rs_hazard (es_round (fold (record_round_hashes j) cs st)) =
      rs_hazard (es_round st) + real (\<Sum>c\<leftarrow>cs. unat c) / expected_hashes_for_target t"
proof (induction cs arbitrary: st)
  case Nil
  have "unat (rs_hashes (es_round st)) < 2 ^ 64"
    using unsigned_less [of "rs_hashes (es_round st)", where ?'a = nat] by simp
  then show ?case using Nil by (simp add: min_def)
next
  case (Cons c cs)
  let ?st = "record_round_hashes j c st"
  have st: "rs_height (es_round ?st) = Some (job_height j)"
    "unat (rs_hashes (es_round ?st)) = min (unat (rs_hashes (es_round st)) + unat c) (2 ^ 64 - 1)"
    "rs_hazard (es_round ?st) = rs_hazard (es_round st) + real (unat c) / expected_hashes_for_target t"
    using Cons.prems t by (simp_all add: record_round_hashes_def unat_saturating_add Let_def)
  from Cons.IH [OF st(1)] show ?case using st(2,3)
    by (simp add: add_divide_distrib min_def)
qed

text \<open>
  The luck that is displayed. In the round of a job with a 32-byte block target, starting from
  no hashes and after any batches of completed hashes, the snapshot is for the height of the job, counts
  the hashes exactly (up to saturation) and shows the probability \<open>1 - exp (- n / E)\<close> with \<open>n\<close> the number
  of hashes and \<open>E = 2^256 / (target + 1)\<close> their expected number per block; it lies in \<open>[0, 1)\<close>.
\<close>
theorem round_luck_exact:
  assumes "job_block_target j = Some t" "length t = 32"
    and "es_round st = round_default\<lparr>rs_height := Some (job_height j)\<rparr>"
  shows "round_snapshot (fold (record_round_hashes j) cs st) =
      (Some (job_height j), rs_hashes (es_round (fold (record_round_hashes j) cs st)),
       1 - exp (- (real (\<Sum>c\<leftarrow>cs. unat c) * (real (be_value t) + 1) / 2 ^ 256))) \<and>
    unat (rs_hashes (es_round (fold (record_round_hashes j) cs st))) =
      min (\<Sum>c\<leftarrow>cs. unat c) (2 ^ 64 - 1) \<and>
    0 \<le> snd (snd (round_snapshot (fold (record_round_hashes j) cs st))) \<and>
    snd (snd (round_snapshot (fold (record_round_hashes j) cs st))) < 1"
proof -
  have "rs_height (es_round st) = Some (job_height j)" "rs_hashes (es_round st) = 0"
    "rs_hazard (es_round st) = 0" using assms(3) by (simp_all add: round_default_def)
  note r = record_rounds [OF assms(1) this(1), of cs] this
  let ?hz = "rs_hazard (es_round (fold (record_round_hashes j) cs st))"
  have hz: "?hz = real (\<Sum>c\<leftarrow>cs. unat c) * (real (be_value t) + 1) / 2 ^ 256"
    using r by (simp only: expected_hashes_value [OF assms(2)]) simp
  have "0 \<le> real (\<Sum>c\<leftarrow>cs. unat c) * (real (be_value t) + 1) / 2 ^ 256"
    by (intro divide_nonneg_nonneg mult_nonneg_nonneg) simp_all
  then have "0 \<le> ?hz" by (simp only: hz)
  then have "exp (- ?hz) \<le> 1" "0 < exp (- ?hz)" by simp_all
  moreover have snap: "round_snapshot (fold (record_round_hashes j) cs st) =
      (Some (job_height j), rs_hashes (es_round (fold (record_round_hashes j) cs st)), 1 - exp (- ?hz))"
    using r by (simp add: round_snapshot_def Let_def)
  moreover have "unat (rs_hashes (es_round (fold (record_round_hashes j) cs st))) =
      min (\<Sum>c\<leftarrow>cs. unat c) (2 ^ 64 - 1)" using r by simp
  ultimately show ?thesis unfolding snap hz [symmetric] by simp
qed

section \<open>Witnesses\<close>

definition demo_connection :: connection where
  "demo_connection = \<lparr>cn_id = 0, cn_max_pending = 1\<rparr>"

lemma share_window_bounded_witness:
  "es_pending (snd (reserve_share demo_connection (state_new True))) 0 = 1 \<and>
   \<not> fst (reserve_share demo_connection (snd (reserve_share demo_connection (state_new True))))"
proof -
  have "window_initial demo_connection (state_new True)"
    by (simp add: window_initial_def state_new_def)
  then have start: "reach (window_initial demo_connection) (share_step demo_connection) (state_new True)"
    by (rule reach_init)
  have "reach (window_initial demo_connection) (share_step demo_connection)
      (snd (reserve_share demo_connection (state_new True)))"
    by (rule reach_step [OF start]) (rule share_step.reserve)
  from share_window_bounded [OF this] show ?thesis
    by (simp add: demo_connection_def reserve_share_def state_new_def)
qed

lemma round_luck_exact_witness:
  "\<exists>j t. job_block_target j = Some t \<and> length t = 32 \<and>
     snd (snd (round_snapshot (fold (record_round_hashes j) [256, 256]
       ((state_new True)\<lparr>es_round := round_default\<lparr>rs_height := Some (job_height j)\<rparr>\<rparr>)))) < 1"
proof -
  let ?j = "\<lparr>job_id = [], job_blob = [], job_nonce_offset = 0, job_target = replicate 32 255,
    job_block_target = Some (replicate 32 255), job_algo = RandomX, job_pow_key = [], job_height = 7,
    job_timestamp_ms = None, job_coinbase = None\<rparr>"
  let ?st = "(state_new True)\<lparr>es_round := round_default\<lparr>rs_height := Some (job_height ?j)\<rparr>\<rparr>"
  have "job_block_target ?j = Some (replicate 32 255)" "length (replicate 32 255 :: bytes) = 32"
    "es_round ?st = round_default\<lparr>rs_height := Some (job_height ?j)\<rparr>" by simp_all
  from round_luck_exact [OF this, of "[256, 256]"] this show ?thesis by blast
qed

lemma pool_job_installed_only_if_checked_witness:
  "\<exists>st' gate'. handle_message sample demo_connection
      (JObject [(''method'', JString ''job''), (''params'', sample_stratum)]) None
      (state_new True, memory_gate_new 1 False False) = (Inr (), st', gate') \<and>
    es_job st' = Some (0, sample_stratum_job) \<and> es_generation st' = 1"
proof -
  let ?m = "JObject [(''method'', JString ''job''), (''params'', sample_stratum)]"
  let ?st = "install_job sample sample_stratum_job (state_new True)"
  have h: "handle_message sample demo_connection ?m None (state_new True, memory_gate_new 1 False False) =
      (Inr (), ?st, memory_gate_new 1 False False)"
    by (simp add: handle_message_def json_access install_job_value_def sample_from_stratum ensure_safe_def
        sample_stratum_job_def)
  have changed: "es_job ?st \<noteq> es_job (state_new True)"
    by (simp add: install_job_fields state_new_def)
  from pool_job_installed_only_if_checked [OF h] changed
  have "es_generation ?st = es_generation (state_new True) + 1" by blast
  then show ?thesis using h by (simp add: install_job_fields state_new_def)
qed

end
