(* ===== verification/Worker.thy ===== *)
theory Worker
  imports Engine
begin

text \<open>
  A hashing worker (\<open>src/main.rs\<close>, \<open>worker_loop\<close>, \<open>worker_supervisor\<close> and \<open>reporter_loop\<close>). One
  round of the inner loop is cut where other threads can run: the look at the generation, the
  seal, the decision to submit, and the handling of the reply. Each part is a function of the
  shared state at that moment and of the worker's own variables.
\<close>

section \<open>A worker's variables\<close>

record hasher =
  hs_index :: u64
  hs_generation :: u64
  hs_job :: "(nat \<times> job) option"
  hs_blob :: bytes
  hs_nonce :: u64
  hs_ready :: "(pow_algo \<times> bytes \<times> mining_mode) option"
  hs_announced :: bool
  hs_last_error :: "(str \<times> nat) option"

definition WORK_BATCH :: nat where "WORK_BATCH = 256"

definition first_nonce :: "u64 \<Rightarrow> u64" where
  "first_nonce worker = push_bit 56 worker"

definition hasher_new :: "u64 \<Rightarrow> hasher" where
  "hasher_new worker = \<lparr>hs_index = worker, hs_generation = - 1, hs_job = None, hs_blob = [],
     hs_nonce = first_nonce worker, hs_ready = None, hs_announced = False, hs_last_error = None\<rparr>"

section \<open>Taking up a job\<close>

text \<open>The generation is read first; the job slot afterwards, under its own lock.\<close>

definition note_generation :: "u64 \<Rightarrow> hasher \<Rightarrow> hasher" where
  "note_generation latest h = h\<lparr>hs_generation := latest, hs_announced := False\<rparr>"

definition take_job :: "(nat \<times> job) option \<Rightarrow> hasher \<Rightarrow> hasher" where
  "take_job slot h =
     (case slot of
        None \<Rightarrow> h\<lparr>hs_job := None\<rparr>
      | Some (jid, j) \<Rightarrow> h\<lparr>hs_job := Some (jid, j), hs_blob := job_blob j,
          hs_nonce := first_nonce (hs_index h)\<rparr>)"

section \<open>One attempt\<close>

datatype attempt = WaitForJob | StaleGeneration | NoncePanic | SealBlob bytes

definition next_attempt :: "engine_state \<Rightarrow> hasher \<Rightarrow> attempt" where
  "next_attempt st h =
     (case hs_job h of
        None \<Rightarrow> WaitForJob
      | Some (jid, j) \<Rightarrow>
          if es_generation st \<noteq> hs_generation h then StaleGeneration
          else case write_nonce (hs_blob h) (job_nonce_offset j) (hs_nonce h) of
                 None \<Rightarrow> NoncePanic | Some blob \<Rightarrow> SealBlob blob)"

definition step_nonce :: "hasher \<Rightarrow> hasher" where
  "step_nonce h = h\<lparr>hs_nonce := hs_nonce h + 1\<rparr>"

definition worker_event :: "str \<Rightarrow> hasher \<Rightarrow> (str \<times> json) list \<Rightarrow> json" where
  "worker_event name h extra = JObject
     ([(''event'', JString name), (''worker'', ju64 (hs_index h))] @ extra)"

text \<open>The callback of \<open>seal_blob\<close>, run before an engine is built.\<close>

definition announce_building :: "engine_state \<times> hasher \<Rightarrow> engine_state \<times> hasher" where
  "announce_building = (\<lambda>(st, h).
     if hs_announced h then (st, h)
     else (emit (worker_event ''worker_initializing'' h []) st,
           h\<lparr>hs_ready := None, hs_announced := True\<rparr>))"

definition should_report :: "nat \<Rightarrow> str \<Rightarrow> hasher \<Rightarrow> bool" where
  "should_report now error h =
     (case hs_last_error h of
        None \<Rightarrow> True
      | Some (previous, since) \<Rightarrow> previous \<noteq> error \<or> 30000 \<le> now - since)"

definition seal_failed :: "nat \<Rightarrow> str \<Rightarrow> engine_state \<times> hasher \<Rightarrow> engine_state \<times> hasher" where
  "seal_failed now error = (\<lambda>(st, h).
     let report = should_report now error h;
         st' = (if report then emit (worker_event ''worker_error'' h [(''message'', JString error)]) st else st);
         h' = (if report then h\<lparr>hs_last_error := Some (error, now)\<rparr> else h)
     in (st', step_nonce (h'\<lparr>hs_ready := None, hs_announced := True\<rparr>)))"

definition seal_ready :: "job \<Rightarrow> mining_mode \<Rightarrow> engine_state \<times> hasher \<Rightarrow> engine_state \<times> hasher" where
  "seal_ready j mode = (\<lambda>(st, h).
     let st1 = (if hs_last_error h \<noteq> None then emit (worker_event ''worker_recovered'' h []) st else st);
         h1 = h\<lparr>hs_announced := False, hs_last_error := None\<rparr>;
         fresh = (case hs_ready h1 of None \<Rightarrow> True
           | Some (algo, key, m) \<Rightarrow> algo \<noteq> job_algo j \<or> key \<noteq> job_pow_key j \<or> m \<noteq> mode)
     in if fresh
        then (emit (worker_event ''worker_ready'' h1 [(''mode'', JString (telemetry_name mode))]) st1,
              h1\<lparr>hs_ready := Some (job_algo j, job_pow_key j, mode)\<rparr>)
        else (st1, h1))"

text \<open>Comparison of 32-byte arrays: lexicographic, so big-endian.\<close>

fun bytes_le :: "bytes \<Rightarrow> bytes \<Rightarrow> bool" where
  "bytes_le [] bs = True"
| "bytes_le (a # as) [] = False"
| "bytes_le (a # as) (b # bs) = (a < b \<or> (a = b \<and> bytes_le as bs))"

definition wins :: "engine_state \<Rightarrow> hasher \<Rightarrow> job \<Rightarrow> bytes \<Rightarrow> bool" where
  "wins st h j digest \<longleftrightarrow> bytes_le digest (job_target j) \<and> es_generation st = hs_generation h"

section \<open>Submission to a node\<close>

definition submission_params :: "job \<Rightarrow> u64 \<Rightarrow> json" where
  "submission_params j nonce = JObject
     [(''templateId'', JString (job_id j)), (''nonce'', ju64 nonce),
      (''timestampMs'', jopt (\<lambda>n. ju64 n) (job_timestamp_ms j))]"

definition count_submission :: "engine_state \<Rightarrow> engine_state" where
  "count_submission st = st\<lparr>es_submitted := es_submitted st + 1\<rparr>"

datatype rpc_failure = Transport io_error | Refused submission_error

definition judge_reply ::
  "externals \<Rightarrow> io_error + json \<Rightarrow> job \<Rightarrow> bytes \<Rightarrow> rpc_failure + unit"
where
  "judge_reply X reply j blob =
     (case reply of
        Inl e \<Rightarrow> Inl (Transport e)
      | Inr result \<Rightarrow> map_err Refused (validate_rpc_submission X result j blob))"

definition settle_submission ::
  "externals \<Rightarrow> io_error + json \<Rightarrow> nat \<times> job \<Rightarrow> bytes \<Rightarrow> engine_state \<Rightarrow> engine_state"
where
  "settle_submission X reply aj blob st =
     (case judge_reply X reply (snd aj) blob of
        Inr _ \<Rightarrow>
          let st1 = record_sealed_block (job_height (snd aj)) (template_id_for_blob X blob)
                (st\<lparr>es_accepted := es_accepted st + 1\<rparr>)
          in snd (clear_job_if_current aj (emit (share_event st1) st1))
      | Inl _ \<Rightarrow> st\<lparr>es_rejected := es_rejected st + 1\<rparr>)"

section \<open>Submission to a pool\<close>

definition share_message :: "externals \<Rightarrow> u64 \<Rightarrow> job \<Rightarrow> u64 \<Rightarrow> bytes \<Rightarrow> json" where
  "share_message X request_id j nonce digest = JObject
     [(''id'', ju64 request_id), (''jsonrpc'', JString ''2.0''), (''method'', JString ''submit''),
      (''params'', JObject [(''job_id'', JString (job_id j)), (''nonce'', JString (nonce_wire X nonce)),
         (''result'', JString (hex_encode X digest))])]"

definition submit_share ::
  "externals \<Rightarrow> serde \<Rightarrow> (str \<Rightarrow> io_error + unit) \<Rightarrow> job \<Rightarrow> u64 \<Rightarrow> bytes \<Rightarrow> engine_state \<Rightarrow> engine_state"
where
  "submit_share X S send j nonce digest st =
     (let request_id = es_next_request st;
          st1 = st\<lparr>es_next_request := request_id + 1\<rparr>
      in case es_connection st1 of
           None \<Rightarrow> st1
         | Some c \<Rightarrow>
             (case reserve_share c st1 of
                (False, st2) \<Rightarrow> st2
              | (True, st2) \<Rightarrow>
                  (case write_json S send (share_message X request_id j nonce digest) of
                     Inr _ \<Rightarrow> count_submission st2
                   | Inl _ \<Rightarrow> finish_share c st2)))"

section \<open>End of a batch, supervision, reports\<close>

definition finish_batch :: "job \<Rightarrow> u64 \<Rightarrow> engine_state \<Rightarrow> engine_state" where
  "finish_batch j completed st =
     record_round_hashes j completed
       (st\<lparr>es_interval_hashes := es_interval_hashes st + completed,
           es_total_hashes := es_total_hashes st + completed\<rparr>)"

definition restart_after_panic :: "u64 \<Rightarrow> str \<Rightarrow> u64 \<Rightarrow> engine_state \<Rightarrow> u64 \<times> u64 \<times> engine_state" where
  "restart_after_panic worker message restarts st =
     (let restarts' = saturating_add restarts 1;
          retry_secs = min restarts' 30
      in (restarts', retry_secs, emit (JObject
        [(''event'', JString ''worker_error''), (''worker'', ju64 worker),
         (''message'', JString (''internal worker panic: '' @ message)),
         (''retry_in_secs'', ju64 retry_secs)]) st))"

definition metrics_event :: "real \<Rightarrow> engine_state \<Rightarrow> json" where
  "metrics_event rate st =
     (let (round_height, round_hashes, round_probability) = round_snapshot st in JObject
       [(''event'', JString ''metrics''), (''hashrate'', JNumber (Float rate)),
        (''height'', jopt (\<lambda>(jid, j). ju64 (job_height j)) (es_job st)),
        (''total_hashes'', ju64 (es_total_hashes st)),
        (''round_height'', jopt (\<lambda>n. ju64 n) round_height), (''round_hashes'', ju64 round_hashes),
        (''round_probability'', JNumber (Float round_probability)),
        (''submitted'', ju64 (es_submitted st)), (''accepted'', ju64 (es_accepted st)),
        (''rejected'', ju64 (es_rejected st)),
        (''mempool_size'', if es_mempool_known st then ju64 (es_mempool_size st) else JNull),
        (''peer_count'', if es_peers_known st then ju64 (es_peer_count st) else JNull)])"

text \<open>\<open>elapsed\<close> is the measured time in seconds; \<open>f64::EPSILON\<close> keeps the quotient finite.\<close>

definition report :: "real \<Rightarrow> engine_state \<Rightarrow> engine_state" where
  "report elapsed st =
     (let rate = real (unat (es_interval_hashes st)) / max elapsed (1 / 2 ^ 52);
          st1 = st\<lparr>es_interval_hashes := 0\<rparr>
      in emit (metrics_event rate st1) st1)"

section \<open>The loop\<close>

text \<open>
  What one iteration meets outside the worker: the seal of a blob and whether an engine was built
  for it, what the other threads do to the shared state meanwhile, the reply of the node to a
  submission, the pool's socket, and the clock.
\<close>

record surroundings =
  sr_seal :: "job \<Rightarrow> bytes \<Rightarrow> (str + mining_hash) \<times> bool"
  sr_during_seal :: "engine_state \<Rightarrow> engine_state"
  sr_call :: "str \<Rightarrow> json \<Rightarrow> io_error + json"
  sr_during_call :: "engine_state \<Rightarrow> engine_state"
  sr_send :: "str \<Rightarrow> io_error + unit"
  sr_now :: nat

datatype 'a flow = Stop 'a | Next bool 'a

definition submit_seal ::
  "externals \<Rightarrow> serde \<Rightarrow> surroundings \<Rightarrow> nat \<times> job \<Rightarrow> bytes \<Rightarrow> bytes \<Rightarrow> hasher \<Rightarrow> engine_state \<Rightarrow> engine_state"
where
  "submit_seal X S E aj blob digest h st =
     (case es_rpc_endpoint st of
        Some endpoint \<Rightarrow>
          let reply = sr_call E endpoint (submission_params (snd aj) (hs_nonce h))
          in settle_submission X reply aj blob (sr_during_call E (count_submission st))
      | None \<Rightarrow> submit_share X S (sr_send E) (snd aj) (hs_nonce h) digest st)"

definition worker_iteration ::
  "externals \<Rightarrow> serde \<Rightarrow> surroundings \<Rightarrow> engine_state \<times> hasher \<Rightarrow> (engine_state \<times> hasher) flow option"
where
  "worker_iteration X S E = (\<lambda>(st, h).
     case next_attempt st h of
       WaitForJob \<Rightarrow> Some (Stop (st, h))
     | StaleGeneration \<Rightarrow> Some (Stop (st, h))
     | NoncePanic \<Rightarrow> None
     | SealBlob blob \<Rightarrow>
         let aj = the (hs_job h);
             (sealed, built) = sr_seal E (snd aj) blob;
             (st1, h1) = (if built then announce_building (st, h\<lparr>hs_blob := blob\<rparr>) else (st, h\<lparr>hs_blob := blob\<rparr>));
             st2 = sr_during_seal E st1
         in case sealed of
              Inl e \<Rightarrow> Some (Stop (seal_failed (sr_now E) e (st2, h1)))
            | Inr mh \<Rightarrow>
                let (st3, h2) = seal_ready (snd aj) (mh_mode mh) (st2, h1);
                    st4 = (if wins st3 h2 (snd aj) (mh_digest mh)
                           then submit_seal X S E aj blob (mh_digest mh) h2 st3 else st3)
                in Some (Next True (st4, step_nonce h2)))"

text \<open>
  A batch: one list element per iteration, at most \<open>WORK_BATCH\<close>; the count of completed hashes is
  booked at the end on the job the batch was about.
\<close>

fun worker_batch ::
  "externals \<Rightarrow> serde \<Rightarrow> surroundings list \<Rightarrow> u64 \<Rightarrow> engine_state \<times> hasher \<Rightarrow> (u64 \<times> engine_state \<times> hasher) option"
where
  "worker_batch X S [] completed w = Some (completed, w)"
| "worker_batch X S (E # Es) completed w =
     (case worker_iteration X S E w of
        None \<Rightarrow> None
      | Some (Stop w') \<Rightarrow> Some (completed, w')
      | Some (Next hashed w') \<Rightarrow>
          worker_batch X S Es (if hashed then completed + 1 else completed) w')"

definition worker_round ::
  "externals \<Rightarrow> serde \<Rightarrow> surroundings list \<Rightarrow> engine_state \<times> hasher \<Rightarrow> (engine_state \<times> hasher) option"
where
  "worker_round X S Es w =
     (case hs_job (snd w) of
        None \<Rightarrow> Some w
      | Some (jid, j) \<Rightarrow>
          map_option (\<lambda>(completed, st, h). (finish_batch j completed st, h))
            (worker_batch X S (take WORK_BATCH Es) 0 w))"

section \<open>What the parts do\<close>

lemma bytes_le_iff: "length a = length b \<Longrightarrow> bytes_le a b \<longleftrightarrow> be_value a \<le> be_value b"
proof (induction a b rule: bytes_le.induct)
  case (3 a as b bs)
  let ?m = "(256 :: nat) ^ length bs"
  have len: "length as = length bs" using 3 by simp
  have less: "be_value as < ?m" "be_value bs < ?m" using be_value_bound [of as] be_value_bound [of bs] len by simp_all
  have gap: "x * ?m + r < y * ?m" if "x < y" "r < ?m" for x y r :: nat
  proof -
    have "(x + 1) * ?m \<le> y * ?m" using that(1) by (intro mult_le_mono1) simp
    then show ?thesis using that(2) by simp
  qed
  consider "a < b" | "a = b" | "b < a" by force
  then show ?case
  proof cases
    case 1
    then have "unat a < unat b" by (simp add: word_less_nat_alt)
    then have "unat a * ?m + be_value as < unat b * ?m" using less(1) by (rule gap)
    then show ?thesis using 1 len by simp
  next
    case 2
    then show ?thesis using 3 len by simp
  next
    case 3
    then have "unat b < unat a" by (simp add: word_less_nat_alt)
    then have "unat b * ?m + be_value bs < unat a * ?m" using less(2) by (rule gap)
    then show ?thesis using 3 len by auto
  qed
qed simp_all

text \<open>
  A seal is submitted only when it meets the target of the current job. For 32-byte values the
  byte-wise comparison is the comparison of the numbers they denote, and the generation at
  that moment is the one the worker hashes for.
\<close>
theorem wins_iff_meets_target:
  assumes "length digest = 32" "length (job_target j) = 32"
  shows "wins st h j digest \<longleftrightarrow>
    be_value digest \<le> be_value (job_target j) \<and> es_generation st = hs_generation h"
  using assms by (simp add: wins_def bytes_le_iff)

section \<open>Nonces\<close>

definition nonce_after :: "u64 \<Rightarrow> nat \<Rightarrow> u64" where
  "nonce_after worker k = hs_nonce ((step_nonce ^^ k) (take_job None (hasher_new worker)))"

lemma nonce_after_eq: "nonce_after worker k = first_nonce worker + of_nat k"
proof -
  have "hs_nonce ((step_nonce ^^ k) h) = hs_nonce h + of_nat k" for h
    by (induction k) (simp_all add: step_nonce_def)
  then show ?thesis by (simp add: nonce_after_def take_job_def hasher_new_def)
qed

lemma unat_nonce_after:
  assumes "unat worker < 256" "k < 2 ^ 56"
  shows "unat (nonce_after worker k) = unat worker * 2 ^ 56 + k"
proof -
  have "unat (push_bit 56 worker) = unat worker * 2 ^ 56"
    using assms(1) by (simp add: push_bit_eq_mult unat_word_ariths)
  moreover have "unat (of_nat k :: u64) = k" using assms(2) by (simp add: unat_of_nat)
  moreover have "unat worker * 2 ^ 56 + k < 2 ^ 64" using assms by simp
  ultimately show ?thesis by (simp add: nonce_after_eq first_nonce_def unat_word_ariths)
qed

text \<open>
  Workers search disjoint nonces. The nonce a worker tries after \<open>k\<close> steps from the start of a job is
  its number times \<open>2^56\<close> plus \<open>k\<close>, so two workers of the at most 64 that the command line allows, each
  within its first \<open>2^56\<close> attempts, never try the same nonce, nor does one worker try a nonce twice.
\<close>
theorem nonce_ranges_disjoint:
  assumes "unat a < 64" "unat b < 64" "k < 2 ^ 56" "l < 2 ^ 56"
  shows "nonce_after a k = nonce_after b l \<longleftrightarrow> a = b \<and> k = l"
proof
  assume "nonce_after a k = nonce_after b l"
  then have eq: "unat a * 2 ^ 56 + k = unat b * 2 ^ 56 + l"
    using unat_nonce_after [of a k] unat_nonce_after [of b l] assms by simp
  then have "(unat a * 2 ^ 56 + k) div 2 ^ 56 = (unat b * 2 ^ 56 + l) div 2 ^ 56" by simp
  then have "unat a = unat b" using assms(3,4) by simp
  then show "a = b \<and> k = l" using eq by (simp add: word_unat_eq_iff)
qed simp

lemma nonce_ranges_disjoint_witness: "nonce_after 1 0 \<noteq> nonce_after 0 72057594037927935"
  using nonce_ranges_disjoint [of 1 0 0 72057594037927935] by simp

lemma wins_iff_meets_target_witness:
  "\<exists>j. wins (state_new True) ((hasher_new 0)\<lparr>hs_generation := 0\<rparr>) j (replicate 32 0)"
proof -
  let ?j = "sample_stratum_job"
  have l: "length (replicate 32 0 :: bytes) = 32" "length (job_target ?j) = 32"
    by (simp_all add: sample_stratum_job_def sample_target_def)
  have "wins (state_new True) ((hasher_new 0)\<lparr>hs_generation := 0\<rparr>) ?j (replicate 32 0)"
    unfolding wins_iff_meets_target [OF l] by (simp add: state_new_def)
  then show ?thesis by blast
qed

section \<open>The verdict on a submission\<close>

lemma settle_submission_accepted:
  assumes "validate_rpc_submission X result j blob = Inr ()"
  shows "es_sealed (settle_submission X (Inr result) (jid, j) blob st) =
      sealed_record (job_height j) (template_id_for_blob X blob) (es_sealed st)"
    "es_accepted (settle_submission X (Inr result) (jid, j) blob st) = es_accepted st + 1"
    "es_rejected (settle_submission X (Inr result) (jid, j) blob st) = es_rejected st"
    "es_job (settle_submission X (Inr result) (jid, j) blob st) =
      (if \<exists>j'. es_job st = Some (jid, j') then None else es_job st)"
    "es_generation (settle_submission X (Inr result) (jid, j) blob st) =
      (if \<exists>j'. es_job st = Some (jid, j') then es_generation st + 1 else es_generation st)"
  using assms
  by (auto simp: settle_submission_def judge_reply_def clear_job_if_current_def record_sealed_block_def
      bump_generation_def Let_def split: option.splits)

text \<open>
  C3: A block counts as ours only when the node confirms that very block. A reply settles a submission
  as accepted exactly when it is a result with \<open>accepted\<close> true, the height of the job and the hash of
  the blob that was sealed; then that hash is remembered, the accepted counter moves, and the
  job is withdrawn if it is still the current one (by identity, so a newer job stays). In
  every other case only the rejected counter moves.
\<close>
theorem submission_settled_exactly:
  "if \<exists>result. reply = Inr result \<and> jget ''accepted'' result = Some (JBool True) \<and>
        jget ''height'' result = Some (ju64 (job_height j)) \<and>
        jget ''hash'' result = Some (JString (template_id_for_blob X blob))
   then es_sealed (settle_submission X reply (jid, j) blob st) =
          sealed_record (job_height j) (template_id_for_blob X blob) (es_sealed st) \<and>
        es_accepted (settle_submission X reply (jid, j) blob st) = es_accepted st + 1 \<and>
        es_rejected (settle_submission X reply (jid, j) blob st) = es_rejected st \<and>
        es_job (settle_submission X reply (jid, j) blob st) =
          (if \<exists>j'. es_job st = Some (jid, j') then None else es_job st)
   else settle_submission X reply (jid, j) blob st = st\<lparr>es_rejected := es_rejected st + 1\<rparr>"
proof -
  have v: "validate_rpc_submission X result j blob = Inr () \<longleftrightarrow>
      jget ''accepted'' result = Some (JBool True) \<and> jget ''height'' result = Some (ju64 (job_height j)) \<and>
      jget ''hash'' result = Some (JString (template_id_for_blob X blob))" for result
    by (rule submission_accepted_iff)
  show ?thesis
  proof (cases reply)
    case (Inl e)
    then show ?thesis by (simp add: settle_submission_def judge_reply_def)
  next
    case (Inr result)
    show ?thesis
    proof (cases "validate_rpc_submission X result j blob")
      case (Inl e)
      then have "\<not> (\<exists>r. reply = Inr r \<and> jget ''accepted'' r = Some (JBool True) \<and>
          jget ''height'' r = Some (ju64 (job_height j)) \<and>
          jget ''hash'' r = Some (JString (template_id_for_blob X blob)))"
        using v [of result] Inr by auto
      then show ?thesis using Inl Inr by (simp add: settle_submission_def judge_reply_def)
    next
      case (Inr u)
      then have ok: "validate_rpc_submission X result j blob = Inr ()" by simp
      then have "\<exists>r. reply = Inr r \<and> jget ''accepted'' r = Some (JBool True) \<and>
          jget ''height'' r = Some (ju64 (job_height j)) \<and>
          jget ''hash'' r = Some (JString (template_id_for_blob X blob))"
        using v [of result] \<open>reply = Inr result\<close> by auto
      then show ?thesis using settle_submission_accepted [OF ok, of jid st] \<open>reply = Inr result\<close> by simp
    qed
  qed
qed

section \<open>The blob a worker seals\<close>

text \<open>
  The worker's blob is the job's blob with another nonce in its last eight bytes.
\<close>

definition hasher_ok :: "hasher \<Rightarrow> bool" where
  "hasher_ok h = (case hs_job h of
       None \<Rightarrow> True
     | Some (jid, j) \<Rightarrow> well_formed_job j \<and> length (hs_blob h) = length (job_blob j) \<and>
         take (job_nonce_offset j) (hs_blob h) = take (job_nonce_offset j) (job_blob j))"

lemma hasher_ok_take: "(\<And>jid j. slot = Some (jid, j) \<Longrightarrow> well_formed_job j) \<Longrightarrow> hasher_ok (take_job slot h)"
  by (auto simp: hasher_ok_def take_job_def split: option.splits)

lemma well_formed_offset: "well_formed_job j \<Longrightarrow> job_nonce_offset j + 8 = length (job_blob j)"
  by (auto simp: well_formed_job_def blob_length_ok_def)

lemma next_attempt_seals:
  assumes "hasher_ok h" "hs_job h = Some (jid, j)" "es_generation st = hs_generation h"
  shows "next_attempt st h = SealBlob (take (job_nonce_offset j) (job_blob j) @ nonce_le (hs_nonce h))"
  using assms well_formed_offset [of j]
  by (auto simp: hasher_ok_def next_attempt_def write_nonce_def)

lemma next_attempt_no_panic: "hasher_ok h \<Longrightarrow> next_attempt st h \<noteq> NoncePanic"
proof (cases "hs_job h")
  case None
  then show ?thesis by (simp add: next_attempt_def)
next
  case (Some ja)
  then obtain jid j where j: "hs_job h = Some (jid, j)" by (cases ja) auto
  then show "hasher_ok h \<Longrightarrow> ?thesis" using next_attempt_seals [OF _ j, of st]
    by (cases "es_generation st = hs_generation h") (simp_all add: next_attempt_def)
qed

lemma hasher_job_kept:
  "hs_job (snd (announce_building w)) = hs_job (snd w)" "hs_blob (snd (announce_building w)) = hs_blob (snd w)"
  "hs_nonce (snd (announce_building w)) = hs_nonce (snd w)"
  "hs_generation (snd (announce_building w)) = hs_generation (snd w)"
  "hs_job (snd (seal_ready j m w)) = hs_job (snd w)" "hs_blob (snd (seal_ready j m w)) = hs_blob (snd w)"
  "hs_nonce (snd (seal_ready j m w)) = hs_nonce (snd w)"
  "hs_generation (snd (seal_ready j m w)) = hs_generation (snd w)"
  "hs_job (snd (seal_failed now e w)) = hs_job (snd w)" "hs_blob (snd (seal_failed now e w)) = hs_blob (snd w)"
  by (auto simp: announce_building_def seal_ready_def seal_failed_def step_nonce_def Let_def
      split: prod.splits)

lemma hasher_ok_cong: "hs_job h' = hs_job h \<Longrightarrow> hs_blob h' = hs_blob h \<Longrightarrow> hasher_ok h \<Longrightarrow> hasher_ok h'"
  by (cases "hs_job h") (auto simp: hasher_ok_def)

lemma hasher_ok_blob:
  "hasher_ok h \<Longrightarrow> hs_job h = Some (jid, j) \<Longrightarrow>
   hasher_ok (h\<lparr>hs_blob := take (job_nonce_offset j) (job_blob j) @ nonce_le n\<rparr>)"
  using well_formed_offset [of j] by (auto simp: hasher_ok_def)

lemma hasher_ok_step: "hasher_ok (step_nonce h) = hasher_ok h"
  by (cases "hs_job h") (auto simp: hasher_ok_def step_nonce_def)

definition flow_state :: "'a flow \<Rightarrow> 'a" where
  "flow_state f = (case f of Stop w \<Rightarrow> w | Next b w \<Rightarrow> w)"

lemma worker_iteration_ok:
  assumes ok: "hasher_ok h"
  shows "\<exists>f. worker_iteration X S E (st, h) = Some f \<and> hasher_ok (snd (flow_state f)) \<and>
    hs_job (snd (flow_state f)) = hs_job h"
proof (cases "hs_job h")
  case None
  then show ?thesis using ok by (simp add: worker_iteration_def next_attempt_def flow_state_def)
next
  case (Some ja)
  obtain jid j where j: "hs_job h = Some (jid, j)" using Some by (cases ja) auto
  show ?thesis
  proof (cases "es_generation st = hs_generation h")
    case False
    then show ?thesis using ok j by (simp add: worker_iteration_def next_attempt_def flow_state_def)
  next
    case True
    let ?blob = "take (job_nonce_offset j) (job_blob j) @ nonce_le (hs_nonce h)"
    let ?h = "h\<lparr>hs_blob := ?blob\<rparr>"
    have h: "hasher_ok ?h" "hs_job ?h = Some (jid, j)" using hasher_ok_blob [OF ok j] j by simp_all
    have a: "next_attempt st h = SealBlob ?blob" by (rule next_attempt_seals [OF ok j True])
    obtain sealed built where se: "sr_seal E j ?blob = (sealed, built)" by (metis surj_pair)
    define w1 where "w1 = (if built then announce_building (st, ?h) else (st, ?h))"
    have w1: "hasher_ok (snd w1)" "hs_job (snd w1) = Some (jid, j)"
      using hasher_ok_cong [OF _ _ h(1), of "snd w1"] h(2) by (auto simp: w1_def hasher_job_kept)
    show ?thesis
    proof (cases sealed)
      case (Inl e)
      let ?w = "seal_failed (sr_now E) e (sr_during_seal E (fst w1), snd w1)"
      have "worker_iteration X S E (st, h) = Some (Stop ?w)"
        using a j se Inl by (simp add: worker_iteration_def w1_def case_prod_beta Let_def)
      moreover have "hasher_ok (snd ?w)" "hs_job (snd ?w) = hs_job h"
        using hasher_ok_cong [OF _ _ w1(1), of "snd ?w"] w1(2) j by (auto simp: hasher_job_kept)
      ultimately show ?thesis by (simp add: flow_state_def)
    next
      case (Inr mh)
      let ?w = "seal_ready j (mh_mode mh) (sr_during_seal E (fst w1), snd w1)"
      have "\<exists>st'. worker_iteration X S E (st, h) = Some (Next True (st', step_nonce (snd ?w)))"
        using a j se Inr by (simp add: worker_iteration_def w1_def case_prod_beta Let_def)
      moreover have "hasher_ok (snd ?w)" "hs_job (snd ?w) = hs_job h"
        using hasher_ok_cong [OF _ _ w1(1), of "snd ?w"] w1(2) j by (auto simp: hasher_job_kept)
      ultimately show ?thesis by (auto simp: flow_state_def hasher_ok_step) (simp add: step_nonce_def)
    qed
  qed
qed

lemma worker_batch_ok:
  "hasher_ok (snd w) \<Longrightarrow>
   \<exists>n w'. worker_batch X S Es c w = Some (n, w') \<and> hasher_ok (snd w') \<and> hs_job (snd w') = hs_job (snd w) \<and>
     (\<exists>k \<le> length Es. n = c + of_nat k)"
proof (induction Es arbitrary: c w)
  case Nil
  then show ?case by (intro exI [of _ c] exI [of _ w]) (auto intro: exI [of _ "0 :: nat"])
next
  case (Cons E Es)
  obtain f where f: "worker_iteration X S E w = Some f" "hasher_ok (snd (flow_state f))"
    "hs_job (snd (flow_state f)) = hs_job (snd w)"
    using worker_iteration_ok [OF Cons.prems, of X S E "fst w"] by auto
  show ?case
  proof (cases f)
    case (Stop w')
    then show ?thesis using f by (auto simp: flow_state_def intro!: exI [of _ "0 :: nat"])
  next
    case (Next hashed w')
    let ?c = "if hashed then c + 1 else c"
    have ok: "hasher_ok (snd w')" "hs_job (snd w') = hs_job (snd w)" using f Next by (simp_all add: flow_state_def)
    from Cons.IH [OF ok(1), of ?c] obtain n w'' k where r: "worker_batch X S Es ?c w' = Some (n, w'')"
      "hasher_ok (snd w'')" "hs_job (snd w'') = hs_job (snd w')" "k \<le> length Es" "n = ?c + of_nat k" by blast
    have "\<exists>k' \<le> length (E # Es). n = c + of_nat k'"
      using r(4,5) by (cases hashed) (auto intro: exI [of _ "Suc k"] exI [of _ k])
    then show ?thesis using f(1) Next r ok(2) by auto
  qed
qed

text \<open>
  C20: A worker never tears its work. For a worker that took up a well-formed job, a whole batch runs
  through without the slice panic of the nonce write, whatever the seals, replies and other
  threads do; the worker still has the same job, its blob is still the job's blob up to the
  nonce field, the next blob it seals is exactly the job's blob with its current nonce, and a
  batch books at most 256 hashes.
\<close>
theorem worker_batch_total:
  assumes "hasher_ok h" "hs_job h = Some (jid, j)"
  shows "\<exists>n st' h'. worker_batch X S (take WORK_BATCH Es) 0 (st, h) = Some (n, st', h') \<and>
    unat n \<le> 256 \<and> hasher_ok h' \<and> hs_job h' = Some (jid, j) \<and>
    (es_generation st' = hs_generation h' \<longrightarrow>
       next_attempt st' h' = SealBlob (take (job_nonce_offset j) (job_blob j) @ nonce_le (hs_nonce h')))"
proof -
  from worker_batch_ok [of "(st, h)" X S "take WORK_BATCH Es" 0] assms obtain n w' k where
    r: "worker_batch X S (take WORK_BATCH Es) 0 (st, h) = Some (n, w')" "hasher_ok (snd w')"
    "hs_job (snd w') = Some (jid, j)" "k \<le> length (take WORK_BATCH Es)" "n = 0 + of_nat k" by auto
  have "k \<le> 256" using r(4) by (simp add: WORK_BATCH_def)
  then have "unat n \<le> 256" using r(5) by (simp add: unat_of_nat)
  then show ?thesis using r next_attempt_seals [OF r(2,3), of "fst w'"] by (cases w') auto
qed

lemma worker_batch_total_witness:
  "\<exists>n st' h'. worker_batch sample demo_serde (take WORK_BATCH []) 0
      (state_new True, take_job (Some (0, sample_stratum_job)) (hasher_new 3)) = Some (n, st', h') \<and>
    unat n \<le> 256 \<and> hs_job h' = Some (0, sample_stratum_job)"
proof -
  let ?h = "take_job (Some (0, sample_stratum_job)) (hasher_new 3)"
  have "well_formed_job sample_stratum_job" by (rule stratum.parse_well_formed [OF sample_from_stratum])
  then have "hasher_ok ?h" by (intro hasher_ok_take) auto
  moreover have "hs_job ?h = Some (0, sample_stratum_job)" by (simp add: take_job_def)
  ultimately show ?thesis
    using worker_batch_total [of ?h 0 sample_stratum_job sample demo_serde "[]" "state_new True"] by blast
qed

end
