(* ===== verification/Cli.thy ===== *)
theory Cli
  imports Rpc
begin

text \<open>
  The command line (\<open>src/main.rs\<close>: \<open>Config\<close>, \<open>usage\<close>, \<open>parse_u64\<close>, \<open>parse_args_from\<close>, \<open>main\<close>).
  A call of \<open>process::exit\<close> is the value \<open>Exit\<close> with its status and what was printed before it.
  Standard input is a parameter: the bytes that arrive, or the error of reading them.
\<close>

definition VERSION :: str where "VERSION = ''0.1.8''"

record config =
  cf_pool :: str
  cf_user :: str
  cf_password :: str
  cf_workers :: u64
  cf_reconnect_secs :: u64
  cf_report_secs :: u64
  cf_randomx_light :: bool

definition config_default :: config where
  "config_default =
     \<lparr>cf_pool = ''127.0.0.1:3333'', cf_user = ''xus-miner'', cf_password = ''x'', cf_workers = 1,
      cf_reconnect_secs = 5, cf_report_secs = 10, cf_randomx_light = False\<rparr>"

text \<open>Lines of the usage text.\<close>

definition usage_lines :: "str list" where
  "usage_lines =
     [''xus-miner '' @ [CHR 0xE2, CHR 0x80, CHR 0x94] @ '' native GUI and standalone SOV/XUS Stratum CPU miner'',
      '''',
      ''USAGE: xus-miner [--gui]'',
      ''xus-miner --headless [OPTIONS]'',
      '''',
      ''--gui                    Open the native operator console [default with no args]'',
      ''--headless               Run as a terminal/server process'',
      ''--pool <host:port>       SOV node RPC (:8645) or Stratum pool [127.0.0.1:3333]'',
      ''--user <label>           Public account/worker label [xus-miner]'',
      ''--password <value>       Stratum password [x]'',
      ''--password-stdin         Read the Stratum password from standard input'',
      ''--workers <n>            Mining threads [1; one ~2.3 GiB dataset is shared]'',
      ''--randomx-light          Portable low-memory RandomX recovery (slower)'',
      ''--confirm-randomx-memory Confirm required RAM only if the OS scan is unavailable'',
      ''--reconnect-secs <n>     Delay after disconnect [5]'',
      ''--report-secs <n>        Hashrate reporting interval [10]'',
      ''--version                Print the exact application/release version'',
      ''--help                   Show this help'',
      '''',
      ''No wallet seed or private key is used by this program.'']"

definition usage :: str where
  "usage = concat (List.map (\<lambda>l. l @ [CHR 0x0A]) (butlast usage_lines)) @ last usage_lines"

datatype stop = Exit nat str

section \<open>Options\<close>

definition parse_u64_flag :: "str \<Rightarrow> str \<Rightarrow> u64 \<Rightarrow> u64 \<Rightarrow> stop + u64" where
  "parse_u64_flag flag raw lo hi =
     (case parse_u64 raw of
        None \<Rightarrow> Inl (Exit 2 (''error: '' @ flag @ '' expects an integer, got `'' @ raw @ ''`''))
      | Some n \<Rightarrow>
          if \<not> (lo \<le> n \<and> n \<le> hi)
          then Inl (Exit 2 (''error: '' @ flag @ '' must be in '' @ decimal (unat lo) @ ''..='' @
                 decimal (unat hi) @ '', got '' @ decimal (unat n)))
          else Inr n)"

definition requires_value :: "str \<Rightarrow> stop" where
  "requires_value flag = Exit 2 (''error: '' @ flag @ '' requires a value'')"

text \<open>One option with its value, if it takes one: the new configuration.\<close>

definition takes_value :: "str \<Rightarrow> bool" where
  "takes_value flag \<longleftrightarrow> flag \<in> {''--pool'', ''--user'', ''--password'', ''--workers'',
     ''--reconnect-secs'', ''--report-secs''}"

definition set_option :: "str \<Rightarrow> str \<Rightarrow> config \<Rightarrow> stop + config" where
  "set_option flag v cfg =
     (if flag = ''--pool'' then Inr (cfg\<lparr>cf_pool := v\<rparr>)
      else if flag = ''--user'' then Inr (cfg\<lparr>cf_user := v\<rparr>)
      else if flag = ''--password'' then Inr (cfg\<lparr>cf_password := v\<rparr>)
      else if flag = ''--workers'' then
        and_then (parse_u64_flag ''--workers'' v 1 64) (\<lambda>n. Inr (cfg\<lparr>cf_workers := n\<rparr>))
      else if flag = ''--reconnect-secs'' then
        and_then (parse_u64_flag ''--reconnect-secs'' v 1 3600) (\<lambda>n. Inr (cfg\<lparr>cf_reconnect_secs := n\<rparr>))
      else
        and_then (parse_u64_flag ''--report-secs'' v 1 3600) (\<lambda>n. Inr (cfg\<lparr>cf_report_secs := n\<rparr>)))"

definition bare_option :: "str \<Rightarrow> config \<Rightarrow> stop + config" where
  "bare_option flag cfg =
     (if flag = ''--randomx-light'' then Inr (cfg\<lparr>cf_randomx_light := True\<rparr>)
      else if flag = ''--help'' \<or> flag = ''-h'' then Inl (Exit 0 usage)
      else if flag = ''--version'' \<or> flag = ''-V'' then Inl (Exit 0 (''xus-miner '' @ VERSION))
      else Inl (Exit 2 (''error: unknown option `'' @ flag @ ''`'' @ [CHR 0x0A, CHR 0x0A] @ usage)))"

fun parse_flags :: "str list \<Rightarrow> config \<Rightarrow> stop + config" where
  "parse_flags [] cfg = Inr cfg"
| "parse_flags [flag] cfg =
     (if takes_value flag then Inl (requires_value flag) else bare_option flag cfg)"
| "parse_flags (flag # v # args) cfg =
     (if takes_value flag then
        (case set_option flag v cfg of Inl e \<Rightarrow> Inl e | Inr cfg' \<Rightarrow> parse_flags args cfg')
      else
        (case bare_option flag cfg of Inl e \<Rightarrow> Inl e | Inr cfg' \<Rightarrow> parse_flags (v # args) cfg'))"

definition parse_args_from :: "str list \<Rightarrow> stop + config" where
  "parse_args_from args =
     and_then (parse_flags args config_default) (\<lambda>cfg.
       if trim (cf_pool cfg) = [] \<or> trim (cf_user cfg) = []
       then Inl (Exit 2 ''error: --pool and --user cannot be empty'')
       else Inr cfg)"

section \<open>The entry point\<close>

datatype run_mode =
    RunGui
  | RunHeadless config bool bool bool
  | Stopped stop

definition engine_flags :: "str list" where
  "engine_flags =
     [''--headless'', ''--json-events'', ''--password-stdin'', ''--parent-pipe-watchdog'',
      ''--confirm-randomx-memory'']"

definition read_password :: "io_error + str \<Rightarrow> stop + str" where
  "read_password stdin =
     (case stdin of
        Inl (_, message) \<Rightarrow> Inl (Exit 2 (''error: cannot read password from stdin: '' @ message))
      | Inr arrived \<Rightarrow>
          let password = take 4097 arrived in
          if \<not> utf8_valid password
          then Inl (Exit 2 ''error: cannot read password from stdin: stream did not contain valid UTF-8'')
          else if length password > 4096
          then Inl (Exit 2 ''error: password from stdin exceeds 4096 bytes'')
          else Inr password)"

definition main_args :: "str list \<Rightarrow> io_error + str \<Rightarrow> run_mode" where
  "main_args raw stdin =
     (if raw = [] \<or> ''--gui'' \<in> set raw then RunGui
      else
        let json_events = ''--json-events'' \<in> set raw;
            password_stdin = ''--password-stdin'' \<in> set raw;
            watchdog = ''--parent-pipe-watchdog'' \<in> set raw;
            confirmed = ''--confirm-randomx-memory'' \<in> set raw;
            rest = List.filter (\<lambda>a. a \<notin> set engine_flags) raw
        in case parse_args_from rest of
             Inl e \<Rightarrow> Stopped e
           | Inr cfg \<Rightarrow>
               if password_stdin then
                 (case read_password stdin of
                    Inl e \<Rightarrow> Stopped e
                  | Inr password \<Rightarrow>
                      RunHeadless (cfg\<lparr>cf_password := password\<rparr>) json_events watchdog confirmed)
               else RunHeadless cfg json_events watchdog confirmed)"

section \<open>Accepted configurations\<close>

definition config_ok :: "config \<Rightarrow> bool" where
  "config_ok cfg \<longleftrightarrow>
     1 \<le> cf_workers cfg \<and> cf_workers cfg \<le> 64 \<and>
     1 \<le> cf_reconnect_secs cfg \<and> cf_reconnect_secs cfg \<le> 3600 \<and>
     1 \<le> cf_report_secs cfg \<and> cf_report_secs cfg \<le> 3600"

lemma parse_u64_flag_range: "parse_u64_flag flag raw lo hi = Inr n \<Longrightarrow> lo \<le> n \<and> n \<le> hi"
  by (auto simp: parse_u64_flag_def split: option.splits if_splits)

lemma set_option_ok: "set_option flag v cfg = Inr cfg' \<Longrightarrow> config_ok cfg \<Longrightarrow> config_ok cfg'"
  by (auto simp: set_option_def config_ok_def and_then_Inr_iff dest!: parse_u64_flag_range split: if_splits)

lemma bare_option_ok: "bare_option flag cfg = Inr cfg' \<Longrightarrow> config_ok cfg \<Longrightarrow> config_ok cfg'"
  by (auto simp: bare_option_def config_ok_def split: if_splits)

lemma parse_flags_ok: "parse_flags args cfg = Inr cfg' \<Longrightarrow> config_ok cfg \<Longrightarrow> config_ok cfg'"
  by (induction args cfg arbitrary: cfg' rule: parse_flags.induct)
     (auto split: if_splits sum.splits dest: set_option_ok bare_option_ok)

lemma config_default_ok: "config_ok config_default"
  by (simp add: config_ok_def config_default_def)

lemma read_password_bound: "read_password stdin = Inr p \<Longrightarrow> length p \<le> 4096"
  by (auto simp: read_password_def Let_def split: sum.splits if_splits)

text \<open>
  The engine starts only with a configuration in range. Whatever the arguments and the standard input
  are, a headless run has 1 to 64 workers, intervals of 1 to 3600 seconds, a pool and a user that
  are not blank, the engine switches exactly when their flags were given, no \<open>--gui\<close> flag, and, when the
  password came from standard input, a password of at most 4096 bytes.
\<close>
theorem headless_configuration_valid:
  assumes "main_args raw stdin = RunHeadless cfg json_events watchdog confirmed"
  shows "config_ok cfg \<and> trim (cf_pool cfg) \<noteq> [] \<and> trim (cf_user cfg) \<noteq> [] \<and>
    ''--gui'' \<notin> set raw \<and> raw \<noteq> [] \<and>
    (json_events \<longleftrightarrow> ''--json-events'' \<in> set raw) \<and>
    (watchdog \<longleftrightarrow> ''--parent-pipe-watchdog'' \<in> set raw) \<and>
    (confirmed \<longleftrightarrow> ''--confirm-randomx-memory'' \<in> set raw) \<and>
    (''--password-stdin'' \<in> set raw \<longrightarrow> length (cf_password cfg) \<le> 4096)"
proof -
  let ?rest = "List.filter (\<lambda>a. a \<notin> set engine_flags) raw"
  from assms obtain cfg0 where c: "parse_args_from ?rest = Inr cfg0"
    "cfg = cfg0 \<or> (\<exists>p. cfg = cfg0\<lparr>cf_password := p\<rparr>)"
    by (auto simp: main_args_def Let_def split: if_splits sum.splits)
  from c(1) have ok: "config_ok cfg0" "trim (cf_pool cfg0) \<noteq> []" "trim (cf_user cfg0) \<noteq> []"
    using parse_flags_ok [OF _ config_default_ok]
    by (auto simp: parse_args_from_def and_then_Inr_iff split: if_splits)
  have flags: "''--gui'' \<notin> set raw \<and> raw \<noteq> []" "json_events \<longleftrightarrow> ''--json-events'' \<in> set raw"
    "watchdog \<longleftrightarrow> ''--parent-pipe-watchdog'' \<in> set raw"
    "confirmed \<longleftrightarrow> ''--confirm-randomx-memory'' \<in> set raw"
    using assms by (auto simp: main_args_def Let_def split: if_splits sum.splits)
  have "''--password-stdin'' \<in> set raw \<longrightarrow> length (cf_password cfg) \<le> 4096"
    using assms read_password_bound [of stdin]
    by (auto simp: main_args_def Let_def split: if_splits sum.splits)
  then show ?thesis using flags c(2) ok by (auto simp: config_ok_def)
qed

lemma headless_configuration_valid_witness:
  "\<exists>cfg. main_args [''--headless'', ''--workers'', ''4'', ''--json-events''] (Inr []) =
      RunHeadless cfg True False False \<and> config_ok cfg \<and> cf_workers cfg = 4"
proof -
  let ?cfg = "config_default\<lparr>cf_workers := 4\<rparr>"
  have p: "parse_u64_flag ''--workers'' ''4'' 1 64 = Inr 4"
    by (simp add: parse_u64_flag_def parse_u64_def parse_unsigned_def strip_prefix_def starts_with_def
        is_ascii_digit_def digits_val_def)
  have t: "trim ''xus-miner'' = ''xus-miner''" "trim ''127.0.0.1:3333'' = ''127.0.0.1:3333''" by code_simp+
  have run: "main_args [''--headless'', ''--workers'', ''4'', ''--json-events''] (Inr []) =
      RunHeadless ?cfg True False False"
    by (simp add: main_args_def engine_flags_def parse_args_from_def takes_value_def set_option_def p
        config_default_def t)
  show ?thesis using headless_configuration_valid [OF run] run by auto
qed

end
