(* ===== verification/Session.thy ===== *)
theory Session
  imports Worker Cli
begin

text \<open>
  The sessions of the engine (\<open>src/main.rs\<close>: \<open>run_rpc_session\<close>, \<open>run_session\<close>,
  \<open>connect_with_timeout\<close>, the loop of \<open>run_headless\<close>): the polling of a node, the installation of
  its templates, the dashboard events, the pool's message loop, and what the end of a session
  resets. The node's replies, the clock and the sockets are arguments; a dashboard read that fails
  is \<open>None\<close>. The machine at the end runs sessions and workers side by side.
\<close>

datatype session_error =
    CallFailed io_error
  | HealthWithoutHeight
  | HealthWithoutMempool
  | BadTemplate job_error
  | WrongCoinbase coinbase_error
  | UnsafeTemplate memory_error
  | PoolFailed io_error
  | PoolMessage message_error
  | PoolClosed

section \<open>A node session\<close>

text \<open>The variables of the session; times are milliseconds and may lie before the start.\<close>

record rpc_local =
  rl_previous_id :: str
  rl_chain_height :: "u64 option"
  rl_announced :: bool
  rl_refreshed :: int
  rl_recent :: recent_blocks
  rl_last_flow :: "json option"

definition rpc_local_new :: "int \<Rightarrow> rpc_local" where
  "rpc_local_new now =
     \<lparr>rl_previous_id = [], rl_chain_height = None, rl_announced = False,
      rl_refreshed = now - 31000, rl_recent = recent_default, rl_last_flow = None\<rparr>"

definition rpc_begin :: "config \<Rightarrow> engine_state \<Rightarrow> engine_state" where
  "rpc_begin cfg st = st\<lparr>es_rpc_endpoint := Some (cf_pool cfg), es_watch := begin_session (es_watch st)\<rparr>"

text \<open>The writes at the end of a session, each under its own lock or atomic.\<close>

definition rpc_end_writes :: "(engine_state \<Rightarrow> engine_state) list" where
  "rpc_end_writes =
     [\<lambda>st. st\<lparr>es_rpc_endpoint := None\<rparr>,
      \<lambda>st. st\<lparr>es_confirmed_coinbase := None\<rparr>,
      \<lambda>st. st\<lparr>es_mempool_known := False\<rparr>,
      \<lambda>st. st\<lparr>es_peers_known := False\<rparr>,
      \<lambda>st. st\<lparr>es_job := None\<rparr>,
      bump_generation]"

record node_replies =
  nr_health :: "io_error + json"
  nr_template :: "json \<Rightarrow> io_error + json"
  nr_probe :: "(u64 \<times> u64) option"
  nr_network :: "json option"
  nr_peers :: "json option"
  nr_fee :: "json option"
  nr_mempool :: "json option"
  nr_histogram :: "json option"
  nr_report :: fetch
  nr_backfill :: fetch
  nr_now :: int
  nr_installed_at :: int

definition refresh_due :: "rpc_local \<Rightarrow> u64 \<Rightarrow> int \<Rightarrow> bool" where
  "refresh_due l current_height now \<longleftrightarrow>
     rl_previous_id l = [] \<or> rl_chain_height l \<noteq> Some current_height \<or> 30000 \<le> now - rl_refreshed l"

text \<open>A template is parsed, its reward destination compared, and the memory gate asked.\<close>

definition template_params :: "config \<Rightarrow> json" where
  "template_params cfg =
     (case requested_coinbase (cf_user cfg) of
        None \<Rightarrow> JObject [] | Some account \<Rightarrow> JObject [(''coinbaseAccount'', JString account)])"

definition fetch_template ::
  "externals \<Rightarrow> config \<Rightarrow> node_replies \<Rightarrow> memory_gate \<Rightarrow> (session_error + job \<times> json) \<times> memory_gate"
where
  "fetch_template X cfg R gate =
     (case nr_template R (template_params cfg) of
        Inl e \<Rightarrow> (Inl (CallFailed e), gate)
      | Inr v \<Rightarrow>
          (case from_rpc X v of
             Inl e \<Rightarrow> (Inl (BadTemplate e), gate)
           | Inr j \<Rightarrow>
               (case validate_rpc_coinbase (requested_coinbase (cf_user cfg)) j of
                  Inl e \<Rightarrow> (Inl (WrongCoinbase e), gate)
                | Inr _ \<Rightarrow>
                    (case ensure_safe (job_algo j) (nr_probe R) gate of
                       (Inl e, gate') \<Rightarrow> (Inl (UnsafeTemplate e), gate')
                     | (Inr _, gate') \<Rightarrow> (Inr (j, v), gate')))))"

text \<open>
  One poll: the health call, and when a refresh is due the template. \<open>Some\<close> tells that the
  dashboard follows, with the tip, the height of the template and its transaction count.
\<close>

type_synonym dashboard_due = "(u64 \<times> u64 \<times> u64 option) option"

definition note_health :: "u64 \<Rightarrow> rpc_local \<Rightarrow> engine_state \<Rightarrow> engine_state \<times> rpc_local" where
  "note_health mempool l st =
     (let st1 = st\<lparr>es_mempool_size := mempool, es_mempool_known := True\<rparr> in
      if rl_announced l then (st1, l)
      else (emit (JObject [(''event'', JString ''node_connected'')]) st1, l\<lparr>rl_announced := True\<rparr>))"

definition rpc_poll ::
  "externals \<Rightarrow> config \<Rightarrow> node_replies \<Rightarrow> gated \<times> rpc_local \<Rightarrow> (session_error + dashboard_due) \<times> gated \<times> rpc_local"
where
  "rpc_poll X cfg R = (\<lambda>((st, gate), l).
     case nr_health R of
       Inl e \<Rightarrow> (Inl (CallFailed e), (st, gate), l)
     | Inr health \<Rightarrow>
         (case get_u64 ''height'' health of
            None \<Rightarrow> (Inl HealthWithoutHeight, (st, gate), l)
          | Some current_height \<Rightarrow>
              (case get_u64 ''mempool'' health of
                 None \<Rightarrow> (Inl HealthWithoutMempool, (st, gate), l)
               | Some mempool \<Rightarrow>
                   let (st1, l1) = note_health mempool l st in
                   if refresh_due l1 current_height (nr_now R) then
                     (case fetch_template X cfg R gate of
                        (Inl e, gate') \<Rightarrow> (Inl e, (st1, gate'), l1)
                      | (Inr (j, v), gate') \<Rightarrow>
                          (Inr (Some (current_height, job_height j, tx_count v)),
                           (install_job X j st1, gate'),
                           l1\<lparr>rl_previous_id := job_id j, rl_chain_height := Some current_height,
                              rl_refreshed := nr_installed_at R\<rparr>))
                   else (Inr None, (st1, gate), l1))))"

section \<open>The dashboard\<close>

definition or_null :: "json option \<Rightarrow> json" where
  "or_null v = (case v of Some x \<Rightarrow> x | None \<Rightarrow> JNull)"

definition network_event :: "json \<Rightarrow> json" where
  "network_event network = JObject
     [(''event'', JString ''network''), (''hashrate'', or_null (jget ''hashrate'' network)),
      (''target_block_ms'', or_null (jget ''targetBlockMs'' network)),
      (''difficulty'', or_null (jget ''sha256d'' network))]"

definition peers_event :: "u64 option \<Rightarrow> json" where
  "peers_event count = JObject [(''event'', JString ''peers''), (''count'', jopt (\<lambda>n. ju64 n) count)]"

fun emit_effects :: "effect list \<Rightarrow> engine_state \<Rightarrow> engine_state" where
  "emit_effects [] st = st"
| "emit_effects (Emit e # es) st = emit_effects es (emit e st)"
| "emit_effects (_ # es) st = emit_effects es st"

definition note_counters :: "node_replies \<Rightarrow> engine_state \<Rightarrow> engine_state" where
  "note_counters R st =
     (let st1 = (case nr_network R of Some n \<Rightarrow> emit (network_event n) st | None \<Rightarrow> st);
          count = Option.bind (nr_peers R) peer_count_from_info;
          st2 = (case count of
              Some c \<Rightarrow> st1\<lparr>es_peer_count := c, es_peers_known := True\<rparr>
            | None \<Rightarrow> st1\<lparr>es_peers_known := False\<rparr>);
          st3 = emit (peers_event count) st2
      in case Option.bind (nr_mempool R) mempool_size of
           Some n \<Rightarrow> st3\<lparr>es_mempool_size := n, es_mempool_known := True\<rparr>
         | None \<Rightarrow> st3)"

text \<open>The feed and the backfill share the strip and the watch; the snapshot is sent when it changed.\<close>

definition rpc_dashboard ::
  "node_replies \<Rightarrow> u64 \<times> u64 \<times> u64 option \<Rightarrow> engine_state \<times> rpc_local \<Rightarrow> (engine_state \<times> rpc_local) option"
where
  "rpc_dashboard R = (\<lambda>(tip, template_height, template_tx_count) (st, l).
     let st1 = note_counters R st;
         (fed, r1, w1) = block_feed (nr_report R) (es_sealed st1) tip (rl_recent l, es_watch st1);
         st2 = emit_effects fed (st1\<lparr>es_watch := w1\<rparr>);
         (filled, r2, w2) = backfill (nr_backfill R) tip (r1, w1);
         st3 = emit_effects filled (st2\<lparr>es_watch := w2\<rparr>)
     in map_option (\<lambda>flow.
          if rl_last_flow l = Some flow then (st3, l\<lparr>rl_recent := r2\<rparr>)
          else (emit flow st3, l\<lparr>rl_recent := r2, rl_last_flow := Some flow\<rparr>))
        (block_flow_event tip template_height template_tx_count (nr_fee R) (nr_histogram R) r2
          (es_sealed st3)))"

section \<open>A pool session\<close>

fun try_sockets :: "nat \<Rightarrow> io_error option \<Rightarrow> (nat \<times> (io_error + 's)) list \<Rightarrow> io_error + 's" where
  "try_sockets deadline failed [] =
     Inl (case failed of Some e \<Rightarrow> e | None \<Rightarrow> (AddrNotAvailable, ''pool resolved to no addresses''))"
| "try_sockets deadline failed ((now, attempt) # rest) =
     (case remaining deadline now of
        Inl e \<Rightarrow> Inl e
      | Inr _ \<Rightarrow> (case attempt of Inr s \<Rightarrow> Inr s | Inl e \<Rightarrow> try_sockets deadline (Some e) rest))"

definition connect_with_timeout ::
  "(str \<Rightarrow> io_error + (nat \<times> (io_error + 's)) list) \<Rightarrow> nat \<Rightarrow> str \<Rightarrow> nat \<Rightarrow> io_error + 's"
where
  "connect_with_timeout resolve started pool timeout =
     and_then (resolve (pool_address pool)) (try_sockets (started + timeout) None)"

definition feed_unavailable :: str where
  "feed_unavailable = ''network block feed unavailable in pool (Stratum) mode: a pool discloses shares, not network blocks, and there is no direct node RPC to observe the chain tip''"

definition login_message :: "config \<Rightarrow> json" where
  "login_message cfg = JObject
     [(''id'', ju64 LOGIN_ID), (''jsonrpc'', JString ''2.0''), (''method'', JString ''login''),
      (''params'', JObject [(''login'', JString (cf_user cfg)), (''pass'', JString (cf_password cfg)),
         (''agent'', JString (''xus-miner/'' @ VERSION))])]"

definition keepalive_message :: json where
  "keepalive_message = JObject
     [(''id'', ju64 KEEPALIVE_ID), (''jsonrpc'', JString ''2.0''),
      (''method'', JString ''keepalived''), (''params'', JObject [])]"

text \<open>
  After the connection is up it is announced and its options are set (\<open>options\<close> is the result);
  then the login is sent. A login that cannot be sent ends the session at once: the connection
  stays recorded.
\<close>

definition pool_begin ::
  "serde \<Rightarrow> config \<Rightarrow> io_error + unit \<Rightarrow> (str \<Rightarrow> io_error + unit) \<Rightarrow> engine_state \<Rightarrow> (session_error + connection) \<times> engine_state"
where
  "pool_begin S cfg options send st =
     (let st1 = emit (JObject [(''event'', JString ''chain_feed_unavailable''),
              (''reason'', JString ''stratum''), (''message'', JString feed_unavailable)])
            (emit (JObject [(''event'', JString ''pool_connected'')]) st)
      in case options of
           Inl e \<Rightarrow> (Inl (PoolFailed e), st1)
         | Inr _ \<Rightarrow>
             let c = \<lparr>cn_id = es_fresh st1, cn_max_pending = cf_workers cfg\<rparr>;
                 st2 = st1\<lparr>es_connection := Some c, es_pending := (es_pending st1)(cn_id c := 0),
                           es_fresh := es_fresh st1 + 1\<rparr>
             in case write_json S send (login_message cfg) of
                  Inl e \<Rightarrow> (Inl (PoolFailed e), st2)
                | Inr _ \<Rightarrow> (Inr c, st2))"

definition pool_turn ::
  "externals \<Rightarrow> serde \<Rightarrow> (str \<Rightarrow> io_error + unit) \<Rightarrow> connection \<Rightarrow> io_error + (json \<times> stream) option \<Rightarrow>
   (u64 \<times> u64) option \<Rightarrow> gated \<Rightarrow> (session_error + unit) \<times> gated"
where
  "pool_turn X S send c incoming probe w =
     (case incoming of
        Inr (Some (message, _)) \<Rightarrow>
          (case handle_message X c message probe w of
             (Inl e, w') \<Rightarrow> (Inl (PoolMessage e), w')
           | (Inr _, w') \<Rightarrow> (Inr (), w'))
      | Inr None \<Rightarrow> (Inl PoolClosed, w)
      | Inl (kind, message) \<Rightarrow>
          if kind = WouldBlock \<or> kind = TimedOut then
            (case write_json S send keepalive_message of
               Inl e \<Rightarrow> (Inl (PoolFailed e), w) | Inr _ \<Rightarrow> (Inr (), w))
          else (Inl (PoolFailed (kind, message)), w))"

section \<open>The engine's main loop\<close>

definition backend_name :: "bool \<Rightarrow> str" where
  "backend_name light = (if light then ''light-recovery'' else ''optimized'')"

definition startup_event :: "config \<Rightarrow> json" where
  "startup_event cfg = JObject
     [(''event'', JString ''startup''), (''version'', JString VERSION), (''pool'', JString (cf_pool cfg)),
      (''user'', JString (cf_user cfg)), (''workers'', ju64 (cf_workers cfg)),
      (''randomx_backend'', JString (backend_name (cf_randomx_light cfg)))]"

definition connecting_event :: "config \<Rightarrow> json" where
  "connecting_event cfg = JObject [(''event'', JString ''connecting''), (''pool'', JString (cf_pool cfg))]"

definition session_error_event :: "config \<Rightarrow> str \<Rightarrow> json" where
  "session_error_event cfg message = JObject
     [(''event'', JString ''session_error''), (''message'', JString message),
      (''retry_in_secs'', ju64 (cf_reconnect_secs cfg))]"

text \<open>
  What happens before the loop: the mode of the RandomX library is fixed, then the state, the
  memory gate and one hasher per worker are made. \<open>mi_ending\<close> says that the node session is over, how
  many of its last writes are done and with which message it ended.
\<close>

record miner =
  mi_state :: engine_state
  mi_gate :: memory_gate
  mi_session :: "rpc_local + connection option"
  mi_due :: dashboard_due
  mi_ending :: "(nat \<times> str) option"
  mi_hashers :: "hasher list"
  mi_calls :: nat

datatype headless_error = WatchdogWithoutJson | ModeLocked str

definition no_session :: "rpc_local + connection option" where
  "no_session = Inr None"

definition headless_start ::
  "config \<Rightarrow> bool \<Rightarrow> bool \<Rightarrow> bool \<Rightarrow> runtime_mode \<Rightarrow> (headless_error + miner) \<times> runtime_mode"
where
  "headless_start cfg json_events watchdog confirmed mode =
     (if watchdog \<and> \<not> json_events then (Inl WatchdogWithoutJson, mode)
      else
        (case configure_runtime_mode (cf_randomx_light cfg) mode of
           (Inl e, mode') \<Rightarrow> (Inl (ModeLocked e), mode')
         | (Inr _, mode') \<Rightarrow>
             (Inr \<lparr>mi_state = emit (startup_event cfg) (state_new json_events),
                   mi_gate = memory_gate_new (cf_workers cfg) (cf_randomx_light cfg) confirmed,
                   mi_session = no_session, mi_due = None, mi_ending = None,
                   mi_hashers = List.map (\<lambda>i. hasher_new (of_nat i)) [0..<unat (cf_workers cfg)],
                   mi_calls = 0\<rparr>, mode')))"

text \<open>
  The steps: the session thread's (the loop chooses the kind of session from the endpoint), and
  each worker's, cut at every access to the shared state. A submission to a node is a step that
  counts it and, later, one that settles it with whatever reply. The end of a node session is one step
  for each of its writes; that of a pool session is one step, because \<open>clear_connection\<close> holds the lock of
  the connection until the job is gone.
\<close>

definition open_rpc :: "config \<Rightarrow> int \<Rightarrow> miner \<Rightarrow> miner" where
  "open_rpc cfg now m = m\<lparr>mi_state := rpc_begin cfg (emit (connecting_event cfg) (mi_state m)),
     mi_session := Inl (rpc_local_new now), mi_due := None\<rparr>"

definition poll_rpc :: "externals \<Rightarrow> config \<Rightarrow> node_replies \<Rightarrow> str \<Rightarrow> rpc_local \<Rightarrow> miner \<Rightarrow> miner" where
  "poll_rpc X cfg R message l m =
     (case rpc_poll X cfg R ((mi_state m, mi_gate m), l) of
        (Inr due, (st, gate), l') \<Rightarrow> m\<lparr>mi_state := st, mi_gate := gate, mi_session := Inl l', mi_due := due\<rparr>
      | (Inl e, (st, gate), l') \<Rightarrow>
          m\<lparr>mi_state := st, mi_gate := gate, mi_session := Inl l', mi_due := None, mi_ending := Some (0, message)\<rparr>)"

text \<open>One of the last writes of a node session and, after all of them, its report by the main loop.\<close>

definition end_rpc :: "config \<Rightarrow> nat \<Rightarrow> str \<Rightarrow> miner \<Rightarrow> miner" where
  "end_rpc cfg k message m =
     (if k < length rpc_end_writes
      then m\<lparr>mi_state := (rpc_end_writes ! k) (mi_state m), mi_ending := Some (k + 1, message)\<rparr>
      else m\<lparr>mi_state := emit (session_error_event cfg message) (mi_state m), mi_session := no_session,
             mi_ending := None\<rparr>)"

definition show_rpc :: "node_replies \<Rightarrow> u64 \<times> u64 \<times> u64 option \<Rightarrow> rpc_local \<Rightarrow> miner \<Rightarrow> miner option" where
  "show_rpc R due l m =
     map_option (\<lambda>(st, l'). m\<lparr>mi_state := st, mi_session := Inl l', mi_due := None\<rparr>)
       (rpc_dashboard R due (mi_state m, l))"

definition open_pool ::
  "serde \<Rightarrow> config \<Rightarrow> io_error + unit \<Rightarrow> (str \<Rightarrow> io_error + unit) \<Rightarrow> str \<Rightarrow> miner \<Rightarrow> miner"
where
  "open_pool S cfg options send message m =
     (case pool_begin S cfg options send (emit (connecting_event cfg) (mi_state m)) of
        (Inr c, st) \<Rightarrow> m\<lparr>mi_state := st, mi_session := Inr (Some c)\<rparr>
      | (Inl e, st) \<Rightarrow> m\<lparr>mi_state := emit (session_error_event cfg message) st\<rparr>)"

definition turn_pool ::
  "externals \<Rightarrow> serde \<Rightarrow> config \<Rightarrow> (str \<Rightarrow> io_error + unit) \<Rightarrow> io_error + (json \<times> stream) option \<Rightarrow>
   (u64 \<times> u64) option \<Rightarrow> str \<Rightarrow> connection \<Rightarrow> miner \<Rightarrow> miner"
where
  "turn_pool X S cfg send incoming probe message c m =
     (case pool_turn X S send c incoming probe (mi_state m, mi_gate m) of
        (Inr _, st, gate) \<Rightarrow> m\<lparr>mi_state := st, mi_gate := gate\<rparr>
      | (Inl e, st, gate) \<Rightarrow>
          m\<lparr>mi_state := emit (session_error_event cfg message) (clear_connection (cn_id c) st),
            mi_gate := gate, mi_session := no_session\<rparr>)"

definition failed_connect :: "config \<Rightarrow> str \<Rightarrow> miner \<Rightarrow> miner" where
  "failed_connect cfg message m =
     m\<lparr>mi_state := emit (session_error_event cfg message) (emit (connecting_event cfg) (mi_state m))\<rparr>"

definition set_hasher :: "nat \<Rightarrow> hasher \<Rightarrow> engine_state \<Rightarrow> miner \<Rightarrow> miner" where
  "set_hasher i h st m = m\<lparr>mi_state := st, mi_hashers := (mi_hashers m)[i := h]\<rparr>"

inductive miner_step :: "externals \<Rightarrow> serde \<Rightarrow> config \<Rightarrow> miner \<Rightarrow> miner \<Rightarrow> bool" for X S cfg where
  step_open_rpc: "mi_session m = no_session \<Longrightarrow> is_direct_rpc (cf_pool cfg) \<Longrightarrow>
    miner_step X S cfg m (open_rpc cfg now m)"
| step_poll: "mi_session m = Inl l \<Longrightarrow> mi_due m = None \<Longrightarrow> mi_ending m = None \<Longrightarrow>
    miner_step X S cfg m (poll_rpc X cfg R message l m)"
| step_end: "mi_ending m = Some (k, message) \<Longrightarrow> miner_step X S cfg m (end_rpc cfg k message m)"
| step_show: "mi_session m = Inl l \<Longrightarrow> mi_due m = Some due \<Longrightarrow> show_rpc R due l m = Some m' \<Longrightarrow>
    miner_step X S cfg m m'"
| step_connect_failed: "mi_session m = no_session \<Longrightarrow> \<not> is_direct_rpc (cf_pool cfg) \<Longrightarrow>
    miner_step X S cfg m (failed_connect cfg message m)"
| step_open_pool: "mi_session m = no_session \<Longrightarrow> \<not> is_direct_rpc (cf_pool cfg) \<Longrightarrow>
    miner_step X S cfg m (open_pool S cfg options send message m)"
| step_turn: "mi_session m = Inr (Some c) \<Longrightarrow>
    miner_step X S cfg m (turn_pool X S cfg send incoming probe message c m)"
| step_note: "i < length (mi_hashers m) \<Longrightarrow>
    miner_step X S cfg m (set_hasher i (note_generation (es_generation (mi_state m)) (mi_hashers m ! i)) (mi_state m) m)"
| step_take: "i < length (mi_hashers m) \<Longrightarrow>
    miner_step X S cfg m (set_hasher i (take_job (es_job (mi_state m)) (mi_hashers m ! i)) (mi_state m) m)"
| step_announce: "i < length (mi_hashers m) \<Longrightarrow> announce_building (mi_state m, mi_hashers m ! i) = (st, h) \<Longrightarrow>
    miner_step X S cfg m (set_hasher i h st m)"
| step_fail: "i < length (mi_hashers m) \<Longrightarrow> seal_failed now e (mi_state m, mi_hashers m ! i) = (st, h) \<Longrightarrow>
    miner_step X S cfg m (set_hasher i h st m)"
| step_ready: "i < length (mi_hashers m) \<Longrightarrow> hs_job (mi_hashers m ! i) = Some (jid, j) \<Longrightarrow>
    seal_ready j mode (mi_state m, mi_hashers m ! i) = (st, h) \<Longrightarrow> miner_step X S cfg m (set_hasher i h st m)"
| step_count: "i < length (mi_hashers m) \<Longrightarrow> hs_job (mi_hashers m ! i) = Some (jid, j) \<Longrightarrow>
    wins (mi_state m) (mi_hashers m ! i) j digest \<Longrightarrow> es_rpc_endpoint (mi_state m) \<noteq> None \<Longrightarrow>
    miner_step X S cfg m (m\<lparr>mi_state := count_submission (mi_state m), mi_calls := mi_calls m + 1\<rparr>)"
| step_settle: "0 < mi_calls m \<Longrightarrow>
    miner_step X S cfg m (m\<lparr>mi_state := settle_submission X reply (jid, j) blob (mi_state m), mi_calls := mi_calls m - 1\<rparr>)"
| step_share: "i < length (mi_hashers m) \<Longrightarrow> hs_job (mi_hashers m ! i) = Some (jid, j) \<Longrightarrow>
    es_rpc_endpoint (mi_state m) = None \<Longrightarrow>
    miner_step X S cfg m (m\<lparr>mi_state := submit_share X S send j nonce digest (mi_state m)\<rparr>)"
| step_write: "i < length (mi_hashers m) \<Longrightarrow> next_attempt (mi_state m) (mi_hashers m ! i) = SealBlob blob \<Longrightarrow>
    miner_step X S cfg m (set_hasher i ((mi_hashers m ! i)\<lparr>hs_blob := blob\<rparr>) (mi_state m) m)"
| step_advance: "i < length (mi_hashers m) \<Longrightarrow>
    miner_step X S cfg m (set_hasher i (step_nonce (mi_hashers m ! i)) (mi_state m) m)"
| step_book: "miner_step X S cfg m (m\<lparr>mi_state := finish_batch j completed (mi_state m)\<rparr>)"
| step_restart: "i < length (mi_hashers m) \<Longrightarrow>
    miner_step X S cfg m (set_hasher i (hasher_new (of_nat i))
      (snd (snd (restart_after_panic (of_nat i) message restarts (mi_state m)))) m)"
| step_report: "miner_step X S cfg m (m\<lparr>mi_state := report elapsed (mi_state m)\<rparr>)"

section \<open>What the steps leave alone\<close>

definition frame :: "engine_state \<Rightarrow> (nat \<times> job) option \<times> str option \<times> connection option \<times> u64 \<times> u64 \<times> u64" where
  "frame st = (es_job st, es_rpc_endpoint st, es_connection st, es_submitted st, es_accepted st, es_rejected st)"

lemma frame_emit [simp]: "frame (emit e st) = frame st"
  by (simp add: frame_def)

lemma frame_emit_effects [simp]: "frame (emit_effects es st) = frame st"
  by (induction es st rule: emit_effects.induct) simp_all

lemma frame_note_counters [simp]: "frame (note_counters R st) = frame st"
  by (auto simp: note_counters_def Let_def frame_def split: option.split)

lemma frame_note_health: "note_health mempool l st = (st', l') \<Longrightarrow> frame st' = frame st"
  by (auto simp: note_health_def Let_def frame_def split: if_splits)

lemma frame_watch [simp]: "frame (st\<lparr>es_watch := w\<rparr>) = frame st"
  by (simp add: frame_def)

lemma frame_dashboard: "rpc_dashboard R due (st, l) = Some (st', l') \<Longrightarrow> frame st' = frame st"
  by (cases due) (auto simp: rpc_dashboard_def Let_def case_prod_beta split: if_splits option.splits)

lemma frame_announce:
  "announce_building (st, h) = (st', h') \<Longrightarrow> frame st' = frame st \<and> hs_job h' = hs_job h \<and> hs_blob h' = hs_blob h"
  by (auto simp: announce_building_def split: if_splits)

lemma frame_failed:
  "seal_failed now e (st, h) = (st', h') \<Longrightarrow> frame st' = frame st \<and> hs_job h' = hs_job h \<and> hs_blob h' = hs_blob h"
  by (auto simp: seal_failed_def Let_def step_nonce_def split: if_splits)

lemma frame_ready:
  "seal_ready j mode (st, h) = (st', h') \<Longrightarrow> frame st' = frame st \<and> hs_job h' = hs_job h \<and> hs_blob h' = hs_blob h"
  by (auto simp: seal_ready_def Let_def split: if_splits option.splits)

lemma frame_book [simp]: "frame (finish_batch j completed st) = frame st"
  by (simp add: finish_batch_def record_round_hashes_def Let_def frame_def split: option.split)

lemma frame_report [simp]: "frame (report elapsed st) = frame st"
  by (simp add: report_def Let_def frame_def)

lemma frame_restart [simp]: "frame (snd (snd (restart_after_panic worker message restarts st))) = frame st"
  by (simp add: restart_after_panic_def Let_def)

lemmas frames = frame_note_health frame_dashboard frame_announce frame_failed frame_ready

lemma take_job_job: "hs_job (take_job slot h) = slot"
  by (auto simp: take_job_def split: option.split)

section \<open>The invariant of the machine\<close>

definition safe_job :: "externals \<Rightarrow> config \<Rightarrow> memory_gate \<Rightarrow> job \<Rightarrow> bool" where
  "safe_job X cfg gate j \<longleftrightarrow>
     (job_algo j = RandomX \<longrightarrow> mg_approved gate \<noteq> None) \<and>
     (if is_direct_rpc (cf_pool cfg)
      then validate_rpc_coinbase (requested_coinbase (cf_user cfg)) j = Inr () \<and> (\<exists>v. from_rpc X v = Inr j)
      else (\<exists>v. from_stratum X v = Inr j))"

definition work_ok :: "externals \<Rightarrow> config \<Rightarrow> miner \<Rightarrow> bool" where
  "work_ok X cfg m \<longleftrightarrow>
     (\<forall>ja. es_job (mi_state m) = Some ja \<longrightarrow> safe_job X cfg (mi_gate m) (snd ja)) \<and>
     (\<forall>h \<in> set (mi_hashers m). hasher_ok h \<and> (\<forall>ja. hs_job h = Some ja \<longrightarrow> safe_job X cfg (mi_gate m) (snd ja)))"

text \<open>
  While a node session ends, its endpoint is gone after the first write and its job after the fifth.
\<close>

definition session_ok :: "config \<Rightarrow> miner \<Rightarrow> bool" where
  "session_ok cfg m \<longleftrightarrow>
     (case mi_session m of
        Inl l \<Rightarrow> is_direct_rpc (cf_pool cfg) \<and>
          (case mi_ending m of
             None \<Rightarrow> es_rpc_endpoint (mi_state m) = Some (cf_pool cfg)
           | Some (k, message) \<Rightarrow>
               es_rpc_endpoint (mi_state m) = (if k = 0 then Some (cf_pool cfg) else None) \<and>
               (5 \<le> k \<longrightarrow> es_job (mi_state m) = None))
      | Inr None \<Rightarrow> mi_ending m = None \<and> es_rpc_endpoint (mi_state m) = None \<and> es_job (mi_state m) = None
      | Inr (Some c) \<Rightarrow> mi_ending m = None \<and> \<not> is_direct_rpc (cf_pool cfg) \<and> es_rpc_endpoint (mi_state m) = None \<and>
          es_connection (mi_state m) = Some c) \<and>
     (is_direct_rpc (cf_pool cfg) \<longrightarrow> es_connection (mi_state m) = None)"

definition tally_ok :: "config \<Rightarrow> miner \<Rightarrow> bool" where
  "tally_ok cfg m \<longleftrightarrow> (is_direct_rpc (cf_pool cfg) \<longrightarrow>
     es_submitted (mi_state m) =
       es_accepted (mi_state m) + es_rejected (mi_state m) + of_nat (mi_calls m))"

definition miner_inv :: "externals \<Rightarrow> config \<Rightarrow> miner \<Rightarrow> bool" where
  "miner_inv X cfg m \<longleftrightarrow> work_ok X cfg m \<and> session_ok cfg m \<and> tally_ok cfg m"

definition miner_initial :: "config \<Rightarrow> miner \<Rightarrow> bool" where
  "miner_initial cfg m \<longleftrightarrow>
     (\<exists>json_events watchdog confirmed mode. fst (headless_start cfg json_events watchdog confirmed mode) = Inr m)"

lemma work_okD:
  "work_ok X cfg m \<Longrightarrow> es_job (mi_state m) = Some ja \<Longrightarrow> safe_job X cfg (mi_gate m) (snd ja)"
  "work_ok X cfg m \<Longrightarrow> h \<in> set (mi_hashers m) \<Longrightarrow> hs_job h = Some ja \<Longrightarrow> safe_job X cfg (mi_gate m) (snd ja)"
  "work_ok X cfg m \<Longrightarrow> h \<in> set (mi_hashers m) \<Longrightarrow> hasher_ok h"
  unfolding work_ok_def by blast+

lemma miner_initial_inv: "miner_initial cfg m \<Longrightarrow> miner_inv X cfg m"
  by (auto simp: miner_initial_def headless_start_def miner_inv_def work_ok_def session_ok_def tally_ok_def
      no_session_def state_new_def hasher_new_def hasher_ok_def split: if_splits prod.splits sum.splits)

text \<open>A step that leaves the frame alone and gives workers at most the job of the slot.\<close>

lemma quiet_step:
  assumes inv: "miner_inv X cfg m" and fr: "frame (mi_state m') = frame (mi_state m)"
    and same: "mi_gate m' = mi_gate m" "mi_calls m' = mi_calls m" "mi_ending m' = mi_ending m"
      "mi_session m' = mi_session m \<or> (\<exists>l l'. mi_session m = Inl l \<and> mi_session m' = Inl l')"
    and hs: "\<And>h. h \<in> set (mi_hashers m') \<Longrightarrow> h \<in> set (mi_hashers m) \<or> hasher_ok h \<and>
      (hs_job h = None \<or> hs_job h = es_job (mi_state m) \<or> (\<exists>h0 \<in> set (mi_hashers m). hs_job h = hs_job h0))"
  shows "miner_inv X cfg m'"
proof -
  have eq: "es_job (mi_state m') = es_job (mi_state m)" "es_rpc_endpoint (mi_state m') = es_rpc_endpoint (mi_state m)"
    "es_connection (mi_state m') = es_connection (mi_state m)" "es_submitted (mi_state m') = es_submitted (mi_state m)"
    "es_accepted (mi_state m') = es_accepted (mi_state m)" "es_rejected (mi_state m') = es_rejected (mi_state m)"
    using fr by (simp_all add: frame_def)
  have "work_ok X cfg m'"
    using inv hs by (fastforce simp: miner_inv_def work_ok_def eq same)
  moreover have "session_ok cfg m'"
    using inv same(4) by (auto simp: miner_inv_def session_ok_def eq same(3) split: sum.splits option.splits prod.splits)
  moreover have "tally_ok cfg m'" using inv by (simp add: miner_inv_def tally_ok_def eq same)
  ultimately show ?thesis by (simp add: miner_inv_def)
qed

lemma quiet_hasher:
  assumes "miner_inv X cfg m" "i < length (mi_hashers m)" "frame st = frame (mi_state m)"
    and "hasher_ok h"
    and "hs_job h = None \<or> hs_job h = es_job (mi_state m) \<or> hs_job h = hs_job (mi_hashers m ! i)"
  shows "miner_inv X cfg (set_hasher i h st m)"
proof (rule quiet_step [OF assms(1)])
  fix h' assume "h' \<in> set (mi_hashers (set_hasher i h st m))"
  then consider "h' = h" | "h' \<in> set (mi_hashers m)"
    using set_update_subset_insert [of "mi_hashers m" i h] by (auto simp: set_hasher_def)
  then show "h' \<in> set (mi_hashers m) \<or> hasher_ok h' \<and>
      (hs_job h' = None \<or> hs_job h' = es_job (mi_state m) \<or> (\<exists>h0 \<in> set (mi_hashers m). hs_job h' = hs_job h0))"
    using assms(2,4,5) by cases auto
qed (use assms in \<open>auto simp: set_hasher_def\<close>)

subsection \<open>Steps of the session thread\<close>

lemma frame_install:
  "frame (install_job X j st) = (Some (es_fresh st, j), snd (frame st))"
  by (simp add: install_job_def bump_generation_def store_job_def confirm_coinbase_def enter_round_def
      emit_def frame_def split: option.split)

lemma ensure_safe_gate:
  "ensure_safe algo probe g = (Inl e, g') \<Longrightarrow> g' = g"
  "ensure_safe algo probe g = (Inr u, g') \<Longrightarrow>
     (algo = RandomX \<longrightarrow> mg_approved g' \<noteq> None) \<and> (mg_approved g \<noteq> None \<longrightarrow> mg_approved g' \<noteq> None)"
  by (auto simp: ensure_safe_def split: prod.splits sum.splits if_splits)

lemma safe_job_gate:
  "safe_job X cfg g j \<Longrightarrow> mg_approved g \<noteq> None \<longrightarrow> mg_approved g' \<noteq> None \<Longrightarrow> safe_job X cfg g' j"
  by (auto simp: safe_job_def)

lemma fetch_template_cases:
  assumes "fetch_template X cfg R gate = (r, gate')"
  shows "(\<exists>e. r = Inl e \<and> gate' = gate) \<or>
    (\<exists>j v. r = Inr (j, v) \<and> from_rpc X v = Inr j \<and>
       validate_rpc_coinbase (requested_coinbase (cf_user cfg)) j = Inr () \<and>
       (job_algo j = RandomX \<longrightarrow> mg_approved gate' \<noteq> None) \<and>
       (mg_approved gate \<noteq> None \<longrightarrow> mg_approved gate' \<noteq> None))"
  using assms
  by (auto simp: fetch_template_def split: sum.splits prod.splits dest: ensure_safe_gate)

lemma rpc_poll_cases:
  assumes "rpc_poll X cfg R ((st, gate), l) = (r, (st', gate'), l')"
  shows "(gate' = gate \<and> frame st' = frame st \<and> (\<forall>d. r = Inr d \<longrightarrow> d = None)) \<or>
    (\<exists>j v st1 d. r = Inr d \<and> st' = install_job X j st1 \<and> frame st1 = frame st \<and> from_rpc X v = Inr j \<and>
       validate_rpc_coinbase (requested_coinbase (cf_user cfg)) j = Inr () \<and>
       (job_algo j = RandomX \<longrightarrow> mg_approved gate' \<noteq> None) \<and>
       (mg_approved gate \<noteq> None \<longrightarrow> mg_approved gate' \<noteq> None))"
proof -
  consider e where "nr_health R = Inl e" | h where "nr_health R = Inr h" "get_u64 ''height'' h = None"
    | h where "nr_health R = Inr h" "get_u64 ''mempool'' h = None"
    | h n k where "nr_health R = Inr h" "get_u64 ''height'' h = Some n" "get_u64 ''mempool'' h = Some k"
    by (cases "nr_health R") auto
  then show ?thesis
  proof cases
    case (4 h n k)
    obtain st1 l1 where nh: "note_health k l st = (st1, l1)" by (metis surj_pair)
    have f1: "frame st1 = frame st" by (rule frame_note_health [OF nh])
    show ?thesis
    proof (cases "refresh_due l1 n (nr_now R)")
      case False
      then show ?thesis using assms 4 nh f1 by (auto simp: rpc_poll_def)
    next
      case True
      obtain t g where t: "fetch_template X cfg R gate = (t, g)" by (metis surj_pair)
      from fetch_template_cases [OF t] show ?thesis
      proof (elim disjE exE conjE)
        fix e assume "t = Inl e" "g = gate"
        then show ?thesis using assms 4 nh f1 True t by (auto simp: rpc_poll_def)
      next
        fix j v assume "t = Inr (j, v)" and *: "from_rpc X v = Inr j"
          "validate_rpc_coinbase (requested_coinbase (cf_user cfg)) j = Inr ()"
          "job_algo j = RandomX \<longrightarrow> mg_approved g \<noteq> None" "mg_approved gate \<noteq> None \<longrightarrow> mg_approved g \<noteq> None"
        then have r: "r = Inr (Some (n, job_height j, tx_count v))" "st' = install_job X j st1" "gate' = g"
          using assms 4 nh f1 True t by (auto simp: rpc_poll_def)
        show ?thesis
          by (rule disjI2, intro exI [of _ j] exI [of _ v] exI [of _ st1])
             (use r f1 * in blast)
      qed
    qed
  qed (use assms in \<open>auto simp: rpc_poll_def split: option.splits\<close>)
qed

lemma open_rpc_inv:
  assumes "miner_inv X cfg m" "mi_session m = no_session" "is_direct_rpc (cf_pool cfg)"
  shows "miner_inv X cfg (open_rpc cfg now m)"
  using assms
  by (simp add: miner_inv_def work_ok_def session_ok_def tally_ok_def open_rpc_def rpc_begin_def no_session_def)

lemma poll_rpc_inv:
  assumes inv: "miner_inv X cfg m" and l: "mi_session m = Inl l" "mi_due m = None" "mi_ending m = None"
  shows "miner_inv X cfg (poll_rpc X cfg R message l m)"
proof -
  obtain r st' gate' l' where p: "rpc_poll X cfg R ((mi_state m, mi_gate m), l) = (r, (st', gate'), l')"
    by (metis surj_pair)
  from rpc_poll_cases [OF p] consider
    e where "r = Inl e" "gate' = mi_gate m" "frame st' = frame (mi_state m)"
    | "r = Inr None" "gate' = mi_gate m" "frame st' = frame (mi_state m)"
    | j v st1 d where "r = Inr d" "st' = install_job X j st1" "frame st1 = frame (mi_state m)"
      "from_rpc X v = Inr j" "validate_rpc_coinbase (requested_coinbase (cf_user cfg)) j = Inr ()"
      "job_algo j = RandomX \<longrightarrow> mg_approved gate' \<noteq> None"
      "mg_approved (mi_gate m) \<noteq> None \<longrightarrow> mg_approved gate' \<noteq> None"
    by (cases r) auto
  then show ?thesis
  proof cases
    case (1 e)
    then show ?thesis using inv p l
      by (auto simp: poll_rpc_def miner_inv_def work_ok_def session_ok_def tally_ok_def frame_def)
  next
    case 2
    show ?thesis by (rule quiet_step [OF inv]) (use p 2 l in \<open>auto simp: poll_rpc_def\<close>)
  next
    case (3 j v st1 d)
    have direct: "is_direct_rpc (cf_pool cfg)" using inv l by (simp add: miner_inv_def session_ok_def)
    have ok: "hasher_ok h" if "h \<in> set (mi_hashers m)" for h
      using work_okD(3) inv that by (auto simp: miner_inv_def)
    have "safe_job X cfg gate' j" using 3 direct by (auto simp: safe_job_def)
    moreover have fr: "frame st' = (Some (es_fresh st1, j), snd (frame (mi_state m)))"
      using 3 by (simp add: frame_install)
    moreover have "safe_job X cfg gate' (snd ja)" if "h \<in> set (mi_hashers m)" "hs_job h = Some ja" for h ja
      using safe_job_gate [OF work_okD(2) 3(7)] inv that by (simp add: miner_inv_def)
    moreover have m': "poll_rpc X cfg R message l m =
        m\<lparr>mi_state := st', mi_gate := gate', mi_session := Inl l', mi_due := d\<rparr>"
      using p 3(1) by (simp add: poll_rpc_def)
    ultimately show ?thesis using inv l unfolding m'
      by (simp add: miner_inv_def work_ok_def session_ok_def tally_ok_def frame_def)
  qed
qed

lemma end_rpc_inv:
  assumes inv: "miner_inv X cfg m" and k: "mi_ending m = Some (k, message)"
  shows "miner_inv X cfg (end_rpc cfg k message m)"
proof -
  obtain l where l: "mi_session m = Inl l"
    using inv k by (auto simp: miner_inv_def session_ok_def split: sum.splits option.splits)
  consider "k = 0" | "k = 1" | "k = 2" | "k = 3" | "k = 4" | "k = 5" | "6 \<le> k" by linarith
  then show ?thesis
    using inv k l
    by cases (auto simp: end_rpc_def rpc_end_writes_def bump_generation_def no_session_def miner_inv_def work_ok_def
        session_ok_def tally_ok_def numeral_nat)
qed

lemma open_pool_inv:
  assumes inv: "miner_inv X cfg m" and idle: "mi_session m = no_session" and "\<not> is_direct_rpc (cf_pool cfg)"
  shows "miner_inv X cfg (open_pool S cfg options send message m)"
  using assms
  by (auto simp: open_pool_def pool_begin_def Let_def miner_inv_def work_ok_def session_ok_def tally_ok_def
      no_session_def split: sum.splits)

lemma frame_clear_connection:
  "es_connection st = Some c \<Longrightarrow> frame (clear_connection (cn_id c) st) = (None, es_rpc_endpoint st, None,
     es_submitted st, es_accepted st, es_rejected st)"
  by (simp add: clear_connection_def bump_generation_def frame_def)

lemma settle_share_frame:
  "es_job (settle_share c m st) = es_job st" "es_rpc_endpoint (settle_share c m st) = es_rpc_endpoint st"
  "es_connection (settle_share c m st) = es_connection st"
  by (simp_all add: settle_share_def finish_share_def Let_def)

text \<open>What a turn of the message loop does to the engine.\<close>

lemma pool_turn_cases:
  assumes "pool_turn X S send c incoming probe (st, gate) = (r, st', gate')"
  shows "(st' = st \<or> (\<exists>msg. st' = settle_share c msg st) \<or>
      (\<exists>v j. from_stratum X v = Inr j \<and> st' = install_job X j st \<and>
        (job_algo j = RandomX \<longrightarrow> mg_approved gate' \<noteq> None))) \<and>
    (mg_approved gate \<noteq> None \<longrightarrow> mg_approved gate' \<noteq> None)"
proof -
  have gate_kept: "mg_approved gate \<noteq> None \<longrightarrow> mg_approved g \<noteq> None"
    if "handle_message X c msg probe (st, gate) = (r', s', g)" for msg r' s' g
    using that
    by (auto simp: handle_message_def install_job_value_def split: if_splits option.splits sum.splits prod.splits
        dest: ensure_safe_gate)
  show ?thesis
  proof (cases incoming)
    case (Inl e)
    then show ?thesis using assms by (cases e) (auto simp: pool_turn_def split: if_splits sum.splits)
  next
    case (Inr got)
    show ?thesis
    proof (cases got)
      case None
      then show ?thesis using Inr assms by (simp add: pool_turn_def)
    next
      case (Some msg)
      obtain m1 s1 where m1: "msg = (m1, s1)" by (cases msg)
      obtain r1 st1 g1 where h: "handle_message X c m1 probe (st, gate) = (r1, st1, g1)" by (metis surj_pair)
      have "st' = st1" "gate' = g1"
        using assms Inr Some m1 h by (auto simp: pool_turn_def split: sum.splits)
      then show ?thesis using handle_message_cases [OF h] gate_kept [OF h] by blast
    qed
  qed
qed

lemma turn_pool_inv:
  assumes inv: "miner_inv X cfg m" and c: "mi_session m = Inr (Some c)"
  shows "miner_inv X cfg (turn_pool X S cfg send incoming probe message c m)"
proof -
  obtain r st' gate' where p: "pool_turn X S send c incoming probe (mi_state m, mi_gate m) = (r, st', gate')"
    by (metis surj_pair)
  note cases = pool_turn_cases [OF p]
  have s: "\<not> is_direct_rpc (cf_pool cfg)" "es_rpc_endpoint (mi_state m) = None"
      "es_connection (mi_state m) = Some c" "mi_ending m = None"
    using inv c by (auto simp: miner_inv_def session_ok_def)
  have ok: "hasher_ok h" if "h \<in> set (mi_hashers m)" for h
    using work_okD(3) inv that by (auto simp: miner_inv_def)
  have inst: "es_rpc_endpoint (install_job X j (mi_state m)) = None"
      "es_connection (install_job X j (mi_state m)) = Some c"
      "es_job (install_job X j (mi_state m)) = Some (es_fresh (mi_state m), j)" for j
    using frame_install [of X j "mi_state m"] s by (simp_all add: frame_def)
  have st': "es_rpc_endpoint st' = None" "es_connection st' = Some c"
    using conjunct1 [OF cases] s inst by (auto simp: settle_share_frame)
  have job: "safe_job X cfg gate' (snd ja)" if ja: "es_job st' = Some ja" for ja
  proof -
    consider "es_job (mi_state m) = Some ja"
      | j v where "ja = (es_fresh (mi_state m), j)" "from_stratum X v = Inr j"
        "job_algo j = RandomX \<longrightarrow> mg_approved gate' \<noteq> None"
      using conjunct1 [OF cases] ja inst by (auto simp: settle_share_frame)
    then show ?thesis
    proof cases
      case 1
      then have "safe_job X cfg (mi_gate m) (snd ja)" using inv by (simp add: miner_inv_def work_ok_def)
      then show ?thesis using conjunct2 [OF cases] by (rule safe_job_gate)
    next
      case 2
      then show ?thesis using s(1) by (auto simp: safe_job_def)
    qed
  qed
  have kept: "safe_job X cfg gate' (snd ja)" if "h \<in> set (mi_hashers m)" "hs_job h = Some ja" for h ja
    using safe_job_gate [OF work_okD(2) conjunct2 [OF cases]] inv that by (simp add: miner_inv_def)
  have ended: "es_job (clear_connection (cn_id c) st') = None"
      "es_rpc_endpoint (clear_connection (cn_id c) st') = None"
    using frame_clear_connection [OF st'(2)] st'(1) by (simp_all add: frame_def)
  show ?thesis
    using p s st' job kept ended c ok
    by (cases r) (auto simp: turn_pool_def miner_inv_def work_ok_def session_ok_def tally_ok_def no_session_def)
qed

subsection \<open>Steps of the workers\<close>

lemma count_inv:
  "miner_inv X cfg m \<Longrightarrow>
   miner_inv X cfg (m\<lparr>mi_state := count_submission (mi_state m), mi_calls := Suc (mi_calls m)\<rparr>)"
  by (auto simp: miner_inv_def work_ok_def session_ok_def tally_ok_def count_submission_def algebra_simps
      split: sum.splits option.splits)

lemma settle_fields:
  "es_rpc_endpoint (settle_submission X reply ja blob st) = es_rpc_endpoint st"
  "es_connection (settle_submission X reply ja blob st) = es_connection st"
  "es_submitted (settle_submission X reply ja blob st) = es_submitted st"
  "es_job (settle_submission X reply ja blob st) = None \<or>
   es_job (settle_submission X reply ja blob st) = es_job st"
  "es_accepted (settle_submission X reply ja blob st) + es_rejected (settle_submission X reply ja blob st) =
   es_accepted st + es_rejected st + 1"
  by (auto simp: settle_submission_def clear_job_if_current_def record_sealed_block_def bump_generation_def
      Let_def split: sum.split option.split)

lemma settle_inv:
  assumes inv: "miner_inv X cfg m" and calls: "0 < mi_calls m"
  shows "miner_inv X cfg (m\<lparr>mi_state := settle_submission X reply ja blob (mi_state m),
    mi_calls := mi_calls m - 1\<rparr>)"
proof -
  let ?st = "settle_submission X reply ja blob (mi_state m)"
  have one: "(of_nat (mi_calls m - 1) :: u64) + 1 = of_nat (mi_calls m)"
    using calls by (cases "mi_calls m") (simp_all add: add.commute)
  have "is_direct_rpc (cf_pool cfg) \<Longrightarrow>
      es_submitted ?st = es_accepted ?st + es_rejected ?st + of_nat (mi_calls m - 1)"
    using inv one settle_fields(3,5) [of X reply ja blob "mi_state m"]
    by (simp add: miner_inv_def tally_ok_def) (metis add.assoc add.commute)
  moreover have "es_job ?st = Some ja' \<Longrightarrow> es_job (mi_state m) = Some ja'" for ja'
    using settle_fields(4) [of X reply ja blob "mi_state m"] by auto
  then have "work_ok X cfg (m\<lparr>mi_state := ?st, mi_calls := mi_calls m - 1\<rparr>)"
    using inv by (simp add: miner_inv_def work_ok_def)
  ultimately show ?thesis using inv settle_fields(1,2,4) [of X reply ja blob "mi_state m"]
    by (auto simp: miner_inv_def session_ok_def tally_ok_def split: sum.splits option.splits)
qed

lemma submit_share_fields:
  "es_rpc_endpoint (submit_share X S send j nonce digest st) = es_rpc_endpoint st"
  "es_connection (submit_share X S send j nonce digest st) = es_connection st"
  "es_job (submit_share X S send j nonce digest st) = es_job st"
  "es_accepted (submit_share X S send j nonce digest st) = es_accepted st"
  "es_rejected (submit_share X S send j nonce digest st) = es_rejected st"
  "es_connection st = None \<Longrightarrow> es_submitted (submit_share X S send j nonce digest st) = es_submitted st"
  by (auto simp: submit_share_def reserve_share_def finish_share_def count_submission_def Let_def
      split: option.split sum.split)

lemma share_inv:
  assumes inv: "miner_inv X cfg m"
  shows "miner_inv X cfg (m\<lparr>mi_state := submit_share X S send j nonce digest (mi_state m)\<rparr>)"
  using assms submit_share_fields [where X = X and S = S and send = send and j = j and nonce = nonce and digest = digest
    and st = "mi_state m"]
  by (auto simp: miner_inv_def work_ok_def session_ok_def tally_ok_def split: sum.splits option.splits)

lemma show_rpc_inv:
  assumes inv: "miner_inv X cfg m" and "mi_session m = Inl l" "show_rpc R due l m = Some m'"
  shows "miner_inv X cfg m'"
proof -
  obtain st' l' where d: "rpc_dashboard R due (mi_state m, l) = Some (st', l')"
      "m' = m\<lparr>mi_state := st', mi_session := Inl l', mi_due := None\<rparr>"
    using assms(3) by (auto simp: show_rpc_def)
  show ?thesis
    by (rule quiet_step [OF inv]) (use d assms(2) frame_dashboard [OF d(1)] in auto)
qed

lemma connect_failed_inv: "miner_inv X cfg m \<Longrightarrow> miner_inv X cfg (failed_connect cfg message m)"
  by (rule quiet_step) (auto simp: failed_connect_def)

lemma quiet_state: "miner_inv X cfg m \<Longrightarrow> frame st = frame (mi_state m) \<Longrightarrow> miner_inv X cfg (m\<lparr>mi_state := st\<rparr>)"
  by (rule quiet_step) auto

lemmas session_steps = poll_rpc_inv end_rpc_inv show_rpc_inv connect_failed_inv open_pool_inv

text \<open>What a worker seals is the header of its job with its nonce.\<close>

lemma next_attempt_blob:
  assumes "hasher_ok h" "next_attempt st h = SealBlob blob"
  obtains jid j where "hs_job h = Some (jid, j)"
    "blob = take (job_nonce_offset j) (job_blob j) @ nonce_le (hs_nonce h)"
proof (cases "hs_job h")
  case None
  then show ?thesis using assms(2) by (simp add: next_attempt_def)
next
  case (Some ja)
  then obtain jid j where j: "hs_job h = Some (jid, j)" by (cases ja) auto
  have "es_generation st = hs_generation h" using assms(2) j by (auto simp: next_attempt_def split: if_splits)
  then show ?thesis using next_attempt_seals [OF assms(1) j] assms(2) that j by simp
qed

lemma safe_job_well_formed: "safe_job X cfg gate j \<Longrightarrow> well_formed_job j"
  by (auto simp: safe_job_def intro: stratum.parse_well_formed rpc.parse_well_formed split: if_splits)

lemma inv_hasher_ok: "miner_inv X cfg m \<Longrightarrow> i < length (mi_hashers m) \<Longrightarrow> hasher_ok (mi_hashers m ! i)"
  using work_okD(3) [of X cfg m "mi_hashers m ! i"] by (simp add: miner_inv_def)

text \<open>A step of a worker that keeps its job and its bytes.\<close>

lemma quiet_worker:
  assumes "miner_inv X cfg m" "i < length (mi_hashers m)"
    "frame st = frame (mi_state m) \<and> hs_job h = hs_job (mi_hashers m ! i) \<and> hs_blob h = hs_blob (mi_hashers m ! i)"
  shows "miner_inv X cfg (set_hasher i h st m)"
  using assms hasher_ok_cong [OF _ _ inv_hasher_ok [OF assms(1,2)], of h] by (intro quiet_hasher) auto

lemma miner_step_inv:
  assumes "miner_step X S cfg m m'" "miner_inv X cfg m"
  shows "miner_inv X cfg m'"
  using assms
proof (cases rule: miner_step.cases)
  case (step_open_rpc now)
  then show ?thesis using assms(2) open_rpc_inv by blast
next
  case (step_take i)
  have "hasher_ok (take_job (es_job (mi_state m)) (mi_hashers m ! i))"
    using safe_job_well_formed [OF work_okD(1)] assms(2) by (intro hasher_ok_take) (fastforce simp: miner_inv_def)
  then show ?thesis using step_take assms(2) by (auto intro!: quiet_hasher simp: take_job_job)
next
  case (step_note i)
  then show ?thesis using assms(2) by (auto intro!: quiet_worker simp: note_generation_def)
next
  case (step_write i blob)
  from inv_hasher_ok [OF assms(2) step_write(2)] step_write(3)
  obtain jid j where "hs_job (mi_hashers m ! i) = Some (jid, j)"
    "blob = take (job_nonce_offset j) (job_blob j) @ nonce_le (hs_nonce (mi_hashers m ! i))"
    by (rule next_attempt_blob)
  then have "hasher_ok ((mi_hashers m ! i)\<lparr>hs_blob := blob\<rparr>)"
    using hasher_ok_blob [OF inv_hasher_ok [OF assms(2) step_write(2)]] by simp
  then show ?thesis using step_write assms(2) by (auto intro!: quiet_hasher)
next
  case (step_advance i)
  then show ?thesis using assms(2) by (auto intro!: quiet_worker simp: step_nonce_def)
next
  case (step_restart i message restarts)
  have "hasher_ok (hasher_new (of_nat i))" by (simp add: hasher_ok_def hasher_new_def)
  then show ?thesis using step_restart assms(2) by (auto intro!: quiet_hasher simp: hasher_new_def)
next
  case (step_share i jid j send nonce digest)
  then show ?thesis using assms(2) share_inv by blast
next
  case (step_count i jid j digest)
  then show ?thesis using assms(2) count_inv by simp
next
  case (step_settle reply jid j blob)
  then show ?thesis using assms(2) settle_inv by blast
next
  case (step_turn c send incoming probe message)
  then show ?thesis using assms(2) turn_pool_inv by blast
qed (auto intro!: quiet_worker quiet_state dest: frame_announce frame_failed frame_ready
      intro: session_steps)

interpretation miner: machine_invariant "miner_initial cfg" "miner_step X S cfg" "miner_inv X cfg" for X S cfg
  by unfold_locales (auto intro: miner_initial_inv miner_step_inv)

section \<open>Properties of the running engine\<close>

lemma safe_job_pays:
  assumes "safe_job X cfg gate j" "is_direct_rpc (cf_pool cfg)"
  shows "\<exists>hd. decode_header X (job_blob j) = Some hd \<and> job_coinbase j = Some (hd_proposer hd) \<and>
    be_value (job_target j) = compact_value (hd_bits hd) \<and>
    (\<forall>a. requested_coinbase (cf_user cfg) = Some a \<longrightarrow> hd_proposer hd = a)"
proof -
  from assms obtain v where v: "from_rpc X v = Inr j"
      "validate_rpc_coinbase (requested_coinbase (cf_user cfg)) j = Inr ()"
    by (auto simp: safe_job_def)
  from v(1) obtain h where h: "decode_header X (job_blob j) = Some h" "job_coinbase j = Some (hd_proposer h)"
      "target_from_compact (hd_bits h) = Some (job_target j)"
    by (rule from_rpc_authenticated_aux)
  have "be_value (job_target j) = compact_value (hd_bits h)"
    using target_from_compact_cases [of "hd_bits h"] h(3) by simp
  moreover have "\<forall>a. requested_coinbase (cf_user cfg) = Some a \<longrightarrow> hd_proposer h = a"
    using v(2) h(2) by (auto simp: validate_rpc_coinbase_def split: if_splits)
  ultimately show ?thesis using h by blast
qed

text \<open>
  C1: Every hash is spent on checked work for the right account. However node, pool, clock and workers
  behave and interleave, a job that any worker holds is well formed, and a RandomX job is held only
  after the memory gate approved. The bytes the worker hashes are the header of that job: its buffer
  is the header up to the nonce field, which is its last eight bytes, and what it seals next is that
  with the worker's nonce. Against a node the header pays the account the operator asked for and
  the target is the one that header commits to.
\<close>
theorem only_checked_work_is_hashed:
  assumes "reach (miner_initial cfg) (miner_step X S cfg) m"
    and "h \<in> set (mi_hashers m)" "hs_job h = Some (jid, j)"
  shows "well_formed_job j \<and> (job_algo j = RandomX \<longrightarrow> mg_approved (mi_gate m) \<noteq> None) \<and>
    job_nonce_offset j + 8 = length (job_blob j) \<and> length (hs_blob h) = length (job_blob j) \<and>
    take (job_nonce_offset j) (hs_blob h) = take (job_nonce_offset j) (job_blob j) \<and>
    (\<forall>blob. next_attempt (mi_state m) h = SealBlob blob \<longrightarrow>
       blob = take (job_nonce_offset j) (job_blob j) @ nonce_le (hs_nonce h)) \<and>
    (is_direct_rpc (cf_pool cfg) \<longrightarrow>
      (\<exists>hd. decode_header X (job_blob j) = Some hd \<and> job_coinbase j = Some (hd_proposer hd) \<and>
         be_value (job_target j) = compact_value (hd_bits hd) \<and>
         (\<forall>a. requested_coinbase (cf_user cfg) = Some a \<longrightarrow> hd_proposer hd = a)))"
proof -
  have inv: "work_ok X cfg m" using miner.inv_reach [OF assms(1)] by (simp add: miner_inv_def)
  have safe: "safe_job X cfg (mi_gate m) j" using work_okD(2) [OF inv assms(2,3)] by simp
  have ok: "hasher_ok h" by (rule work_okD(3) [OF inv assms(2)])
  have "length (hs_blob h) = length (job_blob j)"
    "take (job_nonce_offset j) (hs_blob h) = take (job_nonce_offset j) (job_blob j)"
    using ok assms(3) by (simp_all add: hasher_ok_def)
  moreover have "blob = take (job_nonce_offset j) (job_blob j) @ nonce_le (hs_nonce h)"
    if "next_attempt (mi_state m) h = SealBlob blob" for blob
    using next_attempt_blob [OF ok that] assms(3) by auto
  moreover have "job_algo j = RandomX \<longrightarrow> mg_approved (mi_gate m) \<noteq> None"
    using safe by (simp add: safe_job_def)
  ultimately show ?thesis
    using safe_job_well_formed [OF safe] well_formed_offset safe_job_pays [OF safe] by simp
qed

text \<open>
  C15: Submissions are accounted for and work belongs to an open session. Against a node every submission is
  accepted, rejected or still waiting for its reply (the counters wrap together). A job can be in
  the slot only while a session is open; a node's job only while seals are submitted to the
  configured endpoint or, when the session has just ended, between the write that takes the
  endpoint away and the write that takes the job away; a pool's job only while its connection is
  recorded and no endpoint is.
\<close>
theorem submissions_accounted_for:
  assumes "reach (miner_initial cfg) (miner_step X S cfg) m"
  shows "(is_direct_rpc (cf_pool cfg) \<longrightarrow>
      es_submitted (mi_state m) =
        es_accepted (mi_state m) + es_rejected (mi_state m) + of_nat (mi_calls m)) \<and>
    (es_job (mi_state m) \<noteq> None \<longrightarrow> mi_session m \<noteq> no_session \<and>
      (if is_direct_rpc (cf_pool cfg)
       then es_rpc_endpoint (mi_state m) = Some (cf_pool cfg) \<or>
         es_rpc_endpoint (mi_state m) = None \<and> (\<exists>k message. mi_ending m = Some (k, message) \<and> 1 \<le> k \<and> k \<le> 4)
       else es_rpc_endpoint (mi_state m) = None \<and> es_connection (mi_state m) \<noteq> None))"
proof -
  have inv: "session_ok cfg m" "tally_ok cfg m"
    using miner.inv_reach [OF assms] by (simp_all add: miner_inv_def)
  have "mi_session m \<noteq> no_session \<and>
      (if is_direct_rpc (cf_pool cfg)
       then es_rpc_endpoint (mi_state m) = Some (cf_pool cfg) \<or>
         es_rpc_endpoint (mi_state m) = None \<and> (\<exists>k message. mi_ending m = Some (k, message) \<and> 1 \<le> k \<and> k \<le> 4)
       else es_rpc_endpoint (mi_state m) = None \<and> es_connection (mi_state m) \<noteq> None)"
    if job: "es_job (mi_state m) \<noteq> None"
  proof (cases "mi_session m")
    case (Inl l)
    then show ?thesis using inv(1) job
      by (cases "mi_ending m") (auto simp: session_ok_def no_session_def split: if_splits)
  next
    case (Inr c)
    then show ?thesis using inv(1) job by (cases c) (auto simp: session_ok_def no_session_def)
  qed
  then show ?thesis using inv(2) unfolding tally_ok_def by blast
qed

subsection \<open>A run\<close>

definition demo_config :: config where
  "demo_config = config_default\<lparr>cf_pool := ''rpc://n:1'', cf_user := ''ab''\<rparr>"

definition demo_replies :: node_replies where
  "demo_replies = \<lparr>nr_health = Inr (JObject [(''height'', ju64 6), (''mempool'', ju64 0)]),
     nr_template = (\<lambda>_. Inr sample_template), nr_probe = None, nr_network = None, nr_peers = None,
     nr_fee = None, nr_mempool = None, nr_histogram = None, nr_report = (\<lambda>_. None),
     nr_backfill = (\<lambda>_. None), nr_now = 0, nr_installed_at = 0\<rparr>"

definition demo_start :: miner where
  "demo_start = (case fst (headless_start demo_config True True True None) of Inr m \<Rightarrow> m)"

lemma demo_reach:
  "\<exists>m h. reach (miner_initial demo_config) (miner_step sample S demo_config) m \<and>
     h \<in> set (mi_hashers m) \<and> hs_job h = Some (0, sample_job)"
proof -
  let ?R = "reach (miner_initial demo_config) (miner_step sample S demo_config)"
  have t: "trim ''ab'' = ''ab''" by code_simp
  have d: "is_direct_rpc (cf_pool demo_config)" by (simp add: demo_config_def is_direct_rpc_def starts_with_def)
  have start: "fst (headless_start demo_config True True True None) = Inr demo_start"
    by (simp add: demo_start_def headless_start_def configure_runtime_mode_def)
  have r0: "?R demo_start" using start by (intro reach_init) (auto simp: miner_initial_def)
  have fresh: "mi_session demo_start = no_session" "mi_ending demo_start = None" "mi_hashers demo_start = [hasher_new 0]"
      "es_fresh (mi_state demo_start) = 0" "mi_gate demo_start = memory_gate_new 1 False True"
    by (simp_all add: demo_start_def headless_start_def configure_runtime_mode_def state_new_def
        demo_config_def config_default_def)
  have s1: "miner_step sample S demo_config demo_start (open_rpc demo_config 0 demo_start)"
    using fresh(1) d by (rule step_open_rpc)
  have r1: "?R (open_rpc demo_config 0 demo_start)" by (rule reach_step [OF r0 s1])
  let ?m1 = "open_rpc demo_config 0 demo_start" and ?l = "rpc_local_new 0"
  have gate: "\<exists>g. ensure_safe RandomX None (memory_gate_new 1 False True) = (Inr (), g)"
    by (simp add: ensure_safe_def memory_gate_new_def resolve_headless_memory_def)
  have coinbase: "validate_rpc_coinbase (requested_coinbase (cf_user demo_config)) sample_job = Inr ()"
    using sample_job_def [THEN arg_cong [where f = job_coinbase]]
    by (simp add: validate_rpc_coinbase_def requested_coinbase_def demo_config_def t)
  have m1: "mi_session ?m1 = Inl ?l" "mi_due ?m1 = None" "mi_ending ?m1 = None" "mi_hashers ?m1 = [hasher_new 0]"
      "es_fresh (mi_state ?m1) = 0" "mi_gate ?m1 = memory_gate_new 1 False True"
    by (simp_all add: open_rpc_def rpc_begin_def fresh)
  let ?m2 = "poll_rpc sample demo_config demo_replies [] ?l ?m1"
  have s2: "miner_step sample S demo_config ?m1 ?m2" using m1(1-3) by (rule step_poll)
  have r2: "?R ?m2" by (rule reach_step [OF r1 s2])
  have fetched: "\<exists>g. fetch_template sample demo_config demo_replies (memory_gate_new 1 False True) =
      (Inr (sample_job, sample_template), g)"
    using gate coinbase sample_job_def [THEN arg_cong [where f = job_algo]]
    by (auto simp: fetch_template_def demo_replies_def sample_from_rpc)
  have "mi_hashers ?m2 = [hasher_new 0] \<and> es_job (mi_state ?m2) = Some (0, sample_job)"
  proof -
    obtain g where g: "fetch_template sample demo_config demo_replies (mi_gate ?m1) =
        (Inr (sample_job, sample_template), g)" using fetched m1(6) by auto
    obtain st1 l1 where nh: "note_health 0 ?l (mi_state ?m1) = (st1, l1)" by (metis surj_pair)
    have keep: "rl_previous_id l1 = []" "es_fresh st1 = 0"
      using nh m1(5) by (auto simp: note_health_def rpc_local_new_def)
    then have "rpc_poll sample demo_config demo_replies ((mi_state ?m1, mi_gate ?m1), ?l) =
        (Inr (Some (6, job_height sample_job, tx_count sample_template)),
         (install_job sample sample_job st1, g),
         l1\<lparr>rl_previous_id := job_id sample_job, rl_chain_height := Some 6, rl_refreshed := 0\<rparr>)"
      using g nh by (simp add: rpc_poll_def demo_replies_def get_u64_def refresh_due_def)
    then show ?thesis using m1(4) keep(2) by (simp add: poll_rpc_def install_job_fields)
  qed
  then have i: "mi_hashers ?m2 ! 0 = hasher_new 0" "length (mi_hashers ?m2) = 1"
      "es_job (mi_state ?m2) = Some (0, sample_job)" by simp_all
  let ?h = "take_job (es_job (mi_state ?m2)) (mi_hashers ?m2 ! 0)"
  have s3: "miner_step sample S demo_config ?m2 (set_hasher 0 ?h (mi_state ?m2) ?m2)"
    using i(2) by (intro step_take) simp
  have "?R (set_hasher 0 ?h (mi_state ?m2) ?m2)" by (rule reach_step [OF r2 s3])
  moreover have "?h \<in> set (mi_hashers (set_hasher 0 ?h (mi_state ?m2) ?m2))"
    using i(2) by (simp add: set_hasher_def set_update_memI)
  moreover have "hs_job ?h = Some (0, sample_job)" using i(3) by (simp add: take_job_job)
  ultimately show ?thesis by blast
qed

lemma only_checked_work_is_hashed_witness:
  "\<exists>hd. decode_header sample (job_blob sample_job) = Some hd \<and> hd_proposer hd = ''ab''"
proof -
  have t: "requested_coinbase (cf_user demo_config) = Some ''ab''"
  proof -
    have "trim ''ab'' = ''ab''" by code_simp
    then show ?thesis by (simp add: requested_coinbase_def demo_config_def)
  qed
  have d: "is_direct_rpc (cf_pool demo_config)" by (simp add: demo_config_def is_direct_rpc_def starts_with_def)
  obtain m h where "reach (miner_initial demo_config) (miner_step sample demo_serde demo_config) m"
    "h \<in> set (mi_hashers m)" "hs_job h = Some (0, sample_job)" using demo_reach by blast
  from only_checked_work_is_hashed [OF this] d t show ?thesis by auto
qed

lemma submissions_accounted_for_witness:
  "\<exists>m. reach (miner_initial demo_config) (miner_step sample demo_serde demo_config) m \<and>
    es_submitted (mi_state m) =
      es_accepted (mi_state m) + es_rejected (mi_state m) + of_nat (mi_calls m)"
proof -
  have d: "is_direct_rpc (cf_pool demo_config)" by (simp add: demo_config_def is_direct_rpc_def starts_with_def)
  obtain m where "reach (miner_initial demo_config) (miner_step sample demo_serde demo_config) m"
    using demo_reach by blast
  from this submissions_accounted_for [OF this] d show ?thesis by blast
qed

end
