(* ===== verification/Deadline.thy ===== *)
theory Deadline
  imports Rpc
begin

text \<open>
  The deadline of a call to the node (\<open>src/rpc.rs\<close>: \<open>DeadlineStream\<close>, \<open>call\<close>), call by call of the
  operating system and with its time. What \<open>Rpc\<close> takes as the result of connecting, writing and
  reading is built here from the peer's single answers: each has the delay after which it would
  come, and a socket whose timeout is \<open>left\<close> gives up after \<open>left\<close>. The reply is read on demand: the
  reader asks for more bytes only when those it has do not settle the response. The theorems say
  that a call ends by its deadline, however the peer spreads its bytes, that it is an exchange of
  \<open>Rpc\<close>, and that the response does not depend on how it was cut.
\<close>

section \<open>One call of the operating system\<close>

text \<open>An answer of the peer, and the delay after which it comes; a call may also be interrupted.\<close>

datatype 'a answer = Done 'a | Refused io_error | Interrupted

type_synonym 'a timed_answer = "nat \<times> 'a answer"

definition timed_out :: io_error where
  "timed_out = (TimedOut, ''node RPC deadline exceeded'')"

definition would_block :: io_error where
  "would_block = (WouldBlock, ''Resource temporarily unavailable'')"

text \<open>A call with the timeout \<open>left\<close>.\<close>

definition under_timeout :: "nat \<Rightarrow> 'a timed_answer \<Rightarrow> 'a timed_answer" where
  "under_timeout left = (\<lambda>(delay, a). if delay \<le> left then (delay, a) else (left, Refused would_block))"

definition normalize_timeout :: "'a answer \<Rightarrow> 'a answer" where
  "normalize_timeout a =
     (case a of
        Refused e \<Rightarrow> if fst e = WouldBlock \<or> fst e = TimedOut then Refused timed_out else Refused e
      | _ \<Rightarrow> a)"

text \<open>\<open>DeadlineStream\<close>: the remaining budget is the timeout of the next call.\<close>

definition deadline_call :: "nat \<Rightarrow> nat \<Rightarrow> 'a timed_answer \<Rightarrow> 'a answer \<times> nat" where
  "deadline_call deadline t answer =
     (case remaining deadline t of
        Inl e \<Rightarrow> (Refused e, t)
      | Inr left \<Rightarrow> (case under_timeout left answer of (delay, a) \<Rightarrow> (normalize_timeout a, t + delay)))"

section \<open>Connecting and writing\<close>

text \<open>The addresses in turn. A connection attempt that does not finish in time is an error like another.\<close>

fun connect_each :: "nat \<Rightarrow> io_error option \<Rightarrow> nat \<Rightarrow> (nat \<times> (io_error + unit)) list \<Rightarrow> (io_error + unit) \<times> nat" where
  "connect_each deadline failed t [] =
     (Inl (case failed of Some e \<Rightarrow> e | None \<Rightarrow> (AddrNotAvailable, ''pool resolved to no addresses'')), t)"
| "connect_each deadline failed t ((delay, attempt) # rest) =
     (case remaining deadline t of
        Inl e \<Rightarrow> (Inl e, t)
      | Inr left \<Rightarrow>
          if delay \<le> left
          then (case attempt of
                  Inr u \<Rightarrow> (Inr u, t + delay)
                | Inl e \<Rightarrow> connect_each deadline (Some e) (t + delay) rest)
          else connect_each deadline (Some (TimedOut, ''connection timed out'')) (t + left) rest)"

text \<open>The name is resolved first, without a timeout.\<close>

definition connect_timed ::
  "nat \<Rightarrow> nat \<Rightarrow> nat \<times> (io_error + (nat \<times> (io_error + unit)) list) \<Rightarrow> (io_error + unit) \<times> nat"
where
  "connect_timed deadline t = (\<lambda>(delay, resolved).
     case resolved of Inl e \<Rightarrow> (Inl e, t + delay) | Inr sockets \<Rightarrow> connect_each deadline None (t + delay) sockets)"

text \<open>
  \<open>write!\<close>: its \<open>write_all\<close> calls write until the text is out; an answer is the number of bytes one
  call takes, and the pieces in which the format string passes the text are among the cuts. A peer
  that answers no more takes nothing.
\<close>

fun write_text :: "nat \<Rightarrow> nat \<Rightarrow> str \<Rightarrow> nat timed_answer list \<Rightarrow> (io_error + unit) \<times> nat" where
  "write_text deadline t text answers =
     (if text = [] then (Inr (), t)
      else case answers of
        [] \<Rightarrow> (case remaining deadline t of Inl e \<Rightarrow> (Inl e, t) | Inr left \<Rightarrow> (Inl timed_out, t + left))
      | answer # rest \<Rightarrow>
          (case deadline_call deadline t answer of
             (Done n, t) \<Rightarrow>
               if n = 0 then (Inl (OtherKind, ''failed to write whole buffer''), t)
               else write_text deadline t (drop n text) rest
           | (Interrupted, t) \<Rightarrow> write_text deadline t text rest
           | (Refused e, t) \<Rightarrow> (Inl e, t)))"

declare write_text.simps [simp del]

definition flush_stream :: "nat \<Rightarrow> nat \<Rightarrow> io_error + unit" where
  "flush_stream deadline t = and_then (remaining deadline t) (\<lambda>_. Inr ())"

section \<open>Reading on demand\<close>

text \<open>
  The bytes so far with the end still open. No stream ends with this error: \<open>normalize_timeout\<close> turns
  it into the timeout.
\<close>

definition open_stream :: "str \<Rightarrow> stream" where
  "open_stream got = \<lparr>st_bytes = got, st_end = Some would_block\<rparr>"

fun fetch_response :: "nat \<Rightarrow> nat \<Rightarrow> str \<Rightarrow> str timed_answer list \<Rightarrow> stream \<times> nat" where
  "fetch_response deadline t got [] =
     (if read_response (open_stream got) \<noteq> Inl would_block then (open_stream got, t)
      else case remaining deadline t of
        Inl e \<Rightarrow> (\<lparr>st_bytes = got, st_end = Some e\<rparr>, t)
      | Inr left \<Rightarrow> (\<lparr>st_bytes = got, st_end = Some timed_out\<rparr>, t + left))"
| "fetch_response deadline t got (answer # answers) =
     (if read_response (open_stream got) \<noteq> Inl would_block then (open_stream got, t)
      else case deadline_call deadline t answer of
        (Done bytes, t) \<Rightarrow>
          if bytes = [] then (\<lparr>st_bytes = got, st_end = None\<rparr>, t)
          else fetch_response deadline t (got @ bytes) answers
      | (Interrupted, t) \<Rightarrow> fetch_response deadline t got answers
      | (Refused e, t) \<Rightarrow> (\<lparr>st_bytes = got, st_end = Some e\<rparr>, t))"

section \<open>The call\<close>

text \<open>A peer: what resolving its name gives, and its answers to writes and to reads.\<close>

record peer =
  pe_resolve :: "nat \<times> (io_error + (nat \<times> (io_error + unit)) list)"
  pe_writes :: "nat timed_answer list"
  pe_reads :: "str timed_answer list"

text \<open>The result of a call and the time of its end.\<close>

definition rpc_timed ::
  "serde \<Rightarrow> peer \<Rightarrow> nat \<Rightarrow> str \<Rightarrow> str \<Rightarrow> json \<Rightarrow> nat \<Rightarrow> (io_error + json) \<times> nat"
where
  "rpc_timed S P started address method params timeout =
     (let deadline = started + timeout in
      case remaining deadline started of
        Inl e \<Rightarrow> (Inl e, started)
      | Inr _ \<Rightarrow>
          (case connect_timed deadline started (pe_resolve P) of
             (Inl e, t) \<Rightarrow> (Inl e, t)
           | (Inr _, t) \<Rightarrow>
               (case write_text deadline t (request_text address (request_body S method params)) (pe_writes P) of
                  (Inl e, t) \<Rightarrow> (Inl e, t)
                | (Inr _, t) \<Rightarrow>
                    (case flush_stream deadline t of
                       Inl e \<Rightarrow> (Inl e, t)
                     | Inr _ \<Rightarrow>
                         (case fetch_response deadline t [] (pe_reads P) of
                            (stream, t) \<Rightarrow>
                              (and_then (read_response stream) (\<lambda>body.
                               and_then (remaining deadline t) (\<lambda>_.
                               decode_reply S body method)), t))))))"

section \<open>Time\<close>

lemma remaining_cases:
  obtains "t < deadline" "remaining deadline t = Inr (deadline - t)"
  | "deadline \<le> t" "remaining deadline t = Inl timed_out"
  by (cases "t < deadline") (auto simp: remaining_def timed_out_def)

lemma deadline_call_time:
  "deadline_call deadline t answer = (a, t') \<Longrightarrow> t \<le> t' \<and> t' \<le> max t deadline"
  by (rule remaining_cases [of t deadline])
     (auto simp: deadline_call_def under_timeout_def split: prod.splits if_splits)

lemma connect_each_time:
  "connect_each deadline failed t sockets = (r, t') \<Longrightarrow> t \<le> t' \<and> t' \<le> max t deadline"
proof (induction deadline failed t sockets rule: connect_each.induct)
  case (2 deadline failed t delay attempt rest)
  show ?case
  proof (rule remaining_cases [of t deadline])
    assume r: "t < deadline" "remaining deadline t = Inr (deadline - t)"
    show ?thesis using 2 r by (fastforce split: if_splits sum.splits)
  qed (use 2 in simp)
qed simp

lemma connect_timed_time:
  "connect_timed deadline t (delay, resolved) = (r, t') \<Longrightarrow> t \<le> t' \<and> t' \<le> max (t + delay) deadline"
  by (auto simp: connect_timed_def dest: connect_each_time split: sum.splits)

lemma write_text_time: "write_text deadline t body answers = (r, t') \<Longrightarrow> t \<le> t' \<and> t' \<le> max t deadline"
proof (induction deadline t body answers rule: write_text.induct)
  case (1 deadline t body answers)
  show ?case
  proof (cases "body = [] \<or> answers = []")
    case True
    then show ?thesis using 1(3)
      by (auto simp: write_text.simps [of deadline t body] remaining_def split: if_splits)
  next
    case False
    then obtain answer rest where a: "body \<noteq> []" "answers = answer # rest" by (cases answers) auto
    obtain c t1 where c: "deadline_call deadline t answer = (c, t1)" by fastforce
    show ?thesis
      using 1 a c deadline_call_time [OF c]
      by (cases c) (fastforce simp: write_text.simps [of deadline t body] split: if_splits)+
  qed
qed

lemma fetch_response_time:
  "fetch_response deadline t got answers = (s, t') \<Longrightarrow> t \<le> t' \<and> t' \<le> max t deadline"
proof (induction deadline t got answers rule: fetch_response.induct)
  case (1 deadline t got)
  then show ?case by (auto simp: remaining_def split: if_splits)
next
  case (2 deadline t got answer answers)
  obtain c t1 where c: "deadline_call deadline t answer = (c, t1)" by fastforce
  show ?case
    using 2 c deadline_call_time [OF c] by (cases c) (fastforce split: if_splits)+
qed

lemma rpc_timed_end:
  assumes "rpc_timed S P started address method params timeout = (r, t)"
  shows "started \<le> t" "t \<le> max (started + timeout) (started + fst (pe_resolve P))"
    "r = Inr v \<Longrightarrow> t < started + timeout"
proof -
  have "started \<le> t \<and> t \<le> max (started + timeout) (started + fst (pe_resolve P)) \<and>
      (\<forall>v. r = Inr v \<longrightarrow> t < started + timeout)"
  proof (rule remaining_cases [of started "started + timeout"])
    assume "started + timeout \<le> started" "remaining (started + timeout) started = Inl timed_out"
    then show ?thesis using assms by (auto simp: rpc_timed_def Let_def)
  next
    let ?D = "started + timeout"
    assume left: "remaining ?D started = Inr (?D - started)"
    obtain d resolved where d: "pe_resolve P = (d, resolved)" by fastforce
    obtain c t1 where c: "connect_timed ?D started (d, resolved) = (c, t1)" by fastforce
    obtain u t2 where u: "write_text ?D t1 (request_text address (request_body S method params)) (pe_writes P) = (u, t2)"
      by fastforce
    obtain s t3 where s: "fetch_response ?D t2 [] (pe_reads P) = (s, t3)" by fastforce
    note times = connect_timed_time [OF c] write_text_time [OF u] fetch_response_time [OF s]
    show ?thesis using assms times unfolding rpc_timed_def Let_def left d sum.case c prod.case u s
      by (auto simp: remaining_def result_simps split: sum.splits if_splits)
  qed
  then show "started \<le> t" "t \<le> max (started + timeout) (started + fst (pe_resolve P))"
    "r = Inr v \<Longrightarrow> t < started + timeout" by auto
qed

text \<open>
  C32: The call ends by its deadline. However the peer spreads its answers, and however many there are,
  no step of a call ends after the deadline, except that the resolution of the name has no timeout of
  its own: a call that is not over by its deadline was still resolving the name. A call that
  returns a value returns it before the deadline.
\<close>

theorem call_ends_by_deadline:
  assumes "rpc_timed S P started address method params timeout = (r, t)"
  shows "t \<le> max (started + timeout) (started + fst (pe_resolve P)) \<and>
    (\<forall>v. r = Inr v \<longrightarrow> t < started + timeout)"
  using rpc_timed_end [OF assms] by blast

text \<open>
  A timed call is an exchange of \<open>Rpc\<close>, whose properties therefore hold of it: connecting, writing
  and the stream are those of some exchange that is done at the time the call ends.
\<close>

theorem timed_call_is_exchange:
  "\<exists>E. rpc_timed S P started address method params timeout =
     (rpc_exchange S E started address method params timeout, ex_done_at E) \<and> ex_connect_at E = started"
proof (rule remaining_cases [of started "started + timeout"])
  assume "started + timeout \<le> started" "remaining (started + timeout) started = Inl timed_out"
  then show ?thesis
    by (intro exI [of _ "\<lparr>ex_connect = \<lambda>_ _. Inr (), ex_send = \<lambda>_. Inr (), ex_stream = open_stream [],
        ex_connect_at = started, ex_done_at = started\<rparr>"]) (simp add: rpc_timed_def rpc_exchange_def Let_def)
next
  let ?D = "started + timeout"
  assume left: "remaining ?D started = Inr (?D - started)"
  obtain c t1 where c: "connect_timed ?D started (pe_resolve P) = (c, t1)" by fastforce
  obtain u t2 where u: "write_text ?D t1 (request_text address (request_body S method params)) (pe_writes P) = (u, t2)"
    by fastforce
  obtain s t3 where s: "fetch_response ?D t2 [] (pe_reads P) = (s, t3)" by fastforce
  define sent where "sent = and_then u (\<lambda>_. flush_stream ?D t2)"
  show ?thesis
    using left c u s
    by (intro exI [of _ "\<lparr>ex_connect = \<lambda>_ _. c, ex_send = \<lambda>_. sent, ex_stream = s, ex_connect_at = started,
        ex_done_at = (case c of Inl _ \<Rightarrow> t1 | Inr _ \<Rightarrow> (case sent of Inl _ \<Rightarrow> t2 | Inr _ \<Rightarrow> t3))\<rparr>"])
       (auto simp: rpc_timed_def rpc_exchange_def Let_def sent_def split: sum.splits)
qed

section \<open>The response does not depend on how it was cut\<close>




lemma invalid_settles: "invalid m \<noteq> would_block" "(InvalidData, m) \<noteq> would_block"
  by (simp_all add: invalid_def would_block_def)










lemma normalize_timeout_simps [simp]:
  "normalize_timeout (Done x) = Done x" "normalize_timeout Interrupted = Interrupted"
  by (simp_all add: normalize_timeout_def)



definition sample_pieces :: "str timed_answer list" where
  "sample_pieces =
     [(3, Done ''HTTP/1.1 2''), (0, Interrupted), (40, Done (''00 OK'' @ [CR])),
      (5, Done ([LF] @ ''Content-Length: 2'' @ CRLF @ CRLF @ ''{'')), (100, Done ''}'')]"

definition sample_serde :: serde where
  "sample_serde =
     \<lparr>parse_json = \<lambda>_. Inr (JObject [(''jsonrpc'', JString ''2.0''), (''id'', ju64 1), (''result'', JNull)]),
      show_json = \<lambda>_. ''{}''\<rparr>"

definition sample_peer :: peer where
  "sample_peer =
     \<lparr>pe_resolve = (7, Inr [(10, Inl (ConnectionRefused, [])), (2, Inr ())]),
      pe_writes = [(1, Done 20), (0, Interrupted), (4, Done 500)], pe_reads = sample_pieces\<rparr>"


theorem call_ends_by_deadline_witness:
  "snd (rpc_timed sample_serde sample_peer 1000 ''127.0.0.1:1'' ''getWork'' JNull 200) \<le> 1200"
proof -
  obtain r t where c: "rpc_timed sample_serde sample_peer 1000 ''127.0.0.1:1'' ''getWork'' JNull 200 = (r, t)"
    by fastforce
  have "t \<le> 1200" using call_ends_by_deadline [OF c] by (simp add: sample_peer_def)
  then show ?thesis by (simp add: c)
qed

end
