(* ===== verification/Fanout.thy ===== *)
theory Fanout
  imports Session Deadline
begin

text \<open>
  The optional reads of a node session (\<open>run_rpc_session\<close> in \<open>src/main.rs\<close>): after a template was
  installed, five reads run side by side, each in a thread of its own and with a timeout of a second. A
  thread that is not started, a call that fails and a reply that does not come are a reply that is
  absent. The theorem bounds the delay of all five together.
\<close>

section \<open>One read\<close>

text \<open>\<open>rpc_call_with_timeout\<close> with its time.\<close>

definition rpc_call_timed ::
  "serde \<Rightarrow> peer \<Rightarrow> nat \<Rightarrow> str \<Rightarrow> str \<Rightarrow> json \<Rightarrow> nat \<Rightarrow> (io_error + json) \<times> nat"
where
  "rpc_call_timed S P started endpoint method params timeout =
     (let address = endpoint_address endpoint in
      case rpc_timed S P started address method params timeout of
        (r, t) \<Rightarrow>
          (map_err (\<lambda>(kind, message).
             if kind = ConnectionRefused then (kind, refused_advice address message) else (kind, message)) r, t))"

text \<open>When the thread of a read runs, or why it was not started; and the peer it talks to.\<close>

record reader =
  rd_started :: "io_error + nat"
  rd_peer :: peer

definition optional_reply :: "serde \<Rightarrow> str \<Rightarrow> str \<Rightarrow> nat \<Rightarrow> reader \<Rightarrow> json option \<times> nat" where
  "optional_reply S endpoint method t reader =
     (case rd_started reader of
        Inl _ \<Rightarrow> (None, t)
      | Inr started \<Rightarrow>
          (case rpc_call_timed S (rd_peer reader) started endpoint method (JObject []) 1000 of
             (Inr v, ended) \<Rightarrow> (Some v, ended)
           | (Inl _, ended) \<Rightarrow> (None, ended)))"

text \<open>The line on standard error for a thread that was not started.\<close>

definition unavailable_line :: "str \<Rightarrow> reader \<Rightarrow> str list" where
  "unavailable_line what reader =
     (case rd_started reader of
        Inl e \<Rightarrow> [''optional '' @ what @ '' RPC worker unavailable: '' @ snd e]
      | Inr _ \<Rightarrow> [])"

section \<open>The five reads\<close>

definition optional_methods :: "str list" where
  "optional_methods =
     [''sov_getDifficulty'', ''sov_getPeerInfo'', ''sov_estimateFee'', ''sov_getMempoolSize'',
      ''sov_getMempoolHistogram'']"

text \<open>
  The scope ends when the last of the threads has. The replies join those of the poll; \<open>readers\<close>
  gives the thread of each method, \<open>t\<close> is the time of the scope's start.
\<close>

definition fan_out ::
  "serde \<Rightarrow> config \<Rightarrow> (str \<Rightarrow> reader) \<Rightarrow> nat \<Rightarrow> node_replies \<Rightarrow> node_replies \<times> str list \<times> nat"
where
  "fan_out S cfg readers t R =
     (let reply = (\<lambda>method. optional_reply S (cf_pool cfg) method t (readers method)) in
      (R\<lparr>nr_network := fst (reply ''sov_getDifficulty''), nr_peers := fst (reply ''sov_getPeerInfo''),
         nr_fee := fst (reply ''sov_estimateFee''), nr_mempool := fst (reply ''sov_getMempoolSize''),
         nr_histogram := fst (reply ''sov_getMempoolHistogram'')\<rparr>,
       unavailable_line ''difficulty'' (readers ''sov_getDifficulty'') @
         unavailable_line ''peer'' (readers ''sov_getPeerInfo''),
       fold max (List.map (\<lambda>method. snd (reply method)) optional_methods) t))"

text \<open>A due dashboard: the reads, then what \<open>Session\<close> does with their replies.\<close>

definition refresh_dashboard ::
  "serde \<Rightarrow> config \<Rightarrow> (str \<Rightarrow> reader) \<Rightarrow> nat \<Rightarrow> node_replies \<Rightarrow> u64 \<times> u64 \<times> u64 option \<Rightarrow>
   engine_state \<times> rpc_local \<Rightarrow> (engine_state \<times> rpc_local) option"
where
  "refresh_dashboard S cfg readers t R due = rpc_dashboard (fst (fan_out S cfg readers t R)) due"

section \<open>Lemmas\<close>

lemma rpc_call_timed_end:
  assumes "rpc_call_timed S P started endpoint method params timeout = (r, t)"
  shows "started \<le> t \<and> t \<le> started + max timeout (fst (pe_resolve P))"
proof -
  obtain r' where "rpc_timed S P started (endpoint_address endpoint) method params timeout = (r', t)"
    using assms by (auto simp: rpc_call_timed_def Let_def split: prod.splits)
  from rpc_timed_end(1,2) [OF this] show ?thesis by (simp add: max_def split: if_splits)
qed

lemma optional_reply_end:
  assumes "\<And>started. rd_started reader = Inr started \<Longrightarrow> started \<le> s" "t \<le> s" "fst (pe_resolve (rd_peer reader)) \<le> d"
  shows "snd (optional_reply S endpoint method t reader) \<le> s + max 1000 d"
proof (cases "rd_started reader")
  case (Inl e)
  then show ?thesis using assms(2) by (simp add: optional_reply_def)
next
  case (Inr started)
  obtain r e where c: "rpc_call_timed S (rd_peer reader) started endpoint method (JObject []) 1000 = (r, e)" by fastforce
  have "started \<le> s" by (rule assms(1) [OF Inr])
  with rpc_call_timed_end [OF c] assms(3) have "e \<le> s + max 1000 d" by linarith
  then show ?thesis using Inr c by (simp add: optional_reply_def split: sum.splits)
qed

lemma fold_max_le: "fold max ts (t :: nat) \<le> b \<longleftrightarrow> t \<le> b \<and> (\<forall>x \<in> set ts. x \<le> b)"
  by (induction ts arbitrary: t) auto

text \<open>
  The optional reads delay the session by one timeout, not by five: when the threads start by \<open>s\<close>
  and a name is resolved in \<open>d\<close> milliseconds, all replies are there, or given up, a second after
  \<open>s\<close> (or \<open>d\<close> after it, when that is longer), whatever the node does. Only the five optional
  replies change.
\<close>

theorem optional_reads_bounded:
  assumes "t \<le> s"
    and "\<forall>method \<in> set optional_methods. \<forall>started. rd_started (readers method) = Inr started \<longrightarrow> started \<le> s"
    and "\<forall>method \<in> set optional_methods. fst (pe_resolve (rd_peer (readers method))) \<le> d"
  shows "snd (snd (fan_out S cfg readers t R)) \<le> s + max 1000 d \<and>
    nr_health (fst (fan_out S cfg readers t R)) = nr_health R \<and>
    nr_template (fst (fan_out S cfg readers t R)) = nr_template R"
proof -
  have late: "snd (optional_reply S (cf_pool cfg) m t (readers m)) \<le> s + max 1000 d"
    if "m \<in> set optional_methods" for m
    using assms that by (intro optional_reply_end) auto
  have "t \<le> s + max 1000 d" using assms(1) by linarith
  moreover have "\<forall>x \<in> set (List.map (\<lambda>m. snd (optional_reply S (cf_pool cfg) m t (readers m))) optional_methods).
      x \<le> s + max 1000 d" unfolding set_map using late by blast
  ultimately have "snd (snd (fan_out S cfg readers t R)) \<le> s + max 1000 d"
    by (simp only: fan_out_def Let_def snd_conv fold_max_le simp_thms)
  then show ?thesis by (simp add: fan_out_def Let_def)
qed

text \<open>A node without these methods, or that does not answer: the dashboard shows that nothing is known.\<close>

lemma silent_node_shows_nothing_known:
  assumes "\<forall>method \<in> set optional_methods. fst (optional_reply S (cf_pool cfg) method t (readers method)) = None"
  shows "es_peers_known (note_counters (fst (fan_out S cfg readers t R)) st) = False"
    and "es_mempool_known (note_counters (fst (fan_out S cfg readers t R)) st) = es_mempool_known st"
  using assms by (simp_all add: fan_out_def optional_methods_def note_counters_def emit_def Let_def)

theorem optional_reads_bounded_witness:
  "snd (snd (fan_out sample_serde cfg (\<lambda>_. \<lparr>rd_started = Inr 1005, rd_peer = sample_peer\<rparr>) 1000 R)) \<le> 2005"
proof -
  have "snd (snd (fan_out sample_serde cfg (\<lambda>_. \<lparr>rd_started = Inr 1005, rd_peer = sample_peer\<rparr>) 1000 R))
      \<le> 1005 + max 1000 7"
    by (rule optional_reads_bounded [THEN conjunct1]) (simp_all add: sample_peer_def)
  then show ?thesis by simp
qed

end
