(* ===== verification/GuiText.thy ===== *)
theory GuiText
  imports RustStr
begin

text \<open>
  How the desktop interface (\<open>src/gui.rs\<close>) handles text it did not write: cutting it to a
  bound at a character boundary (\<open>bounded_text\<close>), reading the engine's output line by line
  (\<open>read_bounded_child_line\<close>) and removing a secret from it (\<open>redact_secret\<close>).
\<close>

section \<open>UTF-8\<close>

text \<open>
  \<open>String::from_utf8_lossy\<close>. \<open>utf8_step\<close> looks at the first sequence of a non-empty text:
  whether it is well formed, and how many bytes it has (for an ill-formed one, the bytes the
  standard library replaces by one U+FFFD).
\<close>

definition in_range :: "nat \<Rightarrow> nat \<Rightarrow> char \<Rightarrow> bool" where
  "in_range lo hi c \<longleftrightarrow> lo \<le> byte_of c \<and> byte_of c \<le> hi"

definition utf8_width :: "char \<Rightarrow> nat" where
  "utf8_width c =
     (if byte_of c < 128 then 1 else if in_range 0xC2 0xDF c then 2
      else if in_range 0xE0 0xEF c then 3 else if in_range 0xF0 0xF4 c then 4 else 0)"

definition second_ok :: "char \<Rightarrow> char \<Rightarrow> bool" where
  "second_ok c d \<longleftrightarrow>
     (if byte_of c = 0xE0 then in_range 0xA0 0xBF d
      else if byte_of c = 0xED then in_range 0x80 0x9F d
      else if byte_of c = 0xF0 then in_range 0x90 0xBF d
      else if byte_of c = 0xF4 then in_range 0x80 0x8F d
      else is_continuation d)"

fun utf8_step :: "str \<Rightarrow> bool \<times> nat" where
  "utf8_step [] = (False, 1)"
| "utf8_step [c] = (if utf8_width c = 1 then (True, 1) else (False, 1))"
| "utf8_step (c # d # s) =
     (if utf8_width c = 1 then (True, 1)
      else if utf8_width c = 0 \<or> \<not> second_ok c d then (False, 1)
      else if utf8_width c = 2 then (True, 2)
      else case s of
          [] \<Rightarrow> (False, 2)
        | e # s \<Rightarrow>
            if \<not> is_continuation e then (False, 2)
            else if utf8_width c = 3 then (True, 3)
            else case s of
                [] \<Rightarrow> (False, 3)
              | f # s \<Rightarrow> if is_continuation f then (True, 4) else (False, 3))"

definition replacement_char :: str where "replacement_char = [CHR 0xEF, CHR 0xBF, CHR 0xBD]"

lemma utf8_step_pos: "0 < snd (utf8_step s)"
  by (cases s rule: utf8_step.cases) (auto split: list.splits)

function from_utf8_lossy :: "str \<Rightarrow> str" where
  "from_utf8_lossy s =
     (if s = [] then []
      else case utf8_step s of (ok, n) \<Rightarrow>
        (if ok then take n s else replacement_char) @ from_utf8_lossy (drop n s))"
  by pat_completeness auto
termination from_utf8_lossy
proof (relation "measure length")
  fix s :: str and ok n
  assume "s \<noteq> []" "(ok, n) = utf8_step s"
  then show "(drop n s, s) \<in> measure length"
    using utf8_step_pos [of s] by (cases s) (auto dest: sym)
qed simp

function valid_utf8 :: "str \<Rightarrow> bool" where
  "valid_utf8 s =
     (if s = [] then True
      else case utf8_step s of (ok, n) \<Rightarrow> ok \<and> valid_utf8 (drop n s))"
  by pat_completeness auto
termination valid_utf8
proof (relation "measure length")
  fix s :: str and ok n
  assume "s \<noteq> []" "(ok, n) = utf8_step s"
  then show "(drop n s, s) \<in> measure length"
    using utf8_step_pos [of s] by (cases s) (auto dest: sym)
qed simp

declare from_utf8_lossy.simps [simp del] valid_utf8.simps [simp del]

section \<open>Bounded text\<close>

text \<open>The loop that moves a cut back to the character boundary before it.\<close>

fun floor_boundary :: "str \<Rightarrow> nat \<Rightarrow> nat" where
  "floor_boundary s 0 = 0"
| "floor_boundary s (Suc k) =
     (if is_char_boundary s (Suc k) then Suc k else floor_boundary s k)"

definition bounded_text :: "str \<Rightarrow> nat \<Rightarrow> str \<Rightarrow> bool \<Rightarrow> str" where
  "bounded_text raw max_bytes suffix force_suffix =
     (if \<not> force_suffix \<and> length raw \<le> max_bytes then raw
      else if max_bytes = 0 then []
      else if length suffix \<ge> max_bytes
        then take (floor_boundary suffix (min max_bytes (length suffix))) suffix
      else take (floor_boundary raw (min (max_bytes - length suffix) (length raw))) raw @ suffix)"

section \<open>Lines of the engine's output\<close>

definition MAX_CHILD_LINE_BYTES :: nat where "MAX_CHILD_LINE_BYTES = 8 * 1024"

definition TRUNCATED_LINE_SUFFIX :: str where
  "TRUNCATED_LINE_SUFFIX =
     '' '' @ [CHR 0xE2, CHR 0x80, CHR 0xA6] @ '' [line truncated at 8 KiB]''"

definition TRUNCATED_REPORT_SUFFIX :: str where
  "TRUNCATED_REPORT_SUFFIX = [CHR 0x0A] @ ''[crash report truncated]'' @ [CHR 0x0A]"

text \<open>
  The pipe as the buffers that \<open>fill_buf\<close> will return, an error with its text or bytes; an
  empty buffer, or the end of the list, is the end of the stream.
\<close>

type_synonym reader = "(str + str) list"

fun read_chunks ::
  "reader \<Rightarrow> str \<Rightarrow> bool \<Rightarrow> bool \<Rightarrow> str + (str \<times> bool \<times> bool \<times> bool \<times> reader)"
where
  "read_chunks [] captured saw_bytes truncated = Inr (captured, saw_bytes, truncated, False, [])"
| "read_chunks (Inl e # reader) captured saw_bytes truncated = Inl e"
| "read_chunks (Inr available # reader) captured saw_bytes truncated =
     (if available = [] then Inr (captured, saw_bytes, truncated, False, Inr available # reader)
      else
        let content = takeWhile (\<lambda>c. c \<noteq> CHR 0x0A) available;
            newline = CHR 0x0A \<in> set available;
            retained = min (length content) (MAX_CHILD_LINE_BYTES - length captured);
            captured = captured @ take retained available;
            truncated = (truncated \<or> retained < length content);
            left = drop (length content + 1) available
        in if newline
           then Inr (captured, True, truncated, True, if left = [] then reader else Inr left # reader)
           else read_chunks reader captured True truncated)"

definition read_bounded_child_line :: "reader \<Rightarrow> str + (str option \<times> reader)" where
  "read_bounded_child_line reader =
     and_then (read_chunks reader [] False False) (\<lambda>(captured, saw_bytes, truncated, ended, reader).
       Inr (if \<not> saw_bytes then (None, reader)
            else
              let captured = (if ended \<and> \<not> truncated \<and> captured \<noteq> [] \<and> last captured = CHR 0x0D
                              then butlast captured else captured);
                  decoded = from_utf8_lossy captured
              in (Some (bounded_text decoded MAX_CHILD_LINE_BYTES TRUNCATED_LINE_SUFFIX
                          (truncated \<or> length decoded > MAX_CHILD_LINE_BYTES)), reader)))"

section \<open>Redaction\<close>

text \<open>\<open>str::replace\<close>: the occurrences from the left that do not overlap.\<close>

function replace_str :: "str \<Rightarrow> str \<Rightarrow> str \<Rightarrow> str" where
  "replace_str p r s =
     (if s = [] \<or> p = [] then s
      else if starts_with s p then r @ replace_str p r (drop (length p) s)
      else hd s # replace_str p r (tl s))"
  by pat_completeness auto
termination
  by (relation "measure (\<lambda>(p, r, s). length s)") auto

function match_indices :: "str \<Rightarrow> nat \<Rightarrow> str \<Rightarrow> nat list" where
  "match_indices p i s =
     (if s = [] \<or> p = [] then []
      else if starts_with s p then i # match_indices p (i + length p) (drop (length p) s)
      else match_indices p (i + 1) (tl s))"
  by pat_completeness auto
termination
  by (relation "measure (\<lambda>(p, i, s). length s)") auto

declare replace_str.simps [simp del] match_indices.simps [simp del]

text \<open>
  The characters around a match. \<open>alnum\<close> stands for Unicode's property data beyond ASCII
  (\<open>char::is_alphanumeric\<close>).
\<close>

definition word_char :: "(str \<Rightarrow> bool) \<Rightarrow> str \<Rightarrow> bool" where
  "word_char alnum c \<longleftrightarrow>
     (case c of [] \<Rightarrow> False
      | [b] \<Rightarrow> is_ascii_alphanumeric b \<or> b = CHR ''_''
      | _ \<Rightarrow> alnum c)"

definition next_char :: "str \<Rightarrow> str" where
  "next_char s = take_chars 1 s"

definition prev_char :: "str \<Rightarrow> str" where
  "prev_char s =
     (let tail = takeWhile is_continuation (rev s)
      in case drop (length tail) (rev s) of [] \<Rightarrow> [] | c # _ \<Rightarrow> c # rev tail)"

fun redact_tokens :: "(str \<Rightarrow> bool) \<Rightarrow> str \<Rightarrow> str \<Rightarrow> str \<Rightarrow> nat list \<Rightarrow> nat \<Rightarrow> str" where
  "redact_tokens alnum raw secret replacement [] copied_until = drop copied_until raw"
| "redact_tokens alnum raw secret replacement (start # starts) copied_until =
     (let e = start + length secret in
      if word_char alnum (prev_char (take start raw)) \<or> word_char alnum (next_char (drop e raw))
      then redact_tokens alnum raw secret replacement starts copied_until
      else take (start - copied_until) (drop copied_until raw) @ replacement @
           redact_tokens alnum raw secret replacement starts e)"

definition REDACTED :: str where "REDACTED = ''[REDACTED]''"

definition redact_secret :: "(str \<Rightarrow> bool) \<Rightarrow> str \<Rightarrow> str \<Rightarrow> str" where
  "redact_secret alnum raw secret =
     (if secret = [] then raw
      else
        let replacement = (if contains_str REDACTED secret then [] else REDACTED)
        in if char_count secret > 2 then replace_str secret replacement raw
           else redact_tokens alnum raw secret replacement (match_indices secret 0 raw) 0)"

section \<open>What decoding gives\<close>

lemma second_ok_continuation: "second_ok c d \<Longrightarrow> is_continuation d"
  by (auto simp: second_ok_def in_range_def is_continuation_def split: if_splits)

text \<open>A well-formed sequence: its start does not depend on what follows, and only its first
  byte starts a character.\<close>

lemma utf8_step_ok:
  assumes "utf8_step s = (True, n)"
  shows "n \<le> length s" "list_all is_continuation (take (n - 1) (tl s))"
    "utf8_step (take n s @ t) = (True, n)"
  using assms second_ok_continuation
proof -
  show "n \<le> length s" "list_all is_continuation (take (n - 1) (tl s))"
    using assms second_ok_continuation
    by (cases s rule: utf8_step.cases; auto split: if_splits list.splits; fail)+
  show "utf8_step (take n s @ t) = (True, n)"
  proof (cases s rule: utf8_step.cases)
    case (3 c d u)
    consider (one) "n = 1" "utf8_width c = 1"
      | (two) "n = 2" "utf8_width c = 2" "second_ok c d"
      | (three) e r where "n = 3" "utf8_width c = 3" "second_ok c d" "u = e # r" "is_continuation e"
      | (four) e f r where "n = 4" "utf8_width c \<notin> {0, 1, 2, 3}" "second_ok c d" "u = e # f # r"
          "is_continuation e" "is_continuation f"
      using assms that by (auto simp: 3 split: if_splits list.splits)
    then show ?thesis
    proof cases
      case one
      then show ?thesis by (cases t) (simp_all add: 3)
    qed (simp_all add: 3)
  next
    case (2 c)
    then show ?thesis using assms by (cases t) (simp_all split: if_splits)
  qed (use assms in simp)
qed

lemma utf8_step_length: "s \<noteq> [] \<Longrightarrow> snd (utf8_step s) \<le> length s"
  by (cases s rule: utf8_step.cases) (auto split: if_splits list.splits)

lemma valid_utf8_Nil [simp]: "valid_utf8 []"
  by (simp add: valid_utf8.simps)

lemma valid_utf8_step: "s \<noteq> [] \<Longrightarrow> utf8_step s = (ok, n) \<Longrightarrow> valid_utf8 s \<longleftrightarrow> ok \<and> valid_utf8 (drop n s)"
  by (subst valid_utf8.simps) simp

lemma valid_utf8_append: "valid_utf8 s \<Longrightarrow> valid_utf8 t \<Longrightarrow> valid_utf8 (s @ t)"
proof (induction s rule: valid_utf8.induct)
  case (1 s)
  show ?case
  proof (cases "s = []")
    case False
    obtain ok n where st: "utf8_step s = (ok, n)" by fastforce
    then have ok: "ok" "valid_utf8 (drop n s)" using 1(2) False by (simp_all add: valid_utf8_step)
    then have "utf8_step s = (True, n)" using st by simp
    note u = utf8_step_ok [OF this]
    have "utf8_step (s @ t) = (True, n)"
      using u(3) [of "drop n s @ t"] append_take_drop_id [of n s] by (metis append.assoc)
    moreover have "valid_utf8 (drop n s @ t)" using 1(1) [OF False st [symmetric]] ok 1(3) by simp
    moreover have "drop n (s @ t) = drop n s @ t" using u(1) by simp
    ultimately show ?thesis using False by (simp add: valid_utf8_step)
  qed (use 1 in simp)
qed

lemma valid_replacement: "valid_utf8 replacement_char"
  by code_simp

lemma from_utf8_lossy_valid: "valid_utf8 (from_utf8_lossy s)"
proof (induction s rule: from_utf8_lossy.induct)
  case (1 s)
  show ?case
  proof (cases "s = []")
    case False
    obtain ok n where st: "utf8_step s = (ok, n)" by fastforce
    have tail: "valid_utf8 (from_utf8_lossy (drop n s))" using 1 [OF False st [symmetric]] .
    have "valid_utf8 (if ok then take n s else replacement_char)"
    proof (cases ok)
      case True
      then have "utf8_step (take n s @ []) = (True, n)" using st utf8_step_ok(3) [of s n "[]"] by simp
      then show ?thesis using True by (cases "take n s = []") (simp_all add: valid_utf8_step)
    qed (simp add: valid_replacement)
    then have "valid_utf8 ((if ok then take n s else replacement_char) @ from_utf8_lossy (drop n s))"
      using tail by (rule valid_utf8_append)
    then show ?thesis using False st by (subst from_utf8_lossy.simps) simp
  qed (simp add: from_utf8_lossy.simps)
qed

lemma from_utf8_lossy_id: "valid_utf8 s \<Longrightarrow> from_utf8_lossy s = s"
proof (induction s rule: from_utf8_lossy.induct)
  case (1 s)
  obtain ok n where st: "utf8_step s = (ok, n)" by fastforce
  show ?case
  proof (cases "s = []")
    case False
    then have "ok" "valid_utf8 (drop n s)" using 1(2) st by (simp_all add: valid_utf8_step)
    then show ?thesis using 1(1) [OF False st [symmetric]] False st
      by (subst from_utf8_lossy.simps) simp
  qed (simp add: from_utf8_lossy.simps)
qed

text \<open>Cutting at a character boundary keeps a text well formed.\<close>

lemma valid_utf8_take:
  assumes "valid_utf8 s" "is_char_boundary s k" "k \<le> length s"
  shows "valid_utf8 (take k s)"
  using assms
proof (induction s arbitrary: k rule: valid_utf8.induct)
  case (1 s)
  show ?case
  proof (cases "s = [] \<or> k = 0 \<or> k = length s")
    case False
    then have k: "s \<noteq> []" "0 < k" "k < length s" using 1(4) by auto
    obtain ok n where st: "utf8_step s = (ok, n)" by fastforce
    then have ok: "ok" "valid_utf8 (drop n s)" using 1(2) k(1) by (simp_all add: valid_utf8_step)
    then have "utf8_step s = (True, n)" using st by simp
    note u = utf8_step_ok [OF this]
    have "\<not> is_continuation (s ! k)" using 1(3) k by (simp add: is_char_boundary_def)
    have "n \<le> k"
    proof (rule ccontr)
      assume "\<not> n \<le> k"
      then have "tl s ! (k - 1) \<in> set (take (n - 1) (tl s))"
        using k by (auto simp: in_set_conv_nth intro!: exI [of _ "k - 1"])
      then have "is_continuation (s ! k)" using u(2) k by (cases s) (auto simp: list_all_iff)
      then show False using \<open>\<not> is_continuation (s ! k)\<close> by simp
    qed
    have "is_char_boundary (drop n s) (k - n)"
      using \<open>\<not> is_continuation (s ! k)\<close> \<open>n \<le> k\<close> k by (auto simp: is_char_boundary_def)
    then have "valid_utf8 (take (k - n) (drop n s))"
      using 1(1) [OF k(1) st [symmetric]] ok(2) k by simp
    moreover have "utf8_step (take k s) = (True, n)"
      using u(3) [of "take (k - n) (drop n s)"] \<open>n \<le> k\<close> by (metis le_add_diff_inverse take_add)
    ultimately show ?thesis using k by (simp add: valid_utf8_step drop_take)
  qed (use 1 in auto)
qed

section \<open>The bound\<close>

lemma floor_boundary_le: "floor_boundary s k \<le> k"
  by (induction k) auto

lemma floor_boundary_is_boundary: "is_char_boundary s (floor_boundary s k)"
  by (induction k) (auto simp: is_char_boundary_def)

lemma floor_boundary_greatest: "is_char_boundary s j \<Longrightarrow> j \<le> k \<Longrightarrow> j \<le> floor_boundary s k"
  by (induction k) (auto simp: le_Suc_eq)

lemma valid_utf8_floor: "valid_utf8 s \<Longrightarrow> k \<le> length s \<Longrightarrow> valid_utf8 (take (floor_boundary s k) s)"
  using valid_utf8_take [OF _ floor_boundary_is_boundary] floor_boundary_le [of s k] by auto

lemma bounded_text_length: "length (bounded_text raw max_bytes suffix force) \<le> max_bytes"
  using floor_boundary_le [of suffix max_bytes]
    floor_boundary_le [of raw "min (max_bytes - length suffix) (length raw)"]
  by (auto simp: bounded_text_def)

lemma bounded_text_valid:
  "valid_utf8 raw \<Longrightarrow> valid_utf8 suffix \<Longrightarrow> valid_utf8 (bounded_text raw max_bytes suffix force)"
  by (auto simp: bounded_text_def intro!: valid_utf8_append valid_utf8_floor)

text \<open>
  A bounded text has at most the number of bytes asked for, is still well formed, and is the
  text itself when it fits and no suffix is forced; otherwise, when there is room for the
  suffix, it is the longest start of the text that ends at a character boundary and leaves
  room for the suffix, and the suffix.
\<close>

theorem bounded_text_correct:
  "length (bounded_text raw max_bytes suffix force) \<le> max_bytes \<and>
   (valid_utf8 raw \<and> valid_utf8 suffix \<longrightarrow> valid_utf8 (bounded_text raw max_bytes suffix force)) \<and>
   (length raw \<le> max_bytes \<and> \<not> force \<longrightarrow> bounded_text raw max_bytes suffix force = raw) \<and>
   ((max_bytes < length raw \<or> force) \<and> length suffix < max_bytes \<longrightarrow>
      (\<exists>k. bounded_text raw max_bytes suffix force = take k raw @ suffix \<and> is_char_boundary raw k \<and>
         k + length suffix \<le> max_bytes \<and> k \<le> length raw \<and>
         (\<forall>j. is_char_boundary raw j \<and> j \<le> length raw \<and> j + length suffix \<le> max_bytes \<longrightarrow> j \<le> k)))"
proof (intro conjI impI)
  let ?b = "bounded_text raw max_bytes suffix force"
  let ?r = "min (max_bytes - length suffix) (length raw)"
  show "length ?b \<le> max_bytes"
    by (rule bounded_text_length)
  show "valid_utf8 ?b" if "valid_utf8 raw \<and> valid_utf8 suffix"
    using that bounded_text_valid by blast
  show "?b = raw" if "length raw \<le> max_bytes \<and> \<not> force"
    using that by (simp add: bounded_text_def)
  assume a: "(max_bytes < length raw \<or> force) \<and> length suffix < max_bytes"
  show "\<exists>k. ?b = take k raw @ suffix \<and> is_char_boundary raw k \<and>
         k + length suffix \<le> max_bytes \<and> k \<le> length raw \<and>
         (\<forall>j. is_char_boundary raw j \<and> j \<le> length raw \<and> j + length suffix \<le> max_bytes \<longrightarrow> j \<le> k)"
    using a floor_boundary_le [of raw ?r] floor_boundary_is_boundary [of raw ?r]
      floor_boundary_greatest [of raw _ ?r]
    by (intro exI [of _ "floor_boundary raw ?r"]) (auto simp: bounded_text_def)
qed

section \<open>Reading lines\<close>

text \<open>
  What one line of a stream should give, whatever buffers it arrives in: \<open>None\<close> at the end of
  the stream, else the bytes before the line feed without a carriage return before it, decoded
  and bounded; the stream goes on after the line feed.
\<close>

definition child_line :: "str \<Rightarrow> str option" where
  "child_line s =
     (let line = takeWhile (\<lambda>c. c \<noteq> CHR 0x0A) s;
          body = (if CHR 0x0A \<in> set s \<and> line \<noteq> [] \<and> last line = CHR 0x0D then butlast line else line)
      in if s = [] then None
         else if length line > MAX_CHILD_LINE_BYTES
           then Some (bounded_text (from_utf8_lossy (take MAX_CHILD_LINE_BYTES line))
                        MAX_CHILD_LINE_BYTES TRUNCATED_LINE_SUFFIX True)
         else Some (bounded_text (from_utf8_lossy body) MAX_CHILD_LINE_BYTES TRUNCATED_LINE_SUFFIX False))"

definition after_line :: "str \<Rightarrow> str" where
  "after_line s = drop 1 (dropWhile (\<lambda>c. c \<noteq> CHR 0x0A) s)"

fun stream_of :: "reader \<Rightarrow> str" where
  "stream_of [] = []"
| "stream_of (Inl e # reader) = stream_of reader"
| "stream_of (Inr b # reader) = b @ stream_of reader"

definition healthy :: "reader \<Rightarrow> bool" where
  "healthy reader \<longleftrightarrow> list_all (\<lambda>c. case c of Inl _ \<Rightarrow> False | Inr b \<Rightarrow> b \<noteq> []) reader"

lemma healthy_simps [simp]:
  "healthy []" "healthy (Inl e # reader) = False"
  "healthy (Inr b # reader) \<longleftrightarrow> b \<noteq> [] \<and> healthy reader"
  by (simp_all add: healthy_def)

lemma read_chunks_exact:
  assumes "healthy reader" "length captured \<le> MAX_CHILD_LINE_BYTES"
  shows "\<exists>reader'. read_chunks reader captured saw truncated =
      Inr (captured @ take (MAX_CHILD_LINE_BYTES - length captured)
             (takeWhile (\<lambda>c. c \<noteq> CHR 0x0A) (stream_of reader)),
           saw \<or> stream_of reader \<noteq> [],
           truncated \<or> MAX_CHILD_LINE_BYTES <
             length captured + length (takeWhile (\<lambda>c. c \<noteq> CHR 0x0A) (stream_of reader)),
           CHR 0x0A \<in> set (stream_of reader), reader') \<and>
    healthy reader' \<and> stream_of reader' = after_line (stream_of reader)"
  using assms
proof (induction reader captured saw truncated rule: read_chunks.induct)
  case (3 available reader captured saw truncated)
  let ?content = "takeWhile (\<lambda>c. c \<noteq> CHR 0x0A) available"
  show ?case
  proof (cases "CHR 0x0A \<in> set available")
    case True
    then obtain c left where a: "available = c @ CHR 0x0A # left" and c: "CHR 0x0A \<notin> set c"
      by (meson split_list_first)
    then have tw: "takeWhile (\<lambda>c. c \<noteq> CHR 0x0A) (available @ x) = c"
      and dw: "dropWhile (\<lambda>c. c \<noteq> CHR 0x0A) (available @ x) = CHR 0x0A # left @ x" for x
      using c by (auto simp: a takeWhile_append dropWhile_append)
    from tw [of "[]"] have content: "?content = c" by simp
    show ?thesis using 3(2,3) tw dw content
      by (auto simp: Let_def after_line_def a min_def)
  next
    case False
    then have c: "?content = available" by (auto simp: takeWhile_eq_all_conv)
    let ?retained = "min (length available) (MAX_CHILD_LINE_BYTES - length captured)"
    have tw: "takeWhile (\<lambda>c. c \<noteq> CHR 0x0A) (available @ x) = available @ takeWhile (\<lambda>c. c \<noteq> CHR 0x0A) x"
      and al: "after_line (available @ x) = after_line x" for x
      using False by (auto simp: takeWhile_append after_line_def dropWhile_append)
    have bound: "length (captured @ take ?retained available) \<le> MAX_CHILD_LINE_BYTES" using 3(3) by simp
    have taken: "captured @ take (MAX_CHILD_LINE_BYTES - length captured) (available @ x) =
        (captured @ take ?retained available) @
        take (MAX_CHILD_LINE_BYTES - length (captured @ take ?retained available)) x" for x
      using 3(3) by (cases "length available \<le> MAX_CHILD_LINE_BYTES - length captured") (simp_all add: min_def)
    have flag: "truncated \<or> ?retained < length available \<or>
         MAX_CHILD_LINE_BYTES < length captured + (?retained + k) \<longleftrightarrow>
       truncated \<or> MAX_CHILD_LINE_BYTES < length captured + (length available + k)" for k
      using 3(3) by auto
    have "available \<noteq> []" "healthy reader" using 3(2) by simp_all
    with 3(1) [OF this(1) refl refl refl refl refl] False bound show ?thesis
      by (simp only: read_chunks.simps Let_def c stream_of.simps tw al taken length_append
          if_False set_append Un_iff healthy_simps) (simp add: add.assoc flag)
  qed
qed (auto simp: after_line_def)

text \<open>
  C40: Reading a line does not depend on how the pipe cuts the output into buffers, never keeps
  more than the bound, and leaves the stream at the start of the next line.
\<close>

theorem child_line_exact:
  assumes "healthy reader"
  shows "\<exists>reader'. read_bounded_child_line reader = Inr (child_line (stream_of reader), reader') \<and>
    healthy reader' \<and> stream_of reader' = after_line (stream_of reader) \<and>
    (\<forall>line. child_line (stream_of reader) = Some line \<longrightarrow>
       length line \<le> MAX_CHILD_LINE_BYTES \<and> valid_utf8 line)"
proof -
  let ?s = "stream_of reader" and ?M = MAX_CHILD_LINE_BYTES
  let ?line = "takeWhile (\<lambda>c. c \<noteq> CHR 0x0A) ?s"
  obtain reader' where r: "read_chunks reader [] False False =
      Inr (take ?M ?line, ?s \<noteq> [], ?M < length ?line, CHR 0x0A \<in> set ?s, reader')"
    and h: "healthy reader'" and next_line: "stream_of reader' = after_line ?s"
    using read_chunks_exact [of reader "[]" False False] assms by auto
  have exact: "read_bounded_child_line reader = Inr (child_line ?s, reader')"
  proof (cases "?M < length ?line")
    case True
    then show ?thesis by (simp add: read_bounded_child_line_def r child_line_def Let_def)
  next
    case False
    then show ?thesis
      by (simp add: read_bounded_child_line_def r child_line_def Let_def bounded_text_def)
  qed
  moreover have "length line \<le> ?M \<and> valid_utf8 line" if "child_line ?s = Some line" for line
  proof -
    from that obtain raw force where "line = bounded_text (from_utf8_lossy raw) ?M TRUNCATED_LINE_SUFFIX force"
      by (auto simp: child_line_def Let_def split: if_splits)
    moreover have "valid_utf8 TRUNCATED_LINE_SUFFIX" by code_simp
    ultimately show ?thesis
      using bounded_text_length bounded_text_valid from_utf8_lossy_valid by simp
  qed
  ultimately show ?thesis using h next_line by blast
qed

definition demo_reader :: reader where
  "demo_reader = [Inr ''height'', Inr ('' 7'' @ [CHR 0x0D, CHR 0x0A] @ ''next'')]"

lemma child_line_exact_witness:
  "healthy demo_reader \<and>
   (\<exists>reader'. read_bounded_child_line demo_reader = Inr (Some ''height 7'', reader') \<and>
      stream_of reader' = ''next'')"
proof -
  have h: "healthy demo_reader" by (simp add: demo_reader_def)
  moreover have "child_line (stream_of demo_reader) = Some ''height 7''"
    "after_line (stream_of demo_reader) = ''next''" by code_simp+
  ultimately show ?thesis using child_line_exact [OF h] by auto
qed

section \<open>What redaction removes\<close>

lemma contains_str_iff: "contains_str s p \<longleftrightarrow> (\<exists>a b. s = a @ p @ b)"
proof (induction s p rule: contains_str.induct)
  case (2 x s p)
  have "(\<exists>a b. x # s = a @ p @ b) \<longleftrightarrow> (\<exists>b. x # s = p @ b) \<or> (\<exists>a b. s = a @ p @ b)"
    by (metis append_Cons append_Nil list.sel(3) neq_Nil_conv)
  then show ?case using 2 by (simp add: starts_with_iff)
qed auto

lemma replace_str_cases:
  "p \<noteq> [] \<Longrightarrow> starts_with s p \<Longrightarrow> replace_str p r s = r @ replace_str p r (drop (length p) s)"
  "p \<noteq> [] \<Longrightarrow> s \<noteq> [] \<Longrightarrow> \<not> starts_with s p \<Longrightarrow> replace_str p r s = hd s # replace_str p r (tl s)"
  "replace_str p r [] = []"
  by (subst replace_str.simps; auto simp: starts_with_def replace_str.simps; fail)+

lemma starts_with_replace:
  assumes "starts_with (replace_str p r t) q" "hd r \<notin> set q" "r \<noteq> []" "p \<noteq> []"
  shows "starts_with t q"
  using assms(1,2)
proof (induction q arbitrary: t)
  case (Cons c q)
  show ?case
  proof (cases "t = [] \<or> starts_with t p")
    case True
    then show ?thesis using Cons.prems assms(3,4)
      by (cases r) (auto simp: replace_str_cases starts_with_iff)
  next
    case False
    then have "hd t = c" "starts_with (replace_str p r (tl t)) q"
      using Cons.prems assms(4) by (auto simp: replace_str_cases starts_with_iff)
    moreover have "starts_with (tl t) q" using Cons.IH calculation(2) Cons.prems(2) by simp
    ultimately show ?thesis using False by (cases t) (auto simp: starts_with_iff)
  qed
qed (simp add: starts_with_def)

lemma replace_str_removes:
  assumes p: "p \<noteq> []" "hd r \<notin> set p" "last r \<notin> set p" "r \<noteq> []" "\<not> contains_str r p"
  shows "\<not> contains_str (replace_str p r s) p"
proof (induction "length s" arbitrary: s rule: less_induct)
  case less
  show ?case
  proof
    assume "contains_str (replace_str p r s) p"
    then obtain a b where ab: "replace_str p r s = a @ p @ b" by (auto simp: contains_str_iff)
    consider (empty) "s = []" | (match) "s \<noteq> []" "starts_with s p" | (skip) "s \<noteq> []" "\<not> starts_with s p" by blast
    then show False
    proof cases
      case empty
      then show ?thesis using ab p(1) by (simp add: replace_str_cases)
    next
      case match
      let ?t = "drop (length p) s"
      have out: "r @ replace_str p r ?t = a @ p @ b"
        using ab match p(1) by (simp add: replace_str_cases)
      have tail: "\<not> contains_str (replace_str p r ?t) p" using less [of ?t] match(1) p(1) by simp
      from out obtain u where u: "r = a @ u \<and> u @ replace_str p r ?t = p @ b \<or>
          r @ u = a \<and> replace_str p r ?t = u @ p @ b"
        unfolding append_eq_append_conv2 by blast
      then consider (in_tail) v where "replace_str p r ?t = v @ p @ b"
        | (over) "r = a @ u" "u @ replace_str p r ?t = p @ b" "u \<noteq> []"
      proof (cases "u = []")
        case True
        then have "replace_str p r ?t = [] @ p @ b" using u by auto
        then show thesis using that(1) by blast
      qed (use u that in blast)
      then show ?thesis
      proof cases
        case in_tail
        then show ?thesis using tail contains_str_iff by blast
      next
        case over
        from over(2) consider (inside) v where "u = p @ v" | (across) v where "p = u @ v"
          by (auto simp: append_eq_append_conv2)
        then show ?thesis
        proof cases
          case inside
          then show ?thesis using over(1) p(5) contains_str_iff by metis
        next
          case across
          then show ?thesis using over(1,3) p(3) by (metis UnI1 last_appendR last_in_set set_append)
        qed
      qed
    next
      case skip
      have out: "hd s # replace_str p r (tl s) = a @ p @ b"
        using ab skip p(1) by (simp add: replace_str_cases)
      show ?thesis
      proof (cases a)
        case Nil
        then have "starts_with (hd s # replace_str p r (tl s)) p" using out by (auto simp: starts_with_iff)
        then obtain q where "p = hd s # q" "starts_with (replace_str p r (tl s)) q"
          using p(1) by (cases p) (auto simp: starts_with_iff)
        moreover have "starts_with (tl s) q"
          using starts_with_replace calculation p by (metis list.set_intros(2))
        ultimately have "starts_with s p" using skip(1) by (cases s) (auto simp: starts_with_iff)
        then show ?thesis using skip by simp
      next
        case (Cons c a')
        then have "replace_str p r (tl s) = a' @ p @ b" using out by simp
        then show ?thesis using less [of "tl s"] skip(1) contains_str_iff by (metis length_tl diff_less length_greater_0_conv less_one)
      qed
    qed
  qed
qed

text \<open>Texts around a character the pattern does not have.\<close>

lemma contains_glue:
  assumes "contains_str (x @ c # y) p" "c \<notin> set p" "p \<noteq> []"
  shows "contains_str x p \<or> contains_str y p"
proof -
  obtain a b where ab: "x @ c # y = a @ p @ b" using assms(1) by (auto simp: contains_str_iff)
  show ?thesis
  proof (cases "length a + length p \<le> length x")
    case True
    then have "x = a @ p @ take (length x - length (a @ p)) b"
      using arg_cong [OF ab, of "take (length x)"] by simp
    then show ?thesis using contains_str_iff by metis
  next
    case False
    have "length x < length a"
    proof (rule ccontr)
      assume "\<not> length x < length a"
      then have "(a @ p @ b) ! length x = p ! (length x - length a)" "length x - length a < length p"
        using False by (auto simp: nth_append)
      then have "c \<in> set p" using ab by (metis nth_append_length nth_mem)
      then show False using assms(2) by simp
    qed
    then have "y = drop (length x + 1) a @ p @ b"
      using arg_cong [OF ab, of "drop (length x + 1)"] by simp
    then show ?thesis using contains_str_iff by metis
  qed
qed

lemma replace_str_snoc: "c \<notin> set p \<Longrightarrow> p \<noteq> [] \<Longrightarrow> replace_str p r (s @ [c]) = replace_str p r s @ [c]"
proof (induction "length s" arbitrary: s rule: less_induct)
  case less
  consider "s = []" | "s \<noteq> []" "starts_with s p" | "s \<noteq> []" "\<not> starts_with s p" by blast
  then show ?case
  proof cases
    case 1
    have "\<not> starts_with [c] p" using less.prems by (auto simp: starts_with_iff Cons_eq_append_conv)
    then show ?thesis using 1 less.prems by (simp add: replace_str_cases)
  next
    case 2
    then have "starts_with (s @ [c]) p" by (auto simp: starts_with_iff)
    moreover have "drop (length p) (s @ [c]) = drop (length p) s @ [c]"
      using 2 by (auto simp: starts_with_iff)
    ultimately show ?thesis using 2 less by (simp add: replace_str_cases)
  next
    case 3
    have "\<not> starts_with (s @ [c]) p"
    proof
      assume "starts_with (s @ [c]) p"
      then obtain t where t: "s @ [c] = p @ t" by (auto simp: starts_with_iff)
      then have "t \<noteq> []" using less.prems by (metis append_Nil2 in_set_conv_decomp)
      then have "s = p @ butlast t" using t by (metis butlast_append butlast_snoc)
      then show False using 3 by (auto simp: starts_with_iff)
    qed
    then show ?thesis using 3 less by (simp add: replace_str_cases)
  qed
qed

lemma contains_nothing: "p \<noteq> [] \<Longrightarrow> \<not> contains_str [] p"
  by (auto simp: contains_str_iff)

lemma contains_append: "contains_str s p \<or> contains_str t p \<Longrightarrow> contains_str (s @ t) p"
  unfolding contains_str_iff by (metis append.assoc)

lemma contains_take: "contains_str (take k s) p \<Longrightarrow> contains_str s p"
  by (metis append.assoc append_take_drop_id contains_str_iff)

text \<open>
  A secret of more than two characters that contains neither bracket and is not part of the
  replacement text is gone from a redacted text.
\<close>

theorem redact_secret_removes:
  assumes "2 < char_count secret" "CHR ''['' \<notin> set secret" "CHR '']'' \<notin> set secret"
    and "\<not> contains_str REDACTED secret"
  shows "\<not> contains_str (redact_secret alnum raw secret) secret"
proof -
  have "secret \<noteq> []" using assms(1) by (auto simp: char_count_def)
  then have "\<not> contains_str (replace_str secret REDACTED raw) secret"
    using assms by (intro replace_str_removes) (simp_all add: REDACTED_def)
  then show ?thesis using assms \<open>secret \<noteq> []\<close> by (simp add: redact_secret_def Let_def)
qed

lemma redact_secret_removes_witness:
  "\<not> contains_str (redact_secret (\<lambda>_. False) ''auth hunter2 failed'' ''hunter2'') ''hunter2''"
  by (rule redact_secret_removes) code_simp+

text \<open>
  Without those conditions it can stay. A secret that is part of the replacement text is cut
  out with nothing in its place, and what was around it can close up to the secret again; a
  secret that starts with a bracket can run from a replacement into the text after it.
\<close>

theorem redaction_can_restore_the_secret:
  "redact_secret alnum ''password AACTCT rejected'' ''ACT'' = ''password ACT rejected'' \<and>
   contains_str (redact_secret alnum '']x]xx]x'' '']x]x'') '']x]x''"
  by code_simp

end
