(* ===== verification/Recovery.thy ===== *)
theory Recovery
  imports GuiText
begin

text \<open>
  What the supervising interface (\<open>src/gui.rs\<close>) makes of the end of its engine process: the
  description of an exit status, whether it is the stop that was asked for, how the next start
  is made safer, how long to wait for it, and the cleanup of a process (\<open>terminate_and_reap_child\<close>).
  The alternatives of conditional compilation are chosen by the target's family.
\<close>

section \<open>Exit statuses\<close>

datatype os_family = Windows | Unix | OtherFamily

text \<open>
  \<open>std::process::ExitStatus\<close>: the 32 bits of the exit code, the signal, and the text that its
  \<open>Display\<close> gives.
\<close>

record exit_status =
  exit_code :: "u32 option"
  exit_signal :: "nat option"
  exit_text :: str

definition windows_ntstatus_description :: "u32 \<Rightarrow> str option" where
  "windows_ntstatus_description code =
     (if code = 0xC0000005 then Some ''access violation (native memory fault)''
      else if code = 0xC0000017 then Some ''not enough virtual memory''
      else if code = 0xC000001D then Some ''illegal CPU instruction''
      else if code = 0xC000009A then Some ''insufficient system resources''
      else if code = 0xC00000FD then Some ''stack overflow''
      else if code = 0xC000012C then Some ''pagefile quota exceeded''
      else if code = 0xC000012D then Some ''system commitment limit reached''
      else if code = 0xC0000135 then Some ''required DLL was not found''
      else if code = 0xC0000374 then Some ''heap corruption''
      else if code = 0xC0000409 then Some ''fail-fast termination or stack buffer overrun''
      else None)"

text \<open>An exit code as the signed number it is (\<open>i32\<close>), and as \<open>{:08X}\<close>.\<close>

definition show_i32 :: "u32 \<Rightarrow> str" where
  "show_i32 code =
     (let n = sint code in (if n < 0 then ''-'' else []) @ decimal (nat \<bar>n\<bar>))"

definition upper_hex_char :: "nat \<Rightarrow> char" where
  "upper_hex_char d = char_of (if d < 10 then 48 + d else 55 + d)"

definition hex08 :: "u32 \<Rightarrow> str" where
  "hex08 code = List.map (\<lambda>i. upper_hex_char (unat code div 16 ^ i mod 16)) [7, 6, 5, 4, 3, 2, 1, 0]"

definition describe_exit_status :: "os_family \<Rightarrow> exit_status \<Rightarrow> str" where
  "describe_exit_status family status =
     (case family of
        Windows \<Rightarrow>
          (case exit_code status of
             Some code \<Rightarrow>
               (case windows_ntstatus_description code of
                  None \<Rightarrow> ''Windows exit code '' @ show_i32 code @ '' (0x'' @ hex08 code @ '')''
                | Some meaning \<Rightarrow> ''Windows exception 0x'' @ hex08 code @ '': '' @ meaning)
           | None \<Rightarrow> ''Windows terminated the engine without an exit code'')
      | Unix \<Rightarrow>
          (case exit_signal status of
             Some signal \<Rightarrow> ''signal '' @ decimal signal
           | None \<Rightarrow>
               (case exit_code status of
                  None \<Rightarrow> exit_text status
                | Some code \<Rightarrow> ''exit code '' @ show_i32 code))
      | OtherFamily \<Rightarrow>
          (case exit_code status of
             None \<Rightarrow> exit_text status
           | Some code \<Rightarrow> ''exit code '' @ show_i32 code))"

definition exit_status_matches_requested_stop :: "os_family \<Rightarrow> exit_status \<Rightarrow> bool" where
  "exit_status_matches_requested_stop family status =
     (case family of
        Windows \<Rightarrow> exit_code status = Some 1
      | Unix \<Rightarrow> exit_signal status = Some 9
      | OtherFamily \<Rightarrow> False)"

section \<open>The next start\<close>

definition ENGINE_RESTART_BASE_SECS :: u64 where "ENGINE_RESTART_BASE_SECS = 2"
definition ENGINE_RESTART_MAX_SECS :: u64 where "ENGINE_RESTART_MAX_SECS = 60"
definition MAX_AUTOMATIC_ENGINE_RESTARTS :: u32 where "MAX_AUTOMATIC_ENGINE_RESTARTS = 5"

text \<open>In seconds.\<close>

definition automatic_restart_delay :: "u32 \<Rightarrow> u64" where
  "automatic_restart_delay attempt =
     (let shift = min (saturating_sub attempt 1) 5
      in min (saturating_mul ENGINE_RESTART_BASE_SECS (push_bit (unat shift) 1)) ENGINE_RESTART_MAX_SECS)"

definition exit_status_is_native_execution_failure :: "exit_status \<Rightarrow> bool" where
  "exit_status_is_native_execution_failure status \<longleftrightarrow>
     (case exit_code status of None \<Rightarrow> False
      | Some code \<Rightarrow> code \<in> {0xC0000005, 0xC000001D, 0xC0000374, 0xC0000409})"

definition exit_status_requires_light_randomx :: "exit_status \<Rightarrow> bool" where
  "exit_status_requires_light_randomx status \<longleftrightarrow>
     (case exit_code status of None \<Rightarrow> False
      | Some code \<Rightarrow> code \<in> {0xC0000017, 0xC000009A, 0xC000012C, 0xC000012D})"

datatype recovery_escalation_kind = Keep | Light | Terminal

definition recovery_escalation :: "os_family \<Rightarrow> exit_status \<Rightarrow> bool \<Rightarrow> u32 \<Rightarrow> recovery_escalation_kind" where
  "recovery_escalation family status light prior_attempts =
     (if family \<noteq> Windows then Keep
      else if exit_code status = Some 0xC0000135 then Terminal
      else if light then Keep
      else if exit_status_requires_light_randomx status \<or>
              exit_status_is_native_execution_failure status \<or> prior_attempts \<ge> 1 then Light
      else Keep)"

section \<open>Cleanup of a process\<close>

text \<open>What the operating system answers when a child is killed, waited for and observed.\<close>

record child_answers =
  kill_answer :: "str + unit"
  wait_answer :: "str + exit_status"
  try_wait_answer :: "str + exit_status option"

definition terminate_and_reap_child :: "child_answers \<Rightarrow> str + exit_status" where
  "terminate_and_reap_child a =
     (case kill_answer a of
        Inr _ \<Rightarrow> map_err (\<lambda>e. ''termination succeeded but reaping failed: '' @ e) (wait_answer a)
      | Inl kill_error \<Rightarrow>
          (case try_wait_answer a of
             Inr (Some status) \<Rightarrow> Inr status
           | Inr None \<Rightarrow> Inl (''termination failed: '' @ kill_error @
               ''; child still appears live, so blocking reap was skipped'')
           | Inl observe_error \<Rightarrow> Inl (''termination failed: '' @ kill_error @
               ''; exit could not be verified: '' @ observe_error @ ''; blocking reap was skipped'')))"

section \<open>Properties\<close>

text \<open>The waits between restarts: they double from two seconds and stop at a minute.\<close>

theorem automatic_restart_delay_backoff:
  "unat (automatic_restart_delay attempt) = min (2 * 2 ^ min (unat attempt - 1) 5) 60"
proof -
  define k where "k = min (saturating_sub attempt 1) (5 :: u32)"
  have k: "unat k = min (unat attempt - 1) 5"
    unfolding k_def by (simp add: min_def word_le_nat_alt u64_ops)
  then have "unat k \<in> {0, 1, 2, 3, 4, 5}" by (simp only: insert_iff empty_iff) arith
  then have "unat (min (saturating_mul 2 (push_bit (unat k) (1 :: u64))) 60) = min (2 * 2 ^ unat k) 60"
    by (elim insertE) (simp_all add: saturating_mul_def)
  then show ?thesis
    by (simp add: automatic_restart_delay_def Let_def ENGINE_RESTART_BASE_SECS_def
        ENGINE_RESTART_MAX_SECS_def k_def [symmetric] k)
qed

end
