(* ===== verification/Calendar.thy ===== *)
theory Calendar
  imports Main "HOL-Library.Signed_Division"
begin

text \<open>
  The day-number conversion of \<open>src/diag.rs\<close> (\<open>civil_from_days\<close>) and the proof that it is
  the civil calendar. Years are counted from March within eras of 400 years, as the code
  does; months and years are split by the start day of each.
\<close>

section \<open>Calendar\<close>

text \<open>
  The computation is on \<open>i64\<close>; day numbers come from \<open>i64\<close> seconds divided by 86,400, so no
  operation overflows. \<open>sdiv\<close> is Rust's division, which truncates.
\<close>

definition civil_from_days :: "int \<Rightarrow> int \<times> int \<times> int" where
  "civil_from_days days =
     (let z = days + 719468;
          era = (if z \<ge> 0 then z else z - 146096) sdiv 146097;
          doe = z - era * 146097;
          yoe = (doe - doe sdiv 1460 + doe sdiv 36524 - doe sdiv 146096) sdiv 365;
          year = yoe + era * 400;
          doy = doe - (365 * yoe + yoe sdiv 4 - yoe sdiv 100);
          mp = (5 * doy + 2) sdiv 153;
          day = doy - (153 * mp + 2) sdiv 5 + 1;
          month = (if mp < 10 then mp + 3 else mp - 9)
      in (if month \<le> 2 then year + 1 else year, month, day))"

text \<open>The civil calendar, stated independently: the day after a date.\<close>

definition leap_year :: "int \<Rightarrow> bool" where
  "leap_year y \<longleftrightarrow> y mod 4 = 0 \<and> (y mod 100 \<noteq> 0 \<or> y mod 400 = 0)"

definition month_length :: "int \<Rightarrow> int \<Rightarrow> int" where
  "month_length y m =
     (if m = 2 then (if leap_year y then 29 else 28)
      else if m \<in> {4, 6, 9, 11} then 30 else 31)"

definition next_day :: "int \<times> int \<times> int \<Rightarrow> int \<times> int \<times> int" where
  "next_day = (\<lambda>(y, m, d).
     if d < month_length y m then (y, m, d + 1)
     else if m < 12 then (y, m + 1, 1)
     else (y + 1, 1, 1))"

section \<open>Division\<close>

lemma div_bounds:
  fixes a n :: int
  assumes "0 < n"
  shows "n * (a div n) \<le> a" "a < n * (a div n) + n"
  using assms mult_div_mod_eq [of n a] pos_mod_bound [of n a] pos_mod_sign [of n a] by linarith+

lemma div_eqI:
  fixes a n q :: int
  assumes "n * q \<le> a" "a < n * q + n"
  shows "a div n = q"
  using assms by (intro int_div_pos_eq [of _ _ _ "a - n * q"]) simp_all

section \<open>Months, counted from March\<close>

definition month_start :: "int \<Rightarrow> int" where
  "month_start mp = (153 * mp + 2) div 5"

definition month_index :: "int \<Rightarrow> int" where
  "month_index r = (5 * r + 2) div 153"

definition month_day :: "int \<Rightarrow> int \<times> int" where
  "month_day r = (let mp = month_index r
     in (if mp < 10 then mp + 3 else mp - 9, r - month_start mp + 1))"

lemma month_start_bounds: "5 * month_start k \<le> 153 * k + 2" "153 * k + 2 < 5 * month_start k + 5"
  unfolding month_start_def by (intro div_bounds zero_less_numeral)+

lemma month_start_Suc_bounds:
  "5 * month_start (k + 1) \<le> 153 * k + 155" "153 * k + 155 < 5 * month_start (k + 1) + 5"
  using month_start_bounds [of "k + 1"] by simp_all

lemma month_index_bounds: "153 * month_index r \<le> 5 * r + 2" "5 * r + 2 < 153 * month_index r + 153"
  unfolding month_index_def by (intro div_bounds zero_less_numeral)+

lemma month_indexI: "month_start k \<le> r \<Longrightarrow> r < month_start (k + 1) \<Longrightarrow> month_index r = k"
  unfolding month_index_def using month_start_bounds [of k] month_start_Suc_bounds [of k]
  by (intro div_eqI) linarith+

lemma month_range: "month_start (month_index r) \<le> r" "r < month_start (month_index r + 1)"
  using month_index_bounds [of r] month_start_bounds [of "month_index r"]
    month_start_Suc_bounds [of "month_index r"] by linarith+

lemma month_index_step:
  "month_index (r + 1) =
     (if r + 1 < month_start (month_index r + 1) then month_index r else month_index r + 1)"
  using month_range [of r] month_indexI [of "month_index r" "r + 1"]
    month_indexI [of "month_index r + 1" "r + 1"] month_start_bounds [of "month_index r + 1"]
    month_start_Suc_bounds [of "month_index r + 1"]
  by (cases "r + 1 < month_start (month_index r + 1)") simp_all

lemma twelve_months: "0 \<le> k \<Longrightarrow> k \<le> 11 \<Longrightarrow> k \<in> {0, 1, 2, 3, 4, 5, 6, 7, 8, 9, 10, 11 :: int}"
  by (simp only: insert_iff empty_iff) arith

lemma month_day_step:
  assumes "0 \<le> r" "r < 364"
  shows "month_day (r + 1) = (case month_day r of (m, d) \<Rightarrow>
     if m = 2 \<or> d < month_length 1 m then (m, d + 1)
     else if m < 12 then (m + 1, 1) else (1, 1))"
proof -
  have "month_index r \<in> {0, 1, 2, 3, 4, 5, 6, 7, 8, 9, 10, 11}"
    using assms month_index_bounds [of r] by (intro twelve_months) linarith+
  then show ?thesis using month_range [of r] assms(2)
    by (elim insertE) (auto simp: month_day_def Let_def month_index_step month_length_def month_start_def)
qed

subsection \<open>Years\<close>

definition year_start :: "int \<Rightarrow> int" where
  "year_start y = 365 * y + y div 4 - y div 100"

definition march_year_length :: "int \<Rightarrow> int" where
  "march_year_length y = (if leap_year (y + 1) then 366 else 365)"

definition year_of_era :: "int \<Rightarrow> int" where
  "year_of_era d = (d - d div 1460 + d div 36524 - d div 146096) div 365"

lemma year_split:
  assumes "0 \<le> y" "y < (400::int)"
  obtains c a b where "y = 100 * c + 4 * a + b" "0 \<le> c" "c \<le> 3" "0 \<le> a" "a \<le> 24" "0 \<le> b" "b \<le> 3"
    "y div 4 = 25 * c + a" "y div 100 = c"
proof -
  obtain c r where y: "y = 100 * c + r" "0 \<le> r" "r < 100"
    using that by (metis mult_div_mod_eq pos_mod_bound pos_mod_sign zero_less_numeral)
  obtain a b where r: "r = 4 * a + b" "0 \<le> b" "b < 4"
    using that by (metis mult_div_mod_eq pos_mod_bound pos_mod_sign zero_less_numeral)
  show ?thesis
  proof (rule that)
    show "y = 100 * c + 4 * a + b" "0 \<le> c" "c \<le> 3" "0 \<le> a" "a \<le> 24" "0 \<le> b" "b \<le> 3"
      using y r assms by linarith+
    show "y div 4 = 25 * c + a" using y r by (intro div_eqI) auto
    show "y div 100 = c" using y r by (intro div_eqI) auto
  qed
qed

lemma div_step:
  fixes y n :: int
  assumes "0 < n"
  shows "(y + 1) div n = y div n + (if (y + 1) mod n = 0 then 1 else 0)"
proof (cases "(y + 1) mod n = 0")
  case True
  then have "n * ((y + 1) div n) = y + 1" using mult_div_mod_eq [of n "y + 1"] by simp
  then have "y div n = (y + 1) div n - 1"
    using assms by (intro div_eqI) (simp_all add: right_diff_distrib)
  with True show ?thesis by simp
next
  case False
  then have "0 < (y + 1) mod n" using assms pos_mod_sign [of n "y + 1"] by linarith
  then have "y div n = (y + 1) div n"
    using assms mult_div_mod_eq [of n "y + 1"] pos_mod_bound [of n "y + 1"]
    by (intro div_eqI) linarith+
  with False show ?thesis by simp
qed

lemma year_start_step:
  assumes "0 \<le> y" "y < 399"
  shows "year_start (y + 1) = year_start y + march_year_length y"
proof -
  have "(y + 1) mod 400 \<noteq> 0" using assms by simp
  then have l: "leap_year (y + 1) \<longleftrightarrow> (y + 1) mod 4 = 0 \<and> (y + 1) mod 100 \<noteq> 0"
    by (simp add: leap_year_def)
  have q: "(y + 1) div 4 = y div 4 + (if (y + 1) mod 4 = 0 then 1 else 0)" by (rule div_step) simp
  have h: "(y + 1) div 100 = y div 100 + (if (y + 1) mod 100 = 0 then 1 else 0)" by (rule div_step) simp
  have d: "(y + 1) mod 100 = 0 \<Longrightarrow> (y + 1) mod 4 = 0"
    using dvd_trans [of 4 "100 :: int" "y + 1"] by (simp add: dvd_eq_mod_eq_0)
  show ?thesis using d unfolding year_start_def march_year_length_def l q h
    by (auto split: if_splits)
qed

lemma year_of_era_correct:
  assumes "0 \<le> y" "y < 400" "0 \<le> r" "r < march_year_length y"
  shows "year_of_era (year_start y + r) = y"
proof -
  obtain c a b where y: "y = 100 * c + 4 * a + b" "0 \<le> c" "c \<le> 3" "0 \<le> a" "a \<le> 24" "0 \<le> b" "b \<le> 3"
    "y div 4 = 25 * c + a" "y div 100 = c"
    using year_split [OF assms(1,2)] by blast
  define d where "d = year_start y + r"
  have d: "d = 36524 * c + 1461 * a + 365 * b + r"
    using y by (simp add: d_def year_start_def)
  have r: "r \<le> 365" "r = 365 \<Longrightarrow> b = 3 \<and> (a = 24 \<longrightarrow> c = 3)"
  proof -
    show "r \<le> 365" using assms(4) by (simp add: march_year_length_def split: if_splits)
    assume "r = 365"
    then have "leap_year (y + 1)" using assms(4) by (simp add: march_year_length_def split: if_splits)
    moreover have "(y + 1) mod 4 = (b + 1) mod 4"
      using mod_mult_self2 [of "b + 1" 4 "25 * c + a"] unfolding y(1) by (simp add: algebra_simps)
    ultimately have "(b + 1) mod 4 = 0" by (simp add: leap_year_def)
    then have b: "b = 3" using y(6,7) by presburger
    moreover have "c = 3" if "a = 24"
    proof -
      have "c \<in> {0, 1, 2, 3}" using y(2,3) by (simp only: insert_iff empty_iff) arith
      then show ?thesis using \<open>leap_year (y + 1)\<close> unfolding y(1) that b
        by (elim insertE) (simp_all add: leap_year_def)
    qed
    ultimately show "b = 3 \<and> (a = 24 \<longrightarrow> c = 3)" by simp
  qed
  have r': "r < 365 \<or> b = 3" using r by linarith
  define e where "e = (if 1460 \<le> a + 365 * b + 24 * c + r then 1 else 0 :: int)"
  have d1: "d div 1460 = 25 * c + a + e"
    unfolding d e_def using y r assms(3) by (intro div_eqI) auto
  define f where "f = (if d = 146096 then 1 else 0 :: int)"
  have last: "1461 * a + 365 * b + r < 36524 \<or> c = 3 \<and> a = 24 \<and> b = 3 \<and> r = 365"
  proof (cases "r = 365")
    case True
    then show ?thesis using r(2) y(5) by (cases "a = 24") auto
  next
    case False
    then show ?thesis using r(1) y(5,7) by simp
  qed
  have d2: "d div 36524 = c + f"
    using y r(1) last assms(3) unfolding d f_def by (intro div_eqI; elim disjE) auto
  have d3: "d div 146096 = f"
    using y r(1) last assms(3) unfolding d f_def by (intro div_eqI; elim disjE) auto
  show ?thesis
    unfolding year_of_era_def d_def [symmetric] d1 d2 d3
    using y r(1) r' assms(3) unfolding d e_def by (intro div_eqI; elim disjE) auto
qed


lemma day_of_era:
  assumes "0 \<le> d" "d < 146097"
  shows "\<exists>y r. 0 \<le> y \<and> y < 400 \<and> 0 \<le> r \<and> r < march_year_length y \<and> d = year_start y + r"
  using assms
proof (induction d rule: int_ge_induct)
  case base
  then show ?case by (intro exI [of _ 0]) (simp add: march_year_length_def year_start_def leap_year_def)
next
  case (step d)
  then obtain y r where y: "0 \<le> y" "y < 400" "0 \<le> r" "r < march_year_length y" "d = year_start y + r"
    by auto
  show ?case
  proof (cases "r + 1 < march_year_length y")
    case True
    with y show ?thesis by (intro exI [of _ y] exI [of _ "r + 1"]) simp
  next
    case False
    have "y \<noteq> 399"
    proof
      assume "y = 399"
      with False y step(3) show False by (simp add: march_year_length_def leap_year_def year_start_def)
    qed
    with y(2) have "y < 399" by simp
    moreover have "0 < march_year_length (y + 1)" by (simp add: march_year_length_def)
    ultimately show ?thesis using y False year_start_step [of y]
      by (intro exI [of _ "y + 1"] exI [of _ 0]) simp
  qed
qed

lemma sdiv_div: "0 \<le> a \<Longrightarrow> a sdiv numeral k = a div (numeral k :: int)"
  by (cases "a = 0") (simp_all add: signed_divide_int_def)

lemma era_bounds:
  fixes era doe :: int
  assumes "0 \<le> doe" "doe < 146097"
  shows "(if era * 146097 + doe \<ge> 0 then era * 146097 + doe else era * 146097 + doe - 146096) sdiv 146097 = era"
proof (cases "era * 146097 + doe \<ge> 0")
  case True
  then have "(era * 146097 + doe) div 146097 = era" using assms by (intro div_eqI) linarith+
  with True show ?thesis by (simp add: sdiv_div)
next
  case False
  then have "era < 0" using assms by linarith
  have "(- (era * 146097 + doe - 146096)) div 146097 = - era" using assms by (intro div_eqI) linarith+
  then show ?thesis using False by (simp add: signed_divide_int_def sgn_if)
qed

lemma march_year_length_le: "march_year_length y \<le> 366"
  by (simp add: march_year_length_def)

lemma year_start_bounds:
  assumes "0 \<le> y" "y < 400"
  shows "0 \<le> year_start y" "year_start y \<le> 145731"
proof -
  obtain c a b where y: "y = 100 * c + 4 * a + b" "0 \<le> c" "c \<le> 3" "0 \<le> a" "a \<le> 24" "0 \<le> b" "b \<le> 3"
    "y div 4 = 25 * c + a" "y div 100 = c"
    using year_split [OF assms] by blast
  have "year_start y = 365 * y + (25 * c + a) - c" unfolding year_start_def using y(8,9) by simp
  also have "\<dots> = 36524 * c + 1461 * a + 365 * b" using y(1) by simp
  finally have "year_start y = 36524 * c + 1461 * a + 365 * b" .
  then show "0 \<le> year_start y" "year_start y \<le> 145731" using y(2-7) by linarith+
qed

lemma civil_eq:
  assumes "0 \<le> y" "y < 400" "0 \<le> r" "r < march_year_length y"
  shows "civil_from_days (era * 146097 + (year_start y + r) - 719468) =
     (case month_day r of (m, d) \<Rightarrow> (if m \<le> 2 then y + era * 400 + 1 else y + era * 400, m, d))"
proof -
  let ?d = "year_start y + r"
  have d: "0 \<le> ?d" "?d < 146097"
    using year_start_bounds [of y] assms march_year_length_le [of y] by linarith+
  have "0 \<le> ?d - ?d div 1460" using div_bounds [of 1460 ?d] d by linarith
  moreover have "?d div 146096 \<le> ?d div 36524" using d by (intro zdiv_mono2) auto
  ultimately have n: "0 \<le> ?d - ?d div 1460 + ?d div 36524 - ?d div 146096" by linarith
  have yoe: "(?d - ?d sdiv 1460 + ?d sdiv 36524 - ?d sdiv 146096) sdiv 365 = y"
    using year_of_era_correct [OF assms] n d(1) by (simp add: sdiv_div year_of_era_def)
  have doy: "?d - (365 * y + y sdiv 4 - y sdiv 100) = r"
    using assms(1) by (simp add: sdiv_div year_start_def)
  have mp: "(5 * r + 2) sdiv 153 = month_index r" "0 \<le> month_index r"
    using assms(3) by (simp_all add: sdiv_div month_index_def)
  have ms: "(153 * month_index r + 2) sdiv 5 = month_start (month_index r)"
    using mp(2) by (simp add: sdiv_div month_start_def)
  show ?thesis
    unfolding civil_from_days_def Let_def diff_add_cancel era_bounds [OF d] add_diff_cancel_left'
      yoe doy mp(1) ms month_day_def by simp
qed

lemma leap_year_era: "leap_year (y + era * 400) = leap_year y"
proof -
  have "(y + era * 400) mod 4 = y mod 4" "(y + era * 400) mod 100 = y mod 100"
    using mod_mult_self2 [of y 4 "100 * era"] mod_mult_self2 [of y 100 "4 * era"]
    by (simp_all add: algebra_simps)
  then show ?thesis by (simp add: leap_year_def)
qed

lemma month_day_ends:
  "month_day 0 = (3, 1)" "month_day 364 = (2, 28)" "month_day 365 = (2, 29)"
  by (simp_all add: month_day_def month_index_def month_start_def)

lemma month_day_range:
  assumes "month_day r = (m, d)" "0 \<le> r" "r < 364"
  shows "1 \<le> m" "m \<le> 12" "m = 2 \<longrightarrow> d < 28"
proof -
  have "month_index r \<in> {0, 1, 2, 3, 4, 5, 6, 7, 8, 9, 10, 11}"
    using assms month_index_bounds [of r] by (intro twelve_months) linarith+
  then have "1 \<le> m \<and> m \<le> 12 \<and> (m = 2 \<longrightarrow> d < 28)"
    using assms by (elim insertE) (auto simp: month_day_def Let_def month_start_def)
  then show "1 \<le> m" "m \<le> 12" "m = 2 \<longrightarrow> d < 28" by blast+
qed

lemma civil_succ: "civil_from_days (n + 1) = next_day (civil_from_days n)"
proof -
  define era where "era = (n + 719468) div 146097"
  define doe where "doe = (n + 719468) mod 146097"
  have n: "n = era * 146097 + doe - 719468" by (simp add: era_def doe_def)
  have "0 \<le> doe" "doe < 146097" by (simp_all add: doe_def)
  then obtain y r where y: "0 \<le> y" "y < 400" "0 \<le> r" "r < march_year_length y"
    and doe: "doe = year_start y + r" using day_of_era by blast
  note now = civil_eq [OF y, of era]
  have leap: "leap_year (1 + (y + era * 400)) = leap_year (y + 1)"
    using leap_year_era [of "y + 1" era] by (simp add: ac_simps)
  consider (common) "r < 364" | (leap_day) "r = 364" "leap_year (y + 1)"
    | (year_end) "r + 1 = march_year_length y"
    using y(4) that by (cases "leap_year (y + 1)"; simp add: march_year_length_def; linarith)
  then show ?thesis
  proof cases
    case common
    then have "r + 1 < march_year_length y" by (simp add: march_year_length_def)
    with y civil_eq [of y "r + 1" era] have
      "civil_from_days (n + 1) = (case month_day (r + 1) of (m, d) \<Rightarrow>
         (if m \<le> 2 then y + era * 400 + 1 else y + era * 400, m, d))"
      by (simp add: n doe algebra_simps)
    with common show ?thesis
      using month_day_step [of r] month_day_range [of r] y(3) now
      by (auto simp: n doe next_day_def month_length_def split: prod.splits)
  next
    case leap_day
    then have "civil_from_days (n + 1) = (y + era * 400 + 1, 2, 29)"
      using y civil_eq [of y "r + 1" era]
      by (simp add: n doe algebra_simps month_day_ends march_year_length_def)
    with leap_day show ?thesis using now
      by (simp add: n doe next_day_def month_length_def month_day_ends leap add.commute)
  next
    case year_end
    have "civil_from_days (n + 1) = (y + era * 400 + 1, 3, 1)"
    proof (cases "y = 399")
      case True
      then show ?thesis using year_end civil_eq [of 0 0 "era + 1"]
        by (simp add: n doe algebra_simps month_day_ends march_year_length_def leap_year_def year_start_def)
    next
      case False
      then have nxt: "n + 1 = era * 146097 + (year_start (y + 1) + 0) - 719468"
        using year_end y year_start_step [of y] by (simp add: n doe)
      have "0 < march_year_length (y + 1)" by (simp add: march_year_length_def)
      then show ?thesis using False y civil_eq [of "y + 1" 0 era]
        unfolding nxt by (simp add: month_day_ends)
    qed
    with year_end show ?thesis using now
      by (cases "leap_year (y + 1)")
         (simp_all add: n doe next_day_def month_length_def march_year_length_def month_day_ends leap add.commute)
  qed
qed

text \<open>
  The conversion is the civil calendar: counting from 1 January 1970 one calendar day at a
  time, forwards and backwards, gives the date it computes for that day number.
\<close>

theorem civil_from_days_is_calendar:
  "civil_from_days (int n) = (next_day ^^ n) (1970, 1, 1) \<and>
   (next_day ^^ n) (civil_from_days (- int n)) = (1970, 1, 1)"
proof (induction n)
  case 0
  show ?case by code_simp
next
  case (Suc n)
  then show ?case using civil_succ [of "int n"] civil_succ [of "- 1 - int n"]
    by (simp add: add.commute funpow_swap1 [symmetric] funpow_Suc_right del: funpow.simps(2))
qed

end
