(* ===== verification/Diag.thy ===== *)
theory Diag
  imports RustStr Calendar
begin

text \<open>
  The diagnostic log (\<open>src/diag.rs\<close>): levels and their filter, the UTC time stamps with
  their calendar conversion, the description of RandomX flags, the retention of old log
  files and the opening of a new one. Clock, process id, file system listing and target
  platform are arguments.
\<close>

section \<open>Levels\<close>

datatype level = Error | Warn | Info | Debug

text \<open>The derived order of the variants, as \<open>derive(PartialOrd, Ord)\<close> gives it.\<close>

fun level_rank :: "level \<Rightarrow> nat" where
  "level_rank Error = 0"
| "level_rank Warn = 1"
| "level_rank Info = 2"
| "level_rank Debug = 3"

lemma level_rank_inject: "level_rank a = level_rank b \<longleftrightarrow> a = b"
  by (cases a; cases b; simp)

instantiation level :: linorder
begin

definition less_eq_level :: "level \<Rightarrow> level \<Rightarrow> bool" where
  "less_eq_level a b \<longleftrightarrow> level_rank a \<le> level_rank b"

definition less_level :: "level \<Rightarrow> level \<Rightarrow> bool" where
  "less_level a b \<longleftrightarrow> level_rank a < level_rank b"

instance
  by standard (auto simp: less_eq_level_def less_level_def level_rank_inject)

end

fun level_label :: "level \<Rightarrow> str" where
  "level_label Error = ''ERROR''"
| "level_label Warn = ''WARN''"
| "level_label Info = ''INFO''"
| "level_label Debug = ''DEBUG''"

definition level_from_env :: "str option \<Rightarrow> level" where
  "level_from_env raw =
     (case map_option (\<lambda>r. to_ascii_lowercase (trim r)) raw of
        None \<Rightarrow> Info
      | Some r \<Rightarrow>
          if r = ''error'' then Error
          else if r = ''warn'' \<or> r = ''warning'' then Warn
          else if r = ''debug'' \<or> r = ''trace'' then Debug
          else Info)"

section \<open>RandomX flags\<close>

definition flag_names :: "(nat \<times> str) list" where
  "flag_names =
     [(0, ''LARGE_PAGES''), (1, ''HARD_AES''), (2, ''FULL_MEM''), (3, ''JIT''),
      (4, ''SECURE''), (5, ''ARGON2_SSSE3''), (6, ''ARGON2_AVX2'')]"

fun join :: "str \<Rightarrow> str list \<Rightarrow> str" where
  "join sep [] = []"
| "join sep [x] = x"
| "join sep (x # y # ys) = x @ sep @ join sep (y # ys)"

definition describe_randomx_flags :: "u32 \<Rightarrow> str" where
  "describe_randomx_flags bits =
     (let parts = List.map snd (List.filter (\<lambda>(b, _). bit bits b) flag_names);
          parts = (if parts = [] then [''DEFAULT(interpreted,portable)''] else parts)
      in ''0x'' @ hex02 (unat bits) @ ''='' @ join ''|'' parts)"

section \<open>Time stamps\<close>

text \<open>\<open>{:0w}\<close>: zero padding to width \<open>w\<close>, after the sign of a negative number.\<close>

definition pad0 :: "nat \<Rightarrow> int \<Rightarrow> str" where
  "pad0 w n =
     (let s = (if n < 0 then ''-'' else []); ds = decimal (nat \<bar>n\<bar>)
      in s @ replicate (w - length s - length ds) (CHR ''0'') @ ds)"

text \<open>A value cast \<open>as i64\<close>: its low 64 bits in two's complement.\<close>

definition as_i64 :: "nat \<Rightarrow> int" where
  "as_i64 n = sint (of_nat n :: u64)"

definition format_utc :: "nat \<Rightarrow> str" where
  "format_utc unix_millis =
     (let secs = as_i64 (unix_millis div 1000);
          millis = int (unix_millis mod 1000);
          days = secs div 86400;
          tod = secs mod 86400;
          (year, month, day) = civil_from_days days
      in pad0 4 year @ ''-'' @ pad0 2 month @ ''-'' @ pad0 2 day @ ''T'' @
         pad0 2 (tod sdiv 3600) @ '':'' @ pad0 2 ((tod sdiv 60) smod 60) @ '':'' @
         pad0 2 (tod smod 60) @ ''.'' @ pad0 3 millis @ ''Z'')"

definition format_utc_millis :: "u64 \<Rightarrow> str" where
  "format_utc_millis unix_millis = format_utc (unat unix_millis)"

text \<open>The system clock as milliseconds since the epoch, \<open>None\<close> before it.\<close>

definition now_utc :: "nat option \<Rightarrow> str" where
  "now_utc clock = (case clock of Some ms \<Rightarrow> format_utc ms | None \<Rightarrow> ''pre-epoch'')"

section \<open>Writing lines\<close>

definition DIAG_VERSION :: str where "DIAG_VERSION = ''0.1.8''"

record platform =
  os :: str
  arch :: str

definition identity :: "platform \<Rightarrow> str" where
  "identity p = ''xus-miner/'' @ DIAG_VERSION @ '' '' @ os p @ ''-'' @ arch p"

text \<open>The logger: the text written to its file so far, and the level.\<close>

record logger =
  log_text :: str
  log_level :: level

definition write_line ::
  "platform \<Rightarrow> nat option \<Rightarrow> level \<Rightarrow> str \<Rightarrow> logger \<Rightarrow> logger" where
  "write_line p clock l message lg =
     (if l > log_level lg then lg
      else lg\<lparr>log_text := log_text lg @
        ''['' @ now_utc clock @ ''] ['' @ level_label l @ ''] ['' @ identity p @ ''] '' @
        message @ [CHR 0x0A]\<rparr>)"

text \<open>What the panic hook writes: the place, the payload and each frame.\<close>

definition log_panic ::
  "platform \<Rightarrow> nat option \<Rightarrow> str option \<Rightarrow> str option \<Rightarrow> str list \<Rightarrow> logger \<Rightarrow> logger" where
  "log_panic p clock location payload frames lg =
     (let location = (case location of Some l \<Rightarrow> l | None \<Rightarrow> ''unknown location'');
          payload = (case payload of Some m \<Rightarrow> m | None \<Rightarrow> ''non-string panic payload'');
          lg = write_line p clock Error (''PANIC at '' @ location @ '': '' @ payload) lg;
          lg = foldl (\<lambda>lg f. write_line p clock Error (''PANIC-BT '' @ f) lg) lg frames
      in write_line p clock Error ''PANIC backtrace complete'' lg)"

section \<open>Log files\<close>

definition LOG_PREFIX :: str where "LOG_PREFIX = ''diag-''"
definition MAX_RETAINED_LOGS :: nat where "MAX_RETAINED_LOGS = 10"

text \<open>
  A directory entry: its name, whether its metadata says it is a file (\<open>None\<close> when the
  metadata cannot be read), and its modification time in nanoseconds since the epoch
  (\<open>None\<close> when there is none, which the code reads as the epoch).
\<close>

record dir_entry =
  entry_name :: str
  entry_is_file :: "bool option"
  entry_modified :: "int option"

definition log_time :: "dir_entry \<Rightarrow> int" where
  "log_time e = (case entry_modified e of Some t \<Rightarrow> t | None \<Rightarrow> 0)"

definition is_log :: "dir_entry \<Rightarrow> bool" where
  "is_log e \<longleftrightarrow> starts_with (entry_name e) LOG_PREFIX \<and> ends_with (entry_name e) ''.log'' \<and>
     entry_is_file e = Some True"

text \<open>
  The files \<open>prune_old_logs\<close> asks to remove, and what is left in the directory: a removal
  that fails is ignored, and a directory that cannot be read is left alone.
\<close>

definition stale_logs :: "dir_entry list \<Rightarrow> dir_entry list" where
  "stale_logs es =
     (let logs = List.filter is_log es
      in if length logs < MAX_RETAINED_LOGS then []
         else drop (MAX_RETAINED_LOGS - 1) (sort_key (\<lambda>e. - log_time e) logs))"

definition prune_old_logs ::
  "bool \<Rightarrow> (dir_entry \<Rightarrow> bool) \<Rightarrow> dir_entry list \<Rightarrow> dir_entry list" where
  "prune_old_logs readable removable es =
     (if \<not> readable then es
      else List.filter (\<lambda>e. \<not> (e \<in> set (stale_logs es) \<and> removable e)) es)"

definition log_file_name :: "str \<Rightarrow> nat option \<Rightarrow> u32 \<Rightarrow> str" where
  "log_file_name component clock pid =
     LOG_PREFIX @ component @ ''-'' @
     decimal (case clock of Some ms \<Rightarrow> ms div 1000 | None \<Rightarrow> 0) @ ''-'' @
     decimal (unat pid) @ ''.log''"

text \<open>
  The environment of \<open>init\<close>: home directory variables, whether the log directory can be
  made and the file opened, the entries of the directory.
\<close>

record log_environment =
  home :: "str option"
  user_profile :: "str option"
  create_dir_ok :: bool
  open_ok :: bool
  read_dir_ok :: bool
  removable :: "dir_entry \<Rightarrow> bool"
  log_entries :: "dir_entry list"
  log_var :: "str option"

definition open_log :: "str \<Rightarrow> dir_entry list \<Rightarrow> nat option \<Rightarrow> dir_entry list" where
  "open_log name es clock =
     (if list_ex (\<lambda>e. entry_name e = name) es then es
      else es @ [\<lparr>entry_name = name, entry_is_file = Some True,
        entry_modified = map_option (\<lambda>ms. int ms * 1000000) clock\<rparr>])"

definition diag_init ::
  "platform \<Rightarrow> nat option \<Rightarrow> u32 \<Rightarrow> str \<Rightarrow> str \<Rightarrow> logger option \<Rightarrow> log_environment \<Rightarrow>
     logger option \<times> log_environment" where
  "diag_init p clock pid component features lg env =
     (if lg \<noteq> None then (lg, env)
      else case or_else (home env) (user_profile env) of
        None \<Rightarrow> (None, env)
      | Some directory \<Rightarrow>
          if \<not> create_dir_ok env then (None, env)
          else
            let env = env\<lparr>log_entries := prune_old_logs (read_dir_ok env) (removable env) (log_entries env)\<rparr>;
                name = log_file_name component clock pid
            in if \<not> open_ok env then (None, env)
               else
                 let env = env\<lparr>log_entries := open_log name (log_entries env) clock\<rparr>;
                     level = level_from_env (log_var env);
                     lg = \<lparr>log_text = [], log_level = level\<rparr>
                 in (Some (write_line p clock Info
                       (''log opened: component='' @ component @ '' pid='' @ decimal (unat pid) @
                        '' level='' @ level_label level @ '' cpu-features='' @ features) lg), env))"

section \<open>What the log keeps\<close>

lemma set_stale_logs: "set (stale_logs es) \<subseteq> {e \<in> set es. is_log e}"
  by (auto simp: stale_logs_def Let_def split: if_splits dest!: in_set_dropD)

text \<open>What stays of the logs is the start of the list sorted by age.\<close>

lemma kept_logs:
  assumes "distinct es" "MAX_RETAINED_LOGS \<le> length (List.filter is_log es)"
  shows "{e \<in> set es. is_log e \<and> e \<notin> set (stale_logs es)}
     = set (take (MAX_RETAINED_LOGS - 1) (sort_key (\<lambda>e. - log_time e) (List.filter is_log es)))"
proof -
  define xs where "xs = sort_key (\<lambda>e. - log_time e) (List.filter is_log es)"
  have "distinct xs" using assms(1) by (simp add: xs_def)
  then have "set (take 9 xs) \<inter> set (drop 9 xs) = {}" by (simp add: set_take_disj_set_drop_if_distinct)
  moreover have "set (take 9 xs) \<union> set (drop 9 xs) = set xs" by (metis append_take_drop_id set_append)
  moreover have "set xs = {e \<in> set es. is_log e}" by (simp add: xs_def)
  ultimately show ?thesis using assms(2)
    by (auto simp: stale_logs_def Let_def MAX_RETAINED_LOGS_def xs_def [symmetric])
qed

lemma kept_logs_count:
  assumes "distinct es"
  shows "card {e \<in> set es. is_log e \<and> e \<notin> set (stale_logs es)} \<le> MAX_RETAINED_LOGS - 1"
proof (cases "MAX_RETAINED_LOGS \<le> length (List.filter is_log es)")
  case True
  show ?thesis unfolding kept_logs [OF assms True]
    by (rule order_trans [OF card_length]) simp
next
  case False
  have "card {e \<in> set es. is_log e \<and> e \<notin> set (stale_logs es)} \<le> card (set (List.filter is_log es))"
    by (rule card_mono) auto
  also have "\<dots> \<le> length (List.filter is_log es)" by (rule card_length)
  finally show ?thesis using False by simp
qed

lemma kept_logs_newer:
  assumes "s \<in> set (stale_logs es)" "k \<in> set es" "is_log k" "k \<notin> set (stale_logs es)" "distinct es"
  shows "log_time s \<le> log_time k"
proof -
  define xs where "xs = sort_key (\<lambda>e. - log_time e) (List.filter is_log es)"
  have le: "MAX_RETAINED_LOGS \<le> length (List.filter is_log es)"
    using assms(1) by (auto simp: stale_logs_def Let_def split: if_splits)
  have "k \<in> set (take 9 xs)"
    using kept_logs [OF assms(5) le] assms(2-4) by (auto simp: xs_def MAX_RETAINED_LOGS_def)
  moreover have "s \<in> set (drop 9 xs)"
    using assms(1) le by (simp add: stale_logs_def Let_def xs_def MAX_RETAINED_LOGS_def)
  moreover have "sorted (List.map (\<lambda>e. - log_time e) (take 9 xs) @ List.map (\<lambda>e. - log_time e) (drop 9 xs))"
    unfolding map_append [symmetric] append_take_drop_id by (simp add: xs_def)
  ultimately show ?thesis by (fastforce simp: sorted_append)
qed

text \<open>
  Opening the log bounds the directory: afterwards it holds at most ten diagnostic logs, a
  removed file is a log and no newer than any log that was there and is still, and every
  other file is untouched.
\<close>

theorem log_directory_bounded:
  assumes "diag_init p clock pid component features None env = (Some lg, env')"
    and "distinct (List.map entry_name (log_entries env))" "read_dir_ok env"
    and "\<forall>e. removable env e"
  shows "card {e \<in> set (log_entries env'). is_log e} \<le> MAX_RETAINED_LOGS \<and>
    (\<forall>s \<in> set (log_entries env) - set (log_entries env').
       is_log s \<and>
       (\<forall>k \<in> set (log_entries env) \<inter> set (log_entries env'). is_log k \<and>
          entry_name k \<noteq> log_file_name component clock pid \<longrightarrow> log_time s \<le> log_time k))"
proof
  let ?es = "log_entries env" and ?ks = "prune_old_logs True (removable env) (log_entries env)"
  have d: "distinct ?es" using assms(2) by (simp add: distinct_map)
  have es': "log_entries env' = open_log (log_file_name component clock pid) ?ks clock"
    using assms(1,3) by (auto simp: diag_init_def Let_def split: option.splits if_splits)
  have ks: "set ?ks = {e \<in> set ?es. e \<notin> set (stale_logs ?es)}"
    using assms(4) by (auto simp: prune_old_logs_def)
  have sub: "set ?ks \<subseteq> set (log_entries env')" by (auto simp: es' open_log_def)
  have "\<exists>f. set (log_entries env') \<subseteq> insert f (set ?ks)"
    unfolding es' open_log_def by (cases "list_ex (\<lambda>e. entry_name e = log_file_name component clock pid) ?ks") auto
  then obtain f where "{e \<in> set (log_entries env'). is_log e} \<subseteq> insert f {e \<in> set ?ks. is_log e}" by blast
  then have "card {e \<in> set (log_entries env'). is_log e} \<le> card (insert f {e \<in> set ?ks. is_log e})"
    by (intro card_mono) auto
  also have "\<dots> \<le> Suc (card {e \<in> set ?ks. is_log e})" by (rule card_insert_le_m1) simp_all
  also have "{e \<in> set ?ks. is_log e} = {e \<in> set ?es. is_log e \<and> e \<notin> set (stale_logs ?es)}"
    unfolding ks by auto
  finally show "card {e \<in> set (log_entries env'). is_log e} \<le> MAX_RETAINED_LOGS"
    using kept_logs_count [OF d] by (simp add: MAX_RETAINED_LOGS_def)
  have old: "k \<in> set ?ks" if "k \<in> set (log_entries env')"
    "entry_name k \<noteq> log_file_name component clock pid" for k
    using that by (auto simp: es' open_log_def split: if_splits)
  show "\<forall>s \<in> set (log_entries env) - set (log_entries env').
           is_log s \<and>
           (\<forall>k \<in> set (log_entries env) \<inter> set (log_entries env'). is_log k \<and>
              entry_name k \<noteq> log_file_name component clock pid \<longrightarrow> log_time s \<le> log_time k)"
  proof (intro ballI conjI impI)
    fix s assume s: "s \<in> set ?es - set (log_entries env')"
    then have st: "s \<in> set (stale_logs ?es)" using ks sub by auto
    then show "is_log s" using set_stale_logs by blast
    fix k assume "k \<in> set ?es \<inter> set (log_entries env')"
      and "is_log k \<and> entry_name k \<noteq> log_file_name component clock pid"
    then show "log_time s \<le> log_time k"
      using kept_logs_newer [OF st _ _ _ d] old [of k] ks by blast
  qed
qed

definition demo_log :: "nat \<Rightarrow> dir_entry" where
  "demo_log i = \<lparr>entry_name = ''diag-'' @ replicate i (CHR ''a'') @ ''.log'',
     entry_is_file = Some True, entry_modified = Some (int i)\<rparr>"

definition demo_log_environment :: log_environment where
  "demo_log_environment = \<lparr>home = Some ''/home/op'', user_profile = None, create_dir_ok = True,
     open_ok = True, read_dir_ok = True, removable = \<lambda>_. True,
     log_entries = List.map demo_log [0..<12], log_var = Some '' Debug ''\<rparr>"

lemma log_directory_bounded_witness:
  "\<exists>lg env'. diag_init \<lparr>os = ''linux'', arch = ''x86_64''\<rparr> (Some 0) 7 ''gui'' ''aes'' None
       demo_log_environment = (Some lg, env') \<and>
     card {e \<in> set (log_entries env'). is_log e} \<le> MAX_RETAINED_LOGS"
proof -
  obtain lg env' where i: "diag_init \<lparr>os = ''linux'', arch = ''x86_64''\<rparr> (Some 0) 7 ''gui'' ''aes'' None
       demo_log_environment = (Some lg, env')"
    by (simp add: diag_init_def Let_def demo_log_environment_def)
  have "inj (\<lambda>i. ''diag-'' @ replicate i (CHR ''a'') @ ''.log'')"
    by (rule inj_on_inverseI [where g = "\<lambda>s. length s - 9"]) simp
  then have "distinct (List.map entry_name (log_entries demo_log_environment))"
    by (simp add: demo_log_environment_def demo_log_def comp_def distinct_map inj_on_def)
  moreover have "read_dir_ok demo_log_environment" "\<forall>e. removable demo_log_environment e"
    by (simp_all add: demo_log_environment_def)
  ultimately show ?thesis using log_directory_bounded [OF i] i by blast
qed

end
