(* ===== verification/Probe.thy ===== *)
theory Probe
  imports Memory Rpc Recovery Diag
begin

text \<open>
  How the engine and the interface read the memory counters (\<open>query_memory_counters\<close> of
  \<open>src/main.rs\<close>): on macOS by running \<open>memory_pressure\<close> with bounded outputs and a deadline, elsewhere
  from the operating system. Each call of the operating system is an argument with its
  failures; the two reader threads are the streams they read. The theorems say that a reading is
  only taken from a run that exited well and whose whole output was read, that the output is
  bounded however it arrives, that the polling ends, and which readers are waited for.
\<close>

section \<open>The bounded reader of a stream\<close>

definition MACOS_MEMORY_PRESSURE_PATH :: str where
  "MACOS_MEMORY_PRESSURE_PATH = ''/usr/bin/memory_pressure''"

definition MAX_MACOS_MEMORY_PRESSURE_BYTES :: nat where
  "MAX_MACOS_MEMORY_PRESSURE_BYTES = 4 * 1024"

text \<open>In milliseconds, like all times here.\<close>

definition MACOS_MEMORY_PRESSURE_TIMEOUT :: nat where
  "MACOS_MEMORY_PRESSURE_TIMEOUT = 500"

text \<open>
  The results of the calls of \<open>read\<close> on a pipe, each an error or the bytes it gave; after the list,
  as after an empty result, the pipe is closed.
\<close>

type_synonym pipe = "(io_error + str) list"

definition stream_result :: "str \<Rightarrow> str \<Rightarrow> bool \<Rightarrow> str + str" where
  "stream_result label captured oversized =
     (if oversized
      then Inl (''memory_pressure '' @ label @ '' exceeded '' @ decimal MAX_MACOS_MEMORY_PRESSURE_BYTES @ '' bytes'')
      else Inr captured)"

fun read_stream :: "str \<Rightarrow> str \<Rightarrow> bool \<Rightarrow> pipe \<Rightarrow> str + str" where
  "read_stream label captured oversized [] = stream_result label captured oversized"
| "read_stream label captured oversized (Inl e # reads) =
     Inl (''cannot read memory_pressure '' @ label @ '': '' @ snd e)"
| "read_stream label captured oversized (Inr buffer # reads) =
     (let count = length buffer in
      if count = 0 then stream_result label captured oversized
      else
        let left = MAX_MACOS_MEMORY_PRESSURE_BYTES - length captured;
            retained = min left count
        in read_stream label (captured @ take retained buffer) (oversized \<or> retained < count) reads)"

definition read_bounded_command_stream :: "str \<Rightarrow> pipe \<Rightarrow> str + str" where
  "read_bounded_command_stream label reads = read_stream label [] False reads"

section \<open>The process\<close>

record probe_command =
  pm_path :: str
  pm_args :: "str list"
  pm_env :: "(str \<times> str) list"
  pm_stdin_null :: bool
  pm_stdout_piped :: bool
  pm_stderr_piped :: bool

definition memory_pressure_command :: probe_command where
  "memory_pressure_command =
     \<lparr>pm_path = MACOS_MEMORY_PRESSURE_PATH, pm_args = [''-Q''], pm_env = [], pm_stdin_null = True,
      pm_stdout_piped = True, pm_stderr_piped = True\<rparr>"

text \<open>
  A running child: its pipes, the answer of each call of \<open>try_wait\<close> with the time since the loop
  went on, and the results of killing it and of waiting for it.
\<close>

record probe_child =
  pc_stdout :: "pipe option"
  pc_stderr :: "pipe option"
  pc_poll :: "nat \<Rightarrow> nat \<times> (io_error + exit_status option)"
  pc_kill :: "io_error + unit"
  pc_wait :: "io_error + exit_status"

text \<open>
  The operating system: starting a process and a thread of a name, and the text of the error for
  bytes that are not UTF-8.
\<close>

record probe_os =
  os_spawn :: "probe_command \<Rightarrow> io_error + probe_child"
  os_thread :: "str \<Rightarrow> io_error + unit"
  os_utf8_error :: "str \<Rightarrow> str"

text \<open>\<open>ExitStatus::success\<close>.\<close>

definition exit_success :: "exit_status \<Rightarrow> bool" where
  "exit_success status \<longleftrightarrow> exit_code status = Some 0"

section \<open>Polling with a deadline\<close>

datatype poll_end = Exited exit_status | Overdue | Unobserved io_error

text \<open>The result, the number of the last call of \<open>try_wait\<close>, from 0, and the time.\<close>

function poll_until :: "(nat \<Rightarrow> nat \<times> (io_error + exit_status option)) \<Rightarrow> nat \<Rightarrow> nat \<Rightarrow> nat \<Rightarrow> poll_end \<times> nat \<times> nat" where
  "poll_until poll deadline k t =
     (let (cost, answer) = poll k; now = t + cost in
      case answer of
        Inr (Some status) \<Rightarrow> (Exited status, k, now)
      | Inr None \<Rightarrow> if now < deadline then poll_until poll deadline (Suc k) (now + 5) else (Overdue, k, now)
      | Inl e \<Rightarrow> (Unobserved e, k, now))"
  by pat_completeness auto

termination poll_until
  by (relation "measure (\<lambda>(poll, deadline, k, t). deadline - t)") auto

declare poll_until.simps [simp del]

section \<open>The query\<close>

text \<open>
  What became of the child, and which of the threads that read its pipes were waited for; the
  others were not started or are detached.
\<close>

datatype child_end = NotRun | Reaped | MayLive

record probe_run =
  pr_result :: "str + u64 \<times> u64"
  pr_child :: child_end
  pr_joined :: "str list"

definition probe_failed :: "str \<Rightarrow> child_end \<Rightarrow> str list \<Rightarrow> probe_run" where
  "probe_failed message c r = \<lparr>pr_result = Inl message, pr_child = c, pr_joined = r\<rparr>"

text \<open>\<open>let _ = child.kill(); let _ = child.wait();\<close>: the wait decides whether the child is gone.\<close>

definition kill_and_wait_ignored :: "probe_child \<Rightarrow> child_end" where
  "kill_and_wait_ignored c = (case pc_wait c of Inl _ \<Rightarrow> MayLive | Inr _ \<Rightarrow> Reaped)"

text \<open>\<open>child.kill().and_then(|()| child.wait())\<close>, then joining or detaching the readers.\<close>

definition give_up :: "probe_child \<Rightarrow> str \<Rightarrow> probe_run" where
  "give_up c message =
     (case and_then (pc_kill c) (\<lambda>_. pc_wait c) of
        Inr _ \<Rightarrow> probe_failed message Reaped [''stdout'', ''stderr'']
      | Inl e \<Rightarrow> probe_failed (message @ ''; cleanup failed: '' @ snd e) MayLive [])"

definition report_error_text :: "report_error \<Rightarrow> str" where
  "report_error_text e =
     (case e of
        NoTotal \<Rightarrow> ''memory_pressure output did not contain a positive physical-memory total''
      | NoPercentage \<Rightarrow> ''memory_pressure output did not contain a valid free percentage'')"

text \<open>
  After the exit of the child: the readers are joined, and an error of theirs comes first; after one of the
  output's reader the other is not waited for.
\<close>

definition read_report :: "probe_os \<Rightarrow> exit_status \<Rightarrow> pipe \<Rightarrow> pipe \<Rightarrow> str + u64 \<times> u64" where
  "read_report OS status stdout stderr =
     and_then (read_bounded_command_stream ''stdout'' stdout) (\<lambda>out.
     and_then (read_bounded_command_stream ''stderr'' stderr) (\<lambda>err.
     and_then (ensure (exit_success status)
       (MACOS_MEMORY_PRESSURE_PATH @ '' returned '' @ exit_text status @ '': '' @ trim (from_utf8_lossy err))) (\<lambda>_.
     and_then (ensure (valid_utf8 out)
       (''memory_pressure returned invalid UTF-8: '' @ os_utf8_error OS out)) (\<lambda>_.
     map_err report_error_text (parse_macos_memory_pressure out)))))"

definition query_memory_counters_impl :: "probe_os \<Rightarrow> probe_run" where
  "query_memory_counters_impl OS =
     (case os_spawn OS memory_pressure_command of
        Inl e \<Rightarrow> probe_failed (''cannot run '' @ MACOS_MEMORY_PRESSURE_PATH @ '': '' @ snd e) NotRun []
      | Inr child \<Rightarrow>
     (case pc_stdout child of
        None \<Rightarrow> probe_failed ''memory_pressure stdout pipe was not created'' MayLive []
      | Some stdout \<Rightarrow>
     (case pc_stderr child of
        None \<Rightarrow> probe_failed ''memory_pressure stderr pipe was not created'' MayLive []
      | Some stderr \<Rightarrow>
     (case os_thread OS ''xus-memory-pressure-out'' of
        Inl e \<Rightarrow> probe_failed (''cannot start memory_pressure stdout reader: '' @ snd e)
                  (kill_and_wait_ignored child) []
      | Inr _ \<Rightarrow>
     (case os_thread OS ''xus-memory-pressure-err'' of
        Inl e \<Rightarrow> probe_failed (''cannot start memory_pressure stderr reader: '' @ snd e)
                  (kill_and_wait_ignored child) [''stdout'']
      | Inr _ \<Rightarrow>
     (case fst (poll_until (pc_poll child) MACOS_MEMORY_PRESSURE_TIMEOUT 0 0) of
        Overdue \<Rightarrow>
          give_up child (''memory_pressure exceeded its '' @ decimal MACOS_MEMORY_PRESSURE_TIMEOUT @ '' ms deadline'')
      | Unobserved e \<Rightarrow> give_up child (''cannot observe memory_pressure: '' @ snd e)
      | Exited status \<Rightarrow>
          \<lparr>pr_result = read_report OS status stdout stderr, pr_child = Reaped,
           pr_joined = (case read_bounded_command_stream ''stdout'' stdout of Inl _ \<Rightarrow> [''stdout''] | Inr _ \<Rightarrow> [''stdout'', ''stderr''])\<rparr>))))))"

text \<open>With the line of the diagnostic log; \<open>elapsed\<close> is the duration.\<close>

definition query_memory_counters_macos :: "probe_os \<Rightarrow> nat \<Rightarrow> (str + u64 \<times> u64) \<times> level \<times> str" where
  "query_memory_counters_macos OS elapsed =
     (let result = pr_result (query_memory_counters_impl OS) in
      (result,
       case result of
         Inr (available, ram) \<Rightarrow>
           (Debug, ''memory_pressure probe ok in '' @ decimal elapsed @ '' ms: available='' @
              decimal (unat available) @ '' total='' @ decimal (unat ram))
       | Inl e \<Rightarrow> (Warn, ''memory_pressure probe failed after '' @ decimal elapsed @ '' ms: '' @ e)))"

text \<open>Elsewhere: \<open>available\<close> and \<open>ram\<close> are the readings of the \<open>sysinfo\<close> library.\<close>

definition query_memory_counters_other :: "u64 \<Rightarrow> u64 \<Rightarrow> str + u64 \<times> u64" where
  "query_memory_counters_other available ram =
     (if ram = 0 \<or> available > ram
      then Inl ''operating-system RAM scan returned unavailable or inconsistent readings; refusing to start headless RandomX workers''
      else Inr (available, ram))"

datatype memory_platform = MacOS probe_os nat | OtherPlatform u64 u64

definition query_memory_counters :: "memory_platform \<Rightarrow> str + u64 \<times> u64" where
  "query_memory_counters platform =
     (case platform of
        MacOS OS elapsed \<Rightarrow> fst (query_memory_counters_macos OS elapsed)
      | OtherPlatform available ram \<Rightarrow> query_memory_counters_other available ram)"

text \<open>The gate with its scan.\<close>

definition scan_and_ensure_safe ::
  "memory_platform \<Rightarrow> pow_algo \<Rightarrow> memory_gate \<Rightarrow> (memory_error + unit) \<times> memory_gate"
where
  "scan_and_ensure_safe platform algo g =
     ensure_safe algo (case query_memory_counters platform of Inr c \<Rightarrow> Some c | Inl _ \<Rightarrow> None) g"

section \<open>The bounded reader\<close>

text \<open>What a pipe delivers up to its close, or its first error.\<close>

fun delivered_stream :: "pipe \<Rightarrow> io_error + str" where
  "delivered_stream [] = Inr []"
| "delivered_stream (Inl e # reads) = Inl e"
| "delivered_stream (Inr buffer # reads) =
     (if buffer = [] then Inr [] else and_then (delivered_stream reads) (\<lambda>rest. Inr (buffer @ rest)))"

lemma read_stream_spec:
  "length captured \<le> MAX_MACOS_MEMORY_PRESSURE_BYTES \<Longrightarrow>
   oversized \<longrightarrow> length captured = MAX_MACOS_MEMORY_PRESSURE_BYTES \<Longrightarrow>
   read_stream label captured oversized reads =
     (case delivered_stream reads of
        Inl e \<Rightarrow> Inl (''cannot read memory_pressure '' @ label @ '': '' @ snd e)
      | Inr rest \<Rightarrow> stream_result label (captured @ take (MAX_MACOS_MEMORY_PRESSURE_BYTES - length captured) rest)
          (oversized \<or> length captured + length rest > MAX_MACOS_MEMORY_PRESSURE_BYTES))"
proof (induction label captured oversized reads rule: read_stream.induct)
  case (3 label captured oversized buffer reads)
  show ?case
  proof (cases "buffer = []")
    case False
    let ?left = "MAX_MACOS_MEMORY_PRESSURE_BYTES - length captured"
    have "length (captured @ take (min ?left (length buffer)) buffer) \<le> MAX_MACOS_MEMORY_PRESSURE_BYTES"
      "(oversized \<or> min ?left (length buffer) < length buffer) \<longrightarrow>
       length (captured @ take (min ?left (length buffer)) buffer) = MAX_MACOS_MEMORY_PRESSURE_BYTES"
      using 3(2,3) by auto
    note ih = 3(1) [OF refl _ refl refl this]
    have i: "take (min ?left (length buffer)) buffer = take ?left buffer" by (simp add: min_def)
    show ?thesis
      using False ih 3(2,3) by (cases "delivered_stream reads") (auto simp: Let_def i stream_result_def)
  qed (use 3 in \<open>auto simp: stream_result_def\<close>)
qed (auto simp: stream_result_def)

text \<open>
  The reader returns the whole output or an error. Whatever the sizes of the reads, it returns the
  bytes of the stream when they are at most 4096, reports a longer stream as too long, without
  keeping more than 4096 bytes of it, and an error of a read as that.
\<close>

theorem bounded_stream_exact:
  "read_bounded_command_stream label reads =
     (case delivered_stream reads of
        Inl e \<Rightarrow> Inl (''cannot read memory_pressure '' @ label @ '': '' @ snd e)
      | Inr out \<Rightarrow>
          if length out \<le> 4096 then Inr out
          else Inl (''memory_pressure '' @ label @ '' exceeded 4096 bytes''))"
proof -
  have "decimal MAX_MACOS_MEMORY_PRESSURE_BYTES = ''4096''"
    unfolding MAX_MACOS_MEMORY_PRESSURE_BYTES_def by code_simp
  then show ?thesis
    using read_stream_spec [of "[]" False label reads]
    by (auto simp: read_bounded_command_stream_def stream_result_def MAX_MACOS_MEMORY_PRESSURE_BYTES_def
        split: sum.splits)
qed

section \<open>The polling and the run\<close>

lemma poll_until_bounded:
  "poll_until poll deadline k t = (r, k', t') \<Longrightarrow>
   k \<le> k' \<and> 5 * (k' - k) \<le> (deadline - t) + 4 \<and>
   (\<forall>status. r = Exited status \<longrightarrow> snd (poll k') = Inr (Some status)) \<and>
   t' \<le> max t (deadline + 4) + fst (poll k')"
proof (induction poll deadline k t rule: poll_until.induct)
  case (1 poll deadline k t)
  obtain cost answer where p: "poll k = (cost, answer)" by fastforce
  show ?case
  proof (cases "answer = Inr None \<and> t + cost < deadline")
    case True
    then have "poll_until poll deadline (Suc k) (t + cost + 5) = (r, k', t')"
      using 1(2) p by (simp add: poll_until.simps [of poll deadline k])
    from 1(1) [OF p [symmetric] refl refl _ _ _ this] True
    have ih: "Suc k \<le> k'" "5 * (k' - Suc k) \<le> (deadline - (t + cost + 5)) + 4"
      "r = Exited status \<Longrightarrow> snd (poll k') = Inr (Some status)" "t' \<le> deadline + 4 + fst (poll k')" for status
      by auto
    moreover have "5 * (k' - k) \<le> (deadline - t) + 4"
    proof -
      obtain m where "k' = Suc k + m" using ih(1) by (metis le_Suc_ex)
      with ih(2) conjunct2 [OF True] show ?thesis by (cases "m = 0") auto
    qed
    ultimately show ?thesis by auto
  next
    case False
    then show ?thesis using 1(2) p
      by (auto simp: poll_until.simps [of poll deadline k] Let_def split: sum.splits option.splits if_splits)
  qed
qed

lemma good_run:
  assumes "pr_result (query_memory_counters_impl OS) = Inr (available, ram)"
  obtains child stdout stderr status where "os_spawn OS memory_pressure_command = Inr child"
    "pc_stdout child = Some stdout" "pc_stderr child = Some stderr"
    "fst (poll_until (pc_poll child) MACOS_MEMORY_PRESSURE_TIMEOUT 0 0) = Exited status"
    "read_report OS status stdout stderr = Inr (available, ram)"
    "pr_child (query_memory_counters_impl OS) = Reaped"
    "pr_joined (query_memory_counters_impl OS) =
       (case read_bounded_command_stream ''stdout'' stdout of Inl _ \<Rightarrow> [''stdout''] | Inr _ \<Rightarrow> [''stdout'', ''stderr''])"
  using assms
  by (auto simp: query_memory_counters_impl_def probe_failed_def give_up_def
      split: sum.splits option.splits poll_end.splits)

text \<open>
  C14: A reading is only taken from a run that went well. If the query returns counters, the child was started
  with the fixed path, the one argument and an empty environment, \<open>try_wait\<close> saw it exit with code 0 in
  one of at most 101 calls, its output and its error output were read to their end, at most 4096
  bytes each, the output is UTF-8 and states these counters, which are consistent: the child is
  gone and both readers were waited for.
\<close>

theorem counters_only_from_a_good_run:
  assumes "pr_result (query_memory_counters_impl OS) = Inr (available, ram)"
  shows "0 < ram \<and> available \<le> ram \<and>
    (\<exists>child stdout stderr out err k status.
       os_spawn OS memory_pressure_command = Inr child \<and> k \<le> 100 \<and>
       snd (pc_poll child k) = Inr (Some status) \<and> exit_code status = Some 0 \<and>
       pc_stdout child = Some stdout \<and> delivered_stream stdout = Inr out \<and> length out \<le> 4096 \<and>
       pc_stderr child = Some stderr \<and> delivered_stream stderr = Inr err \<and> length err \<le> 4096 \<and>
       valid_utf8 out \<and> parse_macos_memory_pressure out = Inr (available, ram)) \<and>
    pr_child (query_memory_counters_impl OS) = Reaped \<and>
    pr_joined (query_memory_counters_impl OS) = [''stdout'', ''stderr'']"
proof -
  obtain child stdout stderr status where c: "os_spawn OS memory_pressure_command = Inr child"
    "pc_stdout child = Some stdout" "pc_stderr child = Some stderr"
    "fst (poll_until (pc_poll child) MACOS_MEMORY_PRESSURE_TIMEOUT 0 0) = Exited status"
    "read_report OS status stdout stderr = Inr (available, ram)"
    "pr_child (query_memory_counters_impl OS) = Reaped"
    "pr_joined (query_memory_counters_impl OS) =
       (case read_bounded_command_stream ''stdout'' stdout of Inl _ \<Rightarrow> [''stdout''] | Inr _ \<Rightarrow> [''stdout'', ''stderr''])"
    by (rule good_run [OF assms])
  obtain k t where k: "poll_until (pc_poll child) MACOS_MEMORY_PRESSURE_TIMEOUT 0 0 = (Exited status, k, t)"
    using c(4) by (metis prod.collapse)
  from poll_until_bounded [OF this] have k': "k \<le> 100" "snd (pc_poll child k) = Inr (Some status)"
    by (simp_all add: MACOS_MEMORY_PRESSURE_TIMEOUT_def)
  from c(5) obtain out err where o: "read_bounded_command_stream ''stdout'' stdout = Inr out"
    "read_bounded_command_stream ''stderr'' stderr = Inr err" "exit_code status = Some 0" "valid_utf8 out"
    "parse_macos_memory_pressure out = Inr (available, ram)"
    by (auto simp: read_report_def result_simps exit_success_def)
  then have "delivered_stream stdout = Inr out \<and> length out \<le> 4096"
    "delivered_stream stderr = Inr err \<and> length err \<le> 4096"
    by (auto simp: bounded_stream_exact split: sum.splits if_splits)
  then show ?thesis
    using c(1-3,6,7) k' o memory_pressure_consistent [OF o(5)]
    by (intro conjI exI [of _ child] exI [of _ stdout] exI [of _ stderr] exI [of _ out] exI [of _ err]
        exI [of _ k] exI [of _ status]) simp_all
qed

text \<open>
  A reader is only waited for when the child is gone, so a cleanup that fails does not hold up the
  caller: with one exception, the path on which the second reader thread cannot be started.
  There the first reader is joined whatever killing and waiting gave.
\<close>

lemma readers_joined_after_the_child:
  assumes "pr_joined (query_memory_counters_impl OS) \<noteq> []"
  shows "pr_child (query_memory_counters_impl OS) = Reaped \<or>
    (\<exists>e child. os_thread OS ''xus-memory-pressure-err'' = Inl e \<and>
       os_spawn OS memory_pressure_command = Inr child \<and> (\<exists>e. pc_wait child = Inl e))"
  using assms
  by (auto simp: query_memory_counters_impl_def probe_failed_def give_up_def kill_and_wait_ignored_def
      split: sum.splits option.splits poll_end.splits)

text \<open>The exception happens: a child that can be neither killed nor awaited is left, its reader is joined.\<close>

lemma reader_joined_while_child_may_live:
  "\<exists>OS. pr_child (query_memory_counters_impl OS) = MayLive \<and> pr_joined (query_memory_counters_impl OS) = [''stdout'']"
  by (intro exI [of _ "\<lparr>os_spawn = \<lambda>_. Inr \<lparr>pc_stdout = Some [], pc_stderr = Some [], pc_poll = \<lambda>_. (0, Inr None),
        pc_kill = Inl (OtherKind, []), pc_wait = Inl (OtherKind, [])\<rparr>,
      os_thread = \<lambda>name. if name = ''xus-memory-pressure-err'' then Inl (OtherKind, []) else Inr (),
      os_utf8_error = \<lambda>_. []\<rparr>"])
    (simp add: query_memory_counters_impl_def probe_failed_def kill_and_wait_ignored_def)

text \<open>
  The polling of a child that never exits ends: after at most 101 calls of \<open>try_wait\<close>, and no later
  than 504 ms after its start plus the time of the last call.
\<close>

lemma polling_ends:
  obtains r k t where "poll_until poll MACOS_MEMORY_PRESSURE_TIMEOUT 0 0 = (r, k, t)"
    "k \<le> 100" "t \<le> 504 + fst (poll k)"
proof -
  obtain r k t where p: "poll_until poll MACOS_MEMORY_PRESSURE_TIMEOUT 0 0 = (r, k, t)"
    by (metis prod.collapse)
  with poll_until_bounded [OF p] show thesis by (intro that [OF p]) (auto simp: MACOS_MEMORY_PRESSURE_TIMEOUT_def)
qed

section \<open>The gate with its scan\<close>

lemma query_consistent:
  assumes "query_memory_counters platform = Inr (available, ram)"
  shows "0 < ram \<and> available \<le> ram"
proof (cases platform)
  case (MacOS OS elapsed)
  then have "pr_result (query_memory_counters_impl OS) = Inr (available, ram)"
    using assms by (simp add: query_memory_counters_def query_memory_counters_macos_def Let_def)
  then obtain status stdout stderr where "read_report OS status stdout stderr = Inr (available, ram)"
    by (rule good_run)
  then obtain out where "parse_macos_memory_pressure out = Inr (available, ram)"
    by (auto simp: read_report_def result_simps)
  then show ?thesis using memory_pressure_consistent by blast
next
  case (OtherPlatform a r)
  then show ?thesis using assms
    by (auto simp: query_memory_counters_def query_memory_counters_other_def word_neq_0_conv split: if_splits)
qed

text \<open>
  Without the operator's confirmation the gate opens only on a successful scan with enough memory.
\<close>

lemma gate_needs_a_scan:
  assumes "unat (mg_workers g) \<le> 64" "mg_approved g = None" "\<not> mg_confirmed g"
    and "fst (scan_and_ensure_safe platform RandomX g) = Inr ()"
  obtains available ram where "query_memory_counters platform = Inr (available, ram)"
    "0 < ram" "available \<le> ram"
    "engine_need (unat (mg_workers g)) (mg_force_light g) + headroom (unat ram) \<le> unat available"
proof (cases "query_memory_counters platform")
  case (Inl e)
  then show thesis using assms(2-4)
    by (simp add: scan_and_ensure_safe_def ensure_safe_def resolve_headless_memory_def)
next
  case (Inr c)
  then obtain available ram where c: "query_memory_counters platform = Inr (available, ram)" by (cases c) auto
  note consistent = query_consistent [OF c]
  have "\<exists>p. validate_headless_memory (mg_workers g) (mg_force_light g) available ram = Inr p"
    using assms(2-4) c consistent
    by (auto simp: scan_and_ensure_safe_def ensure_safe_def resolve_headless_memory_def split: sum.splits)
  then show thesis using that [OF c] consistent validate_iff [OF assms(1)] by blast
qed

section \<open>Witness\<close>

definition sample_os :: probe_os where
  "sample_os =
     \<lparr>os_spawn = \<lambda>_. Inr \<lparr>pc_stdout = Some [Inr (take 20 sample_report), Inr (drop 20 sample_report)],
        pc_stderr = Some [],
        pc_poll = \<lambda>k. (3, Inr (if k < 2 then None else Some \<lparr>exit_code = Some 0, exit_signal = None, exit_text = []\<rparr>)),
        pc_kill = Inr (), pc_wait = Inl (OtherKind, [])\<rparr>,
      os_thread = \<lambda>_. Inr (), os_utf8_error = \<lambda>_. []\<rparr>"

lemma sample_os_reads: "pr_result (query_memory_counters_impl sample_os) = Inr (40, 100)"
proof -
  let ?out = "[Inr (take 20 sample_report), Inr (drop 20 sample_report)] :: pipe"
  have r: "read_bounded_command_stream ''stdout'' ?out = Inr sample_report" "valid_utf8 sample_report"
    "read_bounded_command_stream ''stderr'' [] = Inr []"
    by code_simp+
  show ?thesis
    using r sample_report_parsed
    by (simp add: query_memory_counters_impl_def sample_os_def poll_until.simps MACOS_MEMORY_PRESSURE_TIMEOUT_def
        read_report_def exit_success_def)
qed

lemma counters_only_from_a_good_run_witness:
  "(0 :: u64) < 100 \<and> pr_child (query_memory_counters_impl sample_os) = Reaped \<and>
   pr_joined (query_memory_counters_impl sample_os) = [''stdout'', ''stderr'']"
  using counters_only_from_a_good_run [OF sample_os_reads] by blast

end
