(* ===== verification/Settings.thy ===== *)
theory Settings
  imports Cli Endpoint Memory
begin

text \<open>
  The operator's settings in the desktop interface (\<open>src/gui.rs\<close>: \<open>Settings\<close>, \<open>sanitize_endpoint\<close>,
  \<open>endpoint_userinfo\<close>) and the command line it starts the engine with (\<open>headless_command\<close>). The
  fields of \<open>MinerApp\<close> that the command reads are arguments.
\<close>

section \<open>Endpoints without credentials\<close>

text \<open>\<open>str::split_once\<close> with a string pattern.\<close>

fun split_once_str :: "str \<Rightarrow> str \<Rightarrow> (str \<times> str) option" where
  "split_once_str p [] = (if p = [] then Some ([], []) else None)"
| "split_once_str p (c # s) =
     (if starts_with (c # s) p then Some ([], drop (length p) (c # s))
      else map_option (\<lambda>(a, b). (c # a, b)) (split_once_str p s))"

definition authority_of :: "str \<Rightarrow> str" where
  "authority_of remainder = takeWhile (\<lambda>c. c \<noteq> CHR ''/'') remainder"

definition authority_tail :: "str \<Rightarrow> str" where
  "authority_tail remainder = dropWhile (\<lambda>c. c \<noteq> CHR ''/'') remainder"

definition without_userinfo :: "str \<Rightarrow> str" where
  "without_userinfo s = (case rsplit_once (CHR ''@'') s of Some (_, host) \<Rightarrow> host | None \<Rightarrow> s)"

definition sanitize_endpoint :: "str \<Rightarrow> str" where
  "sanitize_endpoint raw =
     (let trimmed = trim raw in
      case split_once_str ''://'' trimmed of
        Some (scheme, remainder) \<Rightarrow>
          scheme @ ''://'' @ without_userinfo (authority_of remainder) @ authority_tail remainder
      | None \<Rightarrow> without_userinfo trimmed)"

definition endpoint_userinfo :: "str \<Rightarrow> str option" where
  "endpoint_userinfo raw =
     (let trimmed = trim raw;
          remainder = (case split_once_str ''://'' trimmed of Some (_, r) \<Rightarrow> r | None \<Rightarrow> trimmed)
      in opt_filter (\<lambda>u. u \<noteq> [])
           (map_option fst (rsplit_once (CHR ''@'') (authority_of remainder))))"

section \<open>Settings\<close>

datatype reward_route = OwnedBridge | ExternalPool

definition persisted :: "reward_route \<Rightarrow> str" where
  "persisted r = (case r of OwnedBridge \<Rightarrow> ''owned_bridge'' | ExternalPool \<Rightarrow> ''external_pool'')"

record settings =
  st_reward_route :: reward_route
  st_pool :: str
  st_user :: str
  st_password :: str
  st_workers :: u64
  st_reconnect_secs :: u64
  st_report_secs :: u64

definition settings_default :: settings where
  "settings_default =
     \<lparr>st_reward_route = OwnedBridge, st_pool = ''127.0.0.1:3333'', st_user = ''xus-miner'',
      st_password = ''x'', st_workers = 1, st_reconnect_secs = 5, st_report_secs = 2\<rparr>"

definition settings_from_json :: "json \<Rightarrow> settings" where
  "settings_from_json v =
     (let d = settings_default in
      \<lparr>st_reward_route =
         (if get_str ''reward_route'' v = Some ''external_pool'' then ExternalPool else st_reward_route d),
       st_pool = (case get_str ''pool'' v of Some p \<Rightarrow> p | None \<Rightarrow> st_pool d),
       st_user = (case get_str ''user'' v of Some u \<Rightarrow> u | None \<Rightarrow> st_user d),
       st_password = st_password d,
       st_workers = (case get_u64 ''workers'' v of Some n \<Rightarrow> clamp n 1 64 | None \<Rightarrow> st_workers d),
       st_reconnect_secs =
         (case get_u64 ''reconnect_secs'' v of Some n \<Rightarrow> clamp n 1 3600 | None \<Rightarrow> st_reconnect_secs d),
       st_report_secs =
         (case get_u64 ''report_secs'' v of Some n \<Rightarrow> clamp n 1 3600 | None \<Rightarrow> st_report_secs d)\<rparr>)"

definition persisted_json :: "settings \<Rightarrow> json" where
  "persisted_json s = JObject
     [(''reward_route'', JString (persisted (st_reward_route s))),
      (''pool'', JString (sanitize_endpoint (trim (st_pool s)))),
      (''user'', JString (trim (st_user s))),
      (''workers'', ju64 (st_workers s)),
      (''reconnect_secs'', ju64 (st_reconnect_secs s)),
      (''report_secs'', ju64 (st_report_secs s))]"

datatype settings_error =
    BadEndpoint pool_error
  | EmptyLabel
  | LongLabel
  | PasswordLineBreak
  | LongPassword
  | WorkerRange

definition validate_settings :: "settings \<Rightarrow> settings_error + unit" where
  "validate_settings s =
     and_then (map_err BadEndpoint (validate_pool (st_pool s))) (\<lambda>_.
     and_then (ensure (trim (st_user s) \<noteq> []) EmptyLabel) (\<lambda>_.
     and_then (ensure (length (st_user s) \<le> 256) LongLabel) (\<lambda>_.
     and_then (ensure (CHR 0x0A \<notin> set (st_password s) \<and> CHR 0x0D \<notin> set (st_password s))
                 PasswordLineBreak) (\<lambda>_.
     and_then (ensure (length (st_password s) \<le> 4096) LongPassword) (\<lambda>_.
     ensure (1 \<le> st_workers s \<and> st_workers s \<le> 64) WorkerRange)))))"

section \<open>The engine's command line\<close>

definition effective_engine_workers :: "bool \<Rightarrow> bool \<Rightarrow> settings \<Rightarrow> u64" where
  "effective_engine_workers windows single_worker_recovery s =
     (if windows \<and> single_worker_recovery then 1 else st_workers s)"

definition headless_command :: "settings \<Rightarrow> u64 \<Rightarrow> bool \<Rightarrow> bool \<Rightarrow> bool \<Rightarrow> str list" where
  "headless_command s workers light_recovery scanned acknowledged =
     [''--headless'', ''--json-events'', ''--parent-pipe-watchdog'', ''--password-stdin'',
      ''--pool'', trim (st_pool s), ''--user'', trim (st_user s),
      ''--workers'', decimal (unat workers),
      ''--reconnect-secs'', decimal (unat (st_reconnect_secs s)),
      ''--report-secs'', decimal (unat (st_report_secs s))] @
     (if light_recovery then [''--randomx-light''] else []) @
     (if \<not> scanned \<and> acknowledged then [''--confirm-randomx-memory''] else [])"

section \<open>What is persisted\<close>

lemma split_once_str_Some:
  "split_once_str p s = Some (a, b) \<Longrightarrow> s = a @ p @ b"
proof (induction s arbitrary: a)
  case (Cons c s)
  then show ?case by (auto simp: starts_with_def split: if_splits) (metis append_take_drop_id)
qed (simp split: if_splits)

lemma starts_with_take: "starts_with (s @ t) p \<Longrightarrow> length p \<le> length s \<Longrightarrow> starts_with (s @ t') p"
  by (simp add: starts_with_def)

lemma split_once_str_swap:
  "split_once_str p (a @ p @ b) = Some (a, b) \<Longrightarrow> p \<noteq> [] \<Longrightarrow> split_once_str p (a @ p @ b') = Some (a, b')"
proof (induction a)
  case Nil
  then show ?case by (cases p) (auto simp: starts_with_def split: if_splits)
next
  case (Cons c a)
  have "\<not> starts_with ((c # a @ p) @ b) p" using Cons.prems(1) by (auto split: if_splits)
  then have "\<not> starts_with ((c # a @ p) @ b') p" using starts_with_take [of "c # a @ p" b' p b] by auto
  then show ?case using Cons by (auto split: if_splits)
qed

lemma without_userinfo_cases:
  obtains "CHR ''@'' \<notin> set s" "without_userinfo s = s"
  | u where "s = u @ CHR ''@'' # without_userinfo s" "CHR ''@'' \<notin> set (without_userinfo s)"
proof (cases "rsplit_once (CHR ''@'') s")
  case None
  then have "without_userinfo s = s" by (simp add: without_userinfo_def)
  moreover have "CHR ''@'' \<notin> set s" using None unfolding rsplit_once_None_iff .
  ultimately show ?thesis using that(1) by blast
next
  case (Some ab)
  then obtain u h where r: "rsplit_once (CHR ''@'') s = Some (u, h)" by (cases ab) auto
  then have "without_userinfo s = h" by (simp add: without_userinfo_def)
  moreover have "s = u @ CHR ''@'' # h \<and> CHR ''@'' \<notin> set h"
    using r unfolding rsplit_once_Some_iff .
  ultimately have "without_userinfo s = h" "s = u @ CHR ''@'' # h \<and> CHR ''@'' \<notin> set h" by blast+
  then show ?thesis using that(2) by simp
qed

lemma without_userinfo_at: "CHR ''@'' \<notin> set (without_userinfo s)"
  by (rule without_userinfo_cases [of s]) simp_all

lemma without_userinfo_suffix: "\<exists>u. s = u @ without_userinfo s"
proof (rule without_userinfo_cases [of s])
  fix u assume "s = u @ CHR ''@'' # without_userinfo s"
  then have "s = (u @ [CHR ''@'']) @ without_userinfo s" by simp
  then show ?thesis by blast
qed (metis append_Nil)

lemma userinfo_None: "CHR ''@'' \<notin> set s \<Longrightarrow> map_option fst (rsplit_once (CHR ''@'') s) = None"
  by (simp add: rsplit_once_None_iff)

lemma set_authority: "set (authority_of s) \<subseteq> set s"
  by (auto simp: authority_of_def dest: set_takeWhileD)

lemma sanitize_no_scheme:
  assumes "split_once_str ''://'' (trim raw) = None"
  shows "endpoint_userinfo (sanitize_endpoint raw) = None"
proof -
  let ?h = "without_userinfo (trim raw)"
  have no_at: "CHR ''@'' \<notin> set (trim ?h)" using without_userinfo_at [of "trim raw"] set_trim [of ?h] by blast
  let ?r = "case split_once_str ''://'' (trim ?h) of Some (_, r) \<Rightarrow> r | None \<Rightarrow> trim ?h"
  have "set ?r \<subseteq> set (trim ?h)"
    by (auto split: option.splits prod.splits dest!: split_once_str_Some)
  then have "CHR ''@'' \<notin> set (authority_of ?r)" using no_at set_authority [of ?r] by blast
  then show ?thesis using assms
    by (simp add: sanitize_endpoint_def endpoint_userinfo_def Let_def userinfo_None)
qed

lemma slash_no_space: "w \<in> set ws_chars \<Longrightarrow> CHR ''/'' \<notin> set w"
  by (auto simp: ws_chars_def)

lemma sanitize_scheme:
  assumes "split_once_str ''://'' (trim raw) = Some (scheme, remainder)"
  shows "endpoint_userinfo (sanitize_endpoint raw) = None"
proof -
  let ?host = "without_userinfo (authority_of remainder)" and ?tail = "authority_tail remainder"
  let ?san = "scheme @ ''://'' @ ?host @ ?tail"
  have t: "trim raw = scheme @ ''://'' @ remainder" by (rule split_once_str_Some [OF assms])
  obtain u where u: "authority_of remainder = u @ ?host" using without_userinfo_suffix by blast
  have rem: "remainder = (u @ ?host) @ ?tail"
    unfolding u [symmetric] by (simp add: authority_of_def authority_tail_def)
  have start: "clean_start ((scheme @ ''://'') @ ?host @ ?tail)"
    by (rule clean_start_swap [where a = remainder]) (use trim_clean [of raw] t in simp_all)
  have stop: "clean_end ((scheme @ '':/'') @ CHR ''/'' # ?host @ ?tail)"
    by (rule clean_end_swap [where a = "scheme @ ''://'' @ u"])
       (use trim_clean [of raw] t rem in simp, rule slash_no_space)
  have tr: "trim ?san = ?san" using start stop by (intro trim_id) simp_all
  have sp: "split_once_str ''://'' ?san = Some (scheme, ?host @ ?tail)"
    by (rule split_once_str_swap [where b = remainder]) (use assms t in simp_all)
  have "set ?host \<subseteq> set (authority_of remainder)" by (subst u) simp
  then have no_slash: "CHR ''/'' \<notin> set ?host" by (auto simp: authority_of_def dest: set_takeWhileD)
  have "?tail = [] \<or> hd ?tail = CHR ''/''"
    using hd_dropWhile [of "\<lambda>c. c \<noteq> CHR ''/''" remainder] by (auto simp: authority_tail_def)
  then have "authority_of (?host @ ?tail) = ?host"
    using no_slash by (cases ?tail) (auto simp: authority_of_def takeWhile_append takeWhile_eq_all_conv)
  then show ?thesis using assms tr sp without_userinfo_at [of "authority_of remainder"]
    by (simp add: sanitize_endpoint_def endpoint_userinfo_def Let_def userinfo_None)
qed

lemma sanitized_endpoint_clean: "endpoint_userinfo (sanitize_endpoint raw) = None"
  using sanitize_no_scheme sanitize_scheme by (cases "split_once_str ''://'' (trim raw)") auto

lemma split_known_scheme:
  "split_once_str ''://'' (''stratum+tcp://'' @ r) = Some (''stratum+tcp'', r)"
  "split_once_str ''://'' (''tcp://'' @ r) = Some (''tcp'', r)"
  "split_once_str ''://'' (''rpc://'' @ r) = Some (''rpc'', r)"
  "split_once_str ''://'' (''http://'' @ r) = Some (''http'', r)"
  by (simp_all add: starts_with_def)

lemma strip_scheme_cases:
  obtains "strip_scheme t = t" | p where "p \<in> {''stratum+tcp://'', ''tcp://'', ''rpc://'', ''http://''}"
    "t = p @ strip_scheme t"
proof (cases "strip_scheme t = t")
  case False
  then have "\<exists>p \<in> {''stratum+tcp://'', ''tcp://'', ''rpc://'', ''http://''}. strip_prefix p t = Some (strip_scheme t)"
    by (auto simp: strip_scheme_def or_else_def split: option.splits)
  then show thesis using that(2) unfolding strip_prefix_Some_iff by blast
qed

text \<open>An endpoint that passes the checks carries no credentials.\<close>

lemma validated_no_userinfo:
  assumes "validate_pool raw = Inr ()"
  shows "endpoint_userinfo raw = None"
proof -
  let ?t = "trim raw"
  define r where "r = (case split_once_str ''://'' ?t of Some (_, r) \<Rightarrow> r | None \<Rightarrow> ?t)"
  have no_at: "CHR ''@'' \<notin> set (strip_scheme ?t)" using assms by (simp add: validate_pool_iff)
  have "set r \<subseteq> set (strip_scheme ?t)"
  proof (rule strip_scheme_cases [of ?t])
    assume "strip_scheme ?t = ?t"
    then show ?thesis by (auto simp: r_def split: option.splits prod.splits dest!: split_once_str_Some)
  next
    fix p assume "p \<in> {''stratum+tcp://'', ''tcp://'', ''rpc://'', ''http://''}" "?t = p @ strip_scheme ?t"
    then have "\<exists>s. split_once_str ''://'' ?t = Some (s, strip_scheme ?t)"
      using split_known_scheme by (metis empty_iff insert_iff)
    then have "r = strip_scheme ?t" by (auto simp: r_def)
    then show ?thesis by simp
  qed
  then have "CHR ''@'' \<notin> set (authority_of r)" using no_at set_authority [of r] by blast
  then show ?thesis by (simp add: endpoint_userinfo_def Let_def userinfo_None r_def)
qed

lemma clamp_range: "(lo :: u64) \<le> hi \<Longrightarrow> lo \<le> clamp n lo hi \<and> clamp n lo hi \<le> hi"
  by (auto simp: clamp_def not_less)

text \<open>
  C27: No credential reaches the settings file. What is saved has an endpoint without user information,
  whatever the operator typed, and no entry for the password; what is loaded from any file is
  within the ranges of the command line and has the default password.
\<close>
theorem settings_file_holds_no_credentials:
  "(\<exists>p. jget ''pool'' (persisted_json s) = Some (JString p) \<and> endpoint_userinfo p = None) \<and>
   jget ''password'' (persisted_json s) = None \<and>
   st_password (settings_from_json v) = ''x'' \<and>
   1 \<le> st_workers (settings_from_json v) \<and> st_workers (settings_from_json v) \<le> 64 \<and>
   1 \<le> st_reconnect_secs (settings_from_json v) \<and> st_reconnect_secs (settings_from_json v) \<le> 3600 \<and>
   1 \<le> st_report_secs (settings_from_json v) \<and> st_report_secs (settings_from_json v) \<le> 3600"
proof (intro conjI)
  show "\<exists>p. jget ''pool'' (persisted_json s) = Some (JString p) \<and> endpoint_userinfo p = None"
    by (simp add: persisted_json_def sanitized_endpoint_clean)
qed (auto simp: persisted_json_def settings_from_json_def settings_default_def clamp_range Let_def
       split: option.split)

section \<open>Starting the engine\<close>

lemma parse_u64_decimal: "parse_u64 (decimal (unat n)) = Some n"
  unfolding parse_u64_def parse_decimal [OF unat_u64_less] by simp

lemma parse_u64_flag_decimal:
  "lo \<le> n \<Longrightarrow> n \<le> hi \<Longrightarrow> parse_u64_flag flag (decimal (unat n)) lo hi = Inr n"
  by (simp add: parse_u64_flag_def parse_u64_decimal)

lemma decimal_no_flag: "decimal n \<notin> set engine_flags \<and> decimal n \<noteq> ''--gui''"
  using decimal_digits [of n] by (auto simp: engine_flags_def is_ascii_digit_def)

lemma decimal_switch: "''--confirm-randomx-memory'' \<noteq> decimal n"
  using decimal_no_flag [of n] by (auto simp: engine_flags_def)

text \<open>What the engine makes of the interface's command line.\<close>

definition launched :: "settings \<Rightarrow> u64 \<Rightarrow> bool \<Rightarrow> config" where
  "launched s workers light_recovery =
     \<lparr>cf_pool = trim (st_pool s), cf_user = trim (st_user s), cf_password = st_password s,
      cf_workers = workers, cf_reconnect_secs = st_reconnect_secs s,
      cf_report_secs = st_report_secs s, cf_randomx_light = light_recovery\<rparr>"

lemma trimmed_pool_is_no_flag:
  assumes "validate_pool raw = Inr ()"
  shows "CHR '':'' \<in> set (trim raw)"
proof -
  from assms obtain host port where "names_host_and_port (strip_scheme (trim raw)) host port"
    using validate_pool_iff by blast
  then have "CHR '':'' \<in> set (strip_scheme (trim raw))" by (auto simp: names_host_and_port_def)
  moreover have "set (strip_scheme t) \<subseteq> set t" for t
    by (auto simp: strip_scheme_def or_else_def strip_prefix_Some_iff split: option.splits)
  ultimately show ?thesis by blast
qed

lemma launched_options:
  assumes "1 \<le> workers" "workers \<le> 64" "1 \<le> st_reconnect_secs s" "st_reconnect_secs s \<le> 3600"
    "1 \<le> st_report_secs s" "st_report_secs s \<le> 3600"
  shows "parse_flags ([''--pool'', trim (st_pool s), ''--user'', trim (st_user s),
      ''--workers'', decimal (unat workers), ''--reconnect-secs'', decimal (unat (st_reconnect_secs s)),
      ''--report-secs'', decimal (unat (st_report_secs s))] @
      (if light then [''--randomx-light''] else [])) config_default =
    Inr ((launched s workers light)\<lparr>cf_password := ''x''\<rparr>)"
  using assms
  by (simp add: takes_value_def set_option_def bare_option_def parse_u64_flag_decimal launched_def
      config_default_def)

text \<open>
  C26: The engine runs what the operator set. For validated settings with intervals in range and a worker
  label that is not itself one of the engine's switches, the command line of the interface, with
  the password on standard input, starts a headless engine with exactly the trimmed endpoint and
  label, the password, the worker count, the intervals and the recovery mode of the interface,
  with JSON events and the parent watchdog, and with the memory confirmation exactly when the scan
  is unavailable and the operator acknowledged it.
\<close>
theorem launch_round_trip:
  assumes "validate_settings s = Inr ()"
    and "1 \<le> workers" "workers \<le> 64" "1 \<le> st_reconnect_secs s" "st_reconnect_secs s \<le> 3600"
      "1 \<le> st_report_secs s" "st_report_secs s \<le> 3600"
    and "trim (st_user s) \<notin> set engine_flags" "trim (st_user s) \<noteq> ''--gui''"
    and "utf8_valid (st_password s)"
  shows "main_args (headless_command s workers light scanned acknowledged) (Inr (st_password s)) =
    RunHeadless (launched s workers light) True True (\<not> scanned \<and> acknowledged)"
proof -
  let ?raw = "headless_command s workers light scanned acknowledged"
  have v: "validate_pool (st_pool s) = Inr ()" "trim (st_user s) \<noteq> []" "length (st_password s) \<le> 4096"
    using assms(1) by (auto simp: validate_settings_def result_simps)
  have colon: "CHR '':'' \<in> set (trim (st_pool s))" by (rule trimmed_pool_is_no_flag [OF v(1)])
  then have pool: "trim (st_pool s) \<notin> set engine_flags" "trim (st_pool s) \<noteq> ''--gui''"
      "trim (st_pool s) \<noteq> []"
    by (auto simp: engine_flags_def)
  have gui: "''--gui'' \<notin> set ?raw" "?raw \<noteq> []"
    using pool(2) assms(9) not_sym [OF conjunct2 [OF decimal_no_flag]] by (auto simp: headless_command_def)
  have flags: "''--json-events'' \<in> set ?raw" "''--password-stdin'' \<in> set ?raw"
      "''--parent-pipe-watchdog'' \<in> set ?raw"
    by (auto simp: headless_command_def)
  have confirm: "''--confirm-randomx-memory'' \<in> set ?raw \<longleftrightarrow> \<not> scanned \<and> acknowledged"
    using pool(1) assms(8) decimal_switch by (auto simp: headless_command_def engine_flags_def)
  have "List.filter (\<lambda>a. a \<notin> set engine_flags) ?raw =
      [''--pool'', trim (st_pool s), ''--user'', trim (st_user s), ''--workers'', decimal (unat workers),
       ''--reconnect-secs'', decimal (unat (st_reconnect_secs s)),
       ''--report-secs'', decimal (unat (st_report_secs s))] @
      (if light then [''--randomx-light''] else [])"
    using pool(1) assms(8) decimal_no_flag by (simp add: headless_command_def) (simp add: engine_flags_def)
  then have rest: "parse_args_from (List.filter (\<lambda>a. a \<notin> set engine_flags) ?raw) =
      Inr ((launched s workers light)\<lparr>cf_password := ''x''\<rparr>)"
    using launched_options [OF assms(2-7)] pool(3) v(2)
    by (simp add: parse_args_from_def launched_def)
  have "read_password (Inr (st_password s)) = Inr (st_password s)"
    using v(3) assms(10) by (simp add: read_password_def)
  then show ?thesis
    using gui flags confirm rest by (simp add: main_args_def Let_def launched_def)
qed

lemma default_settings_ok:
  "trim ''127.0.0.1:3333'' = ''127.0.0.1:3333''" "validate_pool ''127.0.0.1:3333'' = Inr ()"
proof -
  show t: "trim ''127.0.0.1:3333'' = ''127.0.0.1:3333''" by code_simp
  have s: "strip_scheme ''127.0.0.1:3333'' = ''127.0.0.1'' @ CHR '':'' # ''3333''" by code_simp
  have w: "has_whitespace ''127.0.0.1:3333'' = False" by code_simp
  have "parse_unsigned (2 ^ 16) ''3333'' = Some 3333"
    by (simp add: parse_unsigned_def strip_prefix_def starts_with_def is_ascii_digit_def digits_val_def)
  then have "names_host_and_port (''127.0.0.1'' @ CHR '':'' # ''3333'') ''127.0.0.1'' 3333"
    unfolding names_host_and_port_def by (intro conjI exI [of _ "''3333''"]) simp_all
  then show "validate_pool ''127.0.0.1:3333'' = Inr ()"
    unfolding validate_pool_iff t s using w by (intro conjI) auto
qed

lemma default_settings_valid: "validate_settings settings_default = Inr ()"
proof -
  have "trim ''xus-miner'' = ''xus-miner''" by code_simp
  then show ?thesis by (simp add: validate_settings_def settings_default_def default_settings_ok)
qed

lemma launch_round_trip_witness:
  "main_args (headless_command settings_default 1 False True False) (Inr ''x'') =
    RunHeadless (launched settings_default 1 False) True True False"
proof -
  have t: "trim ''xus-miner'' = ''xus-miner''" by code_simp
  show ?thesis using default_settings_valid
    launch_round_trip [of settings_default 1 False True False]
    by (simp add: settings_default_def t default_settings_ok engine_flags_def)
qed

text \<open>
  The condition on the label is needed: an operator label that reads like a switch is accepted by
  the settings check, and the engine's process then opens a second interface instead of mining.
\<close>

lemma label_read_as_switch:
  "\<exists>s. validate_settings s = Inr () \<and>
    main_args (headless_command s 1 False True False) (Inr (st_password s)) = RunGui"
proof -
  let ?s = "settings_default\<lparr>st_user := ''--gui''\<rparr>"
  have t: "trim ''--gui'' = ''--gui''" by code_simp
  have "validate_settings ?s = Inr ()"
    by (simp add: validate_settings_def settings_default_def t default_settings_ok)
  moreover have "main_args (headless_command ?s 1 False True False) (Inr (st_password ?s)) = RunGui"
    by (simp add: main_args_def headless_command_def t)
  ultimately show ?thesis by blast
qed

end
