(* ===== verification/Views.thy ===== *)
theory Views
  imports ChainFeed "HOL-Library.Signed_Division"
begin

text \<open>
  What the desktop interface (\<open>src/gui.rs\<close>) reads out of a \<open>block_flow\<close> event and derives from
  it: the strict parser of the snapshot, the backlog's state and trend, the bars of the
  block-time graph and their statistics. Instants are nanoseconds of the monotonic clock.
\<close>

section \<open>Parsing the snapshot\<close>

datatype mine_basis = BasisHash | BasisHeight | BasisUnverified

definition mine_basis_parse :: "json option \<Rightarrow> mine_basis option" where
  "mine_basis_parse value =
     (let s = Option.bind value as_str
      in if s = Some ''hash'' then Some BasisHash
         else if s = Some ''height'' then Some BasisHeight
         else if s = Some ''unverified'' then Some BasisUnverified
         else None)"

record block_flow_tile =
  bf_height :: u64
  bf_tx_count :: "u64 option"
  bf_timestamp_ms :: "u64 option"
  bf_mine :: bool
  bf_mine_basis :: "mine_basis option"

record projected_flow_tile =
  pf_tx_count :: u64
  pf_fee_min_grains :: u64
  pf_fee_max_grains :: u64

record backlog_view =
  bv_tx_count :: u64
  bv_max_block_txs :: u64
  bv_depth_blocks :: u64
  bv_blocks :: "projected_flow_tile list"

record block_flow_view =
  fv_tip_height :: "u64 option"
  fv_template_height :: "u64 option"
  fv_template_tx_count :: "u64 option"
  fv_fee_grains :: "u64 option"
  fv_backlog :: "backlog_view option"
  fv_projected :: "projected_flow_tile list"
  fv_recent :: "block_flow_tile list"

definition MAX_PROJECTED_FLOW_TILES :: nat where "MAX_PROJECTED_FLOW_TILES = 6"
definition MAX_BACKLOG_VIEW_BLOCKS :: nat where "MAX_BACKLOG_VIEW_BLOCKS = 24"
definition MAX_RECENT_TILES :: nat where "MAX_RECENT_TILES = 40"
definition BLOCK_TIME_GRAPH_BARS :: nat where "BLOCK_TIME_GRAPH_BARS = 32"

definition projected_tile_parse :: "json \<Rightarrow> projected_flow_tile option" where
  "projected_tile_parse tile =
     Option.bind (get_u64 ''tx_count'' tile) (\<lambda>tx_count.
     Option.bind (get_u64 ''fee_min_grains'' tile) (\<lambda>fee_min.
     Option.bind (get_u64 ''fee_max_grains'' tile) (\<lambda>fee_max.
     Some \<lparr>pf_tx_count = tx_count, pf_fee_min_grains = fee_min, pf_fee_max_grains = fee_max\<rparr>)))"

definition recent_tile_parse :: "json \<Rightarrow> block_flow_tile option" where
  "recent_tile_parse tile =
     Option.bind (get_u64 ''height'' tile) (\<lambda>height.
     Some \<lparr>bf_height = height, bf_tx_count = get_u64 ''tx_count'' tile,
       bf_timestamp_ms = get_u64 ''timestamp_ms'' tile,
       bf_mine = (case get_bool ''mine'' tile of Some b \<Rightarrow> b | None \<Rightarrow> False),
       bf_mine_basis = mine_basis_parse (jget ''mine_basis'' tile)\<rparr>)"

definition backlog_view_parse :: "json option \<Rightarrow> backlog_view option" where
  "backlog_view_parse value =
     Option.bind value (\<lambda>value.
     Option.bind (get_array ''blocks'' value) (\<lambda>blocks_raw.
     if length blocks_raw > MAX_BACKLOG_VIEW_BLOCKS then None
     else
       Option.bind (collect_opt (List.map projected_tile_parse blocks_raw)) (\<lambda>blocks.
       Option.bind (get_u64 ''tx_count'' value) (\<lambda>tx_count.
       Option.bind (get_u64 ''max_block_txs'' value) (\<lambda>max_block_txs.
       Option.bind (get_u64 ''depth_blocks'' value) (\<lambda>depth_blocks.
       Some \<lparr>bv_tx_count = tx_count, bv_max_block_txs = max_block_txs,
         bv_depth_blocks = depth_blocks, bv_blocks = blocks\<rparr>))))))"

definition block_flow_from_telemetry :: "json \<Rightarrow> block_flow_view" where
  "block_flow_from_telemetry value =
     \<lparr>fv_tip_height = get_u64 ''tip_height'' value,
      fv_template_height = Option.bind (pointer2 ''template'' ''height'' value) as_u64,
      fv_template_tx_count = Option.bind (pointer2 ''template'' ''tx_count'' value) as_u64,
      fv_fee_grains = get_u64 ''fee_grains'' value,
      fv_backlog = backlog_view_parse (jget ''backlog'' value),
      fv_projected =
        (case get_array ''projected'' value of None \<Rightarrow> []
         | Some ts \<Rightarrow> take MAX_PROJECTED_FLOW_TILES (List.map_filter projected_tile_parse ts)),
      fv_recent =
        (case get_array ''recent'' value of None \<Rightarrow> []
         | Some ts \<Rightarrow> take MAX_RECENT_TILES (List.map_filter recent_tile_parse ts))\<rparr>"

text \<open>The line of text under a block: \<open>mine_attribution_line\<close>.\<close>

definition mine_attribution_line :: "bool \<Rightarrow> mine_basis option \<Rightarrow> str" where
  "mine_attribution_line mine basis =
     (if mine \<and> basis = Some BasisHash then
        black_star @ '' YOURS '' @ em_dash @
        '' accepted submission; the node-disclosed block hash matches your sealed hash''
      else if mine \<and> basis = Some BasisHeight then
        black_star @ '' YOURS '' @ em_dash @
        '' accepted submission at this height; the node disclosed no block hash to compare''
      else if mine then
        black_star @ '' YOURS '' @ em_dash @
        '' accepted submission (node-disclosed hash match, or accepted height where the node discloses no hash)''
      else if basis = Some BasisUnverified then
        black_star @ ''? possibly yours '' @ em_dash @
        '' height matches your accepted submission, but no block detail was available to hash-check it''
      else ''Network block'')"

section \<open>The backlog\<close>

datatype backlog_state_kind =
    AwaitingData | Unavailable | Empty | Clear u64 | Deep

definition backlog_state :: "block_flow_view option \<Rightarrow> backlog_state_kind" where
  "backlog_state flow =
     (case flow of None \<Rightarrow> AwaitingData
      | Some flow \<Rightarrow>
          (case fv_backlog flow of None \<Rightarrow> Unavailable
           | Some backlog \<Rightarrow>
               if bv_tx_count backlog = 0 then Empty
               else if bv_depth_blocks backlog = 0 then Clear (bv_tx_count backlog)
               else Deep))"

type_synonym instant = nat

definition nanos_per_sec :: nat where "nanos_per_sec = 10 ^ 9"
definition MAX_BACKLOG_TREND_SAMPLES :: nat where "MAX_BACKLOG_TREND_SAMPLES = 240"
definition BACKLOG_TREND_WINDOW :: nat where "BACKLOG_TREND_WINDOW = 10 * 60 * nanos_per_sec"
definition BACKLOG_TREND_MIN_SPAN :: nat where "BACKLOG_TREND_MIN_SPAN = 30 * nanos_per_sec"

text \<open>\<open>i64::try_from(d).unwrap_or(if d > 0 { MAX } else { MIN })\<close>.\<close>

definition saturate_i64 :: "int \<Rightarrow> int" where
  "saturate_i64 d =
     (if - (2 ^ 63) \<le> d \<and> d < 2 ^ 63 then d else if d > 0 then 2 ^ 63 - 1 else - (2 ^ 63))"

record backlog_trend_view =
  tr_delta :: int
  tr_span :: nat

definition backlog_trend :: "(instant \<times> u64) list \<Rightarrow> instant \<Rightarrow> backlog_trend_view option" where
  "backlog_trend history now =
     (if history = [] then None
      else
        let (newest_at, newest) = last history
        in case find (\<lambda>(t, _). now - t \<le> BACKLOG_TREND_WINDOW) history of
             None \<Rightarrow> None
           | Some (oldest_at, oldest) \<Rightarrow>
               let span = newest_at - oldest_at
               in if span < BACKLOG_TREND_MIN_SPAN then None
                  else Some \<lparr>tr_delta = saturate_i64 (uint newest - uint oldest), tr_span = span\<rparr>)"

section \<open>The block-time graph\<close>

text \<open>An interval is an \<open>i64\<close> number of milliseconds.\<close>

record interval_bar =
  ib_height :: u64
  ib_interval_ms :: "int option"
  ib_timestamp_ms :: "u64 option"
  ib_tx_count :: "u64 option"
  ib_mine :: bool
  ib_mine_basis :: "mine_basis option"

text \<open>The closure over \<open>windows(2)\<close>.\<close>

definition interval_bar_of :: "block_flow_tile \<times> block_flow_tile \<Rightarrow> interval_bar option" where
  "interval_bar_of = (\<lambda>(block, parent).
     if checked_add (bf_height parent) 1 \<noteq> Some (bf_height block) then None
     else Some \<lparr>ib_height = bf_height block,
       ib_interval_ms =
         (case (bf_timestamp_ms block, bf_timestamp_ms parent) of
            (Some this, Some previous) \<Rightarrow> Some (saturate_i64 (uint this - uint previous))
          | _ \<Rightarrow> None),
       ib_timestamp_ms = bf_timestamp_ms block, ib_tx_count = bf_tx_count block,
       ib_mine = bf_mine block, ib_mine_basis = bf_mine_basis block\<rparr>)"

definition block_interval_bars :: "block_flow_tile list \<Rightarrow> interval_bar list" where
  "block_interval_bars recent =
     (let bars = rev (List.map_filter interval_bar_of (zip recent (tl recent)))
      in if length bars > BLOCK_TIME_GRAPH_BARS
         then drop (length bars - BLOCK_TIME_GRAPH_BARS) bars else bars)"

text \<open>
  The axis: \<open>saturating_mul\<close> on \<open>i64\<close> for non-negative arguments. The loop starts at 1000; the
  test for a magnitude that is not positive only makes the function total.
\<close>

definition i64_max :: int where "i64_max = 2 ^ 63 - 1"

definition saturating_mul_i64 :: "int \<Rightarrow> int \<Rightarrow> int" where
  "saturating_mul_i64 a b = min (a * b) i64_max"

function nice_loop :: "int \<Rightarrow> int \<Rightarrow> int" where
  "nice_loop target magnitude =
     (case find (\<lambda>candidate. candidate \<ge> target) (List.map (saturating_mul_i64 magnitude) [1, 2, 5]) of
        Some candidate \<Rightarrow> candidate
      | None \<Rightarrow>
          let magnitude' = saturating_mul_i64 magnitude 10
          in if magnitude' \<ge> i64_max div 10 \<or> magnitude \<le> 0 then i64_max
             else nice_loop target magnitude')"
  by pat_completeness auto
termination
  by (relation "measure (\<lambda>(_, magnitude). nat (i64_max - magnitude))")
     (auto simp: i64_max_def saturating_mul_i64_def)

declare nice_loop.simps [simp del]

definition nice_ceiling_ms :: "int \<Rightarrow> int" where
  "nice_ceiling_ms max_ms = nice_loop (max max_ms 1000) 1000"

record interval_window_stats_view =
  iw_median_ms :: int
  iw_mean_ms :: int
  iw_known :: nat
  iw_total :: nat

text \<open>\<open>i128\<close> division truncates; \<open>as i64\<close> keeps the low 64 bits.\<close>

definition wrap_i64 :: "int \<Rightarrow> int" where
  "wrap_i64 i = sint (of_int i :: u64)"

definition interval_window_stats :: "interval_bar list \<Rightarrow> interval_window_stats_view option" where
  "interval_window_stats bars =
     (let known = sort (List.map_filter ib_interval_ms bars)
      in if known = [] then None
         else
           let middle = length known div 2;
               median_ms = (if length known mod 2 = 1 then known ! middle
                 else wrap_i64 ((known ! (middle - 1) + known ! middle) sdiv 2));
               mean_ms = wrap_i64 (sum_list known sdiv int (length known))
           in Some \<lparr>iw_median_ms = median_ms, iw_mean_ms = mean_ms,
                iw_known = length known, iw_total = length bars\<rparr>)"

text \<open>\<open>format_signed_ms\<close>; the minus sign is U+2212.\<close>

definition minus_sign :: str where "minus_sign = [CHR 0xE2, CHR 0x88, CHR 0x92]"

definition pad2 :: "nat \<Rightarrow> str" where
  "pad2 n = (let d = decimal n in if length d < 2 then ''0'' @ d else d)"

definition format_signed_ms :: "int \<Rightarrow> str" where
  "format_signed_ms ms =
     (let sign = (if ms < 0 then minus_sign else []);
          seconds = nat \<bar>ms\<bar> div 1000
      in if seconds < 60 then sign @ decimal seconds @ ''s''
         else if seconds < 3600
           then sign @ decimal (seconds div 60) @ ''m '' @ pad2 (seconds mod 60) @ ''s''
         else sign @ decimal (seconds div 3600) @ ''h '' @ pad2 (seconds div 60 mod 60) @ ''m'')"

section \<open>The view is the engine's state\<close>

definition basis_of :: "mine_mark \<Rightarrow> mine_basis option" where
  "basis_of m = (case m of MarkHash \<Rightarrow> Some BasisHash | MarkHeight \<Rightarrow> Some BasisHeight
     | UnverifiedHeight \<Rightarrow> Some BasisUnverified | NotMine \<Rightarrow> None)"

definition view_tile :: "tile \<Rightarrow> block_flow_tile" where
  "view_tile t = \<lparr>bf_height = tile_height t, bf_tx_count = tile_tx_count t,
     bf_timestamp_ms = tile_timestamp_ms t, bf_mine = proven (tile_mine t),
     bf_mine_basis = basis_of (tile_mine t)\<rparr>"

definition view_projected :: "projected \<Rightarrow> projected_flow_tile" where
  "view_projected p = \<lparr>pf_tx_count = proj_tx_count p, pf_fee_min_grains = proj_fee_min p,
     pf_fee_max_grains = proj_fee_max p\<rparr>"

definition view_histogram :: "histogram \<Rightarrow> projected list \<Rightarrow> backlog_view" where
  "view_histogram h ps = \<lparr>bv_tx_count = hist_tx_count h, bv_max_block_txs = hist_max_block_txs h,
     bv_depth_blocks = backlog_depth h, bv_blocks = List.map view_projected ps\<rparr>"

lemma map_filter_parsed: "(\<And>x. x \<in> set xs \<Longrightarrow> p (f x) = Some (g x)) \<Longrightarrow>
  List.map_filter p (List.map f xs) = List.map g xs"
  by (induction xs) (auto simp: map_filter_simps)

lemma projected_tile_parse [simp]: "projected_tile_parse (projected_json p) = Some (view_projected p)"
  by (simp add: projected_tile_parse_def projected_json_def view_projected_def get_u64_def)

lemma as_str_basis: "mine_basis_parse (Some (jopt JString (mark_basis m))) = basis_of m"
  by (cases m) (simp_all add: mine_basis_parse_def mark_basis_def basis_of_def)

lemma recent_tile_parse [simp]: "recent_tile_parse (tile_json t) = Some (view_tile t)"
  by (simp add: recent_tile_parse_def tile_json_def view_tile_def json_access as_str_basis)

lemma backlog_view_parse [simp]:
  assumes "length ps \<le> 24" "backlog_blocks h = Some ps"
  shows "backlog_view_parse (mempool_backlog_json (Some h)) = Some (view_histogram h ps)"
proof -
  have "collect_opt (List.map (projected_tile_parse \<circ> projected_json) ps) = Some (List.map view_projected ps)"
    by (simp add: collect_opt_Some_iff comp_def)
  then show ?thesis using assms
    by (simp add: backlog_view_parse_def mempool_backlog_json_def view_histogram_def json_access
        MAX_BACKLOG_VIEW_BLOCKS_def)
qed

lemma length_tiles: "length (tiles r tip s) \<le> 33"
proof -
  have "length (tiles r tip s) = length (rev [unat tip - 32 ..< Suc (unat tip)])"
    using strip_heights [of r tip s] by (metis length_map)
  then show ?thesis by simp
qed

lemma block_flow_read_back:
  "\<exists>e. block_flow_event tip th ttx fee reply r s = Some e \<and>
     block_flow_from_telemetry e =
       \<lparr>fv_tip_height = Some tip, fv_template_height = Some th, fv_template_tx_count = ttx,
        fv_fee_grains = Option.bind fee fee_floor_grains,
        fv_backlog = Option.bind (Option.bind reply mempool_histogram)
          (\<lambda>h. map_option (view_histogram h) (backlog_blocks h)),
        fv_projected = (case Option.bind (Option.bind reply mempool_histogram) projected_blocks of
           None \<Rightarrow> [] | Some ps \<Rightarrow> List.map view_projected ps),
        fv_recent = List.map view_tile (tiles r tip s)\<rparr>"
proof -
  have recent: "take MAX_RECENT_TILES (List.map view_tile (tiles r tip s)) = List.map view_tile (tiles r tip s)"
    using length_tiles [of r tip s] by (simp add: MAX_RECENT_TILES_def)
  show ?thesis
  proof (cases "Option.bind reply mempool_histogram")
    case None
    then show ?thesis
      by (simp add: block_flow_event_def mempool_backlog_json_def block_flow_from_telemetry_def
          json_access map_filter_parsed recent backlog_view_parse_def)
  next
    case (Some h)
    then have ok: "histogram_ok h" using mempool_histogram_ok by (auto simp: Option.bind_eq_Some_conv)
    obtain ps qs where ps: "projected_blocks h = Some ps" "length ps \<le> 6"
      and qs: "backlog_blocks h = Some qs" "length qs \<le> 24"
      using packed_pending_blocks_chunks [OF ok] pending_block_counts(1) [OF ok, of 6]
        pending_block_counts(1) [OF ok, of 24]
      by (simp add: projected_blocks_def backlog_blocks_def MAX_PROJECTED_BLOCKS_def MAX_BACKLOG_BLOCKS_def)
    obtain b where b: "mempool_backlog_json (Some h) = Some b"
      and parsed: "backlog_view_parse (Some b) = Some (view_histogram h qs)"
      using backlog_view_parse [OF qs(2,1)] by (cases "mempool_backlog_json (Some h)")
        (auto simp: backlog_view_parse_def)
    show ?thesis using Some ps qs b parsed
      by (simp add: block_flow_event_def block_flow_from_telemetry_def
          json_access map_filter_parsed recent MAX_PROJECTED_FLOW_TILES_def)
  qed
qed

text \<open>
  C38: What the interface shows is what the engine knows: parsing the \<open>block_flow\<close> event of the
  engine gives back its tip, template, fee, every pending block, the exact backlog, and every
  tile of the strip with its attribution, with nothing cut off by the bounds of the parser;
  a histogram the node did not serve reads as unavailable.
\<close>

theorem block_flow_round_trip:
  "\<exists>e. block_flow_event tip th ttx fee reply r s = Some e \<and>
     block_flow_from_telemetry e =
       \<lparr>fv_tip_height = Some tip, fv_template_height = Some th, fv_template_tx_count = ttx,
        fv_fee_grains = Option.bind fee fee_floor_grains,
        fv_backlog = Option.bind (Option.bind reply mempool_histogram)
          (\<lambda>h. map_option (view_histogram h) (backlog_blocks h)),
        fv_projected = (case Option.bind (Option.bind reply mempool_histogram) projected_blocks of
           None \<Rightarrow> [] | Some ps \<Rightarrow> List.map view_projected ps),
        fv_recent = List.map view_tile (tiles r tip s)\<rparr>"
  by (rule block_flow_read_back)

section \<open>The graph\<close>

lemma interval_bar_heights:
  assumes "List.map (unat \<circ> bf_height) xs = rev [a ..< n]"
  shows "List.map (unat \<circ> ib_height) (List.map_filter interval_bar_of (zip xs (tl xs))) = rev [Suc a ..< n]"
  using assms
proof (induction n arbitrary: xs)
  case (Suc m)
  show ?case
  proof (cases "a < m")
    case True
    then have "rev [a ..< Suc m] = m # rev [a ..< m]" by simp
    with Suc.prems obtain x ys where x: "xs = x # ys" "unat (bf_height x) = m"
      and ys: "List.map (unat \<circ> bf_height) ys = rev [a ..< m]" by (cases xs) (auto simp: comp_def simp del: upt_Suc)
    have "rev [a ..< m] = (m - 1) # rev [a ..< m - 1]" using True by (cases m) simp_all
    with ys obtain y zs where y: "ys = y # zs" "unat (bf_height y) = m - 1" by (cases ys) (auto simp: comp_def)
    note xs = x(1) [unfolded y(1)] and h = x(2) y(2) and ys = ys [unfolded y(1)]
    have "interval_bar_of (x, y) \<noteq> None"
      using h True by (simp add: interval_bar_of_def u64_ops)
    then obtain b where b: "interval_bar_of (x, y) = Some b" by blast
    then have "ib_height b = bf_height x" by (auto simp: interval_bar_of_def split: if_splits)
    then show ?thesis using Suc.IH [OF ys] True h by (simp add: xs b map_filter_simps)
  next
    case False
    then have "length xs \<le> 1" using arg_cong [OF Suc.prems, of length] by simp
    then have "zip xs (tl xs) = []" by (cases xs) auto
    then show ?thesis using False unfolding \<open>zip xs (tl xs) = []\<close> by (simp add: map_filter_simps)
  qed
qed (simp add: map_filter_simps)

lemma interval_bar_members:
  assumes "bar \<in> set (List.map_filter interval_bar_of (zip xs (tl xs)))"
  shows "\<exists>b \<in> set xs. \<exists>p \<in> set xs. interval_bar_of (b, p) = Some bar"
proof -
  from assms obtain b p where "(b, p) \<in> set (zip xs (tl xs))" "interval_bar_of (b, p) = Some bar"
    by (auto simp: map_filter_def)
  moreover from this have "b \<in> set xs" "p \<in> set (tl xs)"
    by (auto dest: set_zip_leftD set_zip_rightD)
  moreover from this have "p \<in> set xs" by (cases xs) auto
  ultimately show ?thesis by blast
qed

text \<open>
  The graph of a snapshot of the engine has one bar for every block of the strip that has its
  parent in it, oldest first, at most 32; each shows the exact difference (bounded to an
  \<open>i64\<close>) of the two time stamps the node disclosed, and a gap when one is missing.
\<close>

theorem block_time_graph_exact:
  "let recent = List.map view_tile (tiles r tip s); bars = block_interval_bars recent
   in List.map (unat \<circ> ib_height) bars = [Suc (unat tip - 32) ..< Suc (unat tip)] \<and>
      (\<forall>bar \<in> set bars. \<exists>b \<in> set recent. \<exists>p \<in> set recent.
         ib_height bar = bf_height b \<and> unat (bf_height b) = unat (bf_height p) + 1 \<and>
         ib_interval_ms bar = (case (bf_timestamp_ms b, bf_timestamp_ms p) of
           (Some t, Some u) \<Rightarrow> Some (saturate_i64 (uint t - uint u)) | _ \<Rightarrow> None))"
proof -
  let ?recent = "List.map view_tile (tiles r tip s)"
  let ?bars = "List.map_filter interval_bar_of (zip ?recent (tl ?recent))"
  have "List.map (unat \<circ> bf_height) ?recent = rev [unat tip - 32 ..< Suc (unat tip)]"
    using strip_heights [of r tip s] by (simp add: view_tile_def comp_def)
  note h = interval_bar_heights [OF this]
  have "length ?bars = length [Suc (unat tip - 32) ..< Suc (unat tip)]"
    using arg_cong [OF h, of length] by (simp only: length_map length_rev)
  then have "length ?bars \<le> 32" by (simp del: upt_Suc)
  then have bars: "block_interval_bars ?recent = rev ?bars"
    by (simp add: block_interval_bars_def Let_def BLOCK_TIME_GRAPH_BARS_def)
  have "List.map (unat \<circ> ib_height) (rev ?bars) = [Suc (unat tip - 32) ..< Suc (unat tip)]"
    using h by (metis rev_map rev_rev_ident)
  moreover have "\<exists>b \<in> set ?recent. \<exists>p \<in> set ?recent.
         ib_height bar = bf_height b \<and> unat (bf_height b) = unat (bf_height p) + 1 \<and>
         ib_interval_ms bar = (case (bf_timestamp_ms b, bf_timestamp_ms p) of
           (Some t, Some u) \<Rightarrow> Some (saturate_i64 (uint t - uint u)) | _ \<Rightarrow> None)"
    if "bar \<in> set (rev ?bars)" for bar
  proof -
    from that obtain b p where "b \<in> set ?recent" "p \<in> set ?recent" "interval_bar_of (b, p) = Some bar"
      using interval_bar_members [of bar ?recent] by auto
    then show ?thesis
      by (intro bexI [of _ b] bexI [of _ p]) (auto simp: interval_bar_of_def u64_ops split: if_splits)
  qed
  ultimately show ?thesis by (simp add: Let_def bars del: set_map list.map_comp)
qed

section \<open>Statistics\<close>

lemma sdiv_mean_bounds:
  fixes s n lo hi :: int
  assumes "0 < n" "n * lo \<le> s" "s \<le> n * hi"
  shows "lo \<le> s sdiv n" "s sdiv n \<le> hi"
proof -
  have le: "lo \<le> s div n" "s div n \<le> hi" if "n * lo \<le> s" "s \<le> n * hi" for s lo hi
    using that assms(1) zdiv_mono1 [of "n * lo" s n] zdiv_mono1 [of s "n * hi" n] by simp_all
  have "lo \<le> s sdiv n \<and> s sdiv n \<le> hi"
  proof (cases "0 \<le> s")
    case True
    then have "s sdiv n = s div n" using assms(1) by (cases "s = 0") (simp_all add: signed_divide_int_def)
    then show ?thesis using le [OF assms(2,3)] by simp
  next
    case False
    then have "s sdiv n = - ((- s) div n)" using assms(1) by (simp add: signed_divide_int_def)
    moreover have "- hi \<le> (- s) div n" "(- s) div n \<le> - lo"
      using le [of "- hi" "- s" "- lo"] assms(2,3) by simp_all
    ultimately show ?thesis by simp
  qed
  then show "lo \<le> s sdiv n" "s sdiv n \<le> hi" by simp_all
qed

lemma sum_list_bounds:
  "(\<And>x. x \<in> set xs \<Longrightarrow> lo \<le> x \<and> x \<le> hi) \<Longrightarrow>
   int (length xs) * lo \<le> sum_list xs \<and> sum_list xs \<le> int (length xs) * hi"
proof (induction xs)
  case (Cons x xs)
  then have "int (length xs) * lo \<le> sum_list xs \<and> sum_list xs \<le> int (length xs) * hi" "lo \<le> x \<and> x \<le> hi"
    by auto
  then show ?case by (simp add: distrib_right)
qed simp

definition i64_value :: "int \<Rightarrow> bool" where
  "i64_value i \<longleftrightarrow> - (2 ^ 63) \<le> i \<and> i < 2 ^ 63"

lemma wrap_i64_id: "i64_value i \<Longrightarrow> wrap_i64 i = i"
  unfolding wrap_i64_def i64_value_def
  by (simp add: signed_of_int signed_take_bit_int_eq_self)

text \<open>
  The statistics of a window lie between its least and its greatest known interval, so nothing
  is lost in the conversions to 64 bits, and the median has as many known intervals at or
  below it as the middle of the sorted list says.
\<close>

theorem interval_stats_in_window:
  assumes "interval_window_stats bars = Some st"
    and "\<forall>bar \<in> set bars. \<forall>i. ib_interval_ms bar = Some i \<longrightarrow> i64_value i \<and> lo \<le> i \<and> i \<le> hi"
  shows "lo \<le> iw_median_ms st \<and> iw_median_ms st \<le> hi \<and> lo \<le> iw_mean_ms st \<and> iw_mean_ms st \<le> hi \<and>
    0 < iw_known st \<and> iw_known st \<le> iw_total st \<and> iw_total st = length bars"
proof -
  define known where "known = sort (List.map_filter ib_interval_ms bars)"
  have ne: "known \<noteq> []" using assms(1)
    by (auto simp: interval_window_stats_def Let_def known_def split: if_splits)
  have in_bounds: "i64_value i \<and> lo \<le> i \<and> i \<le> hi" if "i \<in> set known" for i
    using that assms(2) by (auto simp: known_def map_filter_def)
  have wide: "max lo (- (2 ^ 63)) \<le> i \<and> i \<le> min hi (2 ^ 63 - 1)" if "i \<in> set known" for i
    using in_bounds [OF that] by (simp add: i64_value_def)
  let ?lo = "max lo (- (2 ^ 63))" and ?hi = "min hi (2 ^ 63 - 1)"
  have inside: "lo \<le> wrap_i64 i \<and> wrap_i64 i \<le> hi" if "?lo \<le> i" "i \<le> ?hi" for i
    using that wrap_i64_id [of i] by (auto simp: i64_value_def)
  have mean: "lo \<le> wrap_i64 (sum_list known sdiv int (length known)) \<and>
      wrap_i64 (sum_list known sdiv int (length known)) \<le> hi"
    using ne sum_list_bounds [OF wide] by (intro inside sdiv_mean_bounds) auto
  have mid: "known ! (length known div 2) \<in> set known" "known ! (length known div 2 - 1) \<in> set known"
    using length_greater_0_conv [of known] ne by (intro nth_mem; linarith)+
  have "2 * ?lo \<le> known ! (length known div 2 - 1) + known ! (length known div 2)"
    "known ! (length known div 2 - 1) + known ! (length known div 2) \<le> 2 * ?hi"
    using add_mono [of ?lo _ ?lo] add_mono [of _ ?hi _ ?hi] wide [OF mid(1)] wide [OF mid(2)]
    unfolding mult_2 by blast+
  from inside [OF sdiv_mean_bounds(1) [OF _ this] sdiv_mean_bounds(2) [OF _ this]]
  have "lo \<le> wrap_i64 ((known ! (length known div 2 - 1) + known ! (length known div 2)) sdiv 2) \<and>
      wrap_i64 ((known ! (length known div 2 - 1) + known ! (length known div 2)) sdiv 2) \<le> hi" by simp
  moreover have "length known \<le> length bars" by (simp add: known_def map_filter_def)
  ultimately show ?thesis using assms(1) mean in_bounds [OF mid(1)] ne
    by (auto simp: interval_window_stats_def Let_def known_def [symmetric] split: if_splits)
qed

definition demo_bars :: "interval_bar list" where
  "demo_bars = List.map (\<lambda>i. \<lparr>ib_height = 7, ib_interval_ms = i, ib_timestamp_ms = None,
     ib_tx_count = None, ib_mine = False, ib_mine_basis = None\<rparr>)
     [Some 150000, None, Some (- 2000), Some 90000]"

lemma interval_stats_in_window_witness:
  "\<exists>st. interval_window_stats demo_bars = Some st \<and> iw_median_ms st = 90000 \<and>
     - 2000 \<le> iw_mean_ms st \<and> iw_mean_ms st \<le> 150000"
proof -
  have "sort (List.map_filter ib_interval_ms demo_bars) = [- 2000, 90000, 150000]"
    by (simp add: demo_bars_def map_filter_simps)
  then obtain st where st: "interval_window_stats demo_bars = Some st" "iw_median_ms st = 90000"
    by (simp add: interval_window_stats_def Let_def)
  have "\<forall>bar \<in> set demo_bars. \<forall>i. ib_interval_ms bar = Some i \<longrightarrow>
      i64_value i \<and> - 2000 \<le> i \<and> i \<le> 150000"
    by (simp add: demo_bars_def i64_value_def)
  from interval_stats_in_window [OF st(1) this] st show ?thesis by blast
qed

section \<open>The axis\<close>

text \<open>The stops of the axis that the loop tries, from a thousand milliseconds up.\<close>

definition stops :: "nat \<Rightarrow> int list" where
  "stops k = concat (List.map (\<lambda>j. [10 ^ j, 2 * 10 ^ j, 5 * 10 ^ j]) [k ..< 18])"

lemma nice_loop_stops:
  assumes "3 \<le> k" "k \<le> 17"
  shows "nice_loop target (10 ^ k) =
    (case find (\<lambda>s. s \<ge> target) (stops k) of Some s \<Rightarrow> s | None \<Rightarrow> i64_max)"
  using assms(2,1)
proof (induction k rule: inc_induct)
  case base
  show ?case by (subst nice_loop.simps)
    (simp add: stops_def saturating_mul_i64_def i64_max_def Let_def)
next
  case (step k)
  have k: "(10 :: int) ^ k \<le> 10 ^ 16" using step(2) by (intro power_increasing) simp_all
  have pos: "\<not> (10 :: int) ^ k \<le> 0" by (simp add: not_le)
  have sat: "saturating_mul_i64 (10 ^ k) m = 10 ^ k * m" if "m \<in> {1, 2, 5, 10}" for m
    using that k by (auto simp: saturating_mul_i64_def i64_max_def)
  have "\<not> 10 * (10 :: int) ^ k \<ge> i64_max div 10" using k by (simp add: i64_max_def)
  moreover have "stops k = [10 ^ k, 2 * 10 ^ k, 5 * 10 ^ k] @ stops (Suc k)"
    using step(2) by (simp add: stops_def upt_conv_Cons)
  ultimately show ?case using step(3,4)
    by (subst nice_loop.simps) (simp add: pos sat Let_def mult.commute split: option.splits)
qed

text \<open>
  The ceiling of the axis is at least the maximum it is given (and a second), and it is the
  least of the stops 1, 2, 5 times a power of ten; above the largest stop the loop tries
  (half a quintillion milliseconds) it is the largest \<open>i64\<close>.
\<close>

theorem nice_ceiling_least:
  "(\<exists>s \<in> set (stops 3). max m 1000 \<le> s) \<and>
     nice_ceiling_ms m \<in> set (stops 3) \<and> max m 1000 \<le> nice_ceiling_ms m \<and>
     (\<forall>s \<in> set (stops 3). max m 1000 \<le> s \<longrightarrow> nice_ceiling_ms m \<le> s) \<or>
   5 * 10 ^ 17 < m \<and> nice_ceiling_ms m = i64_max"
proof -
  let ?t = "max m 1000"
  have c: "nice_ceiling_ms m = (case find (\<lambda>s. s \<ge> ?t) (stops 3) of Some s \<Rightarrow> s | None \<Rightarrow> i64_max)"
    using nice_loop_stops [of 3 ?t] by (simp add: nice_ceiling_ms_def)
  show ?thesis
  proof (cases "find (\<lambda>s. s \<ge> ?t) (stops 3)")
    case None
    have "5 * 10 ^ 17 \<in> set (stops 3)" by (simp add: stops_def image_iff)
    then have "\<not> ?t \<le> 5 * 10 ^ 17" using None by (auto simp: find_None_iff)
    then show ?thesis using c None by simp
  next
    case (Some s)
    then obtain i where i: "i < length (stops 3)" "s = stops 3 ! i" "?t \<le> s"
      "\<forall>j < i. \<not> ?t \<le> stops 3 ! j" by (auto simp: find_Some_iff)
    have "sorted (stops 3)" by (simp add: stops_def upt_rec_numeral)
    then have "s \<le> x" if "x \<in> set (stops 3)" "?t \<le> x" for x
      using that i by (metis in_set_conv_nth linorder_not_less sorted_nth_mono)
    then show ?thesis using c Some i nth_mem [OF i(1)] by auto
  qed
qed

end
