(* ===== verification/App.thy ===== *)
theory App
  imports Settings Recovery Views
begin

text \<open>
  The state of the desktop interface (\<open>MinerApp\<close> of \<open>src/gui.rs\<close>) and the operations its
  handlers share: the memory preflight, the operator log, the bookkeeping of workers and
  phases, and the resets. Drawing state (whether the password is shown) is left out, and
  so is the copy of every log line in the diagnostic file, which \<open>Diag\<close> models. A handler reads
  the clock once: the instants it takes are within one frame.
\<close>

section \<open>State\<close>

datatype phase =
    Idle | Starting | Connecting | Authenticating | Mining | Reconnecting | Stopping | Failed

definition phase_label :: "phase \<Rightarrow> str" where
  "phase_label p = (case p of Idle \<Rightarrow> ''IDLE'' | Starting \<Rightarrow> ''STARTING''
     | Connecting \<Rightarrow> ''CONNECTING'' | Authenticating \<Rightarrow> ''AUTHENTICATING'' | Mining \<Rightarrow> ''MINING''
     | Reconnecting \<Rightarrow> ''RECONNECTING'' | Stopping \<Rightarrow> ''STOPPING'' | Failed \<Rightarrow> ''ATTENTION'')"

record log_line =
  ll_at :: instant
  ll_text :: str
  ll_error :: bool

record meter_sample =
  ms_hashrate :: real
  ms_smoothed_hashrate :: real
  ms_mempool :: "u64 option"
  ms_height :: "u64 option"
  ms_round_probability :: "real option"

record memory_snapshot =
  snap_available :: u64
  snap_total :: u64

record observation_failure =
  of_report_detail :: str
  of_drain_deadline :: instant

text \<open>
  A child process is known by its handle, a number here; so is a reader thread. Of the output
  channel only whether the receiving end is held matters here: what arrives is an argument of
  the handlers.
\<close>

record miner_app =
  ma_settings :: settings
  ma_phase :: phase
  ma_child :: "nat option"
  ma_quarantined_child :: "nat option"
  ma_pending_exit :: "exit_status option"
  ma_pending_observation_failure :: "observation_failure option"
  ma_receiver :: bool
  ma_reader_threads :: "nat list"
  ma_output_disconnected_at :: "instant option"
  ma_requested_stop :: bool
  ma_automatic_recovery_enabled :: bool
  ma_automatic_restart_at :: "instant option"
  ma_automatic_restart_attempts :: u32
  ma_single_worker_recovery :: bool
  ma_light_randomx_recovery :: bool
  ma_started_at :: "instant option"
  ma_stable_hashing_since :: "instant option"
  ma_hashrate :: real
  ma_smoothed_hashrate :: real
  ma_total_hashes :: u64
  ma_submitted :: u64
  ma_accepted :: u64
  ma_rejected :: u64
  ma_height :: "u64 option"
  ma_algorithm :: str
  ma_job_id :: str
  ma_job_observed_in_metrics :: bool
  ma_jobless_metrics_seen :: u8
  ma_last_found_block :: "(u64 \<times> instant) option"
  ma_coinbase :: "str option"
  ma_expected_hashes :: "real option"
  ma_round_hashes :: u64
  ma_round_probability :: "real option"
  ma_height_started_at :: "instant option"
  ma_network_hashrate :: "real option"
  ma_target_block_ms :: "u64 option"
  ma_network_difficulty :: "str option"
  ma_last_error :: str
  ma_logs :: "log_line list"
  ma_mempool_size :: "u64 option"
  ma_peer_count :: "u64 option"
  ma_block_flow :: "block_flow_view option"
  ma_observed_tip_height :: "u64 option"
  ma_tip_observed_at :: "instant option"
  ma_backlog_history :: "(instant \<times> u64) list"
  ma_meter_history :: "meter_sample list"
  ma_last_metrics_at :: "instant option"
  ma_ready_workers :: u64
  ma_ready_worker_ids :: "u64 list"
  ma_worker_errors :: "(u64, str) btree"
  ma_worker_error_can_restore_mining :: bool
  ma_engine_fatal_seen :: bool
  ma_memory_acknowledged :: bool
  ma_memory_snapshot :: "memory_snapshot option"
  ma_node_link_live :: bool

definition WAITING_FOR_WORK :: str where "WAITING_FOR_WORK = ''Waiting for work''"

definition memory_snapshot_from_readings :: "u64 \<Rightarrow> u64 \<Rightarrow> memory_snapshot option" where
  "memory_snapshot_from_readings available ram =
     (if ram > 0 \<and> available \<le> ram then Some \<lparr>snap_available = available, snap_total = ram\<rparr> else None)"

text \<open>\<open>MinerApp::default\<close>, with the settings that were loaded and the first memory scan.\<close>

definition app_default :: "settings \<Rightarrow> memory_snapshot option \<Rightarrow> miner_app" where
  "app_default settings snapshot =
     \<lparr>ma_settings = settings, ma_phase = Idle, ma_child = None, ma_quarantined_child = None,
      ma_pending_exit = None, ma_pending_observation_failure = None, ma_receiver = False,
      ma_reader_threads = [], ma_output_disconnected_at = None, ma_requested_stop = False,
      ma_automatic_recovery_enabled = False, ma_automatic_restart_at = None,
      ma_automatic_restart_attempts = 0, ma_single_worker_recovery = False,
      ma_light_randomx_recovery = False, ma_started_at = None, ma_stable_hashing_since = None,
      ma_hashrate = 0, ma_smoothed_hashrate = 0, ma_total_hashes = 0, ma_submitted = 0,
      ma_accepted = 0, ma_rejected = 0, ma_height = None, ma_algorithm = em_dash,
      ma_job_id = WAITING_FOR_WORK, ma_job_observed_in_metrics = False,
      ma_jobless_metrics_seen = 0, ma_last_found_block = None, ma_coinbase = None,
      ma_expected_hashes = None, ma_round_hashes = 0, ma_round_probability = None,
      ma_height_started_at = None, ma_network_hashrate = None, ma_target_block_ms = None,
      ma_network_difficulty = None, ma_last_error = [], ma_logs = [], ma_mempool_size = None,
      ma_peer_count = None, ma_block_flow = None, ma_observed_tip_height = None,
      ma_tip_observed_at = None, ma_backlog_history = [], ma_meter_history = [],
      ma_last_metrics_at = None, ma_ready_workers = 0, ma_ready_worker_ids = [],
      ma_worker_errors = [], ma_worker_error_can_restore_mining = False,
      ma_engine_fatal_seen = False, ma_memory_acknowledged = False,
      ma_memory_snapshot = snapshot, ma_node_link_live = False\<rparr>"

text \<open>
  What a handler is told: the target's family, the clock, the Unicode data of \<open>redact_secret\<close>.
\<close>

record surroundings =
  family :: os_family
  now :: instant
  alnum :: "str \<Rightarrow> bool"

section \<open>Queries\<close>

definition effective_workers :: "surroundings \<Rightarrow> miner_app \<Rightarrow> u64" where
  "effective_workers w a =
     effective_engine_workers (family w = Windows) (ma_single_worker_recovery a) (ma_settings a)"

definition has_live_engine_state :: "miner_app \<Rightarrow> bool" where
  "has_live_engine_state a \<longleftrightarrow>
     ma_child a \<noteq> None \<or> ma_quarantined_child a \<noteq> None \<or> ma_pending_exit a \<noteq> None \<or>
     ma_pending_observation_failure a \<noteq> None"

definition is_running :: "miner_app \<Rightarrow> bool" where
  "is_running a \<longleftrightarrow> has_live_engine_state a \<or> ma_automatic_restart_at a \<noteq> None"

text \<open>
  \<open>{:.1}\<close> and \<open>{:.0}\<close> of a number that is not negative, rounded half to even. The floats formatted
  this way are dyadic, so a rational is exact below \<open>2^53\<close> bytes.
\<close>

definition round_even :: "rat \<Rightarrow> nat" where
  "round_even x =
     (let n = nat \<lfloor>x\<rfloor>; f = x - of_nat n
      in if f < 1 / 2 then n else if f > 1 / 2 then n + 1 else if even n then n else n + 1)"

definition fixed0 :: "rat \<Rightarrow> str" where
  "fixed0 x = decimal (round_even x)"

definition fixed1 :: "rat \<Rightarrow> str" where
  "fixed1 x = (let n = round_even (10 * x) in decimal (n div 10) @ ''.'' @ decimal (n mod 10))"

definition BYTES_PER_GIB :: rat where "BYTES_PER_GIB = 1073741824"

definition format_memory :: "u64 \<Rightarrow> str" where
  "format_memory bytes = fixed1 (of_nat (unat bytes) / BYTES_PER_GIB) @ '' GiB''"

definition plural :: "u64 \<Rightarrow> str" where
  "plural n = (if n = 1 then [] else ''s'')"

definition memory_preflight_error :: "surroundings \<Rightarrow> miner_app \<Rightarrow> str option" where
  "memory_preflight_error w a =
     (let workers = effective_workers w a;
          light = ma_light_randomx_recovery a;
          randomx_estimate = randomx_memory_bytes_for workers light
      in case ma_memory_snapshot a of
           Some snapshot \<Rightarrow>
             if snap_available snapshot < randomx_estimate + memory_headroom_bytes (snap_total snapshot)
             then Some (''Start blocked: RandomX may need about '' @ format_memory randomx_estimate @
               '' total ('' @
               (if light then ''portable '' @ fixed0 RANDOMX_LIGHT_CACHE_MIB @ '' MiB light cache''
                else ''one shared '' @ fixed1 RANDOMX_DATASET_GIB @ '' GiB dataset'') @
               '' + '' @ fixed0 RANDOMX_WORKER_MIB @ '' MiB per worker), plus '' @
               format_memory (memory_headroom_bytes (snap_total snapshot)) @
               '' of system headroom, but the live scan reports only '' @
               format_memory (snap_available snapshot) @ '' available for '' @ show_u64 workers @
               '' worker'' @ plural workers @ ''.'')
             else None
         | None \<Rightarrow>
             if \<not> ma_memory_acknowledged a
             then Some (''The operating-system memory scan is unavailable. Confirm at least '' @
               fixed1 (of_nat (unat randomx_estimate) / BYTES_PER_GIB + MIN_MEMORY_HEADROOM_GIB) @
               '' GiB is available before starting '' @ show_u64 workers @ '' RandomX worker'' @
               plural workers @ '' ('' @
               (if light then ''portable light cache; no full dataset''
                else ''one shared dataset, not one dataset per worker'') @ '').'')
             else None)"

definition memory_preflight_summary :: "surroundings \<Rightarrow> miner_app \<Rightarrow> str" where
  "memory_preflight_summary w a =
     (let estimate = randomx_memory_bytes_for (effective_workers w a) (ma_light_randomx_recovery a)
      in case ma_memory_snapshot a of
           None \<Rightarrow> ''Memory preflight manually confirmed: '' @ format_memory estimate @
             '' RandomX estimate plus at least '' @ fixed1 MIN_MEMORY_HEADROOM_GIB @ '' GiB reserved.''
         | Some snapshot \<Rightarrow> ''Memory preflight PASS: '' @ format_memory (snap_available snapshot) @
             '' available / '' @ format_memory (snap_total snapshot) @ '' total; '' @
             format_memory estimate @ '' RandomX estimate + '' @
             format_memory (memory_headroom_bytes (snap_total snapshot)) @ '' reserved.'')"

section \<open>The operator log\<close>

definition MAX_LOG_LINES :: nat where "MAX_LOG_LINES = 500"
definition MAX_STORED_LOG_BYTES :: nat where "MAX_STORED_LOG_BYTES = 8 * 1024"

definition redact_sensitive_text :: "surroundings \<Rightarrow> miner_app \<Rightarrow> str \<Rightarrow> str" where
  "redact_sensitive_text w a raw =
     (let redacted = redact_secret (alnum w) raw (st_password (ma_settings a))
      in case endpoint_userinfo (st_pool (ma_settings a)) of
           Some userinfo \<Rightarrow> redact_secret (alnum w) redacted userinfo
         | None \<Rightarrow> redacted)"

definition push_log :: "surroundings \<Rightarrow> str \<Rightarrow> bool \<Rightarrow> miner_app \<Rightarrow> miner_app" where
  "push_log w text err a =
     (let text = redact_sensitive_text w a text;
          text = bounded_text text MAX_STORED_LOG_BYTES TRUNCATED_LINE_SUFFIX False
      in if trim text = [] then a
         else a\<lparr>ma_logs := pop_excess MAX_LOG_LINES
                  (ma_logs a @ [\<lparr>ll_at = now w, ll_text = text, ll_error = err\<rparr>])\<rparr>)"

section \<open>Resets\<close>

definition reset_telemetry :: "miner_app \<Rightarrow> miner_app" where
  "reset_telemetry a = a\<lparr>
     ma_hashrate := 0, ma_smoothed_hashrate := 0, ma_total_hashes := 0, ma_submitted := 0,
     ma_accepted := 0, ma_rejected := 0, ma_height := None, ma_algorithm := em_dash,
     ma_job_id := WAITING_FOR_WORK, ma_job_observed_in_metrics := False,
     ma_jobless_metrics_seen := 0, ma_last_found_block := None, ma_coinbase := None,
     ma_expected_hashes := None, ma_round_hashes := 0, ma_round_probability := None,
     ma_height_started_at := None, ma_network_hashrate := None, ma_target_block_ms := None,
     ma_network_difficulty := None, ma_last_error := [], ma_mempool_size := None,
     ma_peer_count := None, ma_block_flow := None, ma_observed_tip_height := None,
     ma_tip_observed_at := None, ma_backlog_history := [], ma_meter_history := [],
     ma_last_metrics_at := None, ma_ready_workers := 0, ma_ready_worker_ids := [],
     ma_worker_errors := [], ma_worker_error_can_restore_mining := False,
     ma_engine_fatal_seen := False, ma_output_disconnected_at := None,
     ma_pending_observation_failure := None, ma_node_link_live := False,
     ma_stable_hashing_since := None\<rparr>"

definition clear_active_work :: "miner_app \<Rightarrow> miner_app" where
  "clear_active_work a = a\<lparr>
     ma_height := None, ma_algorithm := em_dash, ma_job_id := WAITING_FOR_WORK,
     ma_job_observed_in_metrics := False, ma_jobless_metrics_seen := 0, ma_coinbase := None,
     ma_expected_hashes := None, ma_round_hashes := 0, ma_round_probability := None,
     ma_height_started_at := None, ma_stable_hashing_since := None\<rparr>"

section \<open>Workers and phases\<close>

definition worker_error_text :: "u64 \<Rightarrow> str \<Rightarrow> str" where
  "worker_error_text worker message = ''Worker '' @ show_u64 (worker + 1) @ '' error: '' @ message"

definition mark_worker_unready :: "u64 \<Rightarrow> miner_app \<Rightarrow> miner_app" where
  "mark_worker_unready worker a =
     (let ids = removeAll worker (ma_ready_worker_ids a)
      in a\<lparr>ma_ready_worker_ids := ids, ma_ready_workers := of_nat (length ids),
           ma_stable_hashing_since := None\<rparr>)"

definition mark_worker_ready :: "surroundings \<Rightarrow> u64 \<Rightarrow> miner_app \<Rightarrow> bool \<times> miner_app" where
  "mark_worker_ready w worker a =
     (if worker \<ge> effective_workers w a \<or> ma_engine_fatal_seen a then (False, a)
      else
        let newly_ready = worker \<notin> set (ma_ready_worker_ids a);
            ids = insort_insert worker (ma_ready_worker_ids a);
            a = a\<lparr>ma_ready_worker_ids := ids, ma_ready_workers := of_nat (length ids)\<rparr>;
            recovered = bt_get (ma_worker_errors a) worker \<noteq> None;
            a = a\<lparr>ma_worker_errors := bt_remove worker (ma_worker_errors a)\<rparr>;
            a = (if recovered \<and> ma_worker_error_can_restore_mining a \<and>
                    \<not> ma_engine_fatal_seen a \<and> ma_phase a = Failed
                 then case ma_worker_errors a of
                        (failed_worker, message) # _ \<Rightarrow>
                          a\<lparr>ma_last_error := worker_error_text failed_worker message\<rparr>
                      | [] \<Rightarrow> a\<lparr>ma_phase := Mining, ma_last_error := []\<rparr>
                 else a);
            a = (if ma_worker_errors a = [] then a\<lparr>ma_worker_error_can_restore_mining := False\<rparr> else a)
        in (newly_ready \<or> recovered, a))"

definition enter_mining_phase :: "miner_app \<Rightarrow> miner_app" where
  "enter_mining_phase a =
     (if ma_engine_fatal_seen a
      then a\<lparr>ma_phase := Failed, ma_worker_error_can_restore_mining := False\<rparr>
      else case ma_worker_errors a of
        (worker, message) # _ \<Rightarrow>
          a\<lparr>ma_phase := Failed, ma_worker_error_can_restore_mining := True,
            ma_last_error := worker_error_text worker message\<rparr>
      | [] \<Rightarrow> a\<lparr>ma_phase := Mining, ma_worker_error_can_restore_mining := False\<rparr>)"

definition enter_connection_phase :: "phase \<Rightarrow> miner_app \<Rightarrow> miner_app" where
  "enter_connection_phase phase a =
     (let a = (if ma_engine_fatal_seen a then a\<lparr>ma_phase := Failed\<rparr>
               else case ma_worker_errors a of
                 (worker, message) # _ \<Rightarrow>
                   a\<lparr>ma_phase := Failed, ma_last_error := worker_error_text worker message\<rparr>
               | [] \<Rightarrow> a\<lparr>ma_phase := phase\<rparr>)
      in a\<lparr>ma_worker_error_can_restore_mining := False\<rparr>)"

end
