(* ===== verification/Telemetry.thy ===== *)
theory Telemetry
  imports App
begin

text \<open>
  How the interface takes in what the engine writes (\<open>src/gui.rs\<close>): \<open>apply_telemetry\<close>, one
  definition per event, and the readouts derived from the result. Floats are reals; a JSON number
  is finite, so the tests for finite values hold by themselves.
\<close>

section \<open>Connection and workers\<close>

definition on_startup :: "surroundings \<Rightarrow> json \<Rightarrow> miner_app \<Rightarrow> miner_app" where
  "on_startup w v a =
     (let a = enter_connection_phase Connecting (a\<lparr>ma_node_link_live := False\<rparr>);
          a = push_log w ''Mining engine online.'' False a
      in if get_str ''randomx_backend'' v = Some ''light-recovery''
         then push_log w ''RandomX portable light-memory recovery backend confirmed by the engine.'' False a
         else a)"

definition on_connecting :: "miner_app \<Rightarrow> miner_app" where
  "on_connecting a = enter_connection_phase Connecting (a\<lparr>ma_node_link_live := False\<rparr>)"

definition on_pool_connected :: "surroundings \<Rightarrow> miner_app \<Rightarrow> miner_app" where
  "on_pool_connected w a =
     push_log w (''TCP connection established; authenticating'' @ ellipsis) False
       (enter_connection_phase Authenticating a)"

definition on_node_connected :: "surroundings \<Rightarrow> miner_app \<Rightarrow> miner_app" where
  "on_node_connected w a =
     push_log w (''Connected directly to SOV node RPC; requesting work'' @ ellipsis) False
       (enter_mining_phase (a\<lparr>ma_node_link_live := True\<rparr>))"

definition on_worker_initializing :: "surroundings \<Rightarrow> json \<Rightarrow> miner_app \<Rightarrow> miner_app" where
  "on_worker_initializing w v a =
     (case get_u64 ''worker'' v of
        None \<Rightarrow> a
      | Some worker \<Rightarrow>
          let a = mark_worker_unready worker a
          in push_log w
               (if ma_light_randomx_recovery a
                then ''Worker '' @ show_u64 (worker + 1) @
                  '' is preparing the portable RandomX light cache; full-dataset allocation and retry are disabled'' @
                  ellipsis
                else ''Worker '' @ show_u64 (worker + 1) @ '' is preparing RandomX (shared '' @
                  fixed1 RANDOMX_DATASET_GIB @ '' GiB dataset; ~'' @ fixed0 RANDOMX_WORKER_MIB @
                  '' MiB worker overhead)'' @ ellipsis) False a)"

definition on_worker_ready :: "surroundings \<Rightarrow> str \<Rightarrow> json \<Rightarrow> miner_app \<Rightarrow> miner_app" where
  "on_worker_ready w what v a =
     (case get_u64 ''worker'' v of
        None \<Rightarrow> a
      | Some worker \<Rightarrow>
          (case mark_worker_ready w worker a of
             (True, a) \<Rightarrow> push_log w (''Worker '' @ show_u64 (worker + 1) @ what) False a
           | (False, a) \<Rightarrow> a))"

definition on_worker_error :: "surroundings \<Rightarrow> json \<Rightarrow> miner_app \<Rightarrow> miner_app" where
  "on_worker_error w v a =
     (case opt_filter (\<lambda>worker. worker < effective_workers w a) (get_u64 ''worker'' v) of
        None \<Rightarrow> a
      | Some worker \<Rightarrow>
          let message = (case get_str ''message'' v of Some m \<Rightarrow> m | None \<Rightarrow> ''proof-of-work worker failed'');
              message = redact_sensitive_text w a message;
              a = (if ma_worker_errors a = []
                   then a\<lparr>ma_worker_error_can_restore_mining := (ma_phase a = Mining)\<rparr> else a);
              a = mark_worker_unready worker a;
              a = a\<lparr>ma_worker_errors := bt_insert worker message (ma_worker_errors a),
                    ma_phase := Failed, ma_last_error := worker_error_text worker message\<rparr>
          in push_log w (ma_last_error a) True a)"

definition on_engine_fatal :: "surroundings \<Rightarrow> json \<Rightarrow> miner_app \<Rightarrow> miner_app" where
  "on_engine_fatal w v a =
     (let a = clear_active_work (a\<lparr>ma_engine_fatal_seen := True, ma_node_link_live := False,
            ma_worker_error_can_restore_mining := False, ma_phase := Failed, ma_hashrate := 0,
            ma_smoothed_hashrate := 0, ma_last_metrics_at := None\<rparr>);
          a = a\<lparr>ma_ready_worker_ids := [], ma_ready_workers := 0\<rparr>;
          a = a\<lparr>ma_last_error := (case get_str ''message'' v of
                None \<Rightarrow> ''Mining engine reported a fatal error.''
              | Some message \<Rightarrow> redact_sensitive_text w a message)\<rparr>
      in push_log w (ma_last_error a) True a)"

section \<open>Work\<close>

definition or_unknown :: "str option \<Rightarrow> str" where
  "or_unknown x = (case x of Some s \<Rightarrow> s | None \<Rightarrow> ''unknown'')"

definition on_job :: "surroundings \<Rightarrow> json \<Rightarrow> miner_app \<Rightarrow> miner_app" where
  "on_job w v a =
     (let a = enter_mining_phase (a\<lparr>ma_node_link_live := True\<rparr>);
          next_height = get_u64 ''height'' v;
          a = (if next_height \<noteq> None \<and> next_height \<noteq> ma_height a
               then a\<lparr>ma_round_hashes := 0, ma_round_probability := Some 0,
                      ma_height_started_at := Some (now w)\<rparr>
               else a);
          a = a\<lparr>ma_height := next_height,
                ma_algorithm := or_unknown (get_str ''algorithm'' v),
                ma_job_id := or_unknown (get_str ''job_id'' v),
                ma_job_observed_in_metrics := False, ma_jobless_metrics_seen := 0,
                ma_coinbase := opt_filter (\<lambda>account. account \<noteq> []) (get_str ''coinbase'' v),
                ma_expected_hashes := opt_filter (\<lambda>expected. expected > 0) (get_f64 ''expected_hashes'' v)\<rparr>
      in if ma_expected_hashes a = None then a\<lparr>ma_round_probability := None\<rparr> else a)"

definition on_job_cleared :: "surroundings \<Rightarrow> json \<Rightarrow> miner_app \<Rightarrow> miner_app" where
  "on_job_cleared w v a =
     (case opt_filter (\<lambda>height. get_str ''job_id'' v = Some (ma_job_id a) \<and> ma_height a = Some height)
             (get_u64 ''height'' v) of
        None \<Rightarrow> a
      | Some height \<Rightarrow>
          let a = (if get_str ''reason'' v = Some ''accepted_block''
                   then
                     let destination = (case ma_coinbase a of None \<Rightarrow> [] | Some account \<Rightarrow> '' to '' @ account)
                     in push_log w (black_star @ '' BLOCK FOUND AND ACCEPTED at height '' @
                          show_u64 height @ destination @ ''.'') False
                          (a\<lparr>ma_last_found_block := Some (height, now w)\<rparr>)
                   else a)
          in clear_active_work a)"

section \<open>The network\<close>

definition on_network :: "json \<Rightarrow> miner_app \<Rightarrow> miner_app" where
  "on_network v a = a\<lparr>
     ma_network_hashrate := opt_filter (\<lambda>rate. rate \<ge> 0) (get_f64 ''hashrate'' v),
     ma_target_block_ms := get_u64 ''target_block_ms'' v,
     ma_network_difficulty := get_str ''difficulty'' v\<rparr>"

definition on_peers :: "surroundings \<Rightarrow> json \<Rightarrow> miner_app \<Rightarrow> miner_app" where
  "on_peers w v a =
     (let next = get_u64 ''count'' v;
          a = (if next \<noteq> ma_peer_count a
               then case next of
                      Some count \<Rightarrow> push_log w (''SOV node reports '' @ show_u64 count @
                        '' authenticated P2P peer'' @ plural count @ ''.'') False a
                    | None \<Rightarrow> a
               else a)
      in a\<lparr>ma_peer_count := next\<rparr>)"

definition on_block_flow :: "surroundings \<Rightarrow> json \<Rightarrow> miner_app \<Rightarrow> miner_app" where
  "on_block_flow w v a =
     (let flow = block_flow_from_telemetry v;
          a = (case fv_tip_height flow of
                 Some tip \<Rightarrow>
                   if (case ma_observed_tip_height a of None \<Rightarrow> True | Some seen \<Rightarrow> tip > seen)
                   then a\<lparr>ma_observed_tip_height := Some tip, ma_tip_observed_at := Some (now w)\<rparr>
                   else a
               | None \<Rightarrow> a);
          a = (case fv_backlog flow of
                 Some backlog \<Rightarrow>
                   a\<lparr>ma_backlog_history := pop_excess MAX_BACKLOG_TREND_SAMPLES
                       (ma_backlog_history a @ [(now w, bv_tx_count backlog)])\<rparr>
               | None \<Rightarrow> a)
      in a\<lparr>ma_block_flow := Some flow\<rparr>)"

definition on_chain_baseline :: "surroundings \<Rightarrow> json \<Rightarrow> miner_app \<Rightarrow> miner_app" where
  "on_chain_baseline w v a =
     (case get_u64 ''height'' v of
        None \<Rightarrow> a
      | Some height \<Rightarrow> push_log w (''Block feed live at chain height #'' @ show_u64 height @
          ''; every new network block will be logged here.'') False a)"

definition flag :: "str \<Rightarrow> json \<Rightarrow> bool" where
  "flag k v = (case get_bool k v of Some b \<Rightarrow> b | None \<Rightarrow> False)"

definition on_chain_block :: "surroundings \<Rightarrow> json \<Rightarrow> miner_app \<Rightarrow> miner_app" where
  "on_chain_block w v a =
     (case get_u64 ''height'' v of
        None \<Rightarrow> a
      | Some height \<Rightarrow>
          let mine = flag ''mine'' v;
              fetch_failed = flag ''detail_fetch_failed'' v;
              unverified = flag ''mine_unverified'' v;
              hash = (case get_str ''hash'' v of None \<Rightarrow> []
                | Some hash \<Rightarrow> '' | hash '' @ bounded_text hash 24 ellipsis False);
              detail = (if fetch_failed
                then if unverified
                  then '' | detail fetch failed; hash unknown '' @ em_dash @
                    '' height matches your accepted submission but could not be hash-checked''
                  else '' | detail fetch failed; hash unknown''
                else []);
              txs = (case get_u64 ''tx_count'' v of None \<Rightarrow> [] | Some count \<Rightarrow> '' | '' @ show_u64 count @ '' tx'')
          in push_log w
               ((if mine then black_star @ '' BLOCK FOUND (YOURS)''
                 else if unverified then ''BLOCK FOUND (possibly YOURS '' @ em_dash @ '' unverified)''
                 else ''BLOCK FOUND (network)'') @ '' height '' @ show_u64 height @ hash @ detail @ txs)
               False a)"

definition on_chain_gap :: "surroundings \<Rightarrow> json \<Rightarrow> miner_app \<Rightarrow> miner_app" where
  "on_chain_gap w v a =
     (case (get_u64 ''omitted'' v, get_u64 ''from'' v, get_u64 ''to'' v) of
        (Some omitted, Some lo, Some hi) \<Rightarrow>
          push_log w (''Tip caught up past '' @ show_u64 omitted @ '' more block(s) (heights #'' @
            show_u64 lo @ ''-#'' @ show_u64 hi @ '') not listed individually.'') False a
      | _ \<Rightarrow> a)"

definition on_chain_reorg :: "surroundings \<Rightarrow> json \<Rightarrow> miner_app \<Rightarrow> miner_app" where
  "on_chain_reorg w v a =
     (case get_u64 ''height'' v of
        None \<Rightarrow> a
      | Some height \<Rightarrow>
          let old_hash = (case get_str ''old_hash'' v of None \<Rightarrow> ''(unknown)''
                | Some hash \<Rightarrow> bounded_text hash 24 ellipsis False);
              new_hash = (case get_str ''new_hash'' v of None \<Rightarrow> ''(hash not disclosed)''
                | Some hash \<Rightarrow> bounded_text hash 24 ellipsis False)
          in push_log w (''Chain REORG at height #'' @ show_u64 height @ '': block '' @ new_hash @
               '' replaced '' @ old_hash @ ''.'') False a)"

definition on_chain_feed_unavailable :: "surroundings \<Rightarrow> json \<Rightarrow> miner_app \<Rightarrow> miner_app" where
  "on_chain_feed_unavailable w v a =
     (let message = (case get_str ''message'' v of Some m \<Rightarrow> m
            | None \<Rightarrow> ''Network block feed unavailable: no direct node RPC in this mode.'')
      in push_log w (redact_sensitive_text w a message) False a)"

section \<open>Metrics\<close>

definition MAX_METER_SAMPLES :: nat where "MAX_METER_SAMPLES = 180"
definition ENGINE_STABILITY_RESET :: nat where "ENGINE_STABILITY_RESET = 5 * 60 * nanos_per_sec"

definition take_u64 :: "str \<Rightarrow> json \<Rightarrow> u64 \<Rightarrow> u64" where
  "take_u64 k v old = (case get_u64 k v of Some n \<Rightarrow> n | None \<Rightarrow> old)"

definition take_counters :: "json \<Rightarrow> miner_app \<Rightarrow> miner_app" where
  "take_counters v a = a\<lparr>
     ma_submitted := take_u64 ''submitted'' v (ma_submitted a),
     ma_accepted := take_u64 ''accepted'' v (ma_accepted a),
     ma_rejected := take_u64 ''rejected'' v (ma_rejected a)\<rparr>"

text \<open>The smoothing of the displayed rate.\<close>

definition smooth :: "real \<Rightarrow> real \<Rightarrow> real \<Rightarrow> real" where
  "smooth elapsed hashrate smoothed =
     (let alpha = 1 - exp (- elapsed / 8)
      in max (if smoothed \<le> 0 \<and> hashrate > 0 then hashrate
              else smoothed + alpha * (hashrate - smoothed)) 0)"

definition metrics_rates :: "surroundings \<Rightarrow> json \<Rightarrow> miner_app \<Rightarrow> miner_app" where
  "metrics_rates w v a =
     (let elapsed = (case ma_last_metrics_at a of
            None \<Rightarrow> real (unat (st_report_secs (ma_settings a)))
          | Some t \<Rightarrow> real (now w - t) / real nanos_per_sec);
          hashrate = (case get_f64 ''hashrate'' v of Some r \<Rightarrow> r | None \<Rightarrow> 0)
      in take_counters v (a\<lparr>ma_last_metrics_at := Some (now w), ma_hashrate := hashrate,
           ma_smoothed_hashrate := smooth elapsed hashrate (ma_smoothed_hashrate a),
           ma_total_hashes := take_u64 ''total_hashes'' v (ma_total_hashes a)\<rparr>))"

text \<open>Whether the work on display is still the engine's.\<close>

definition metrics_work :: "json \<Rightarrow> miner_app \<Rightarrow> miner_app" where
  "metrics_work v a =
     (let metrics_height = get_u64 ''height'' v;
          a = (if ma_height a = None then a\<lparr>ma_height := metrics_height\<rparr> else a)
      in case metrics_height of
           Some height \<Rightarrow>
             if ma_height a = Some height \<and> ma_job_id a \<noteq> WAITING_FOR_WORK
             then a\<lparr>ma_job_observed_in_metrics := True, ma_jobless_metrics_seen := 0\<rparr>
             else a
         | None \<Rightarrow>
             if jget ''height'' v = Some JNull \<and> ma_job_id a \<noteq> WAITING_FOR_WORK
             then
               let a = a\<lparr>ma_jobless_metrics_seen := saturating_add (ma_jobless_metrics_seen a) 1\<rparr>
               in if ma_job_observed_in_metrics a \<or> ma_jobless_metrics_seen a \<ge> 2
                  then clear_active_work a else a
             else a)"

definition metrics_round :: "json \<Rightarrow> miner_app \<Rightarrow> miner_app" where
  "metrics_round v a =
     (let metrics_height = get_u64 ''height'' v
      in if get_u64 ''round_height'' v = metrics_height \<and> metrics_height = ma_height a
         then a\<lparr>ma_round_hashes := take_u64 ''round_hashes'' v (ma_round_hashes a),
                ma_round_probability := (case ma_expected_hashes a of None \<Rightarrow> None
                  | Some _ \<Rightarrow> map_option (\<lambda>p. clamp p 0 1) (get_f64 ''round_probability'' v))\<rparr>
         else a)"

definition metrics_history :: "json \<Rightarrow> miner_app \<Rightarrow> miner_app" where
  "metrics_history v a =
     (let a = a\<lparr>ma_mempool_size := get_u64 ''mempool_size'' v, ma_peer_count := get_u64 ''peer_count'' v\<rparr>
      in a\<lparr>ma_meter_history := pop_excess MAX_METER_SAMPLES
             (ma_meter_history a @
               [\<lparr>ms_hashrate = ma_hashrate a, ms_smoothed_hashrate = ma_smoothed_hashrate a,
                 ms_mempool = ma_mempool_size a, ms_height = ma_height a,
                 ms_round_probability = ma_round_probability a\<rparr>])\<rparr>)"

text \<open>Five minutes of confirmed hashing give the restart budget back.\<close>

definition proven_stable :: "surroundings \<Rightarrow> miner_app \<Rightarrow> bool" where
  "proven_stable w a \<longleftrightarrow>
     ma_hashrate a > 0 \<and> ma_node_link_live a \<and> ma_worker_errors a = [] \<and>
     ma_ready_workers a = effective_workers w a"

definition metrics_stability :: "surroundings \<Rightarrow> miner_app \<Rightarrow> miner_app" where
  "metrics_stability w a =
     (if proven_stable w a then
        let stable_since = (case ma_stable_hashing_since a of Some t \<Rightarrow> t | None \<Rightarrow> now w);
            a = a\<lparr>ma_stable_hashing_since := Some stable_since\<rparr>
        in if ma_automatic_restart_attempts a > 0 \<and> now w - stable_since \<ge> ENGINE_STABILITY_RESET
           then push_log w ''Mining engine sustained five minutes of confirmed hashing; automatic recovery budget reset.''
                  False (a\<lparr>ma_automatic_restart_attempts := 0\<rparr>)
           else a
      else a\<lparr>ma_stable_hashing_since := None\<rparr>)"

definition on_metrics :: "surroundings \<Rightarrow> json \<Rightarrow> miner_app \<Rightarrow> miner_app" where
  "on_metrics w v a =
     metrics_stability w (metrics_history v (metrics_round v (metrics_work v (metrics_rates w v a))))"

definition on_session_error :: "surroundings \<Rightarrow> json \<Rightarrow> miner_app \<Rightarrow> miner_app" where
  "on_session_error w v a =
     (let a = clear_active_work (a\<lparr>ma_node_link_live := False,
            ma_worker_error_can_restore_mining := False, ma_hashrate := 0,
            ma_smoothed_hashrate := 0, ma_last_metrics_at := None\<rparr>);
          a = a\<lparr>ma_mempool_size := None, ma_peer_count := None, ma_block_flow := None,
                ma_observed_tip_height := None, ma_tip_observed_at := None, ma_backlog_history := []\<rparr>;
          session_error = (case get_str ''message'' v of None \<Rightarrow> ''Pool session ended.''
            | Some message \<Rightarrow> redact_sensitive_text w a message)
      in if \<not> ma_engine_fatal_seen a
         then a\<lparr>ma_phase := Reconnecting, ma_last_error := session_error\<rparr>
         else a)"

section \<open>The dispatcher\<close>

definition apply_telemetry :: "surroundings \<Rightarrow> json \<Rightarrow> miner_app \<Rightarrow> miner_app" where
  "apply_telemetry w v a =
     (let event = get_str ''event'' v in
      if ma_engine_fatal_seen a \<or> (ma_requested_stop a \<and> event \<noteq> Some ''engine_fatal'') then a
      else case event of
        None \<Rightarrow> a
      | Some e \<Rightarrow>
          if e = ''startup'' then on_startup w v a
          else if e = ''connecting'' then on_connecting a
          else if e = ''pool_connected'' then on_pool_connected w a
          else if e = ''node_connected'' then on_node_connected w a
          else if e = ''worker_initializing'' then on_worker_initializing w v a
          else if e = ''worker_ready'' then on_worker_ready w '' ready; hashing.'' v a
          else if e = ''worker_error'' then on_worker_error w v a
          else if e = ''worker_recovered'' then on_worker_ready w '' recovered; hashing.'' v a
          else if e = ''engine_fatal'' then on_engine_fatal w v a
          else if e = ''job'' then on_job w v a
          else if e = ''job_cleared'' then on_job_cleared w v a
          else if e = ''network'' then on_network v a
          else if e = ''peers'' then on_peers w v a
          else if e = ''block_flow'' then on_block_flow w v a
          else if e = ''chain_baseline'' then on_chain_baseline w v a
          else if e = ''chain_block'' then on_chain_block w v a
          else if e = ''chain_gap'' then on_chain_gap w v a
          else if e = ''chain_reorg'' then on_chain_reorg w v a
          else if e = ''chain_feed_unavailable'' then on_chain_feed_unavailable w v a
          else if e = ''metrics'' then on_metrics w v a
          else if e = ''share'' then take_counters v a
          else if e = ''session_error'' then on_session_error w v a
          else a)"

section \<open>Readouts\<close>

definition telemetry_is_fresh :: "surroundings \<Rightarrow> miner_app \<Rightarrow> bool" where
  "telemetry_is_fresh w a \<longleftrightarrow>
     (case ma_last_metrics_at a of None \<Rightarrow> False
      | Some t \<Rightarrow> now w - t <
          unat (max (saturating_mul (st_report_secs (ma_settings a)) 3) 8) * nanos_per_sec)"

definition hashing_now :: "surroundings \<Rightarrow> miner_app \<Rightarrow> bool" where
  "hashing_now w a \<longleftrightarrow> telemetry_is_fresh w a \<and> ma_node_link_live a \<and>
     \<not> ma_engine_fatal_seen a \<and> \<not> ma_requested_stop a \<and> ma_ready_workers a > 0"

definition solo_block_eta_seconds :: "surroundings \<Rightarrow> miner_app \<Rightarrow> real option" where
  "solo_block_eta_seconds w a =
     (if \<not> hashing_now w a then None
      else Option.bind (ma_expected_hashes a) (\<lambda>expected.
        if ma_smoothed_hashrate a > 0 then Some (expected / ma_smoothed_hashrate a) else None))"

definition current_round_probability :: "surroundings \<Rightarrow> miner_app \<Rightarrow> real option" where
  "current_round_probability w a =
     Option.bind (ma_expected_hashes a) (\<lambda>_.
       if hashing_now w a then ma_round_probability a else None)"

definition current_round_elapsed :: "surroundings \<Rightarrow> miner_app \<Rightarrow> nat option" where
  "current_round_elapsed w a =
     (if hashing_now w a then map_option (\<lambda>started. now w - started) (ma_height_started_at a) else None)"

datatype hashrate_readout = Live real | Stale real | Offline

definition headline_hashrate :: "surroundings \<Rightarrow> miner_app \<Rightarrow> hashrate_readout" where
  "headline_hashrate w a =
     (if \<not> is_running a \<or> ma_engine_fatal_seen a then Offline
      else if telemetry_is_fresh w a then Live (ma_hashrate a)
      else Stale (ma_hashrate a))"

definition uptime :: "surroundings \<Rightarrow> miner_app \<Rightarrow> str" where
  "uptime w a =
     (if \<not> is_running a then ''00:00:00''
      else case ma_started_at a of
        None \<Rightarrow> ''00:00:00''
      | Some started \<Rightarrow>
          let seconds = (now w - started) div nanos_per_sec
          in pad2 (seconds div 3600) @ '':'' @ pad2 (seconds div 60 mod 60) @ '':'' @ pad2 (seconds mod 60))"

end
