(* ===== verification/Supervisor.thy ===== *)
theory Supervisor
  imports Telemetry Transition
begin

text \<open>
  How the desktop interface supervises its engine process (\<open>src/gui.rs\<close>: \<open>start\<close>,
  \<open>start_engine\<close>, \<open>stop\<close>, \<open>poll_process\<close> and what they call). What the operating system
  answers is a record argument of each handler. Besides the new state a handler returns the
  process events it caused, in order: an engine that came into being, the arguments and the password
  that were handed to it, and an engine whose exit the operating system confirmed.
\<close>

datatype proc_event = Spawned nat | Handed nat "str list" "str option" | Reaped nat

type_synonym supervised = "miner_app \<times> proc_event list"

section \<open>Error texts\<close>

definition pool_error_text :: "pool_error \<Rightarrow> str" where
  "pool_error_text e = (case e of
       EndpointShape \<Rightarrow> ''Endpoint must be a host and port, such as 192.168.0.244:8645.''
     | EndpointCredentials \<Rightarrow> ''Endpoint credentials are not allowed. Enter only the host and port; use the separate password field.''
     | MissingPort \<Rightarrow> ''Pool is missing its TCP port.''
     | EmptyHost \<Rightarrow> ''Pool host cannot be empty.''
     | PortNotNumber \<Rightarrow> ''Pool port must be a number from 1 to 65535.''
     | PortZero \<Rightarrow> ''Pool port cannot be zero.'')"

definition settings_error_text :: "settings_error \<Rightarrow> str" where
  "settings_error_text e = (case e of
       BadEndpoint p \<Rightarrow> pool_error_text p
     | EmptyLabel \<Rightarrow> ''Worker label cannot be empty.''
     | LongLabel \<Rightarrow> ''Worker label must be 256 characters or fewer.''
     | PasswordLineBreak \<Rightarrow> ''Stratum password cannot contain a line break.''
     | LongPassword \<Rightarrow> ''Stratum password is unexpectedly large.''
     | WorkerRange \<Rightarrow> ''Worker count must be between 1 and 64.'')"

section \<open>Restarts\<close>

definition schedule_automatic_restart :: "surroundings \<Rightarrow> str \<Rightarrow> miner_app \<Rightarrow> miner_app" where
  "schedule_automatic_restart w reason a =
     (if ma_requested_stop a \<or> \<not> ma_automatic_recovery_enabled a then a
      else
        let a = (if family w = Windows then a\<lparr>ma_single_worker_recovery := True\<rparr> else a)
        in if ma_automatic_restart_attempts a \<ge> MAX_AUTOMATIC_ENGINE_RESTARTS
           then
             let a = a\<lparr>ma_automatic_recovery_enabled := False, ma_automatic_restart_at := None,
                       ma_phase := Failed,
                       ma_last_error := reason @ '' Automatic recovery stopped after '' @
                         decimal (unat MAX_AUTOMATIC_ENGINE_RESTARTS) @
                         '' attempts; review the saved crash reports before restarting.''\<rparr>
             in push_log w (ma_last_error a) True a
           else
             let attempts = ma_automatic_restart_attempts a + 1;
                 delay = automatic_restart_delay attempts;
                 a = a\<lparr>ma_automatic_restart_attempts := attempts,
                       ma_automatic_restart_at := Some (now w + unat delay * nanos_per_sec),
                       ma_phase := Reconnecting, ma_last_error := reason\<rparr>
             in push_log w
                  (''Automatic engine recovery '' @ decimal (unat attempts) @ ''/'' @
                   decimal (unat MAX_AUTOMATIC_ENGINE_RESTARTS) @ '' scheduled in '' @
                   show_u64 delay @ '' seconds'' @
                   (if ma_light_randomx_recovery a
                    then '' using one-worker portable light-memory RandomX''
                    else if ma_single_worker_recovery a
                    then '' using one-worker optimized RandomX'' else []) @ ''.'') False a)"

definition fail_engine_start :: "surroundings \<Rightarrow> str \<Rightarrow> bool \<Rightarrow> miner_app \<Rightarrow> miner_app" where
  "fail_engine_start w err automatic a =
     (let a = push_log w err True (a\<lparr>ma_phase := Failed, ma_last_error := err\<rparr>)
      in if automatic then schedule_automatic_restart w err a else a)"

section \<open>Starting\<close>

text \<open>
  The answers \<open>start_engine\<close> gets: the memory scan, the saving of the settings, the path of the
  executable, the new process, its pipes (\<open>None\<close> when there is none), the reader threads, and
  what a cleanup finds.
\<close>

record start_answers =
  sa_memory :: "memory_snapshot option"
  sa_saved :: "str + unit"
  sa_executable :: "str + unit"
  sa_spawned :: "str + nat"
  sa_stdin :: "(str + unit) option"
  sa_stdout :: "(str + nat) option"
  sa_stderr :: "(str + nat) option"
  sa_cleanup :: child_answers
  sa_finished :: "nat \<Rightarrow> bool"
  sa_panicked :: "nat \<Rightarrow> bool"

definition reader_start :: "str \<Rightarrow> str \<Rightarrow> (str + nat) option \<Rightarrow> str list \<times> nat list" where
  "reader_start unavailable failed pipe =
     (case pipe of
        None \<Rightarrow> ([unavailable], [])
      | Some (Inl e) \<Rightarrow> ([failed @ e], [])
      | Some (Inr thread) \<Rightarrow> ([], [thread]))"

definition launch_arguments :: "surroundings \<Rightarrow> miner_app \<Rightarrow> str list" where
  "launch_arguments w a = headless_command (ma_settings a) (effective_workers w a)
     (ma_light_randomx_recovery a) (ma_memory_snapshot a \<noteq> None) (ma_memory_acknowledged a)"

text \<open>What the engine reads from its standard input: nothing when there is no pipe or the write failed.\<close>

definition password_handed :: "start_answers \<Rightarrow> miner_app \<Rightarrow> str option" where
  "password_handed s a =
     (case sa_stdin s of Some (Inr _) \<Rightarrow> Some (st_password (ma_settings a)) | _ \<Rightarrow> None)"

text \<open>What is logged before the process is created.\<close>

definition announce_start :: "surroundings \<Rightarrow> bool \<Rightarrow> str \<Rightarrow> miner_app \<Rightarrow> miner_app" where
  "announce_start w automatic memory_preflight a =
     (let a = push_log w (if automatic
            then ''Restarting the isolated mining engine under GUI supervision'' @ ellipsis
            else ''Starting isolated mining engine'' @ ellipsis) False a;
          workers = show_u64 (effective_workers w a) @ ''/'' @ show_u64 (st_workers (ma_settings a));
          a = (if ma_light_randomx_recovery a
               then push_log w (''Windows recovery is locked to portable light-memory RandomX with '' @
                 workers @ '' effective worker; no full dataset will be allocated or retried.'') False a
               else if ma_single_worker_recovery a
               then push_log w (''Windows recovery is using the optimized RandomX backend with '' @
                 workers @ '' effective worker; the saved preference is unchanged.'') False a
               else a)
      in push_log w memory_preflight False a)"

text \<open>
  The process exists: its password and its readers. \<open>Inl\<close> is the failure of a start, with what
  the cleanup of the child and of the readers adds to its text.
\<close>

definition attach_outcome :: "start_answers \<Rightarrow> str + exit_status \<Rightarrow> str + nat list" where
  "attach_outcome s cleanup =
     (case sa_stdin s of
        Some (Inl e) \<Rightarrow>
          Inl (''Cannot pass credentials to mining engine: '' @ e @
            (case cleanup of Inl ce \<Rightarrow> '' Child cleanup failed: '' @ ce @ ''.'' | Inr _ \<Rightarrow> []))
      | _ \<Rightarrow>
          let (stdout_errors, stdout_threads) = reader_start ''Mining engine stdout pipe is unavailable.''
                ''Cannot start the telemetry reader thread: '' (sa_stdout s);
              (stderr_errors, stderr_threads) = reader_start ''Mining engine stderr pipe is unavailable.''
                ''Cannot start the engine-log reader thread: '' (sa_stderr s);
              errors = stdout_errors @ stderr_errors;
              threads = stdout_threads @ stderr_threads
          in if errors = [] then Inr threads
             else
               let errors = errors @ (case cleanup of Inl ce \<Rightarrow> [''Child cleanup failed: '' @ ce @ ''.''] | Inr _ \<Rightarrow> []);
                   joined = List.filter (\<lambda>t. \<not> isl cleanup \<or> sa_finished s t) threads;
                   errors = errors @ List.map (\<lambda>_. ''An output reader panicked during startup cleanup.'')
                     (List.filter (sa_panicked s) joined);
                   detached = length threads - length joined;
                   errors = errors @ (if detached > 0
                     then [decimal detached @ '' output reader(s) could not be joined without blocking.'']
                     else [])
               in Inl (concat (List.map (\<lambda>e. e @ '' '') (butlast errors)) @ last errors))"

definition attach_engine ::
  "surroundings \<Rightarrow> start_answers \<Rightarrow> bool \<Rightarrow> nat \<Rightarrow> miner_app \<Rightarrow> supervised"
where
  "attach_engine w s automatic child a =
     (let cleanup = terminate_and_reap_child (sa_cleanup s)
      in case attach_outcome s cleanup of
           Inr threads \<Rightarrow> (a\<lparr>ma_receiver := True, ma_reader_threads := threads, ma_child := Some child\<rparr>, [])
         | Inl e \<Rightarrow>
             (case cleanup of
                Inr _ \<Rightarrow> (fail_engine_start w e automatic a, [Reaped child])
              | Inl _ \<Rightarrow> (fail_engine_start w e automatic (a\<lparr>ma_quarantined_child := Some child\<rparr>), [])))"

text \<open>From the passed preflight to the creation of the process.\<close>

definition prepare_start :: "surroundings \<Rightarrow> start_answers \<Rightarrow> bool \<Rightarrow> miner_app \<Rightarrow> miner_app" where
  "prepare_start w s automatic a =
     (let memory_preflight = memory_preflight_summary w a;
          a = (case sa_saved s of Inl e \<Rightarrow> push_log w e True a | Inr _ \<Rightarrow> a);
          a = (reset_telemetry a)\<lparr>ma_phase := Starting, ma_requested_stop := False,
                 ma_started_at := Some (now w)\<rparr>;
          a = (if automatic then a else a\<lparr>ma_logs := []\<rparr>)
      in announce_start w automatic memory_preflight a)"

definition start_engine :: "surroundings \<Rightarrow> start_answers \<Rightarrow> bool \<Rightarrow> miner_app \<Rightarrow> supervised" where
  "start_engine w s automatic a =
     (if has_live_engine_state a then (a, [])
      else
        let a = a\<lparr>ma_automatic_restart_at := None\<rparr>
        in case validate_settings (ma_settings a) of
             Inl e \<Rightarrow> (fail_engine_start w (settings_error_text e) automatic a, [])
           | Inr _ \<Rightarrow>
               let a = a\<lparr>ma_memory_snapshot := sa_memory s\<rparr>
               in case memory_preflight_error w a of
                    Some e \<Rightarrow> (fail_engine_start w e automatic a, [])
                  | None \<Rightarrow>
                      let a = prepare_start w s automatic a
                      in case sa_executable s of
                           Inl e \<Rightarrow> (fail_engine_start w (''Cannot locate miner executable: '' @ e) automatic a, [])
                         | Inr _ \<Rightarrow>
                             (case sa_spawned s of
                                Inl e \<Rightarrow> (fail_engine_start w (''Cannot start mining engine: '' @ e) automatic a, [])
                              | Inr child \<Rightarrow>
                                  (case attach_engine w s automatic child a of
                                     (b, evs) \<Rightarrow>
                                       (b, Spawned child # Handed child (launch_arguments w a) (password_handed s a) # evs))))"

definition start :: "surroundings \<Rightarrow> start_answers \<Rightarrow> miner_app \<Rightarrow> supervised" where
  "start w s a =
     (if is_running a then (a, [])
      else start_engine w s False
        (a\<lparr>ma_automatic_restart_attempts := 0, ma_single_worker_recovery := False,
           ma_light_randomx_recovery := False, ma_automatic_recovery_enabled := True\<rparr>))"

section \<open>Messages of the engine\<close>

datatype process_message = TelemetryMessage json | LogMessage str

text \<open>What the reader of standard output makes of a line.\<close>

definition message_of_line :: "serde \<Rightarrow> str \<Rightarrow> process_message" where
  "message_of_line S line =
     (case parse_json S line of Inr v \<Rightarrow> TelemetryMessage v | Inl _ \<Rightarrow> LogMessage line)"

definition is_error_line :: "str \<Rightarrow> bool" where
  "is_error_line line \<longleftrightarrow>
     (let lower = to_ascii_lowercase line
      in contains_str lower ''error:'' \<or> contains_str lower ''failed'' \<or>
         contains_str lower ''submission rejected'' \<or> contains_str lower ''share rejected #'' \<or>
         contains_str lower ''session ended'')"

definition apply_process_message :: "surroundings \<Rightarrow> process_message \<Rightarrow> miner_app \<Rightarrow> miner_app" where
  "apply_process_message w message a =
     (case message of
        TelemetryMessage v \<Rightarrow> apply_telemetry w v a
      | LogMessage line \<Rightarrow>
          if starts_with line ''height '' \<and> contains_str line '' | total '' then a
          else push_log w line (is_error_line line) a)"

definition MAX_PROCESS_MESSAGES_PER_FRAME :: nat where "MAX_PROCESS_MESSAGES_PER_FRAME = 64"

text \<open>The messages waiting in the channel, and whether every sender is gone.\<close>

definition drain_process_messages ::
  "surroundings \<Rightarrow> process_message list \<Rightarrow> bool \<Rightarrow> miner_app \<Rightarrow> bool \<times> miner_app"
where
  "drain_process_messages w queue senders_gone a =
     (if \<not> ma_receiver a then (True, a)
      else (senders_gone \<and> length queue < MAX_PROCESS_MESSAGES_PER_FRAME,
            fold (apply_process_message w) (take MAX_PROCESS_MESSAGES_PER_FRAME queue) a))"

section \<open>The end of an engine\<close>

definition reader_stopped :: str where
  "reader_stopped = ''A mining-engine output reader stopped unexpectedly.''"

definition join_reader_threads :: "surroundings \<Rightarrow> (nat \<Rightarrow> bool) \<Rightarrow> miner_app \<Rightarrow> miner_app" where
  "join_reader_threads w panicked a =
     fold (\<lambda>t a. if panicked t then push_log w reader_stopped True a else a)
       (ma_reader_threads a) (a\<lparr>ma_reader_threads := []\<rparr>)"

definition join_finished_reader_threads ::
  "surroundings \<Rightarrow> (nat \<Rightarrow> bool) \<Rightarrow> (nat \<Rightarrow> bool) \<Rightarrow> miner_app \<Rightarrow> nat \<times> miner_app"
where
  "join_finished_reader_threads w finished panicked a =
     (length (List.filter (\<lambda>t. \<not> finished t) (ma_reader_threads a)),
      fold (\<lambda>t a. if finished t \<and> panicked t then push_log w reader_stopped True a else a)
        (ma_reader_threads a) (a\<lparr>ma_reader_threads := []\<rparr>))"

definition OBSERVATION_FAILURE_DRAIN_GRACE :: nat where
  "OBSERVATION_FAILURE_DRAIN_GRACE = 2 * nanos_per_sec"

definition OUTPUT_DISCONNECT_GRACE :: nat where
  "OUTPUT_DISCONNECT_GRACE = 500 * 10 ^ 6"

definition begin_observation_failure ::
  "surroundings \<Rightarrow> child_answers \<Rightarrow> str \<Rightarrow> str \<Rightarrow> miner_app \<Rightarrow> supervised"
where
  "begin_observation_failure w answers context err a =
     (if ma_pending_observation_failure a \<noteq> None then (a, [])
      else
        let a = a\<lparr>ma_engine_fatal_seen := True, ma_node_link_live := False,
                  ma_requested_stop := False, ma_worker_error_can_restore_mining := False,
                  ma_phase := Failed, ma_last_error := context @ '': '' @ err\<rparr>;
            a = push_log w (ma_last_error a) True a;
            (summary, a, evs) =
              (case ma_child a of
                 None \<Rightarrow> (''child handle was already unavailable'', a, [])
               | Some child \<Rightarrow>
                   let a = a\<lparr>ma_child := None\<rparr>
                   in case terminate_and_reap_child answers of
                        Inr status \<Rightarrow>
                          (''child cleanup observed '' @ describe_exit_status (family w) status, a, [Reaped child])
                      | Inl e \<Rightarrow>
                          let summary = ''child cleanup incomplete: '' @ e
                          in (summary, (push_log w summary True a)\<lparr>ma_quarantined_child := Some child\<rparr>, []))
        in (a\<lparr>ma_pending_observation_failure := Some
               \<lparr>of_report_detail = ma_last_error a @ ''; '' @ summary,
                of_drain_deadline = now w + OBSERVATION_FAILURE_DRAIN_GRACE\<rparr>\<rparr>, evs))"

text \<open>The crash report is written by \<open>write_crash_report\<close>; its outcome is an argument here.\<close>

definition log_report :: "surroundings \<Rightarrow> str + str \<Rightarrow> miner_app \<Rightarrow> miner_app" where
  "log_report w report a =
     (case report of
        Inr path \<Rightarrow> push_log w (''Crash report saved securely to '' @ path @ ''.'') False a
      | Inl e \<Rightarrow> push_log w (''Could not save crash report: '' @ e) True a)"

text \<open>The fields both ends of an engine reset.\<close>

definition engine_gone :: "miner_app \<Rightarrow> miner_app" where
  "engine_gone a =
     (clear_active_work (a\<lparr>ma_hashrate := 0, ma_smoothed_hashrate := 0, ma_last_metrics_at := None\<rparr>))
       \<lparr>ma_ready_worker_ids := [], ma_ready_workers := 0, ma_output_disconnected_at := None,
        ma_node_link_live := False\<rparr>"

definition finish_observation_failure :: "surroundings \<Rightarrow> str + str \<Rightarrow> miner_app \<Rightarrow> miner_app" where
  "finish_observation_failure w report a =
     (let a = log_report w report ((engine_gone a)\<lparr>ma_phase := Failed\<rparr>)
      in schedule_automatic_restart w (ma_last_error a) a)"

definition escalate :: "surroundings \<Rightarrow> exit_status \<Rightarrow> miner_app \<Rightarrow> miner_app" where
  "escalate w status a =
     (case recovery_escalation (family w) status (ma_light_randomx_recovery a)
             (ma_automatic_restart_attempts a) of
        Keep \<Rightarrow>
          if family w = Windows \<and> \<not> ma_single_worker_recovery a
          then push_log w ''Windows engine recovery is retrying the optimized backend with one effective worker; the saved worker preference is unchanged.''
                 True (a\<lparr>ma_single_worker_recovery := True\<rparr>)
          else a
      | Light \<Rightarrow>
          push_log w
            (if exit_status_requires_light_randomx status
             then ''Windows reported native memory/commit exhaustion. Recovery will use one-worker portable light mode without allocating or retrying the full dataset.''
             else if exit_status_is_native_execution_failure status
             then ''Windows reported a native execution failure. Recovery will bypass the accelerated full-dataset path and use one-worker portable light mode.''
             else ''The one-worker optimized recovery also exited. Recovery is escalating to one-worker portable light mode without a full-dataset retry.'')
            True (a\<lparr>ma_single_worker_recovery := True, ma_light_randomx_recovery := True\<rparr>)
      | Terminal \<Rightarrow>
          push_log w ''Windows reports that a required runtime DLL is missing; automatic retries are stopped because the executable environment must be repaired.''
            True (a\<lparr>ma_automatic_recovery_enabled := False\<rparr>))"

definition finish_exited_child :: "surroundings \<Rightarrow> str + str \<Rightarrow> exit_status \<Rightarrow> miner_app \<Rightarrow> miner_app" where
  "finish_exited_child w report status a =
     (let a = engine_gone (a\<lparr>ma_worker_error_can_restore_mining := False\<rparr>)
      in if ma_requested_stop a \<and> \<not> ma_engine_fatal_seen a \<and>
            exit_status_matches_requested_stop (family w) status
         then push_log w ''Mining stopped.'' False (a\<lparr>ma_phase := Idle\<rparr>)
         else
           let a = a\<lparr>ma_phase := Failed,
                     ma_last_error := ''Mining engine exited unexpectedly: '' @
                       describe_exit_status (family w) status @ ''.''\<rparr>;
               a = push_log w (ma_last_error a) True a;
               a = log_report w report a;
               a = escalate w status a
           in schedule_automatic_restart w (ma_last_error a) a)"

section \<open>Stopping\<close>

record stop_answers =
  to_cleanup :: child_answers
  to_observed :: "str + exit_status option"
  to_killed :: "str + unit"

text \<open>\<open>stop\<close> when no child is held.\<close>

definition stop_without_child :: "surroundings \<Rightarrow> stop_answers \<Rightarrow> bool \<Rightarrow> miner_app \<Rightarrow> supervised" where
  "stop_without_child w t canceled_recovery a =
     (let (a, evs) =
            (case ma_quarantined_child a of
               None \<Rightarrow> (a, [])
             | Some child \<Rightarrow>
                 let a = push_log w (''Retrying cleanup of the unobserved mining engine'' @ ellipsis) False
                           (a\<lparr>ma_quarantined_child := None\<rparr>)
                 in case terminate_and_reap_child (to_cleanup t) of
                      Inr status \<Rightarrow>
                        (push_log w (''Previously unobserved mining engine is now stopped ('' @
                           describe_exit_status (family w) status @ '').'') False a, [Reaped child])
                    | Inl e \<Rightarrow>
                        let a = a\<lparr>ma_last_error := ''Mining engine cleanup is still unconfirmed: '' @ e\<rparr>
                        in ((push_log w (ma_last_error a) True a)\<lparr>ma_quarantined_child := Some child\<rparr>, []))
      in if ma_pending_exit a \<noteq> None \<or> ma_pending_observation_failure a \<noteq> None
         then (push_log w ''Stop acknowledged; waiting for final engine output without automatic restart.'' False
                 (a\<lparr>ma_phase := Stopping\<rparr>), evs)
         else if ma_quarantined_child a = None
         then
           let a = a\<lparr>ma_phase := Idle, ma_last_error := []\<rparr>
           in (if canceled_recovery then push_log w ''Mining stopped.'' False a else a, evs)
         else (a, evs))"

text \<open>The latch of the automatic recovery is cleared before anything else.\<close>

definition cancel_recovery :: "surroundings \<Rightarrow> miner_app \<Rightarrow> miner_app" where
  "cancel_recovery w a =
     (let canceled = (ma_automatic_restart_at a \<noteq> None);
          a = a\<lparr>ma_automatic_recovery_enabled := False, ma_automatic_restart_at := None\<rparr>
      in if canceled
         then push_log w ''Automatic engine recovery canceled by the operator.'' False
                (a\<lparr>ma_automatic_restart_attempts := 0, ma_node_link_live := False\<rparr>)
         else a)"

definition kill_child :: "surroundings \<Rightarrow> str + unit \<Rightarrow> miner_app \<Rightarrow> miner_app" where
  "kill_child w killed a =
     (let a = push_log w (''Stopping mining engine and releasing worker memory'' @ ellipsis) False
            (a\<lparr>ma_worker_error_can_restore_mining := False, ma_node_link_live := False,
               ma_phase := Stopping\<rparr>)
      in case killed of
           Inr _ \<Rightarrow> a\<lparr>ma_requested_stop := True\<rparr>
         | Inl e \<Rightarrow>
             let a = a\<lparr>ma_engine_fatal_seen := True,
                       ma_last_error := ''Could not stop mining engine: '' @ e, ma_phase := Failed\<rparr>
             in push_log w (ma_last_error a) True a)"

definition stop :: "surroundings \<Rightarrow> stop_answers \<Rightarrow> miner_app \<Rightarrow> supervised" where
  "stop w t a =
     (let canceled_recovery = (ma_automatic_restart_at a \<noteq> None);
          a = cancel_recovery w a
      in case ma_child a of
           None \<Rightarrow> stop_without_child w t canceled_recovery a
         | Some child \<Rightarrow>
             (case to_observed t of
                Inl e \<Rightarrow> begin_observation_failure w (to_cleanup t)
                  ''Cannot observe mining engine before stopping'' e a
              | Inr (Some status) \<Rightarrow> (a\<lparr>ma_child := None, ma_pending_exit := Some status\<rparr>, [Reaped child])
              | Inr None \<Rightarrow> (kill_child w (to_killed t) a, [])))"

section \<open>One frame\<close>

record poll_answers =
  po_queue :: "process_message list"
  po_senders_gone :: bool
  po_child :: "str + exit_status option"
  po_quarantined :: "str + exit_status option"
  po_cleanup :: child_answers
  po_finished :: "nat \<Rightarrow> bool"
  po_panicked :: "nat \<Rightarrow> bool"
  po_report :: "str + str"
  po_killed :: "str + unit"
  po_start :: start_answers

definition poll_observe :: "surroundings \<Rightarrow> poll_answers \<Rightarrow> miner_app \<Rightarrow> supervised" where
  "poll_observe w p a =
     (if ma_pending_exit a = None \<and> ma_pending_observation_failure a = None
      then case ma_child a of
             None \<Rightarrow> (a, [])
           | Some child \<Rightarrow>
               (case po_child p of
                  Inr (Some status) \<Rightarrow>
                    (a\<lparr>ma_child := None, ma_node_link_live := False, ma_pending_exit := Some status\<rparr>,
                     [Reaped child])
                | Inl e \<Rightarrow> begin_observation_failure w (po_cleanup p) ''Cannot observe mining engine'' e a
                | Inr None \<Rightarrow> (a, []))
      else (a, []))"

definition drain_timeout_text :: "nat \<Rightarrow> str" where
  "drain_timeout_text detached = ''Crash report output drain timed out; '' @ decimal detached @
     '' reader thread(s) were detached and the final tail may be incomplete.''"

definition poll_failure :: "surroundings \<Rightarrow> poll_answers \<Rightarrow> bool \<Rightarrow> miner_app \<Rightarrow> miner_app" where
  "poll_failure w p output_disconnected a =
     (case ma_pending_observation_failure a of
        None \<Rightarrow> a
      | Some failure \<Rightarrow>
          if output_disconnected \<or> now w \<ge> of_drain_deadline failure
          then
            let a = (if output_disconnected then join_reader_threads w (po_panicked p) a
                     else
                       let (detached, a) = join_finished_reader_threads w (po_finished p) (po_panicked p)
                             (a\<lparr>ma_receiver := False\<rparr>)
                       in push_log w (drain_timeout_text detached) True a)
            in finish_observation_failure w (po_report p)
                 (a\<lparr>ma_receiver := False, ma_pending_observation_failure := None\<rparr>)
          else a)"

definition poll_quarantine :: "surroundings \<Rightarrow> poll_answers \<Rightarrow> miner_app \<Rightarrow> supervised" where
  "poll_quarantine w p a =
     (case (ma_quarantined_child a, po_quarantined p) of
        (Some child, Inr (Some status)) \<Rightarrow>
          (push_log w (''Previously unobserved mining engine exit is now confirmed ('' @
             describe_exit_status (family w) status @ ''); restart is safe.'') False
             (a\<lparr>ma_quarantined_child := None\<rparr>), [Reaped child])
      | _ \<Rightarrow> (a, []))"

definition poll_exit :: "surroundings \<Rightarrow> poll_answers \<Rightarrow> bool \<Rightarrow> miner_app \<Rightarrow> miner_app" where
  "poll_exit w p output_disconnected a =
     (case ma_pending_exit a of
        Some status \<Rightarrow>
          if output_disconnected
          then finish_exited_child w (po_report p) status
                 ((join_reader_threads w (po_panicked p) (a\<lparr>ma_pending_exit := None\<rparr>))\<lparr>ma_receiver := False\<rparr>)
          else a
      | None \<Rightarrow> a)"

text \<open>A reader that ended while the child still runs.\<close>

definition reader_lost :: "surroundings \<Rightarrow> str + unit \<Rightarrow> miner_app \<Rightarrow> miner_app" where
  "reader_lost w killed a =
     (let a = a\<lparr>ma_engine_fatal_seen := True, ma_node_link_live := False,
                ma_worker_error_can_restore_mining := False, ma_phase := Failed,
                ma_last_error := ''A mining engine output reader ended while the engine was still running.''\<rparr>;
          a = push_log w (ma_last_error a) True a
      in case killed of
           Inl e \<Rightarrow> push_log w (''Could not stop the unobserved mining engine: '' @ e) True a
         | Inr _ \<Rightarrow> a)"

definition poll_reader :: "surroundings \<Rightarrow> poll_answers \<Rightarrow> bool \<Rightarrow> bool \<Rightarrow> miner_app \<Rightarrow> miner_app" where
  "poll_reader w p had_receiver output_disconnected a =
     (let reader_ended = (output_disconnected \<or> list_ex (po_finished p) (ma_reader_threads a))
      in if ma_pending_exit a = None \<and> ma_child a \<noteq> None \<and> reader_ended
         then
           let ended_at = (case ma_output_disconnected_at a of Some t \<Rightarrow> t | None \<Rightarrow> now w);
               a = a\<lparr>ma_output_disconnected_at := Some ended_at\<rparr>
           in if now w - ended_at \<ge> OUTPUT_DISCONNECT_GRACE \<and> \<not> ma_requested_stop a \<and>
                 \<not> ma_engine_fatal_seen a
              then reader_lost w (po_killed p) a
              else a
         else if had_receiver \<and> \<not> reader_ended then a\<lparr>ma_output_disconnected_at := None\<rparr>
         else a)"

definition poll_restart :: "surroundings \<Rightarrow> poll_answers \<Rightarrow> miner_app \<Rightarrow> supervised" where
  "poll_restart w p a =
     (case ma_automatic_restart_at a of
        Some deadline \<Rightarrow>
          if now w \<ge> deadline \<and> \<not> has_live_engine_state a
          then start_engine w (po_start p) True (a\<lparr>ma_automatic_restart_at := None\<rparr>)
          else (a, [])
      | None \<Rightarrow> (a, []))"

definition poll_process :: "surroundings \<Rightarrow> poll_answers \<Rightarrow> miner_app \<Rightarrow> supervised" where
  "poll_process w p a =
     (let had_receiver = ma_receiver a;
          (output_disconnected, a) = drain_process_messages w (po_queue p) (po_senders_gone p) a;
          (a, observed) = poll_observe w p a;
          a = poll_failure w p output_disconnected a;
          (a, confirmed) = poll_quarantine w p a;
          a = poll_exit w p output_disconnected a;
          a = poll_reader w p had_receiver output_disconnected a;
          (a, restarted) = poll_restart w p a
      in (a, observed @ confirmed @ restarted))"

end
