(* ===== verification/Supervision.thy ===== *)
theory Supervision
  imports Supervisor
begin

text \<open>
  What holds of the supervisor of \<open>Supervisor\<close> over a whole run. First the frame of every handler
  (which fields it leaves alone, in the collection \<open>frame_simps\<close>), then the invariant \<open>app_inv\<close> and
  the account \<open>sound\<close> of the processes a handler creates and reaps, and the machine \<open>sup_step\<close> of the
  operator's Start and Stop, the polls, and the exits of engines. The theorems say that at most one
  engine runs and that the interface holds it, and that Stop is final.
\<close>

section \<open>What telemetry leaves alone\<close>

named_theorems frame_simps \<open>fields an operation does not change\<close>

definition sup_of :: "miner_app \<Rightarrow> nat option \<times> nat option \<times> exit_status option \<times>
    observation_failure option \<times> bool \<times> bool \<times> instant option \<times> settings \<times> bool \<times> bool" where
  "sup_of a = (ma_child a, ma_quarantined_child a, ma_pending_exit a,
     ma_pending_observation_failure a, ma_requested_stop a, ma_automatic_recovery_enabled a,
     ma_automatic_restart_at a, ma_settings a, ma_single_worker_recovery a, ma_light_randomx_recovery a)"

lemma push_log_frame [frame_simps]:
  "sup_of (push_log w t e a) = sup_of a"
  "ma_child (push_log w t e a) = ma_child a"
  "ma_quarantined_child (push_log w t e a) = ma_quarantined_child a"
  "ma_pending_exit (push_log w t e a) = ma_pending_exit a"
  "ma_pending_observation_failure (push_log w t e a) = ma_pending_observation_failure a"
  "ma_requested_stop (push_log w t e a) = ma_requested_stop a"
  "ma_automatic_recovery_enabled (push_log w t e a) = ma_automatic_recovery_enabled a"
  "ma_automatic_restart_at (push_log w t e a) = ma_automatic_restart_at a"
  "ma_settings (push_log w t e a) = ma_settings a"
  "ma_single_worker_recovery (push_log w t e a) = ma_single_worker_recovery a"
  "ma_light_randomx_recovery (push_log w t e a) = ma_light_randomx_recovery a"
  "ma_memory_snapshot (push_log w t e a) = ma_memory_snapshot a"
  "ma_automatic_restart_attempts (push_log w t e a) = ma_automatic_restart_attempts a"
  "ma_engine_fatal_seen (push_log w t e a) = ma_engine_fatal_seen a"
  "ma_receiver (push_log w t e a) = ma_receiver a"
  "ma_last_error (push_log w t e a) = ma_last_error a"
  "ma_phase (push_log w t e a) = ma_phase a"
  "ma_node_link_live (push_log w t e a) = ma_node_link_live a"
  "ma_light_randomx_recovery (push_log w t e a) = ma_light_randomx_recovery a"
  "ma_single_worker_recovery (push_log w t e a) = ma_single_worker_recovery a"
  by (simp_all add: push_log_def Let_def sup_of_def)

text \<open>An operation of telemetry keeps the supervision and spends no restart.\<close>

definition keeps :: "miner_app \<Rightarrow> miner_app \<Rightarrow> bool" where
  "keeps a b \<longleftrightarrow> sup_of b = sup_of a \<and>
     ma_automatic_restart_attempts b = ma_automatic_restart_attempts a"

text \<open>Only a metrics sample can give the restart budget back.\<close>

definition keeps_le :: "miner_app \<Rightarrow> miner_app \<Rightarrow> bool" where
  "keeps_le a b \<longleftrightarrow> sup_of b = sup_of a \<and>
     ma_automatic_restart_attempts b \<le> ma_automatic_restart_attempts a"

lemma keeps_le: "keeps a b \<Longrightarrow> keeps_le a b"
  by (simp add: keeps_def keeps_le_def)

lemma keeps_le_trans: "keeps_le a b \<Longrightarrow> keeps_le b c \<Longrightarrow> keeps_le a c"
  by (auto simp: keeps_le_def)

lemma keeps_refl [simp]: "keeps a a"
  by (simp add: keeps_def)

lemma keeps_trans: "keeps a b \<Longrightarrow> keeps b c \<Longrightarrow> keeps a c"
  by (auto simp: keeps_def)

lemma keeps_push_log [simp]: "keeps a (push_log w t e b) \<longleftrightarrow> keeps a b"
  by (simp add: keeps_def frame_simps)

lemma keeps_phase_ops:
  "keeps a (enter_mining_phase a)" "keeps a (enter_connection_phase p a)"
  "keeps a (clear_active_work a)" "keeps a (mark_worker_unready n a)"
  "keeps a (take_counters v a)"
  by (auto simp: keeps_def sup_of_def enter_mining_phase_def enter_connection_phase_def
      clear_active_work_def mark_worker_unready_def take_counters_def Let_def split: list.splits)

lemma keeps_mark_worker_ready: "keeps a (snd (mark_worker_ready w n a))"
  by (auto simp: keeps_def sup_of_def mark_worker_ready_def Let_def split: list.splits)

lemma keeps_update:
  "keeps a (enter_connection_phase p (a\<lparr>ma_node_link_live := l\<rparr>))"
  "keeps a (enter_mining_phase (a\<lparr>ma_node_link_live := l\<rparr>))"
  by (rule keeps_trans [OF _ keeps_phase_ops(2)] keeps_trans [OF _ keeps_phase_ops(1)],
      simp add: keeps_def sup_of_def)+

lemma keeps_events:
  "keeps a (on_startup w v a)" "keeps a (on_connecting a)" "keeps a (on_pool_connected w a)"
  "keeps a (on_node_connected w a)" "keeps a (on_worker_initializing w v a)"
  "keeps a (on_network v a)" "keeps a (on_chain_baseline w v a)" "keeps a (on_chain_block w v a)"
  "keeps a (on_chain_gap w v a)" "keeps a (on_chain_reorg w v a)"
  "keeps a (on_chain_feed_unavailable w v a)"
  by (auto simp: on_startup_def on_connecting_def on_pool_connected_def on_node_connected_def
      on_worker_initializing_def on_chain_baseline_def on_chain_block_def on_chain_gap_def
      on_chain_reorg_def on_chain_feed_unavailable_def keeps_update keeps_phase_ops Let_def
      split: option.splits) (simp add: on_network_def keeps_def sup_of_def)

lemma keeps_worker_ready: "keeps a (on_worker_ready w what v a)"
  using keeps_mark_worker_ready [of a w]
  by (auto simp: on_worker_ready_def split: option.splits prod.splits bool.splits) (metis snd_conv)+

lemma keeps_worker_error: "keeps a (on_worker_error w v a)"
  by (auto simp: on_worker_error_def Let_def keeps_def sup_of_def mark_worker_unready_def frame_simps
      split: option.splits)

lemma keeps_engine_fatal: "keeps a (on_engine_fatal w v a)"
  by (auto simp: on_engine_fatal_def Let_def keeps_def sup_of_def clear_active_work_def frame_simps)

lemma keeps_job: "keeps a (on_job w v a)"
proof -
  have "keeps a (enter_mining_phase (a\<lparr>ma_node_link_live := True\<rparr>))" by (rule keeps_update)
  then show ?thesis by (auto simp: on_job_def Let_def keeps_def sup_of_def)
qed

lemma keeps_job_cleared: "keeps a (on_job_cleared w v a)"
  by (auto simp: on_job_cleared_def Let_def keeps_def sup_of_def clear_active_work_def frame_simps
      split: option.splits)

lemma keeps_peers: "keeps a (on_peers w v a)"
  by (auto simp: on_peers_def Let_def keeps_def sup_of_def frame_simps split: option.splits)

lemma keeps_block_flow: "keeps a (on_block_flow w v a)"
  by (auto simp: on_block_flow_def Let_def keeps_def sup_of_def split: option.splits)

lemma keeps_session_error: "keeps a (on_session_error w v a)"
  by (auto simp: on_session_error_def Let_def keeps_def sup_of_def clear_active_work_def)

lemma keeps_metrics: "keeps_le a (on_metrics w v a)"
proof -
  have "keeps a (metrics_rates w v a)" for a
    by (simp add: metrics_rates_def keeps_def sup_of_def take_counters_def Let_def)
  moreover have "keeps a (metrics_work v a)" for a
    by (auto simp: metrics_work_def keeps_def sup_of_def clear_active_work_def Let_def split: option.splits)
  moreover have "keeps a (metrics_round v a)" "keeps a (metrics_history v a)" for a
    by (auto simp: metrics_round_def metrics_history_def keeps_def sup_of_def Let_def)
  moreover have "keeps_le a (metrics_stability w a)" for a
    by (auto simp: metrics_stability_def keeps_le_def sup_of_def frame_simps Let_def)
  ultimately show ?thesis unfolding on_metrics_def by (meson keeps_trans keeps_le keeps_le_trans)
qed

lemmas keeps_all = keeps_events keeps_phase_ops keeps_worker_ready keeps_worker_error
  keeps_engine_fatal keeps_job keeps_job_cleared keeps_peers keeps_block_flow keeps_session_error

lemma keeps_apply_telemetry: "keeps_le a (apply_telemetry w v a)"
  unfolding apply_telemetry_def Let_def
  by (auto simp: keeps_le keeps_all keeps_metrics split: option.splits)

lemma keeps_without_metrics: "get_str ''event'' v \<noteq> Some ''metrics'' \<Longrightarrow> keeps a (apply_telemetry w v a)"
  unfolding apply_telemetry_def Let_def
  by (auto simp: keeps_all split: option.splits)

section \<open>The invariant of the supervisor\<close>

definition owned :: "miner_app \<Rightarrow> nat set" where
  "owned a = {p. ma_child a = Some p \<or> ma_quarantined_child a = Some p}"

fun after_event :: "proc_event \<Rightarrow> nat set \<Rightarrow> nat set" where
  "after_event (Spawned p) L = insert p L"
| "after_event (Handed p args password) L = L"
| "after_event (Reaped p) L = L - {p}"

abbreviation after_events :: "proc_event list \<Rightarrow> nat set \<Rightarrow> nat set" where
  "after_events evs \<equiv> fold after_event evs"

definition accounts :: "miner_app \<Rightarrow> proc_event list \<Rightarrow> miner_app \<Rightarrow> bool" where
  "accounts a evs b \<longleftrightarrow> (\<forall>L. L \<subseteq> owned a \<longrightarrow> after_events evs L \<subseteq> owned b)"

lemma accounts_trans: "accounts a xs b \<Longrightarrow> accounts b ys c \<Longrightarrow> accounts a (xs @ ys) c"
  by (simp add: accounts_def)

lemma accounts_same: "owned b = owned a \<Longrightarrow> accounts a [] b"
  by (simp add: accounts_def)

text \<open>No engine is winding up: nothing is held that a restart would have to wait for.\<close>

definition settled :: "miner_app \<Rightarrow> bool" where
  "settled a \<longleftrightarrow> ma_child a = None \<and> ma_pending_exit a = None \<and> ma_pending_observation_failure a = None"

definition app_inv :: "miner_app \<Rightarrow> bool" where
  "app_inv a \<longleftrightarrow>
     (ma_child a \<noteq> None \<longrightarrow> ma_quarantined_child a = None \<and> ma_pending_exit a = None \<and>
        ma_pending_observation_failure a = None) \<and>
     \<not> (ma_pending_exit a \<noteq> None \<and> ma_pending_observation_failure a \<noteq> None) \<and>
     (ma_automatic_restart_at a \<noteq> None \<longrightarrow> settled a \<and> ma_automatic_recovery_enabled a) \<and>
     ma_automatic_restart_attempts a \<le> MAX_AUTOMATIC_ENGINE_RESTARTS"

text \<open>What the operations on a settled supervisor keep.\<close>

definition keeps_children :: "miner_app \<Rightarrow> miner_app \<Rightarrow> bool" where
  "keeps_children a b \<longleftrightarrow> ma_child b = ma_child a \<and> ma_quarantined_child b = ma_quarantined_child a \<and>
     ma_pending_exit b = ma_pending_exit a \<and>
     ma_pending_observation_failure b = ma_pending_observation_failure a"

lemma schedule_children: "keeps_children a (schedule_automatic_restart w reason a)"
  by (auto simp: schedule_automatic_restart_def keeps_children_def Let_def frame_simps)

lemma attempt_less: "(n :: u32) < 5 \<Longrightarrow> n + 1 \<le> 5 \<and> 0 < n + 1"
  by (simp add: word_less_nat_alt word_le_nat_alt unat_word_ariths)

lemma schedule_inv:
  assumes "app_inv a" "settled a"
  shows "app_inv (schedule_automatic_restart w reason a)"
  using assms attempt_less [of "ma_automatic_restart_attempts a"]
  by (auto simp: schedule_automatic_restart_def app_inv_def settled_def Let_def frame_simps
      MAX_AUTOMATIC_ENGINE_RESTARTS_def)

lemma fail_start_children: "keeps_children a (fail_engine_start w e automatic a)"
  using schedule_children
  by (auto simp: fail_engine_start_def keeps_children_def Let_def frame_simps)

lemma fail_start_inv:
  assumes "app_inv a" "settled a"
  shows "app_inv (fail_engine_start w e automatic a)"
proof -
  let ?b = "push_log w e True (a\<lparr>ma_phase := Failed, ma_last_error := e\<rparr>)"
  have "app_inv ?b" "settled ?b" using assms by (simp_all add: app_inv_def settled_def frame_simps)
  then show ?thesis using schedule_inv by (simp add: fail_engine_start_def Let_def)
qed


subsection \<open>Starting\<close>

definition unspawned :: "proc_event list \<Rightarrow> bool" where
  "unspawned evs \<longleftrightarrow> (\<forall>p. Spawned p \<notin> set evs)"

lemma unspawned_handed [simp]: "unspawned (Handed p args password # evs) = unspawned evs"
  by (simp add: unspawned_def)

lemma attach_engine_inv:
  assumes "app_inv a" "\<not> has_live_engine_state a" "ma_automatic_restart_at a = None"
    and "attach_engine w s automatic child a = (b, evs)"
  shows "app_inv b \<and> accounts a (Spawned child # evs) b \<and> unspawned evs"
proof -
  define q where "q = (\<lambda>a :: miner_app. case terminate_and_reap_child (sa_cleanup s) of
      Inr _ \<Rightarrow> a | Inl _ \<Rightarrow> a\<lparr>ma_quarantined_child := Some child\<rparr>)"
  define r where "r = (case terminate_and_reap_child (sa_cleanup s) of Inr _ \<Rightarrow> [Reaped child] | Inl _ \<Rightarrow> [])"
  have no: "ma_child a = None" "ma_quarantined_child a = None" "ma_pending_exit a = None"
    "ma_pending_observation_failure a = None" using assms(2) by (auto simp: has_live_engine_state_def)
  have "app_inv (q a)" "settled (q a)" using assms(1,3) no by (auto simp: q_def app_inv_def settled_def split: sum.splits)
  then have failed: "app_inv (fail_engine_start w e automatic (q a))" for e by (rule fail_start_inv)
  have own: "accounts a (Spawned child # r) (fail_engine_start w e automatic (q a))" for e
    using fail_start_children [of "q a" w e automatic] no
    by (auto simp: accounts_def owned_def keeps_children_def q_def r_def split: sum.splits)
  consider (failed) e where "b = fail_engine_start w e automatic (q a)" "evs = r"
    | (running) threads where "b = a\<lparr>ma_receiver := True, ma_reader_threads := threads, ma_child := Some child\<rparr>"
        "evs = []"
    using assms(4) by (auto simp: attach_engine_def Let_def q_def r_def split: sum.splits)
  then show ?thesis
  proof cases
    case running
    then have "app_inv b" using assms(1,3) no by (auto simp: app_inv_def settled_def)
    moreover have "accounts a (Spawned child # evs) b"
      using running no by (auto simp: accounts_def owned_def)
    ultimately show ?thesis using running by (simp add: unspawned_def)
  qed (use failed own in \<open>simp add: unspawned_def r_def split: sum.splits\<close>)
qed

definition only_from_idle :: "miner_app \<Rightarrow> proc_event list \<Rightarrow> bool" where
  "only_from_idle a evs \<longleftrightarrow> evs = [] \<or>
     \<not> has_live_engine_state a \<and> (\<exists>child rest. evs = Spawned child # rest \<and> unspawned rest)"

lemma announce_start_children:
  "keeps_children a (announce_start w automatic m a) \<and>
   ma_automatic_restart_at (announce_start w automatic m a) = ma_automatic_restart_at a \<and>
   ma_automatic_recovery_enabled (announce_start w automatic m a) = ma_automatic_recovery_enabled a \<and>
   ma_automatic_restart_attempts (announce_start w automatic m a) = ma_automatic_restart_attempts a"
  by (auto simp: announce_start_def keeps_children_def Let_def frame_simps)

lemma prepare_start_children:
  assumes "ma_pending_observation_failure a = None"
  shows "keeps_children a (prepare_start w s automatic a) \<and>
    ma_automatic_restart_at (prepare_start w s automatic a) = ma_automatic_restart_at a \<and>
    ma_automatic_restart_attempts (prepare_start w s automatic a) = ma_automatic_restart_attempts a"
proof -
  define b where "b = (case sa_saved s of Inl e \<Rightarrow> push_log w e True a | Inr _ \<Rightarrow> a)"
  define c where "c = (reset_telemetry b)\<lparr>ma_phase := Starting, ma_requested_stop := False,
                 ma_started_at := Some (now w)\<rparr>"
  define d where "d = (if automatic then c else c\<lparr>ma_logs := []\<rparr>)"
  have "keeps_children a d \<and> ma_automatic_restart_at d = ma_automatic_restart_at a \<and>
    ma_automatic_restart_attempts d = ma_automatic_restart_attempts a"
    using assms
    by (simp add: d_def c_def b_def keeps_children_def reset_telemetry_def frame_simps split: sum.splits)
  then show ?thesis
    using announce_start_children [of d w automatic "memory_preflight_summary w a"]
    unfolding prepare_start_def Let_def b_def [symmetric] c_def [symmetric] d_def [symmetric]
    by (simp add: keeps_children_def)
qed

lemma start_engine_inv:
  assumes "app_inv a" "start_engine w s automatic a = (b, evs)"
  shows "app_inv b \<and> accounts a evs b \<and> only_from_idle a evs"
proof (cases "has_live_engine_state a")
  case True
  then show ?thesis using assms by (simp add: start_engine_def accounts_same only_from_idle_def)
next
  case False
  then have no: "ma_child a = None" "ma_quarantined_child a = None" "ma_pending_exit a = None"
    "ma_pending_observation_failure a = None" by (auto simp: has_live_engine_state_def)
  have quiet: "app_inv b \<and> accounts a [] b" if "b = fail_engine_start w e automatic c"
      "keeps_children a c" "app_inv c" for b c e
  proof -
    have "settled c" using that(2) no by (simp add: settled_def keeps_children_def)
    then have "app_inv b" using that(1,3) fail_start_inv by simp
    moreover have "owned b = owned a" using that fail_start_children [of c w e automatic]
      by (simp add: owned_def keeps_children_def)
    ultimately show ?thesis by (simp add: accounts_same)
  qed
  have calm: "app_inv c" if "keeps_children a c" "ma_automatic_restart_at c = None"
      "ma_automatic_restart_attempts c = ma_automatic_restart_attempts a" for c
    using assms(1) that no by (simp add: app_inv_def settled_def keeps_children_def)
  define a1 where "a1 = a\<lparr>ma_automatic_restart_at := None, ma_memory_snapshot := sa_memory s\<rparr>"
  define a4 where "a4 = prepare_start w s automatic a1"
  have k1: "keeps_children a (a\<lparr>ma_automatic_restart_at := None\<rparr>)" "keeps_children a a1"
    by (simp_all add: keeps_children_def a1_def)
  have k4: "keeps_children a a4" "ma_automatic_restart_at a4 = None"
    "ma_automatic_restart_attempts a4 = ma_automatic_restart_attempts a"
    using prepare_start_children [of a1 w s automatic] no
    by (auto simp: a4_def a1_def keeps_children_def)
  have i1: "app_inv (a\<lparr>ma_automatic_restart_at := None\<rparr>)" "app_inv a1"
    using k1 by (auto intro!: calm simp: a1_def)
  note i4 = calm [OF k4]
  have live4: "\<not> has_live_engine_state a4" "owned a4 = owned a"
    using k4(1) no by (auto simp: has_live_engine_state_def keeps_children_def owned_def)
  consider (refused) e c where "b = fail_engine_start w e automatic c" "keeps_children a c" "app_inv c" "evs = []"
    | (spawned) child args password evs' where "attach_engine w s automatic child a4 = (b, evs')"
        "evs = Spawned child # Handed child args password # evs'"
    using assms(2) False k1 k4(1) i1 i4
    by (auto simp: start_engine_def Let_def a1_def [symmetric] a4_def [symmetric]
        simp del: append_Cons split: sum.splits option.splits prod.splits)
  then show ?thesis
  proof cases
    case spawned
    then show ?thesis using attach_engine_inv [OF i4 live4(1) k4(2) spawned(1)] live4(2) False
      by (simp add: accounts_def only_from_idle_def)
  qed (use quiet False in \<open>simp add: only_from_idle_def\<close>)
qed

lemma start_inv:
  assumes "app_inv a" "start w s a = (b, evs)"
  shows "app_inv b \<and> accounts a evs b \<and> only_from_idle a evs"
proof (cases "is_running a")
  case True
  then show ?thesis using assms by (simp add: start_def accounts_same only_from_idle_def)
next
  case False
  let ?a = "a\<lparr>ma_automatic_restart_attempts := 0, ma_single_worker_recovery := False,
           ma_light_randomx_recovery := False, ma_automatic_recovery_enabled := True\<rparr>"
  have "app_inv ?a" "owned ?a = owned a" "has_live_engine_state ?a = has_live_engine_state a"
    using assms(1) False by (auto simp: app_inv_def settled_def is_running_def owned_def has_live_engine_state_def)
  then show ?thesis using start_engine_inv [of ?a w s False b evs] assms(2) False
    by (simp add: start_def accounts_def only_from_idle_def)
qed


subsection \<open>Ends of an engine\<close>

text \<open>A handler that creates no engine: the invariant, the account of processes, the latch of
  the automatic recovery.\<close>

definition sound :: "miner_app \<Rightarrow> proc_event list \<Rightarrow> miner_app \<Rightarrow> bool" where
  "sound a evs b \<longleftrightarrow> (app_inv a \<longrightarrow> app_inv b) \<and> accounts a evs b \<and> unspawned evs \<and>
     (ma_automatic_recovery_enabled b \<longrightarrow> ma_automatic_recovery_enabled a)"

lemma sound_trans: "sound a xs b \<Longrightarrow> sound b ys c \<Longrightarrow> sound a (xs @ ys) c"
  by (auto simp: sound_def unspawned_def intro: accounts_trans)

lemma sound_trans_quiet: "sound a [] b \<Longrightarrow> sound b ys c \<Longrightarrow> sound a ys c"
  using sound_trans [of a "[]" b ys c] by simp

lemma sound_refl [simp]: "sound a [] a"
  by (simp add: sound_def accounts_same unspawned_def)

lemma sound_same:
  assumes "keeps_children a b" "ma_automatic_restart_at b = ma_automatic_restart_at a"
    "ma_automatic_restart_attempts b = ma_automatic_restart_attempts a"
    "ma_automatic_recovery_enabled b = ma_automatic_recovery_enabled a"
  shows "sound a [] b"
  using assms
  by (simp add: sound_def app_inv_def settled_def keeps_children_def accounts_same owned_def unspawned_def)

lemma sound_push_log: "sound a evs (push_log w t e b) \<longleftrightarrow> sound a evs b"
proof -
  have "sound b [] (push_log w t e b)" "sound (push_log w t e b) [] b"
    by (simp_all add: sound_same keeps_children_def frame_simps)
  then show ?thesis using sound_trans [of a evs] by fastforce
qed

lemma keeps_sound: "keeps_le a b \<Longrightarrow> sound a [] b"
  by (auto simp: keeps_le_def sup_of_def sound_def app_inv_def settled_def accounts_same owned_def unspawned_def)

lemma begin_observation_failure_sound:
  assumes "ma_child a \<noteq> None" "begin_observation_failure w answers context err a = (b, evs)" "app_inv a"
  shows "sound a evs b"
proof -
  obtain c where c: "ma_child a = Some c" using assms(1) by blast
  have no: "ma_quarantined_child a = None" "ma_pending_exit a = None"
    "ma_pending_observation_failure a = None" "ma_automatic_restart_at a = None"
    using assms(3) c by (auto simp: app_inv_def settled_def)
  show ?thesis
    using assms(2,3) no c
    by (auto simp: begin_observation_failure_def Let_def frame_simps sound_def app_inv_def settled_def
        accounts_def owned_def unspawned_def split: sum.splits)
qed

lemma schedule_sound: "settled a \<Longrightarrow> sound a [] (schedule_automatic_restart w reason a)"
  using schedule_inv [of a w reason] schedule_children [of a w reason]
  by (auto simp: sound_def accounts_same owned_def keeps_children_def unspawned_def)
     (auto simp: schedule_automatic_restart_def Let_def frame_simps split: if_splits)

lemma log_report_frame [frame_simps]:
  "sound a evs (log_report w r b) \<longleftrightarrow> sound a evs b"
  "settled (log_report w r b) = settled b"
  by (auto simp: log_report_def sound_push_log settled_def frame_simps split: sum.splits)

lemma engine_gone_sound: "sound a [] (engine_gone a)"
  by (rule sound_same) (simp_all add: engine_gone_def clear_active_work_def keeps_children_def)

lemma engine_gone_settled: "settled (engine_gone a) = settled a"
  by (simp add: engine_gone_def clear_active_work_def settled_def)

lemma finish_observation_failure_sound:
  assumes "settled a"
  shows "sound a [] (finish_observation_failure w report a)"
proof -
  let ?b = "log_report w report ((engine_gone a)\<lparr>ma_phase := Failed\<rparr>)"
  have "sound (engine_gone a) [] ((engine_gone a)\<lparr>ma_phase := Failed\<rparr>)"
    by (rule sound_same) (simp_all add: keeps_children_def)
  then have "sound a [] ((engine_gone a)\<lparr>ma_phase := Failed\<rparr>)"
    using sound_trans_quiet [OF engine_gone_sound] by blast
  then have b: "sound a [] ?b" by (simp add: frame_simps)
  have "settled ?b" using assms engine_gone_settled [of a]
    by (simp add: frame_simps) (simp add: settled_def)
  from sound_trans_quiet [OF b schedule_sound [OF this]] show ?thesis
    by (simp add: finish_observation_failure_def Let_def)
qed

lemma escalate_sound: "ma_automatic_restart_at a = None \<Longrightarrow> sound a [] (escalate w status a)"
proof -
  assume none: "ma_automatic_restart_at a = None"
  have "sound a [] (a\<lparr>ma_single_worker_recovery := True\<rparr>)"
    "sound a [] (a\<lparr>ma_single_worker_recovery := True, ma_light_randomx_recovery := True\<rparr>)"
    by (rule sound_same; simp add: keeps_children_def)+
  moreover have "sound a [] (a\<lparr>ma_automatic_recovery_enabled := False\<rparr>)"
    using none by (simp add: sound_def app_inv_def settled_def accounts_same owned_def unspawned_def)
  ultimately show ?thesis
    by (cases "recovery_escalation (family w) status (ma_light_randomx_recovery a) (ma_automatic_restart_attempts a)")
       (simp_all add: escalate_def sound_push_log)
qed

lemma escalate_settled: "settled (escalate w status a) = settled a"
  by (auto simp: escalate_def settled_def frame_simps split: recovery_escalation_kind.splits)

lemma finish_exited_child_sound:
  assumes "settled a" "ma_automatic_restart_at a = None"
  shows "sound a [] (finish_exited_child w report status a)"
proof -
  define b where "b = engine_gone (a\<lparr>ma_worker_error_can_restore_mining := False\<rparr>)"
  have "sound a [] (a\<lparr>ma_worker_error_can_restore_mining := False\<rparr>)"
    by (rule sound_same) (simp_all add: keeps_children_def)
  from sound_trans_quiet [OF this engine_gone_sound] have b: "sound a [] b" by (simp add: b_def)
  have bs: "settled b" "ma_automatic_restart_at b = None"
    using assms by (simp_all add: b_def engine_gone_settled settled_def)
      (simp_all add: engine_gone_def clear_active_work_def)
  show ?thesis
  proof (cases "ma_requested_stop b \<and> \<not> ma_engine_fatal_seen b \<and>
            exit_status_matches_requested_stop (family w) status")
    case True
    moreover have "sound b [] (b\<lparr>ma_phase := Idle\<rparr>)" by (rule sound_same) (simp_all add: keeps_children_def)
    ultimately show ?thesis using sound_trans_quiet [OF b]
      by (simp add: finish_exited_child_def b_def [symmetric] sound_push_log)
  next
    case False
    define c where "c = b\<lparr>ma_phase := Failed, ma_last_error := ''Mining engine exited unexpectedly: '' @
                       describe_exit_status (family w) status @ ''.''\<rparr>"
    define d where "d = log_report w report (push_log w (ma_last_error c) True c)"
    have "sound b [] c" by (rule sound_same) (simp_all add: c_def keeps_children_def)
    then have d: "sound b [] d" by (simp add: d_def frame_simps sound_push_log)
    have ds: "settled d" "ma_automatic_restart_at d = None"
      using bs by (auto simp: d_def c_def frame_simps settled_def log_report_def split: sum.splits)
    have "sound d [] (schedule_automatic_restart w (ma_last_error (escalate w status d)) (escalate w status d))"
      using sound_trans_quiet [OF escalate_sound [OF ds(2)]] schedule_sound escalate_settled ds(1) by blast
    then have "sound a [] (schedule_automatic_restart w (ma_last_error (escalate w status d)) (escalate w status d))"
      using sound_trans_quiet [OF b] sound_trans_quiet [OF d] by blast
    then show ?thesis using False
      by (simp only: finish_exited_child_def Let_def b_def [symmetric] c_def [symmetric] d_def [symmetric] if_False)
  qed
qed


subsection \<open>Stopping and polling\<close>

lemma sound_field_updates:
  "sound a [] (a\<lparr>ma_phase := p\<rparr>)" "sound a [] (a\<lparr>ma_last_error := e\<rparr>)"
  "sound a [] (a\<lparr>ma_phase := p, ma_last_error := e\<rparr>)"
  by (rule sound_same; simp add: keeps_children_def)+

lemma stop_without_child_sound:
  assumes "ma_child a = None" "stop_without_child w t canceled a = (b, evs)"
  shows "sound a evs b"
proof -
  define r where "r = (case ma_quarantined_child a of
               None \<Rightarrow> (a, [])
             | Some child \<Rightarrow>
                 let a = push_log w (''Retrying cleanup of the unobserved mining engine'' @ ellipsis) False
                           (a\<lparr>ma_quarantined_child := None\<rparr>)
                 in case terminate_and_reap_child (to_cleanup t) of
                      Inr status \<Rightarrow>
                        (push_log w (''Previously unobserved mining engine is now stopped ('' @
                           describe_exit_status (family w) status @ '').'') False a, [Reaped child])
                    | Inl e \<Rightarrow>
                        let a = a\<lparr>ma_last_error := ''Mining engine cleanup is still unconfirmed: '' @ e\<rparr>
                        in ((push_log w (ma_last_error a) True a)\<lparr>ma_quarantined_child := Some child\<rparr>, []))"
  obtain c xs where c: "r = (c, xs)" by fastforce
  have "sound a xs c"
  proof (cases "ma_quarantined_child a")
    case None
    then show ?thesis using c by (simp add: r_def)
  next
    case (Some q)
    let ?a = "a\<lparr>ma_quarantined_child := None\<rparr>"
    have reaped: "sound a [Reaped q] ?a" using assms(1) Some
      by (auto simp: sound_def app_inv_def settled_def accounts_def owned_def unspawned_def)
    show ?thesis
    proof (cases "terminate_and_reap_child (to_cleanup t)")
      case (Inr status)
      then show ?thesis using c Some reaped by (auto simp: r_def Let_def sound_push_log)
    next
      case (Inl e)
      then have "c = (push_log w (''Mining engine cleanup is still unconfirmed: '' @ e) True
            ((push_log w (''Retrying cleanup of the unobserved mining engine'' @ ellipsis) False ?a)
               \<lparr>ma_last_error := ''Mining engine cleanup is still unconfirmed: '' @ e\<rparr>))
              \<lparr>ma_quarantined_child := Some q\<rparr>" "xs = []"
        using c Some by (simp_all add: r_def Let_def)
      then show ?thesis using Some by (auto intro!: sound_same simp: keeps_children_def frame_simps)
    qed
  qed
  moreover have "sound c [] b" "evs = xs"
    using assms(2) unfolding stop_without_child_def r_def [symmetric] c
    by (auto simp: sound_push_log sound_field_updates Let_def simp del: append_Cons split: if_splits)
  ultimately show ?thesis using sound_trans [of a xs c "[]"] by simp
qed

lemma cancel_recovery_sound:
  "sound a [] (cancel_recovery w a) \<and> \<not> ma_automatic_recovery_enabled (cancel_recovery w a) \<and>
   ma_child (cancel_recovery w a) = ma_child a"
proof -
  let ?a = "a\<lparr>ma_automatic_recovery_enabled := False, ma_automatic_restart_at := None\<rparr>"
  let ?b = "?a\<lparr>ma_automatic_restart_attempts := 0, ma_node_link_live := False\<rparr>"
  have "sound a [] ?a" "sound a [] ?b"
    by (simp_all add: sound_def app_inv_def settled_def accounts_same owned_def unspawned_def)
  then show ?thesis by (simp add: cancel_recovery_def Let_def sound_push_log frame_simps)
qed

lemma kill_child_sound: "sound a [] (kill_child w killed a)"
  by (cases killed; rule sound_same; simp add: kill_child_def Let_def keeps_children_def frame_simps)

lemma stop_sound:
  assumes "app_inv a" "stop w t a = (b, evs)"
  shows "sound a evs b \<and> \<not> ma_automatic_recovery_enabled b"
proof -
  define a2 where "a2 = cancel_recovery w a"
  have i2: "sound a [] a2" "\<not> ma_automatic_recovery_enabled a2"
    using cancel_recovery_sound by (simp_all add: a2_def)
  have inv: "app_inv a2" using i2(1) assms(1) by (simp add: sound_def)
  have "sound a2 evs b"
  proof (cases "ma_child a2")
    case None
    then show ?thesis using assms(2) stop_without_child_sound [of a2 w t _ b evs]
      by (simp add: stop_def Let_def a2_def [symmetric])
  next
    case (Some child)
    have no: "ma_quarantined_child a2 = None" "ma_pending_exit a2 = None"
      "ma_pending_observation_failure a2 = None" "ma_automatic_restart_at a2 = None"
      using inv Some by (auto simp: app_inv_def settled_def)
    show ?thesis
    proof (cases "to_observed t")
      case (Inl e)
      then show ?thesis using assms(2) Some begin_observation_failure_sound [OF _ _ inv]
        by (simp add: stop_def Let_def a2_def [symmetric])
    next
      case (Inr observed)
      show ?thesis
      proof (cases observed)
        case None
        then show ?thesis using assms(2) Some Inr kill_child_sound [of a2]
          by (simp add: stop_def Let_def a2_def [symmetric]) blast
      next
        case (Some status)
        then show ?thesis using assms(2) \<open>ma_child a2 = Some child\<close> Inr no
          by (auto simp: stop_def Let_def a2_def [symmetric] sound_def app_inv_def settled_def
            accounts_def owned_def unspawned_def)
      qed
    qed
  qed
  then have "sound a evs b" "\<not> ma_automatic_recovery_enabled b"
    using sound_trans_quiet [OF i2(1)] i2(2) by (auto simp: sound_def)
  then show ?thesis by blast
qed

lemma drain_keeps: "drain_process_messages w queue gone a = (d, b) \<Longrightarrow> keeps_le a b"
proof -
  have one: "keeps_le a (apply_process_message w m a)" for m a
    by (auto simp: apply_process_message_def keeps_apply_telemetry keeps_le split: process_message.splits)
  have "keeps_le a (fold (apply_process_message w) ms a)" for ms a
  proof (induction ms arbitrary: a)
    case (Cons m ms)
    show ?case using keeps_le_trans [OF one Cons.IH] by simp
  qed (simp add: keeps_le)
  then show "drain_process_messages w queue gone a = (d, b) \<Longrightarrow> keeps_le a b"
    by (auto simp: drain_process_messages_def keeps_le split: if_splits)
qed

lemma poll_observe_sound:
  assumes "poll_observe w p a = (b, evs)" "app_inv a"
  shows "sound a evs b"
proof (cases "ma_child a")
  case (Some child)
  then have no: "ma_quarantined_child a = None" "ma_pending_exit a = None"
      "ma_pending_observation_failure a = None" "ma_automatic_restart_at a = None"
      using assms(2) by (auto simp: app_inv_def settled_def)
  show ?thesis
  proof (cases "po_child p")
    case (Inl e)
    then show ?thesis using assms Some no begin_observation_failure_sound [OF _ _ assms(2)]
      by (simp add: poll_observe_def)
  next
    case (Inr observed)
    then show ?thesis using assms Some no
      by (cases observed) (auto simp: poll_observe_def sound_def app_inv_def settled_def
          accounts_def owned_def unspawned_def)
  qed
qed (use assms in \<open>auto simp: poll_observe_def split: if_splits\<close>)

text \<open>Nothing the invariant speaks of changes.\<close>

definition calm :: "miner_app \<Rightarrow> miner_app \<Rightarrow> bool" where
  "calm a b \<longleftrightarrow> keeps_children a b \<and> ma_automatic_restart_at b = ma_automatic_restart_at a \<and>
     ma_automatic_restart_attempts b = ma_automatic_restart_attempts a \<and>
     ma_automatic_recovery_enabled b = ma_automatic_recovery_enabled a"

lemma calm_sound: "calm a b \<Longrightarrow> sound a [] b"
  by (simp add: calm_def sound_same)

lemma calm_trans: "calm a b \<Longrightarrow> calm b c \<Longrightarrow> calm a c"
  by (simp add: calm_def keeps_children_def)

lemma calm_push_log [simp]: "calm a (push_log w t e b) \<longleftrightarrow> calm a b"
  by (simp add: calm_def keeps_children_def frame_simps)

lemma calm_receiver [simp]: "calm a (b\<lparr>ma_receiver := r\<rparr>) \<longleftrightarrow> calm a b"
  by (simp add: calm_def keeps_children_def)

lemma join_calm:
  "calm a (join_reader_threads w panicked a)"
  "calm a (snd (join_finished_reader_threads w finished panicked a))"
proof -
  have f: "calm b (fold (\<lambda>t a. if q t then push_log w reader_stopped True a else a) ts b)" for q ts b
  proof (induction ts arbitrary: b)
    case Nil
    then show ?case by (simp add: calm_def keeps_children_def)
  next
    case (Cons t ts)
    have "calm b (if q t then push_log w reader_stopped True b else b)"
      by (simp add: calm_def keeps_children_def frame_simps)
    then show ?case using calm_trans Cons.IH by (simp only: fold_simps)
  qed
  have "calm a (a\<lparr>ma_reader_threads := []\<rparr>)" by (simp add: calm_def keeps_children_def)
  then show "calm a (join_reader_threads w panicked a)"
    "calm a (snd (join_finished_reader_threads w finished panicked a))"
    using calm_trans f [of _ panicked] f [of _ "\<lambda>t. finished t \<and> panicked t"]
    unfolding join_reader_threads_def join_finished_reader_threads_def snd_conv by blast+
qed

lemma poll_quarantine_sound:
  assumes "poll_quarantine w p a = (b, evs)"
  shows "sound a evs b"
proof (cases "\<exists>child status. ma_quarantined_child a = Some child \<and> po_quarantined p = Inr (Some status)")
  case True
  then obtain child status where q: "ma_quarantined_child a = Some child" "po_quarantined p = Inr (Some status)" by blast
  have "sound a [Reaped child] (a\<lparr>ma_quarantined_child := None\<rparr>)" using q(1)
    by (auto simp: sound_def app_inv_def settled_def accounts_def owned_def unspawned_def)
  then show ?thesis using assms q
    by (auto simp: poll_quarantine_def sound_push_log simp del: append_Cons append_Nil)
next
  case False
  then show ?thesis using assms by (auto simp: poll_quarantine_def split: option.splits sum.splits)
qed

lemma reader_lost_sound: "sound a [] (reader_lost w killed a)"
  by (cases killed; rule sound_same; simp add: reader_lost_def Let_def keeps_children_def frame_simps)

lemma poll_reader_sound: "sound a [] (poll_reader w p had gone a)"
proof -
  have t: "sound a [] (a\<lparr>ma_output_disconnected_at := x\<rparr>)" for x
    by (rule sound_same) (simp_all add: keeps_children_def)
  then have "sound a [] (reader_lost w k (a\<lparr>ma_output_disconnected_at := x\<rparr>))" for k x
    using sound_trans_quiet reader_lost_sound by blast
  with t show ?thesis by (simp add: poll_reader_def Let_def)
qed

lemma poll_failure_sound:
  assumes "app_inv a"
  shows "sound a [] (poll_failure w p gone a)"
proof (cases "ma_pending_observation_failure a")
  case None
  then show ?thesis by (simp add: poll_failure_def)
next
  case (Some failure)
  then have no: "ma_child a = None" "ma_pending_exit a = None" "ma_automatic_restart_at a = None"
    using assms by (auto simp: app_inv_def settled_def)
  have closed: "sound a [] (finish_observation_failure w r
        (b\<lparr>ma_receiver := False, ma_pending_observation_failure := None\<rparr>))"
    if "calm a b" for b r
  proof -
    let ?c = "b\<lparr>ma_receiver := False, ma_pending_observation_failure := None\<rparr>"
    have "sound a [] ?c" "settled ?c" using that no
      by (auto simp: calm_def keeps_children_def sound_def app_inv_def settled_def accounts_same owned_def unspawned_def)
    then show ?thesis using sound_trans_quiet finish_observation_failure_sound by blast
  qed
  obtain n b where b: "join_finished_reader_threads w (po_finished p) (po_panicked p) (a\<lparr>ma_receiver := False\<rparr>) = (n, b)"
    by fastforce
  have "calm a (a\<lparr>ma_receiver := False\<rparr>)" by (simp add: calm_def keeps_children_def)
  from calm_trans [OF this join_calm(2) [of _ w "po_finished p" "po_panicked p"]] b
  have "calm a b" by simp
  then show ?thesis using Some b closed join_calm(1)
    by (simp add: poll_failure_def Let_def)
qed

lemma poll_exit_sound:
  assumes "app_inv a"
  shows "sound a [] (poll_exit w p gone a)"
proof (cases "ma_pending_exit a")
  case None
  then show ?thesis by (simp add: poll_exit_def)
next
  case (Some status)
  then have no: "ma_child a = None" "ma_pending_observation_failure a = None" "ma_automatic_restart_at a = None"
    using assms by (auto simp: app_inv_def settled_def)
  let ?a = "a\<lparr>ma_pending_exit := None\<rparr>"
  let ?b = "(join_reader_threads w (po_panicked p) ?a)\<lparr>ma_receiver := False\<rparr>"
  have a: "sound a [] ?a" using no
    by (auto simp: sound_def app_inv_def settled_def accounts_same owned_def unspawned_def)
  have "calm ?a ?b" by (simp add: join_calm)
  then have b: "sound ?a [] ?b" "settled ?b" "ma_automatic_restart_at ?b = None"
    using no by (simp_all add: calm_sound) (simp_all add: calm_def keeps_children_def settled_def)
  show ?thesis using Some sound_trans_quiet [OF a] sound_trans_quiet [OF b(1)]
      finish_exited_child_sound [OF b(2,3)] by (simp add: poll_exit_def)
qed

lemma first_spawn:
  assumes "us @ Spawned child # vs = as @ Spawned c # bs" "unspawned as" "unspawned bs"
  shows "us = as"
proof -
  have "Spawned child \<notin> set as" "Spawned child \<notin> set bs" using assms(2,3) by (simp_all add: unspawned_def)
  moreover have "Spawned c \<notin> set as" using assms(2) by (simp add: unspawned_def)
  ultimately show ?thesis using assms(1)
    by (induction us arbitrary: as) (auto simp: Cons_eq_append_conv append_eq_Cons_conv)
qed

lemma poll_process_inv:
  assumes "app_inv a" "poll_process w p a = (b, evs)"
  shows "app_inv b \<and> accounts a evs b \<and>
    (ma_automatic_recovery_enabled b \<longrightarrow> ma_automatic_recovery_enabled a) \<and>
    (\<not> ma_automatic_recovery_enabled a \<longrightarrow> unspawned evs) \<and>
    (\<forall>L us child vs. L \<subseteq> owned a \<longrightarrow> evs = us @ Spawned child # vs \<longrightarrow> after_events us L = {})"
proof -
  obtain gone a1 where a1: "drain_process_messages w (po_queue p) (po_senders_gone p) a = (gone, a1)" by fastforce
  obtain a2 xs where a2: "poll_observe w p a1 = (a2, xs)" by fastforce
  define a3 where "a3 = poll_failure w p gone a2"
  obtain a4 ys where a4: "poll_quarantine w p a3 = (a4, ys)" by fastforce
  define a5 where "a5 = poll_exit w p gone a4"
  define a6 where "a6 = poll_reader w p (ma_receiver a) gone a5"
  obtain a7 zs where a7: "poll_restart w p a6 = (a7, zs)" by fastforce
  have "poll_process w p a = (a7, xs @ ys @ zs)"
    by (simp add: poll_process_def Let_def a1 a2 a4 a7 a3_def [symmetric] a5_def [symmetric] a6_def [symmetric])
  then have eq: "b = a7" "evs = xs @ ys @ zs" using assms(2) by simp_all
  have s1: "sound a [] a1" using drain_keeps [OF a1] keeps_sound by blast
  then have i1: "app_inv a1" using assms(1) by (simp add: sound_def)
  have s2: "sound a xs a2" using sound_trans_quiet [OF s1 poll_observe_sound [OF a2 i1]] .
  then have i2: "app_inv a2" using assms(1) by (simp add: sound_def)
  have s3: "sound a xs a3" using sound_trans [OF s2 poll_failure_sound [OF i2]] by (simp add: a3_def)
  have s4: "sound a (xs @ ys) a4" using sound_trans [OF s3 poll_quarantine_sound [OF a4]] .
  then have i4: "app_inv a4" using assms(1) by (simp add: sound_def)
  have s5: "sound a (xs @ ys) a5" using sound_trans [OF s4 poll_exit_sound [OF i4]] by (simp add: a5_def)
  have s6: "sound a (xs @ ys) a6" using sound_trans [OF s5 poll_reader_sound] by (simp add: a6_def)
  then have i6: "app_inv a6" using assms(1) by (simp add: sound_def)
  consider (idle) "a7 = a6" "zs = []"
    | (due) d where "ma_automatic_restart_at a6 = Some d"
        "start_engine w (po_start p) True (a6\<lparr>ma_automatic_restart_at := None\<rparr>) = (a7, zs)"
  proof (cases "\<exists>d. ma_automatic_restart_at a6 = Some d \<and> d \<le> now w \<and> \<not> has_live_engine_state a6")
    case True
    then obtain d where "ma_automatic_restart_at a6 = Some d" "d \<le> now w" "\<not> has_live_engine_state a6" by blast
    then show thesis using a7 due [of d] by (simp add: poll_restart_def)
  next
    case False
    then have "poll_restart w p a6 = (a6, [])"
      by (cases "ma_automatic_restart_at a6") (auto simp: poll_restart_def)
    then show thesis using a7 idle by simp
  qed
  then show ?thesis
  proof cases
    case idle
    then have "unspawned evs" using s6 eq by (simp add: sound_def)
    then have "evs \<noteq> us @ Spawned child # vs" for us child vs by (auto simp: unspawned_def)
    then show ?thesis using s6 assms(1) eq idle by (simp add: sound_def)
  next
    case due
    then have on: "ma_automatic_recovery_enabled a6" using i6 by (simp add: app_inv_def)
    have "app_inv (a6\<lparr>ma_automatic_restart_at := None\<rparr>)" using i6 by (simp add: app_inv_def settled_def)
    from start_engine_inv [OF this due(2)] have restart: "app_inv a7" "accounts a6 zs a7"
      "only_from_idle a6 zs"
      by (simp_all add: accounts_def owned_def only_from_idle_def has_live_engine_state_def)
    have quiet: "unspawned (xs @ ys)" "accounts a (xs @ ys) a6" "ma_automatic_recovery_enabled a"
      using s6 on by (simp_all add: sound_def)
    have "after_events us L = {}" if L: "L \<subseteq> owned a" and split: "evs = us @ Spawned child # vs" for L us child vs
    proof (cases "zs = []")
      case True
      moreover have "Spawned child \<in> set evs" using split by simp
      ultimately show ?thesis using quiet(1) eq(2) by (auto simp: unspawned_def)
    next
      case False
      with restart(3) obtain c rest where z: "\<not> has_live_engine_state a6" "zs = Spawned c # rest" "unspawned rest"
        by (auto simp: only_from_idle_def)
      have "us = xs @ ys"
        using first_spawn [of us child vs "xs @ ys" c rest] split eq(2) quiet(1) z(2,3) by simp
      moreover have "after_events (xs @ ys) L \<subseteq> owned a6" using quiet(2) L unfolding accounts_def by blast
      moreover have "owned a6 = {}" using z(1) by (simp add: owned_def has_live_engine_state_def)
      ultimately show ?thesis by blast
    qed
    moreover have "accounts a evs b" using accounts_trans [OF quiet(2) restart(2)] eq by simp
    ultimately show ?thesis using restart(1) quiet(3) eq(1) by blast
  qed
qed

section \<open>The machine\<close>

text \<open>
  The interface and the engines that are running. An engine may end at any time; an exit the
  operating system confirmed means that the engine is not running.
\<close>

type_synonym supervisor_state = "miner_app \<times> nat set"

definition sup_initial :: "supervisor_state \<Rightarrow> bool" where
  "sup_initial = (\<lambda>(a, L). L = {} \<and> (\<exists>st snap. a = app_default st snap))"

inductive sup_step :: "supervisor_state \<Rightarrow> supervisor_state \<Rightarrow> bool" where
  sup_exit: "L' \<subseteq> L \<Longrightarrow> sup_step (a, L) (a, L')"
| sup_edit: "sup_step (a, L) (a\<lparr>ma_settings := st, ma_memory_acknowledged := ack,
     ma_memory_snapshot := snap\<rparr>, L)"
| sup_start: "start w s a = (b, evs) \<Longrightarrow> sup_step (a, L) (b, after_events evs L)"
| sup_stop: "stop w t a = (b, evs) \<Longrightarrow> sup_step (a, L) (b, after_events evs L)"
| sup_poll: "poll_process w p a = (b, evs) \<Longrightarrow> sup_step (a, L) (b, after_events evs L)"
| sup_stale: "\<not> telemetry_is_fresh w a \<Longrightarrow> sup_step (a, L) (a\<lparr>ma_stable_hashing_since := None\<rparr>, L)"
| sup_clear: "sup_step (a, L) (a\<lparr>ma_logs := []\<rparr>, L)"

inductive_simps sup_step_iff: "sup_step (a, L) (b, M)"

definition sup_inv :: "supervisor_state \<Rightarrow> bool" where
  "sup_inv = (\<lambda>(a, L). app_inv a \<and> L \<subseteq> owned a)"

interpretation supervisor: machine_invariant sup_initial sup_step sup_inv
proof unfold_locales
  fix s assume "sup_initial s"
  then show "sup_inv s"
    by (auto simp: sup_initial_def sup_inv_def app_default_def app_inv_def owned_def)
next
  fix s t assume inv: "sup_inv s" and step: "sup_step s t"
  obtain a L b M where st: "s = (a, L)" "t = (b, M)" by fastforce
  have a: "app_inv a" "L \<subseteq> owned a" using inv by (simp_all add: st sup_inv_def)
  have acc: "sup_inv (b, M)" if "app_inv b" "accounts a evs b" "M = after_events evs L" for evs
    using that a(2) by (simp add: sup_inv_def accounts_def)
  from step [unfolded st sup_step_iff] show "sup_inv t" unfolding st
  proof (elim disjE exE conjE)
    assume "b = a" "M \<subseteq> L"
    then show "sup_inv (b, M)" using a by (auto simp: sup_inv_def)
  next
    fix st ack snap
    assume "b = a\<lparr>ma_settings := st, ma_memory_acknowledged := ack, ma_memory_snapshot := snap\<rparr>" "M = L"
    then show "sup_inv (b, M)" using a by (simp add: sup_inv_def app_inv_def settled_def owned_def)
  next
    fix w s evs assume "M = after_events evs L" "start w s a = (b, evs)"
    then show "sup_inv (b, M)" using start_inv [OF a(1)] acc by blast
  next
    fix w u evs assume "M = after_events evs L" "stop w u a = (b, evs)"
    then show "sup_inv (b, M)" using stop_sound [OF a(1), of w u b evs] a(1) acc [of evs] by (simp add: sound_def)
  next
    fix w p evs assume "M = after_events evs L" "poll_process w p a = (b, evs)"
    then show "sup_inv (b, M)" using poll_process_inv [OF a(1)] acc by blast
  next
    assume "M = L" "b = a\<lparr>ma_stable_hashing_since := None\<rparr>"
    then show "sup_inv (b, M)" using a by (simp add: sup_inv_def app_inv_def settled_def owned_def)
  next
    assume "M = L" "b = a\<lparr>ma_logs := []\<rparr>"
    then show "sup_inv (b, M)" using a by (simp add: sup_inv_def app_inv_def settled_def owned_def)
  qed
qed

lemma owned_card: "app_inv a \<Longrightarrow> L \<subseteq> owned a \<Longrightarrow> finite L \<and> card L \<le> 1"
proof -
  assume a: "app_inv a" "L \<subseteq> owned a"
  have "\<exists>p. owned a \<subseteq> {p}"
    using a(1) by (cases "ma_child a"; cases "ma_quarantined_child a") (auto simp: owned_def app_inv_def)
  then obtain p where "L \<subseteq> {p}" using a(2) by blast
  then show ?thesis using card_mono [of "{p}" L] finite_subset [of L "{p}"] by simp
qed

text \<open>
  C5: One engine at a time. In every reachable state at most one engine is running, and the
  interface holds it; when a poll or the operator's Start creates an engine, no other engine
  is running at that moment, whatever the operating system answered to every attempt to
  kill, observe or reap the earlier ones.
\<close>

theorem one_engine_at_a_time:
  assumes "reach sup_initial sup_step (a, L)"
  shows "finite L \<and> card L \<le> 1 \<and>
    (\<forall>w p b evs us child vs. poll_process w p a = (b, evs) \<and> evs = us @ Spawned child # vs \<longrightarrow>
       after_events us L = {}) \<and>
    (\<forall>w s b child vs. start w s a = (b, Spawned child # vs) \<longrightarrow> L = {})"
proof -
  have inv: "app_inv a" "L \<subseteq> owned a" using supervisor.inv_reach [OF assms] by (simp_all add: sup_inv_def)
  have "L = {}" if "start w s a = (b, Spawned child # vs)" for w s b child vs
  proof -
    have "\<not> has_live_engine_state a" using start_inv [OF inv(1) that] by (simp add: only_from_idle_def)
    then show ?thesis using inv(2) by (auto simp: owned_def has_live_engine_state_def)
  qed
  moreover have "after_events us L = {}"
    if "poll_process w p a = (b, evs)" "evs = us @ Spawned child # vs" for w p b evs us child vs
    using poll_process_inv [OF inv(1) that(1)] that(2) inv(2) by blast
  ultimately show ?thesis using owned_card [OF inv] by blast
qed

section \<open>Stop is final\<close>

fun run_polls :: "(surroundings \<times> poll_answers) list \<Rightarrow> miner_app \<Rightarrow> supervised" where
  "run_polls [] a = (a, [])"
| "run_polls ((w, p) # ps) a =
     (case poll_process w p a of (b, xs) \<Rightarrow> case run_polls ps b of (c, ys) \<Rightarrow> (c, xs @ ys))"

lemma run_polls_quiet:
  "app_inv a \<Longrightarrow> \<not> ma_automatic_recovery_enabled a \<Longrightarrow> run_polls ps a = (b, evs) \<Longrightarrow> unspawned evs"
proof (induction ps a arbitrary: b evs rule: run_polls.induct)
  case (2 w p ps a)
  obtain c xs where c: "poll_process w p a = (c, xs)" by fastforce
  obtain d ys where d: "run_polls ps c = (d, ys)" by fastforce
  have "app_inv c" "\<not> ma_automatic_recovery_enabled c" "unspawned xs"
    using poll_process_inv [OF 2(2) c] 2(3) by blast+
  moreover from this have "unspawned ys" using 2(1) [OF c [symmetric]] d by blast
  ultimately show ?case using 2(4) c d by (auto simp: unspawned_def)
qed (simp add: unspawned_def)

text \<open>
  C8: After the operator's Stop the interface starts no engine by itself, however the engine that
  was running ends and however long it goes on polling.
\<close>

theorem stop_is_final:
  assumes "reach sup_initial sup_step (a, L)" "stop w t a = (b, evs)" "run_polls ps b = (c, later)"
  shows "\<forall>child. Spawned child \<notin> set (evs @ later)"
proof -
  have inv: "app_inv a" using supervisor.inv_reach [OF assms(1)] by (simp add: sup_inv_def)
  have b: "sound a evs b" "\<not> ma_automatic_recovery_enabled b" using stop_sound [OF inv assms(2)] by blast+
  then have "app_inv b" "unspawned evs" using inv by (simp_all add: sound_def)
  moreover have "unspawned later" using run_polls_quiet [OF \<open>app_inv b\<close> b(2) assms(3)] .
  ultimately show ?thesis by (simp add: unspawned_def)
qed

section \<open>A run\<close>

text \<open>An interface with the default settings, started by the operator with enough memory.\<close>

definition demo_world :: surroundings where
  "demo_world = \<lparr>family = Unix, now = 0, alnum = (\<lambda>_. False)\<rparr>"

definition demo_children :: child_answers where
  "demo_children = \<lparr>kill_answer = Inr (), wait_answer = Inl [], try_wait_answer = Inr None\<rparr>"

definition demo_answers :: start_answers where
  "demo_answers = \<lparr>sa_memory = Some \<lparr>snap_available = 2 ^ 40, snap_total = 2 ^ 40\<rparr>, sa_saved = Inr (),
     sa_executable = Inr (), sa_spawned = Inr 7, sa_stdin = Some (Inr ()), sa_stdout = Some (Inr 1),
     sa_stderr = Some (Inr 2), sa_cleanup = demo_children, sa_finished = (\<lambda>_. True),
     sa_panicked = (\<lambda>_. False)\<rparr>"

definition demo_poll :: poll_answers where
  "demo_poll = \<lparr>po_queue = [LogMessage ''ready''], po_senders_gone = False, po_child = Inl [],
     po_quarantined = Inr None, po_cleanup = demo_children, po_finished = (\<lambda>_. True),
     po_panicked = (\<lambda>_. False), po_report = Inr [], po_killed = Inr (), po_start = demo_answers\<rparr>"

lemma demo_preflight: "ma_settings a = settings_default \<Longrightarrow> \<not> ma_single_worker_recovery a \<Longrightarrow>
  \<not> ma_light_randomx_recovery a \<Longrightarrow> ma_memory_snapshot a = sa_memory demo_answers \<Longrightarrow>
  memory_preflight_error demo_world a = None"
  by (simp add: memory_preflight_error_def Let_def demo_answers_def demo_world_def
    settings_default_def effective_workers_def effective_engine_workers_def byte_constants
    randomx_memory_bytes_for_def memory_headroom_bytes_def saturating_add_def saturating_mul_def clamp_def)

lemma started:
  obtains b args where "start demo_world demo_answers (app_default settings_default None) = (b, [Spawned 7, Handed 7 args (Some ''x'')])"
    "ma_child b = Some 7" "ma_automatic_restart_attempts b = 0" "ma_automatic_restart_at b = None"
proof -
  let ?a = "(app_default settings_default None)\<lparr>ma_automatic_restart_attempts := 0, ma_single_worker_recovery := False,
        ma_light_randomx_recovery := False, ma_automatic_recovery_enabled := True,
        ma_automatic_restart_at := None, ma_memory_snapshot := sa_memory demo_answers\<rparr>"
  define c where "c = prepare_start demo_world demo_answers False ?a"
  have "ma_settings c = settings_default"
    by (simp add: c_def prepare_start_def announce_start_def reset_telemetry_def Let_def frame_simps app_default_def
        demo_answers_def)
  then have handed: "password_handed demo_answers c = Some ''x''"
    by (simp add: password_handed_def demo_answers_def settings_default_def)
  have k: "ma_automatic_restart_attempts c = 0" "ma_automatic_restart_at c = None"
    using prepare_start_children [of ?a demo_world demo_answers False] by (auto simp: c_def app_default_def)
  have p: "memory_preflight_error demo_world ?a = None"
    by (rule demo_preflight) (simp_all add: app_default_def)
  have o: "attach_outcome demo_answers (terminate_and_reap_child (sa_cleanup demo_answers)) = Inr [1, 2]"
    by (simp add: attach_outcome_def demo_answers_def reader_start_def)
  have "start demo_world demo_answers (app_default settings_default None) =
    (case attach_engine demo_world demo_answers False 7 c of
       (b, evs) \<Rightarrow> (b, Spawned 7 # Handed 7 (launch_arguments demo_world c) (password_handed demo_answers c) # evs))"
    using p default_settings_valid
    by (simp add: start_def start_engine_def is_running_def has_live_engine_state_def app_default_def
        demo_answers_def c_def Let_def)
  then show thesis using o k handed
    that [of "c\<lparr>ma_receiver := True, ma_reader_threads := [1, 2], ma_child := Some 7\<rparr>"]
    by (simp add: attach_engine_def Let_def)
qed

lemma started_reach:
  assumes "start demo_world demo_answers (app_default settings_default None) = (b, [Spawned 7, Handed 7 args pw])"
  shows "reach sup_initial sup_step (b, {7})"
proof -
  have "reach sup_initial sup_step (app_default settings_default None, {})"
    by (rule reach_init) (auto simp: sup_initial_def)
  moreover have "after_events [Spawned 7, Handed 7 args pw] {} = {7}" by simp
  ultimately show ?thesis using reach_step sup_step.sup_start [OF assms, of "{}"] by fastforce
qed

lemma one_engine_at_a_time_witness:
  "\<exists>a. reach sup_initial sup_step (a, {7}) \<and> (\<nexists>w s b child vs. start w s a = (b, Spawned child # vs))"
proof -
  obtain b args where b: "start demo_world demo_answers (app_default settings_default None) =
      (b, [Spawned 7, Handed 7 args (Some ''x'')])"
    by (rule started)
  have "\<nexists>w s c child vs. start w s b = (c, Spawned child # vs)"
    using one_engine_at_a_time [OF started_reach [OF b]] by simp
  then show ?thesis using started_reach [OF b] by blast
qed

definition demo_stop :: stop_answers where
  "demo_stop = \<lparr>to_cleanup = demo_children, to_observed = Inr None, to_killed = Inr ()\<rparr>"

lemma stop_is_final_witness:
  "\<exists>a b evs c later. reach sup_initial sup_step (a, {7}) \<and> stop demo_world demo_stop a = (b, evs) \<and>
     run_polls (replicate 9 (demo_world, demo_poll)) b = (c, later) \<and>
     (\<forall>child. Spawned child \<notin> set (evs @ later))"
proof -
  obtain a args where a: "start demo_world demo_answers (app_default settings_default None) =
      (a, [Spawned 7, Handed 7 args (Some ''x'')])"
    by (rule started)
  obtain b evs where b: "stop demo_world demo_stop a = (b, evs)" by fastforce
  obtain c later where c: "run_polls (replicate 9 (demo_world, demo_poll)) b = (c, later)" by fastforce
  show ?thesis using started_reach [OF a] b c stop_is_final [OF started_reach [OF a] b c] by blast
qed

end
