(* ===== verification/RestartBudget.thy ===== *)
theory RestartBudget
  imports Supervision
begin

text \<open>
  The restart budget of the supervisor: the restarts that are left without a sample of metrics
  never grow, and each engine the interface starts by itself takes one of them. Hence a crash
  loop ends.
\<close>

section \<open>A crash loop ends\<close>

text \<open>
  The restarts an interface can still make without a sample of metrics: those not yet counted,
  and the one that is scheduled.
\<close>

definition budget :: "miner_app \<Rightarrow> nat" where
  "budget a = 5 - unat (ma_automatic_restart_attempts a) +
     (if ma_automatic_restart_at a = None then 0 else 1)"

definition same_budget :: "miner_app \<Rightarrow> miner_app \<Rightarrow> bool" where
  "same_budget a b \<longleftrightarrow> ma_automatic_restart_attempts b = ma_automatic_restart_attempts a \<and>
     ma_automatic_restart_at b = ma_automatic_restart_at a"

lemma same_budget_trans: "same_budget a b \<Longrightarrow> same_budget b c \<Longrightarrow> same_budget a c"
  by (simp add: same_budget_def)

lemma same_budget_push_log [simp]: "same_budget a (push_log w t e b) \<longleftrightarrow> same_budget a b"
  by (simp add: same_budget_def frame_simps)

lemma calm_same_budget: "calm a b \<Longrightarrow> same_budget a b"
  by (simp add: calm_def same_budget_def)

lemma same_budgetD: "same_budget a b \<Longrightarrow> budget b = budget a"
  by (simp add: same_budget_def budget_def)

definition spawns :: "proc_event list \<Rightarrow> nat" where
  "spawns evs = length (List.filter (\<lambda>e. case e of Spawned _ \<Rightarrow> True | _ \<Rightarrow> False) evs)"

lemma spawns_append [simp]: "spawns (xs @ ys) = spawns xs + spawns ys"
  by (simp add: spawns_def)

lemma unspawned_spawns: "unspawned evs \<Longrightarrow> spawns evs = 0"
  by (auto simp: spawns_def unspawned_def filter_empty_conv split: proc_event.splits)

lemma schedule_budget:
  assumes "ma_automatic_restart_at a = None"
  shows "budget (schedule_automatic_restart w reason a) \<le> budget a"
proof (cases "ma_requested_stop a \<or> \<not> ma_automatic_recovery_enabled a \<or>
    MAX_AUTOMATIC_ENGINE_RESTARTS \<le> ma_automatic_restart_attempts a")
  case True
  then have "same_budget a (schedule_automatic_restart w reason a)" using assms
    by (auto simp: schedule_automatic_restart_def Let_def same_budget_def frame_simps)
  then show ?thesis by (simp add: same_budgetD)
next
  case False
  then have n: "unat (ma_automatic_restart_attempts a) < 5"
    by (simp add: MAX_AUTOMATIC_ENGINE_RESTARTS_def word_less_nat_alt not_le)
  then have "unat (ma_automatic_restart_attempts a + 1) = unat (ma_automatic_restart_attempts a) + 1"
    by (simp add: unat_word_ariths)
  moreover have "ma_automatic_restart_attempts (schedule_automatic_restart w reason a) =
      ma_automatic_restart_attempts a + 1"
    using False by (auto simp: schedule_automatic_restart_def Let_def frame_simps)
  ultimately show ?thesis using n assms by (auto simp: budget_def)
qed

lemma budget_updates [simp]:
  "budget (a\<lparr>ma_quarantined_child := q\<rparr>) = budget a"
  "budget (a\<lparr>ma_memory_snapshot := m\<rparr>) = budget a"
  "budget (a\<lparr>ma_phase := p, ma_last_error := e\<rparr>) = budget a"
  "budget (a\<lparr>ma_receiver := r, ma_reader_threads := t, ma_child := c\<rparr>) = budget a"
  "budget (push_log w s l a) = budget a"
  by (simp_all add: budget_def frame_simps)

lemma fail_start_budget:
  assumes "ma_automatic_restart_at a = None"
  shows "budget (fail_engine_start w e automatic a) \<le> budget a"
  using schedule_budget [of "push_log w e True (a\<lparr>ma_phase := Failed, ma_last_error := e\<rparr>)" w e] assms
  by (simp add: fail_engine_start_def Let_def frame_simps)

lemma attach_engine_budget:
  assumes "ma_automatic_restart_at a = None" "attach_engine w s automatic child a = (b, evs)"
  shows "budget b \<le> budget a"
proof -
  have "budget (fail_engine_start w e automatic (a\<lparr>ma_quarantined_child := q\<rparr>)) \<le> budget a" for e q
    using fail_start_budget [of "a\<lparr>ma_quarantined_child := q\<rparr>" w e automatic] assms(1) by simp
  then show ?thesis using assms fail_start_budget [of a w]
    by (auto simp: attach_engine_def Let_def split: sum.splits)
qed

lemma start_engine_budget:
  assumes "ma_automatic_restart_at a = None" "start_engine w s automatic a = (b, evs)" "app_inv a"
  shows "budget b \<le> budget a \<and> spawns evs \<le> 1"
proof -
  have "evs = [] \<or> (\<exists>child rest. evs = Spawned child # rest \<and> unspawned rest)"
    using start_engine_inv [OF assms(3,2)] by (auto simp: only_from_idle_def)
  then have "spawns evs \<le> 1" by (auto simp: spawns_def dest: unspawned_spawns [unfolded spawns_def])
  moreover have "budget b \<le> budget a"
  proof (cases "has_live_engine_state a")
    case True
    then show ?thesis using assms(2) by (simp add: start_engine_def)
  next
    case False
    then have no: "ma_pending_observation_failure a = None" by (simp add: has_live_engine_state_def)
    define a1 where "a1 = a\<lparr>ma_memory_snapshot := sa_memory s\<rparr>"
    have same: "a\<lparr>ma_automatic_restart_at := None\<rparr> = a" using assms(1) by (cases a) simp
    define a4 where "a4 = prepare_start w s automatic a1"
    have a4: "ma_automatic_restart_at a4 = None" "budget a4 = budget a"
      using prepare_start_children [of a1 w s automatic] no assms(1)
      unfolding a4_def budget_def by (simp_all add: a1_def)
    have a1: "budget (fail_engine_start w e automatic a1) \<le> budget a" for e
      using fail_start_budget [of a1 w e automatic] assms(1) by (simp add: a1_def)
    have at: "budget c \<le> budget a" if "attach_engine w s automatic child a4 = (c, xs)" for child c xs
      using attach_engine_budget [OF a4(1) that] a4(2) by simp
    show ?thesis
      using assms(2) False a1 fail_start_budget [OF assms(1)] fail_start_budget [OF a4(1)] a4(2) at
      by (auto simp: start_engine_def Let_def same a1_def [symmetric] a4_def [symmetric]
          simp del: append_Cons split: sum.splits option.splits prod.splits)
  qed
  ultimately show ?thesis by blast
qed

lemma log_report_same_budget [simp]: "same_budget a (log_report w r b) \<longleftrightarrow> same_budget a b"
  by (cases r) (simp_all add: log_report_def)

lemma engine_gone_same_budget: "same_budget a (engine_gone a)"
  by (simp add: engine_gone_def clear_active_work_def same_budget_def)

lemma finish_observation_failure_budget:
  assumes "ma_automatic_restart_at a = None"
  shows "budget (finish_observation_failure w r a) \<le> budget a"
proof -
  let ?b = "log_report w r ((engine_gone a)\<lparr>ma_phase := Failed\<rparr>)"
  have "same_budget a ((engine_gone a)\<lparr>ma_phase := Failed\<rparr>)"
    using engine_gone_same_budget [of a] by (simp add: same_budget_def)
  then have b: "same_budget a ?b" by simp
  then have "ma_automatic_restart_at ?b = None" using assms by (simp add: same_budget_def)
  from schedule_budget [OF this] show ?thesis
    using same_budgetD [OF b] by (simp add: finish_observation_failure_def Let_def)
qed

lemma escalate_same_budget: "same_budget a (escalate w status a)"
  by (cases "recovery_escalation (family w) status (ma_light_randomx_recovery a) (ma_automatic_restart_attempts a)")
     (simp_all add: escalate_def same_budget_def frame_simps)

lemma finish_exited_child_budget:
  assumes "ma_automatic_restart_at a = None"
  shows "budget (finish_exited_child w r status a) \<le> budget a"
proof -
  define b where "b = engine_gone (a\<lparr>ma_worker_error_can_restore_mining := False\<rparr>)"
  have b: "same_budget a b" using engine_gone_same_budget [of "a\<lparr>ma_worker_error_can_restore_mining := False\<rparr>"]
    by (simp add: b_def same_budget_def)
  show ?thesis
  proof (cases "ma_requested_stop b \<and> \<not> ma_engine_fatal_seen b \<and>
            exit_status_matches_requested_stop (family w) status")
    case True
    have "same_budget a (push_log w ''Mining stopped.'' False (b\<lparr>ma_phase := Idle\<rparr>))"
      using b by (simp add: same_budget_def frame_simps)
    then show ?thesis using True by (simp add: finish_exited_child_def b_def [symmetric] same_budgetD)
  next
    case False
    define c where "c = b\<lparr>ma_phase := Failed, ma_last_error := ''Mining engine exited unexpectedly: '' @
                       describe_exit_status (family w) status @ ''.''\<rparr>"
    define d where "d = log_report w r (push_log w (ma_last_error c) True c)"
    define e where "e = escalate w status d"
    have "same_budget a c" using b by (simp add: c_def same_budget_def)
    then have d: "same_budget a d" by (simp add: d_def)
    have e: "same_budget a e" using same_budget_trans [OF d escalate_same_budget] by (simp add: e_def)
    then have "ma_automatic_restart_at e = None" using assms by (simp add: same_budget_def)
    from schedule_budget [OF this] show ?thesis using False same_budgetD [OF e]
      by (simp only: finish_exited_child_def Let_def b_def [symmetric] c_def [symmetric]
          d_def [symmetric] e_def [symmetric] if_False)
  qed
qed

definition silent :: "poll_answers \<Rightarrow> bool" where
  "silent p \<longleftrightarrow> list_all (\<lambda>m. case m of
     TelemetryMessage v \<Rightarrow> get_str ''event'' v \<noteq> Some ''metrics'' | LogMessage _ \<Rightarrow> True) (po_queue p)"

lemma drain_budget:
  assumes "drain_process_messages w queue gone a = (d, b)"
    "list_all (\<lambda>m. case m of TelemetryMessage v \<Rightarrow> get_str ''event'' v \<noteq> Some ''metrics''
       | LogMessage _ \<Rightarrow> True) queue"
  shows "same_budget a b"
proof -
  have one: "keeps a (apply_process_message w m a)"
    if "case m of TelemetryMessage v \<Rightarrow> get_str ''event'' v \<noteq> Some ''metrics'' | LogMessage _ \<Rightarrow> True" for m a
    using that by (auto simp: apply_process_message_def keeps_without_metrics split: process_message.splits)
  have "keeps a (fold (apply_process_message w) ms a)" if "set ms \<subseteq> set queue" for ms a
    using that
  proof (induction ms arbitrary: a)
    case (Cons m ms)
    then have "keeps a (apply_process_message w m a)" using assms(2) one by (auto simp: list_all_iff)
    from keeps_trans [OF this Cons.IH] Cons.prems show ?case by simp
  qed simp
  then have "keeps a (fold (apply_process_message w) (take n queue) a)" for n using set_take_subset by metis
  then show ?thesis using assms(1)
    by (auto simp: drain_process_messages_def keeps_def sup_of_def same_budget_def split: if_splits)
qed

lemma reader_lost_same_budget: "same_budget a (reader_lost w k a)"
  by (cases k) (simp_all add: reader_lost_def Let_def same_budget_def frame_simps)

lemma poll_reader_same_budget: "same_budget a (poll_reader w p had gone a)"
proof -
  have t: "same_budget a (a\<lparr>ma_output_disconnected_at := x\<rparr>)" for x by (simp add: same_budget_def)
  then have "same_budget a (reader_lost w k (a\<lparr>ma_output_disconnected_at := x\<rparr>))" for k x
    using same_budget_trans reader_lost_same_budget by blast
  with t show ?thesis by (simp add: poll_reader_def Let_def) (simp add: same_budget_def)
qed

lemma poll_quarantine_budget:
  assumes "poll_quarantine w p a = (b, evs)"
  shows "budget b = budget a"
proof -
  have "budget (a\<lparr>ma_quarantined_child := None\<rparr>) = budget a" by simp
  then show ?thesis using assms
    by (auto simp: poll_quarantine_def simp del: append_Cons append_Nil split: option.splits sum.splits)
qed

lemma poll_failure_budget:
  assumes "app_inv a"
  shows "budget (poll_failure w p gone a) \<le> budget a"
proof (cases "ma_pending_observation_failure a")
  case None
  then show ?thesis by (simp add: poll_failure_def)
next
  case (Some failure)
  then have no: "ma_automatic_restart_at a = None" using assms by (auto simp: app_inv_def settled_def)
  have closed: "budget (finish_observation_failure w r
        (b\<lparr>ma_receiver := False, ma_pending_observation_failure := None\<rparr>)) \<le> budget a"
    if "calm a b" for b r
  proof -
    let ?c = "b\<lparr>ma_receiver := False, ma_pending_observation_failure := None\<rparr>"
    have "budget ?c = budget a" "ma_automatic_restart_at ?c = None" using that no
      by (simp_all add: calm_def budget_def)
    then show ?thesis using finish_observation_failure_budget [of ?c w r] by simp
  qed
  obtain n b where b: "join_finished_reader_threads w (po_finished p) (po_panicked p) (a\<lparr>ma_receiver := False\<rparr>) = (n, b)"
    by fastforce
  have "calm a (a\<lparr>ma_receiver := False\<rparr>)" by (simp add: calm_def keeps_children_def)
  from calm_trans [OF this join_calm(2) [of _ w "po_finished p" "po_panicked p"]] b
  have "calm a b" by simp
  then show ?thesis using Some b closed join_calm(1) by (simp add: poll_failure_def Let_def)
qed

lemma poll_exit_budget:
  assumes "app_inv a"
  shows "budget (poll_exit w p gone a) \<le> budget a"
proof (cases "ma_pending_exit a")
  case None
  then show ?thesis by (simp add: poll_exit_def)
next
  case (Some status)
  then have no: "ma_automatic_restart_at a = None" using assms by (auto simp: app_inv_def settled_def)
  let ?a = "a\<lparr>ma_pending_exit := None\<rparr>"
  let ?b = "(join_reader_threads w (po_panicked p) ?a)\<lparr>ma_receiver := False\<rparr>"
  have "calm ?a ?b" by (simp add: join_calm)
  then have "same_budget ?a ?b" by (rule calm_same_budget)
  then have "budget ?b = budget a" "ma_automatic_restart_at ?b = None"
    using no by (simp_all add: same_budget_def budget_def)
  then show ?thesis using Some finish_exited_child_budget [of ?b w] by (simp add: poll_exit_def)
qed

lemma poll_process_budget:
  assumes "app_inv a" "silent p" "poll_process w p a = (b, evs)"
  shows "budget b + spawns evs \<le> budget a"
proof -
  obtain gone a1 where a1: "drain_process_messages w (po_queue p) (po_senders_gone p) a = (gone, a1)" by fastforce
  obtain a2 xs where a2: "poll_observe w p a1 = (a2, xs)" by fastforce
  define a3 where "a3 = poll_failure w p gone a2"
  obtain a4 ys where a4: "poll_quarantine w p a3 = (a4, ys)" by fastforce
  define a5 where "a5 = poll_exit w p gone a4"
  define a6 where "a6 = poll_reader w p (ma_receiver a) gone a5"
  obtain a7 zs where a7: "poll_restart w p a6 = (a7, zs)" by fastforce
  have "poll_process w p a = (a7, xs @ ys @ zs)"
    by (simp add: poll_process_def Let_def a1 a2 a4 a7 a3_def [symmetric] a5_def [symmetric] a6_def [symmetric])
  then have eq: "b = a7" "evs = xs @ ys @ zs" using assms(3) by simp_all
  have b1: "budget a1 = budget a"
    using drain_budget [OF a1] assms(2) by (simp add: silent_def same_budgetD)
  have i1: "app_inv a1" using keeps_sound [OF drain_keeps [OF a1]] assms(1) by (simp add: sound_def)
  have "same_budget a1 a2" using a2
    by (auto simp: poll_observe_def begin_observation_failure_def same_budget_def Let_def frame_simps
        split: if_splits option.splits sum.splits)
  then have b2: "budget a2 = budget a1" by (rule same_budgetD)
  have s2: "sound a1 xs a2" using poll_observe_sound [OF a2 i1] .
  then have i2: "app_inv a2" using i1 by (simp add: sound_def)
  have b3: "budget a3 \<le> budget a2" unfolding a3_def by (rule poll_failure_budget [OF i2])
  have i3: "app_inv a3" using poll_failure_sound [OF i2] i2 by (simp add: a3_def sound_def)
  have b4: "budget a4 = budget a3" using poll_quarantine_budget [OF a4] .
  have s4: "sound a3 ys a4" using poll_quarantine_sound [OF a4] .
  then have i4: "app_inv a4" using i3 by (simp add: sound_def)
  have b5: "budget a5 \<le> budget a4" unfolding a5_def by (rule poll_exit_budget [OF i4])
  have i5: "app_inv a5" using poll_exit_sound [OF i4] i4 by (simp add: a5_def sound_def)
  have b6: "budget a6 = budget a5"
    unfolding a6_def by (rule same_budgetD [OF poll_reader_same_budget])
  have i6: "app_inv a6" using poll_reader_sound [of a5] i5 by (simp add: a6_def sound_def)
  have "spawns xs = 0" "spawns ys = 0" using s2 s4 by (simp_all add: sound_def unspawned_spawns)
  moreover have "budget a7 + spawns zs \<le> budget a6"
  proof (cases "\<exists>d. ma_automatic_restart_at a6 = Some d \<and> d \<le> now w \<and> \<not> has_live_engine_state a6")
    case True
    then obtain d where d: "ma_automatic_restart_at a6 = Some d" "d \<le> now w" "\<not> has_live_engine_state a6" by blast
    let ?c = "a6\<lparr>ma_automatic_restart_at := None\<rparr>"
    have "app_inv ?c" using i6 by (simp add: app_inv_def settled_def)
    moreover have "start_engine w (po_start p) True ?c = (a7, zs)" using a7 d by (simp add: poll_restart_def)
    ultimately have "budget a7 \<le> budget ?c \<and> spawns zs \<le> 1"
      using start_engine_budget [of ?c w "po_start p" True a7 zs] by simp
    moreover have "budget ?c + 1 = budget a6" using d(1) by (simp add: budget_def)
    ultimately show ?thesis by linarith
  next
    case False
    then have "poll_restart w p a6 = (a6, [])"
      by (cases "ma_automatic_restart_at a6") (auto simp: poll_restart_def)
    then show ?thesis using a7 by (simp add: spawns_def)
  qed
  ultimately show ?thesis using eq b1 b2 b3 b4 b5 b6 by simp
qed

text \<open>
  C9: A crash loop ends. An engine that never reports metrics, as one that keeps crashing while it
  starts, is restarted automatically at most as often as the budget says: five times after
  the operator's Start, in whatever way the attempts fail.
\<close>

theorem crash_loop_bounded:
  assumes "reach sup_initial sup_step (a, L)" "list_all (\<lambda>(w, p). silent p) ps"
    "run_polls ps a = (b, evs)"
  shows "spawns evs \<le> 5 - unat (ma_automatic_restart_attempts a) +
    (if ma_automatic_restart_at a = None then 0 else 1)"
proof -
  have inv: "app_inv a" using supervisor.inv_reach [OF assms(1)] by (simp add: sup_inv_def)
  have "budget b + spawns evs \<le> budget a"
    using inv assms(2,3)
  proof (induction ps a arbitrary: b evs rule: run_polls.induct)
    case (2 w p ps a)
    obtain c xs where c: "poll_process w p a = (c, xs)" by fastforce
    obtain d ys where d: "run_polls ps c = (d, ys)" by fastforce
    have "app_inv c" using poll_process_inv [OF 2(2) c] by blast
    then have "budget d + spawns ys \<le> budget c" using 2(1) [OF c [symmetric]] 2(3) d by simp
    moreover have "budget c + spawns xs \<le> budget a" using poll_process_budget [OF 2(2) _ c] 2(3) by simp
    ultimately show ?case using 2(4) c d by auto
  qed (simp add: spawns_def)
  then show ?thesis by (simp add: budget_def)
qed

lemma crash_loop_bounded_witness:
  "\<exists>a b evs. reach sup_initial sup_step (a, {7}) \<and>
     run_polls (replicate 9 (demo_world, demo_poll)) a = (b, evs) \<and> spawns evs \<le> 5"
proof -
  obtain a args where a: "start demo_world demo_answers (app_default settings_default None) =
      (a, [Spawned 7, Handed 7 args (Some ''x'')])"
    "ma_automatic_restart_attempts a = 0" "ma_automatic_restart_at a = None"
    by (rule started)
  obtain b evs where b: "run_polls (replicate 9 (demo_world, demo_poll)) a = (b, evs)" by fastforce
  have "list_all (\<lambda>(w, p). silent p) (replicate 9 (demo_world, demo_poll))"
    by (simp add: silent_def demo_poll_def list_all_iff)
  from crash_loop_bounded [OF started_reach [OF a(1)] this b] show ?thesis
    using started_reach [OF a(1)] a(2,3) b by auto
qed

end
