(* ===== verification/Display.thy ===== *)
theory Display
  imports Worker Supervision
begin

text \<open>
  The engine's events as the interface shows them: the events of \<open>Engine\<close> and \<open>Worker\<close> fed to the
  handlers of \<open>Telemetry\<close>.
\<close>

lemma push_log_telemetry:
  "ma_submitted (push_log w t e a) = ma_submitted a" "ma_accepted (push_log w t e a) = ma_accepted a"
  "ma_rejected (push_log w t e a) = ma_rejected a" "ma_total_hashes (push_log w t e a) = ma_total_hashes a"
  "ma_hashrate (push_log w t e a) = ma_hashrate a" "ma_mempool_size (push_log w t e a) = ma_mempool_size a"
  "ma_peer_count (push_log w t e a) = ma_peer_count a" "ma_height (push_log w t e a) = ma_height a"
  "ma_job_id (push_log w t e a) = ma_job_id a" "ma_last_metrics_at (push_log w t e a) = ma_last_metrics_at a"
  "ma_settings (push_log w t e a) = ma_settings a"
  "ma_engine_fatal_seen (push_log w t e a) = ma_engine_fatal_seen a"
  "ma_requested_stop (push_log w t e a) = ma_requested_stop a"
  "ma_round_hashes (push_log w t e a) = ma_round_hashes a"
  "ma_round_probability (push_log w t e a) = ma_round_probability a"
  "ma_job_observed_in_metrics (push_log w t e a) = ma_job_observed_in_metrics a"
  "ma_jobless_metrics_seen (push_log w t e a) = ma_jobless_metrics_seen a"
  by (simp_all add: push_log_def Let_def)

lemma enter_mining_telemetry:
  "ma_height (enter_mining_phase a) = ma_height a"
  "ma_round_hashes (enter_mining_phase a) = ma_round_hashes a"
  "ma_node_link_live (enter_mining_phase a) = ma_node_link_live a"
  "ma_settings (enter_mining_phase a) = ma_settings a"
  "ma_engine_fatal_seen (enter_mining_phase a) = ma_engine_fatal_seen a"
  "ma_requested_stop (enter_mining_phase a) = ma_requested_stop a"
  by (auto simp: enter_mining_phase_def split: list.splits)

lemma enter_mining_phase_Mining:
  "\<not> ma_engine_fatal_seen a \<Longrightarrow> ma_phase (enter_mining_phase a) = (if ma_worker_errors a = [] then Mining else Failed)"
  by (auto simp: enter_mining_phase_def split: list.splits)

text \<open>
  The work on display is the engine's: the event the engine emits when it installs a job makes
  the interface show that job's height, identity, algorithm and reward account, and the work its
  target takes; the phase is mining unless a worker has failed, and a round that starts at another
  height starts at zero.
\<close>

theorem interface_shows_job:
  assumes "\<not> ma_engine_fatal_seen a" "\<not> ma_requested_stop a"
    and "b = apply_telemetry w (job_event X j) a"
  shows "ma_height b = Some (job_height j) \<and> ma_job_id b = job_id j \<and>
    ma_algorithm b = algorithm_name (job_algo j) \<and>
    ma_coinbase b = opt_filter (\<lambda>account. account \<noteq> []) (job_coinbase j) \<and>
    ma_expected_hashes b =
      opt_filter (\<lambda>expected. expected > 0) (map_option expected_hashes_for_target (job_block_target j)) \<and>
    ma_phase b = (if ma_worker_errors a = [] then Mining else Failed) \<and> ma_node_link_live b \<and>
    ma_round_hashes b = (if ma_height a = Some (job_height j) then ma_round_hashes a else 0)"
proof -
  let ?v = "job_event X j"
  have f: "get_str ''event'' ?v = Some ''job''" "get_u64 ''height'' ?v = Some (job_height j)"
    "get_str ''algorithm'' ?v = Some (algorithm_name (job_algo j))" "get_str ''job_id'' ?v = Some (job_id j)"
    "get_str ''coinbase'' ?v = job_coinbase j"
    "get_f64 ''expected_hashes'' ?v = map_option expected_hashes_for_target (job_block_target j)"
    by (simp_all add: job_event_def json_access) (cases "job_block_target j"; simp)
  have b: "b = on_job w ?v a" using assms f(1) by (simp add: apply_telemetry_def)
  show ?thesis unfolding b on_job_def Let_def f using assms(1)
    by (auto simp: or_unknown_def enter_mining_telemetry enter_mining_phase_Mining)
qed

text \<open>
  What the metrics of the engine make of the display: the counters are the engine's counters.
\<close>

lemma metrics_fields:
  "get_str ''event'' (metrics_event rate st) = Some ''metrics''"
  "get_f64 ''hashrate'' (metrics_event rate st) = Some rate"
  "get_u64 ''height'' (metrics_event rate st) = map_option (\<lambda>(jid, j). job_height j) (es_job st)"
  "jget ''height'' (metrics_event rate st) = Some JNull \<longleftrightarrow> es_job st = None"
  "get_u64 ''total_hashes'' (metrics_event rate st) = Some (es_total_hashes st)"
  "get_u64 ''submitted'' (metrics_event rate st) = Some (es_submitted st)"
  "get_u64 ''accepted'' (metrics_event rate st) = Some (es_accepted st)"
  "get_u64 ''rejected'' (metrics_event rate st) = Some (es_rejected st)"
  "get_u64 ''mempool_size'' (metrics_event rate st) = (if es_mempool_known st then Some (es_mempool_size st) else None)"
  "get_u64 ''peer_count'' (metrics_event rate st) = (if es_peers_known st then Some (es_peer_count st) else None)"
  by (cases "round_snapshot st"; cases "es_job st"; auto simp: metrics_event_def json_access jopt_def)+

lemma clear_active_work_telemetry:
  "ma_submitted (clear_active_work a) = ma_submitted a" "ma_accepted (clear_active_work a) = ma_accepted a"
  "ma_rejected (clear_active_work a) = ma_rejected a" "ma_total_hashes (clear_active_work a) = ma_total_hashes a"
  "ma_hashrate (clear_active_work a) = ma_hashrate a" "ma_settings (clear_active_work a) = ma_settings a"
  "ma_last_metrics_at (clear_active_work a) = ma_last_metrics_at a"
  "ma_engine_fatal_seen (clear_active_work a) = ma_engine_fatal_seen a"
  "ma_requested_stop (clear_active_work a) = ma_requested_stop a"
  "ma_job_id (clear_active_work a) = WAITING_FOR_WORK" "ma_height (clear_active_work a) = None"
  by (simp_all add: clear_active_work_def)

lemma stability_telemetry:
  "ma_submitted (metrics_stability w a) = ma_submitted a" "ma_accepted (metrics_stability w a) = ma_accepted a"
  "ma_rejected (metrics_stability w a) = ma_rejected a" "ma_total_hashes (metrics_stability w a) = ma_total_hashes a"
  "ma_hashrate (metrics_stability w a) = ma_hashrate a" "ma_mempool_size (metrics_stability w a) = ma_mempool_size a"
  "ma_peer_count (metrics_stability w a) = ma_peer_count a" "ma_height (metrics_stability w a) = ma_height a"
  "ma_job_id (metrics_stability w a) = ma_job_id a" "ma_last_metrics_at (metrics_stability w a) = ma_last_metrics_at a"
  "ma_settings (metrics_stability w a) = ma_settings a"
  "ma_engine_fatal_seen (metrics_stability w a) = ma_engine_fatal_seen a"
  "ma_requested_stop (metrics_stability w a) = ma_requested_stop a"
  "ma_job_observed_in_metrics (metrics_stability w a) = ma_job_observed_in_metrics a"
  "ma_jobless_metrics_seen (metrics_stability w a) = ma_jobless_metrics_seen a"
  by (simp_all add: metrics_stability_def Let_def push_log_telemetry)

lemma apply_metrics:
  "\<not> ma_engine_fatal_seen a \<Longrightarrow> \<not> ma_requested_stop a \<Longrightarrow>
     apply_telemetry w (metrics_event rate st) a = on_metrics w (metrics_event rate st) a"
  by (simp add: apply_telemetry_def metrics_fields)

text \<open>
  What each stage of a sample leaves alone: \<open>counters\<close> are the numbers the engine counts, \<open>work\<close> is
  the job on display.
\<close>

definition counters :: "miner_app \<Rightarrow> u64 \<times> u64 \<times> u64 \<times> u64 \<times> real \<times> instant option \<times> settings \<times> bool \<times> bool" where
  "counters a = (ma_submitted a, ma_accepted a, ma_rejected a, ma_total_hashes a, ma_hashrate a,
     ma_last_metrics_at a, ma_settings a, ma_engine_fatal_seen a, ma_requested_stop a)"

definition work :: "miner_app \<Rightarrow> str \<times> u64 option \<times> bool \<times> u8" where
  "work a = (ma_job_id a, ma_height a, ma_job_observed_in_metrics a, ma_jobless_metrics_seen a)"

lemma stage_counters:
  "counters (metrics_stability w a) = counters a" "counters (metrics_history v a) = counters a"
  "counters (metrics_round v a) = counters a"
  by (simp_all add: counters_def stability_telemetry metrics_history_def metrics_round_def Let_def)

lemma work_counters: "counters (metrics_work v a) = counters a"
proof -
  have "counters (clear_active_work b) = counters b" for b
    by (simp add: counters_def clear_active_work_telemetry)
  then show ?thesis
    by (cases "ma_height a") (simp_all add: metrics_work_def Let_def counters_def split: option.splits)
qed

lemma stage_work:
  "work (metrics_stability w a) = work a" "work (metrics_history v a) = work a"
  "work (metrics_round v a) = work a" "work (metrics_rates w v a) = work a"
  by (simp_all add: work_def stability_telemetry metrics_history_def metrics_round_def
      metrics_rates_def take_counters_def Let_def)

lemma on_metrics_work: "work (on_metrics w v a) = work (metrics_work v (metrics_rates w v a))"
  by (simp add: on_metrics_def stage_work)

lemma on_metrics_counters: "counters (on_metrics w v a) = counters (metrics_rates w v a)"
  by (simp add: on_metrics_def stage_counters work_counters)

lemma on_metrics_network:
  "ma_mempool_size (on_metrics w v a) = get_u64 ''mempool_size'' v"
  "ma_peer_count (on_metrics w v a) = get_u64 ''peer_count'' v"
  by (simp_all add: on_metrics_def stability_telemetry metrics_history_def Let_def)

lemma metrics_work_without_job:
  assumes "get_u64 ''height'' v = None" "jget ''height'' v = Some JNull" "ma_job_id a \<noteq> WAITING_FOR_WORK"
  shows "work (metrics_work v a) =
    (if ma_job_observed_in_metrics a \<or> 2 \<le> saturating_add (ma_jobless_metrics_seen a) 1
     then (WAITING_FOR_WORK, None, False, 0)
     else (ma_job_id a, ma_height a, False, saturating_add (ma_jobless_metrics_seen a) 1))"
proof -
  define b where "b = (if ma_height a = None then a\<lparr>ma_height := None\<rparr> else a)"
  have "b = a" by (simp add: b_def)
  then show ?thesis using assms
    by (simp add: metrics_work_def b_def [symmetric] Let_def work_def clear_active_work_def)
qed

lemma metrics_work_with_job:
  assumes "get_u64 ''height'' v = Some n" "ma_height a = Some n" "ma_job_id a \<noteq> WAITING_FOR_WORK"
  shows "work (metrics_work v a) = (ma_job_id a, ma_height a, True, 0)"
  using assms by (simp add: metrics_work_def work_def)

text \<open>
  The counters on display are the engine's: a sample of metrics makes the interface show the
  engine's hashes, submissions, acceptances and rejections, its measured rate, and the node's
  pool and peers exactly when the node has reported them, and the readouts count as fresh.
\<close>

theorem interface_shows_counters:
  assumes "\<not> ma_engine_fatal_seen a" "\<not> ma_requested_stop a"
    and "b = apply_telemetry w (metrics_event rate st) a"
  shows "ma_submitted b = es_submitted st \<and> ma_accepted b = es_accepted st \<and>
    ma_rejected b = es_rejected st \<and> ma_total_hashes b = es_total_hashes st \<and> ma_hashrate b = rate \<and>
    ma_mempool_size b = (if es_mempool_known st then Some (es_mempool_size st) else None) \<and>
    ma_peer_count b = (if es_peers_known st then Some (es_peer_count st) else None) \<and>
    telemetry_is_fresh w b"
proof -
  have b: "b = on_metrics w (metrics_event rate st) a" using assms by (simp add: apply_metrics)
  have c: "counters b = counters (metrics_rates w (metrics_event rate st) a)"
    by (simp add: b on_metrics_counters)
  then have t: "ma_last_metrics_at b = Some (now w)"
    by (simp add: counters_def metrics_rates_def take_counters_def Let_def)
  have "(8 :: u64) \<le> max x 8" for x by simp
  then have "0 < unat (max x (8 :: u64))" for x
    using word_le_nat_alt [of 8 "max x (8 :: u64)"] by (simp add: max_def split: if_splits)
  then have "telemetry_is_fresh w b" by (simp add: telemetry_is_fresh_def t nanos_per_sec_def)
  then show ?thesis using c
    by (simp add: b on_metrics_network counters_def metrics_rates_def take_counters_def take_u64_def
        metrics_fields Let_def)
qed

text \<open>
  A sample taken just before a job and read just after it does not erase the job: until a sample
  has shown the job, one sample without work leaves it on display and the second clears it;
  once a sample has shown it, the first sample without work clears it.
\<close>

theorem raced_sample_keeps_work:
  fixes rate :: real and w :: surroundings
  assumes "\<not> ma_engine_fatal_seen a" "\<not> ma_requested_stop a" "job_id j \<noteq> WAITING_FOR_WORK"
    and "b = apply_telemetry w (job_event X j) a"
    and "es_job idle = None" "es_job busy = Some (k, j)"
  defines "fed \<equiv> \<lambda>st. apply_telemetry w (metrics_event rate st)"
  shows "ma_job_id (fed idle b) = job_id j \<and> ma_height (fed idle b) = Some (job_height j) \<and>
    ma_job_id (fed idle (fed idle b)) = WAITING_FOR_WORK \<and>
    ma_height (fed idle (fed idle b)) = None \<and>
    ma_job_id (fed busy b) = job_id j \<and> ma_height (fed busy b) = Some (job_height j) \<and>
    ma_job_id (fed idle (fed busy b)) = WAITING_FOR_WORK"
proof -
  have ev: "get_str ''event'' (job_event X j) = Some ''job''" by (simp add: job_event_def json_access)
  have b: "b = on_job w (job_event X j) a" using assms(1,2,4) ev by (simp add: apply_telemetry_def)
  have calm: "\<not> ma_engine_fatal_seen b" "\<not> ma_requested_stop b"
    using assms(1,2) by (simp_all add: b on_job_def Let_def enter_mining_telemetry)
  have job: "ma_job_id b = job_id j" "ma_height b = Some (job_height j)"
    "\<not> ma_job_observed_in_metrics b" "ma_jobless_metrics_seen b = 0"
    by (simp_all add: b on_job_def Let_def job_event_def json_access or_unknown_def)
  have live: "\<not> ma_engine_fatal_seen (fed st c) \<and> \<not> ma_requested_stop (fed st c) \<and>
      work (fed st c) = work (metrics_work (metrics_event rate st) (metrics_rates w (metrics_event rate st) c))"
    if "\<not> ma_engine_fatal_seen c" "\<not> ma_requested_stop c" for st c
  proof -
    have "fed st c = on_metrics w (metrics_event rate st) c" using that by (simp add: fed_def apply_metrics)
    moreover from this have "counters (fed st c) = counters (metrics_rates w (metrics_event rate st) c)"
      by (simp add: on_metrics_counters)
    ultimately show ?thesis using that
      by (simp add: on_metrics_work) (simp add: counters_def metrics_rates_def take_counters_def Let_def)
  qed
  have off: "work (fed idle c) =
      (if ma_job_observed_in_metrics c \<or> 2 \<le> saturating_add (ma_jobless_metrics_seen c) 1
       then (WAITING_FOR_WORK, None, False, 0)
       else (ma_job_id c, ma_height c, False, saturating_add (ma_jobless_metrics_seen c) 1))"
    if "\<not> ma_engine_fatal_seen c" "\<not> ma_requested_stop c" "ma_job_id c \<noteq> WAITING_FOR_WORK" for c
    using live [OF that(1,2)] that(3) assms(5)
      metrics_work_without_job [of "metrics_event rate idle" "metrics_rates w (metrics_event rate idle) c"]
      stage_work(4) [of w "metrics_event rate idle" c]
    by (simp add: metrics_fields work_def)
  have one: "saturating_add 0 (1 :: u8) = 1" "saturating_add 1 (1 :: u8) = 2"
    "\<not> (2 :: u8) \<le> 1" by (simp_all add: saturating_add_def word_le_nat_alt)
  have first: "work (fed idle b) = (job_id j, Some (job_height j), False, 1)"
    using off [OF calm] job assms(3) one by simp
  then have "work (fed idle (fed idle b)) = (WAITING_FOR_WORK, None, False, 0)"
    using off [of "fed idle b"] live [OF calm, of idle] assms(3) one by (simp add: work_def)
  moreover have seen: "work (fed busy b) = (job_id j, Some (job_height j), True, 0)"
    using live [OF calm] job assms(3,6)
      metrics_work_with_job [of "metrics_event rate busy" "job_height j" "metrics_rates w (metrics_event rate busy) b"]
      stage_work(4) [of w "metrics_event rate busy" b]
    by (simp add: metrics_fields work_def)
  moreover from this have "work (fed idle (fed busy b)) = (WAITING_FOR_WORK, None, False, 0)"
    using off [of "fed busy b"] live [OF calm, of busy] assms(3) by (simp add: work_def)
  ultimately show ?thesis using first by (simp add: work_def)
qed

text \<open>A job and two samples, at an interface that was just opened.\<close>

abbreviation opened :: miner_app where
  "opened \<equiv> app_default settings_default None"

lemma opened_calm: "\<not> ma_engine_fatal_seen opened" "\<not> ma_requested_stop opened"
  by (simp_all add: app_default_def)

lemma interface_shows_job_witness:
  "ma_job_id (apply_telemetry demo_world (job_event sample sample_stratum_job) opened) = job_id sample_stratum_job \<and>
   ma_phase (apply_telemetry demo_world (job_event sample sample_stratum_job) opened) = Mining"
  using interface_shows_job [OF opened_calm refl, of demo_world sample sample_stratum_job]
  by (simp add: app_default_def)

lemma interface_shows_counters_witness:
  "ma_accepted (apply_telemetry demo_world (metrics_event 1000 ((state_new True)\<lparr>es_accepted := 3\<rparr>)) opened) = 3"
  using interface_shows_counters [OF opened_calm refl, of demo_world 1000 "(state_new True)\<lparr>es_accepted := 3\<rparr>"]
  by simp

lemma raced_sample_keeps_work_witness:
  "\<exists>b. ma_job_id (apply_telemetry demo_world (metrics_event 0 (state_new True)) b) = job_id sample_stratum_job \<and>
     b = apply_telemetry demo_world (job_event sample sample_stratum_job) opened"
proof -
  have "job_id sample_stratum_job \<noteq> WAITING_FOR_WORK"
    by (simp add: sample_stratum_job_def WAITING_FOR_WORK_def)
  moreover have "es_job (state_new True) = None"
    "es_job ((state_new True)\<lparr>es_job := Some (0, sample_stratum_job)\<rparr>) = Some (0, sample_stratum_job)"
    by (simp_all add: state_new_def)
  ultimately show ?thesis using raced_sample_keeps_work [OF opened_calm _ refl] by blast
qed

end
