(* ===== verification/Preflight.thy ===== *)
theory Preflight
  imports App
begin

text \<open>
  The memory checks of the interface and of the engine side by side: the interface's preflight
  (\<open>memory_preflight_error\<close> of \<open>src/gui.rs\<close>) passes exactly when the engine it would start accepts the
  same readings (\<open>resolve_headless_memory\<close> of \<open>src/main.rs\<close>), and the worker limit it recommends is the
  largest count for which its own preflight passes.
\<close>

definition recommended_worker_limit :: "memory_snapshot \<Rightarrow> u64" where
  "recommended_worker_limit s =
     (let usable = saturating_sub (snap_available s) (memory_headroom_bytes (snap_total s))
      in case List.find (\<lambda>workers. randomx_memory_bytes workers \<le> usable) (rev (List.map of_nat [1..<65])) of
           Some workers \<Rightarrow> workers
         | None \<Rightarrow> 0)"

lemma preflight_sum:
  assumes "unat workers \<le> 64"
  shows "unat (randomx_memory_bytes_for workers light + memory_headroom_bytes ram) =
    engine_need (unat workers) light + headroom (unat ram)"
proof -
  have "engine_need (unat workers) light \<le> 5000000000" using assms by (simp add: engine_need_def)
  moreover have "headroom (unat ram) \<le> 4294967296" by (simp add: headroom_def)
  ultimately show ?thesis by (simp add: unat_word_ariths unat_engine unat_headroom)
qed

lemma preflight_passes_iff:
  assumes "unat (effective_workers w a) \<le> 64"
  shows "memory_preflight_error w a = None \<longleftrightarrow>
    (case ma_memory_snapshot a of
       Some s \<Rightarrow> engine_need (unat (effective_workers w a)) (ma_light_randomx_recovery a) +
           headroom (unat (snap_total s)) \<le> unat (snap_available s)
     | None \<Rightarrow> ma_memory_acknowledged a)"
  using preflight_sum [OF assms]
  by (auto simp: memory_preflight_error_def Let_def word_less_nat_alt not_less simp del: append_Cons append_Nil
      split: option.split if_splits)

text \<open>
  C28: The interface and the engine agree on the memory. For readings of the operating system that
  both make, the preflight of the interface passes exactly when the engine accepts the workers, the
  mode and the confirmation it is started with.
\<close>

theorem preflight_agrees_with_engine:
  assumes "unat (effective_workers w a) \<le> 64"
    and "ma_memory_snapshot a = memory_snapshot_from_readings available ram"
  shows "memory_preflight_error w a = None \<longleftrightarrow>
    (\<exists>p. resolve_headless_memory (effective_workers w a) (ma_light_randomx_recovery a) available ram
       (ma_memory_snapshot a = None \<and> ma_memory_acknowledged a) = Inr p)"
  using validate_iff [OF assms(1), of "ma_light_randomx_recovery a" available ram] assms(2)
  unfolding preflight_passes_iff [OF assms(1)]
  by (auto simp: resolve_headless_memory_def memory_snapshot_from_readings_def)

section \<open>The recommended number of workers\<close>

text \<open>The first of \<open>m, ..., 1\<close> with a property that is kept downwards is the largest.\<close>

lemma find_largest:
  assumes "\<And>k. Q (Suc k) \<Longrightarrow> 1 \<le> k \<Longrightarrow> Q k" "1 \<le> n" "n \<le> m"
  shows "Q n \<longleftrightarrow> n \<le> (case List.find Q (rev [1..<Suc m]) of Some k \<Rightarrow> k | None \<Rightarrow> 0)"
  using assms(2,3)
proof (induction m arbitrary: n)
  case (Suc m)
  have down: "Q k \<Longrightarrow> 1 \<le> j \<Longrightarrow> j \<le> k \<Longrightarrow> Q j" for j k
  proof (induction k)
    case (Suc k)
    then show ?case using assms(1) [of k] by (cases "j = Suc k") auto
  qed simp
  show ?case
  proof (cases "Q (Suc m)")
    case True
    then show ?thesis using Suc.prems down by auto
  next
    case False
    have "Q (Suc m) = (Suc m \<le> (case List.find Q (rev [1..<Suc m]) of Some k \<Rightarrow> k | None \<Rightarrow> 0))"
      using False by (auto split: option.split simp: find_Some_iff2 dest!: find_Some_iff [THEN iffD1] nth_mem)
    then show ?thesis using Suc False by (cases "n = Suc m") auto
  qed
qed simp

lemma find_member: "List.find Q xs = Some k \<Longrightarrow> k \<in> set xs"
  by (auto simp: find_Some_iff)

lemma find_map: "List.find P (List.map f xs) = map_option f (List.find (P \<circ> f) xs)"
  by (induction xs) auto

text \<open>
  The recommended limit is exact: with a scan of the memory and no recovery in light mode, the
  preflight passes for a number of workers exactly up to the limit.
\<close>

theorem recommended_workers_exact:
  assumes "ma_memory_snapshot a = Some s" "\<not> ma_light_randomx_recovery a"
    and "1 \<le> effective_workers w a" "effective_workers w a \<le> 64"
  shows "memory_preflight_error w a = None \<longleftrightarrow> effective_workers w a \<le> recommended_worker_limit s"
proof -
  let ?n = "unat (effective_workers w a)"
  let ?usable = "saturating_sub (snap_available s) (memory_headroom_bytes (snap_total s))"
  let ?Q = "\<lambda>k. randomx_memory_bytes (of_nat k) \<le> ?usable"
  have Q: "?Q k \<longleftrightarrow> engine_need k False + headroom (unat (snap_total s)) \<le> unat (snap_available s)"
    if "1 \<le> k" "k \<le> 64" for k
  proof -
    have "unat (of_nat k :: u64) = k" using that by (simp add: unat_of_nat)
    moreover have "engine_need k False < 2 ^ 64" "0 < engine_need k False" using that by (simp_all add: engine_need_def)
    ultimately show ?thesis
      by (auto simp: randomx_memory_bytes_def word_le_nat_alt unat_engine unat_saturating_sub unat_headroom)
  qed
  let ?R = "\<lambda>k. k \<le> 64 \<and> ?Q k"
  define r where "r = (case List.find ?Q (rev [1..<Suc 64]) of Some k \<Rightarrow> k | None \<Rightarrow> 0)"
  have n: "1 \<le> ?n" "?n \<le> 64" using assms(3,4) by (simp_all add: word_le_nat_alt)
  have same: "List.find ?Q (rev [1..<Suc 64]) = List.find ?R (rev [1..<Suc 64])"
    by (rule find_cong) auto
  have "?R ?n \<longleftrightarrow> ?n \<le> r"
  proof -
    have "?R k" if "?R (Suc k)" "1 \<le> k" for k
      using that Q [of "Suc k"] Q [of k] by (simp add: engine_need_def)
    from find_largest [of ?R, OF this n] show ?thesis unfolding r_def same .
  qed
  then have "?Q ?n \<longleftrightarrow> ?n \<le> r" using n by simp
  moreover have "(65 :: nat) = Suc 64" by simp
  then have "recommended_worker_limit s = of_nat r"
    by (simp only: r_def recommended_worker_limit_def Let_def) (simp add: recommended_worker_limit_def Let_def rev_map find_map comp_def
        split: option.split)
  moreover have "r \<le> 64" by (auto simp: r_def split: option.split dest!: find_member)
  then have "unat (of_nat r :: u64) = r" by (simp add: unat_of_nat)
  ultimately show ?thesis using Q [OF n] preflight_passes_iff [of w a] assms(1,2) n
    by (simp add: word_le_nat_alt)
qed

text \<open>An interface that was just opened on a machine with 8 GiB, 6 of them available.\<close>

definition eight_gib :: memory_snapshot where
  "eight_gib = \<lparr>snap_available = 6 * 2 ^ 30, snap_total = 8 * 2 ^ 30\<rparr>"

definition plain_world :: surroundings where
  "plain_world = \<lparr>family = Unix, now = 0, alnum = (\<lambda>_. False)\<rparr>"

lemma plain_preflight:
  fixes a :: miner_app
  defines "a \<equiv> app_default settings_default (Some eight_gib)"
  shows "effective_workers plain_world a = 1" "ma_memory_snapshot a = Some eight_gib"
    "\<not> ma_light_randomx_recovery a" "memory_preflight_error plain_world a = None"
proof -
  show n: "effective_workers plain_world a = 1"
    by (simp add: a_def effective_workers_def effective_engine_workers_def plain_world_def app_default_def settings_default_def)
  show s: "ma_memory_snapshot a = Some eight_gib" and l: "\<not> ma_light_randomx_recovery a"
    by (simp_all add: a_def app_default_def)
  show "memory_preflight_error plain_world a = None"
    by (subst preflight_passes_iff) (simp_all add: n s l eight_gib_def engine_need_def headroom_def)
qed

lemma preflight_agrees_with_engine_witness:
  "\<exists>p. resolve_headless_memory 1 False (6 * 2 ^ 30) (8 * 2 ^ 30) False = Inr p"
proof -
  have "memory_snapshot_from_readings (6 * 2 ^ 30) (8 * 2 ^ 30) = Some eight_gib"
    by (simp add: eight_gib_def memory_snapshot_from_readings_def)
  then show ?thesis
    using preflight_agrees_with_engine [of plain_world "app_default settings_default (Some eight_gib)" "6 * 2 ^ 30" "8 * 2 ^ 30"]
    by (simp add: plain_preflight)
qed

lemma recommended_workers_exact_witness: "1 \<le> recommended_worker_limit eight_gib"
  using recommended_workers_exact [OF plain_preflight(2,3), of plain_world] by (simp add: plain_preflight)

end
