(* ===== verification/FileStore.thy ===== *)
theory FileStore
  imports Settings Rpc GuiText Recovery
begin

text \<open>
  The files of the interface (\<open>src/gui.rs\<close>): the checks of the settings directory and of the settings
  file, \<open>load_settings_at\<close>, \<open>save_settings_at\<close> with the replacement of the file on each family of
  systems, the recovery of a staged file, and \<open>write_crash_report_at\<close>. The code runs against an
  explicit file system: the home directory, the settings directory in it and the files of that
  directory by name. Each system call takes one step of the run and may be refused with any error;
  a refused write may have written a part. What a loss of power leaves is modelled: the bytes of a file
  are only on the disk once the file was flushed, until then it may hold any of the contents it had
  since (\<open>nd_disk\<close>); the changes of the directory reach the disk in their order but at any time, at the
  latest when the directory is flushed (\<open>fs_disk\<close>). That the settings directory itself is on the disk is
  taken for granted: the code does not flush the home directory after it has made it. Other programs
  interfere at one place only, where the code defends against it: between the inspection of the
  settings file and its opening.
\<close>

unbundle bit_operations_syntax

section \<open>The file system\<close>

datatype node_kind = Regular | Directory | Link | Special

text \<open>
  What \<open>symlink_metadata\<close> reports of a name, and the data behind it: \<open>nd_id\<close> stands for the device and
  inode numbers, \<open>nd_mode\<close> for the permission bits, \<open>nd_disk\<close> for the contents a loss of power may leave.
\<close>

record node =
  nd_kind :: node_kind
  nd_id :: nat
  nd_owner :: nat
  nd_mode :: u32
  nd_data :: str
  nd_disk :: "str list"

type_synonym files = "str \<Rightarrow> node option"

text \<open>
  The home directory, the settings directory in it, and the files in that; the calls made so far,
  the two counters that make names unique, the states the files have been in, and those of them the
  directory may have on the disk.
\<close>

record file_system =
  fs_home :: "node option"
  fs_dir :: "node option"
  fs_files :: files
  fs_calls :: nat
  fs_temp_sequence :: u64
  fs_report_sequence :: u64
  fs_past :: "files list"
  fs_disk :: "files list"

text \<open>
  The kernel: the error of call \<open>n\<close>, if it is refused; the file that another program puts in the place
  of the one that is about to be opened; the node behind a link; the bytes a refused write has
  written; what a read of a file returns; the node of a new file or directory; the clock.
\<close>

record kernel =
  k_refuse :: "nat \<Rightarrow> str option"
  k_swap :: "nat \<Rightarrow> node \<Rightarrow> node"
  k_follow :: "nat \<Rightarrow> node option"
  k_written :: "nat \<Rightarrow> nat"
  k_read :: "nat \<Rightarrow> str \<Rightarrow> str"
  k_new :: "nat \<Rightarrow> node"
  k_clock :: "nat \<Rightarrow> nat"
  k_pid :: u32

type_synonym 'a io = "file_system \<Rightarrow> (str + 'a) \<times> file_system"

definition io_return :: "'a \<Rightarrow> 'a io" where
  "io_return x fs = (Inr x, fs)"

definition io_fail :: "str \<Rightarrow> 'a io" where
  "io_fail e fs = (Inl e, fs)"

definition io_bind :: "'a io \<Rightarrow> ('a \<Rightarrow> 'b io) \<Rightarrow> 'b io" where
  "io_bind m f fs = (case m fs of (Inl e, fs') \<Rightarrow> (Inl e, fs') | (Inr x, fs') \<Rightarrow> f x fs')"

definition io_ensure :: "bool \<Rightarrow> str \<Rightarrow> unit io" where
  "io_ensure c e = (if c then io_return () else io_fail e)"

text \<open>\<open>map_err(|error| format!("{what}: {error}"))\<close>\<close>

definition io_context :: "str \<Rightarrow> 'a io \<Rightarrow> 'a io" where
  "io_context what m fs = (case m fs of (r, fs') \<Rightarrow> (map_err (\<lambda>e. what @ '': '' @ e) r, fs'))"

section \<open>System calls\<close>

definition sys :: "kernel \<Rightarrow> (nat \<Rightarrow> 'a io) \<Rightarrow> 'a io" where
  "sys K act fs =
     (let n = fs_calls fs; fs = fs\<lparr>fs_calls := n + 1\<rparr>
      in case k_refuse K n of Some e \<Rightarrow> (Inl e, fs) | None \<Rightarrow> act n fs)"

text \<open>A change of the directory's files.\<close>

definition put_files :: "files \<Rightarrow> file_system \<Rightarrow> file_system" where
  "put_files F fs = fs\<lparr>fs_files := F, fs_past := fs_past fs @ [F], fs_disk := fs_disk fs @ [F]\<rparr>"

definition not_found :: str where "not_found = ''No such file or directory''"

text \<open>\<open>symlink_metadata\<close>, with \<open>None\<close> for \<open>ErrorKind::NotFound\<close>, and \<open>metadata\<close> of the home directory.\<close>

definition stat_dir :: "kernel \<Rightarrow> node option io" where
  "stat_dir K = sys K (\<lambda>n fs. (Inr (fs_dir fs), fs))"

definition stat_home :: "kernel \<Rightarrow> node io" where
  "stat_home K = sys K (\<lambda>n fs. (ok_or (fs_home fs) not_found, fs))"

definition stat_file :: "kernel \<Rightarrow> str \<Rightarrow> node option io" where
  "stat_file K name = sys K (\<lambda>n fs. (Inr (fs_files fs name), fs))"

text \<open>The mode a new node is created with: the one asked for on Unix, elsewhere the system's.\<close>

definition with_mode :: "os_family \<Rightarrow> u32 \<Rightarrow> node \<Rightarrow> node" where
  "with_mode fam mode nd = (if fam = Unix then nd\<lparr>nd_mode := mode\<rparr> else nd)"

text \<open>
  \<open>DirBuilder::create\<close>, on Unix with mode \<open>0o700\<close>; that the directory exists already is no error to the
  caller.
\<close>

definition make_dir :: "kernel \<Rightarrow> os_family \<Rightarrow> unit io" where
  "make_dir K fam = sys K (\<lambda>n fs. (Inr (),
     if fs_dir fs = None
     then fs\<lparr>fs_dir := Some (with_mode fam 448 ((k_new K n)\<lparr>nd_kind := Directory\<rparr>))\<rparr> else fs))"

text \<open>\<open>open\<close> for reading: links are followed, except on Windows, where they are opened as such.\<close>

definition open_file :: "kernel \<Rightarrow> os_family \<Rightarrow> str \<Rightarrow> node io" where
  "open_file K fam name = sys K (\<lambda>n fs.
     (case map_option (k_swap K n) (fs_files fs name) of
        None \<Rightarrow> Inl not_found
      | Some nd \<Rightarrow> if nd_kind nd = Link \<and> fam \<noteq> Windows then ok_or (k_follow K n) not_found else Inr nd, fs))"

definition read_file :: "kernel \<Rightarrow> node \<Rightarrow> nat \<Rightarrow> str io" where
  "read_file K nd limit = sys K (\<lambda>n fs. (Inr (take limit (k_read K n (nd_data nd))), fs))"

text \<open>\<open>create_new\<close>, on Unix with mode \<open>0o600\<close>: false when the name exists already.\<close>

definition empty_file :: "kernel \<Rightarrow> os_family \<Rightarrow> nat \<Rightarrow> node" where
  "empty_file K fam n =
     with_mode fam 384 ((k_new K n)\<lparr>nd_kind := Regular, nd_data := [], nd_disk := [[]]\<rparr>)"

definition create_new :: "kernel \<Rightarrow> os_family \<Rightarrow> str \<Rightarrow> bool io" where
  "create_new K fam name = sys K (\<lambda>n fs.
     if fs_files fs name = None
     then (Inr True, put_files ((fs_files fs)(name \<mapsto> empty_file K fam n)) fs)
     else (Inr False, fs))"

text \<open>\<open>write_all\<close> to a file just created: its data grows byte by byte, and stops short when it is refused.\<close>

definition with_data :: "str \<Rightarrow> str \<Rightarrow> files \<Rightarrow> files" where
  "with_data name data F = F(name := map_option (\<lambda>nd. nd\<lparr>nd_data := data, nd_disk := nd_disk nd @ [data]\<rparr>) (F name))"

fun write_bytes :: "str \<Rightarrow> str \<Rightarrow> nat list \<Rightarrow> file_system \<Rightarrow> file_system" where
  "write_bytes name bytes [] fs = fs"
| "write_bytes name bytes (k # ks) fs =
     write_bytes name bytes ks (put_files (with_data name (take k bytes) (fs_files fs)) fs)"

definition write_all :: "kernel \<Rightarrow> str \<Rightarrow> str \<Rightarrow> unit io" where
  "write_all K name bytes fs =
     (let n = fs_calls fs; fs = fs\<lparr>fs_calls := n + 1\<rparr>
      in case k_refuse K n of
           Some e \<Rightarrow> (Inl e, write_bytes name bytes [1..<Suc (min (k_written K n) (length bytes))] fs)
         | None \<Rightarrow> (Inr (), write_bytes name bytes [1..<Suc (length bytes)] fs))"

text \<open>\<open>sync_all\<close> of a file: what it holds is on the disk; and of the directory: so are its names.\<close>

definition flushed_node :: "node \<Rightarrow> node" where
  "flushed_node nd = nd\<lparr>nd_disk := [nd_data nd]\<rparr>"

definition sync_file :: "kernel \<Rightarrow> str \<Rightarrow> unit io" where
  "sync_file K name = sys K (\<lambda>n fs.
     (Inr (), put_files ((fs_files fs)(name := map_option flushed_node (fs_files fs name))) fs))"

definition sync_dir :: "kernel \<Rightarrow> unit io" where
  "sync_dir K = sys K (\<lambda>n fs. (Inr (), fs\<lparr>fs_disk := [fs_files fs]\<rparr>))"

definition fstat :: "kernel \<Rightarrow> node \<Rightarrow> node io" where
  "fstat K nd = sys K (\<lambda>n fs. (Inr nd, fs))"

definition rename :: "kernel \<Rightarrow> str \<Rightarrow> str \<Rightarrow> unit io" where
  "rename K source target = sys K (\<lambda>n fs.
     (case fs_files fs source of
        None \<Rightarrow> (Inl not_found, fs)
      | Some nd \<Rightarrow> (Inr (), put_files ((fs_files fs)(source := None, target \<mapsto> nd)) fs)))"

definition remove_file :: "kernel \<Rightarrow> str \<Rightarrow> unit io" where
  "remove_file K name = sys K (\<lambda>n fs.
     if fs_files fs name = None then (Inl not_found, fs)
     else (Inr (), put_files ((fs_files fs)(name := None)) fs))"

text \<open>\<open>Path::exists\<close>: an error counts as no.\<close>

definition path_exists :: "kernel \<Rightarrow> str \<Rightarrow> bool io" where
  "path_exists K name fs =
     (let n = fs_calls fs; fs = fs\<lparr>fs_calls := n + 1\<rparr>
      in (Inr (k_refuse K n = None \<and>
             (case fs_files fs name of
                None \<Rightarrow> False
              | Some nd \<Rightarrow> nd_kind nd = Link \<longrightarrow> k_follow K n \<noteq> None)), fs))"

section \<open>Checks\<close>

definition SETTINGS_FILE :: str where "SETTINGS_FILE = ''gui-settings.json''"
definition CRASH_REPORT_PREFIX :: str where "CRASH_REPORT_PREFIX = ''crash-report''"
definition MAX_SETTINGS_BYTES :: nat where "MAX_SETTINGS_BYTES = 64 * 1024"
definition MAX_CRASH_REPORT_BYTES :: nat where "MAX_CRASH_REPORT_BYTES = 128 * 1024"

text \<open>Writable by the group or by others: \<open>mode & 0o022\<close>.\<close>

definition shared_write :: "node \<Rightarrow> bool" where
  "shared_write nd \<longleftrightarrow> nd_mode nd AND 18 \<noteq> 0"

definition verify_settings_directory :: "kernel \<Rightarrow> os_family \<Rightarrow> node io" where
  "verify_settings_directory K fam =
     io_bind (io_context ''cannot inspect settings directory'' (io_bind (stat_dir K) (\<lambda>d.
       case d of None \<Rightarrow> io_fail not_found | Some nd \<Rightarrow> io_return nd))) (\<lambda>dir.
     io_bind (io_ensure (nd_kind dir \<noteq> Link) ''settings directory is a symbolic link or reparse point'') (\<lambda>_.
     io_bind (io_ensure (nd_kind dir = Directory) ''settings path parent is not a directory'') (\<lambda>_.
     if fam \<noteq> Unix then io_return dir
     else
       io_bind (io_context ''cannot inspect settings directory parent'' (stat_home K)) (\<lambda>home.
       io_bind (io_ensure (nd_owner dir = nd_owner home)
         ''settings directory is not owned by the home-directory owner'') (\<lambda>_.
       io_bind (io_ensure (\<not> shared_write dir) ''settings directory is writable by another account'') (\<lambda>_.
       io_return dir))))))"

definition ensure_settings_directory :: "kernel \<Rightarrow> os_family \<Rightarrow> unit io" where
  "ensure_settings_directory K fam =
     io_bind (io_context ''cannot inspect settings directory'' (stat_dir K)) (\<lambda>d.
     io_bind (if d \<noteq> None then io_return ()
              else io_context ''cannot create settings directory'' (make_dir K fam)) (\<lambda>_.
     io_bind (verify_settings_directory K fam) (\<lambda>_. io_return ())))"

definition inspect_settings_file :: "kernel \<Rightarrow> os_family \<Rightarrow> str \<Rightarrow> node option io" where
  "inspect_settings_file K fam name =
     io_bind (io_context ''cannot inspect settings file'' (stat_file K name)) (\<lambda>f.
     case f of
       None \<Rightarrow> io_return None
     | Some nd \<Rightarrow>
         io_bind (io_ensure (nd_kind nd \<noteq> Link) ''settings file is a symbolic link or reparse point'') (\<lambda>_.
         io_bind (io_ensure (nd_kind nd = Regular) ''settings file is not a regular file'') (\<lambda>_.
         if fam \<noteq> Unix then io_return (Some nd)
         else
           io_bind (verify_settings_directory K fam) (\<lambda>dir.
           io_bind (io_ensure (nd_owner nd = nd_owner dir)
             ''settings file is not owned by the settings-directory owner'') (\<lambda>_.
           io_bind (io_ensure (\<not> shared_write nd) ''settings file is writable by another account'') (\<lambda>_.
           io_return (Some nd)))))))"

section \<open>Staged settings on Windows\<close>

definition windows_settings_backup :: str where
  "windows_settings_backup = ''.'' @ SETTINGS_FILE @ ''.backup''"

definition recover_windows_settings :: "kernel \<Rightarrow> os_family \<Rightarrow> unit io" where
  "recover_windows_settings K fam =
     io_bind (inspect_settings_file K fam SETTINGS_FILE) (\<lambda>current.
     io_bind (inspect_settings_file K fam windows_settings_backup) (\<lambda>staged.
     case (current \<noteq> None, staged \<noteq> None) of
       (False, True) \<Rightarrow> io_context ''cannot recover staged settings''
         (rename K windows_settings_backup SETTINGS_FILE)
     | (True, True) \<Rightarrow> io_context ''cannot remove recovered settings backup''
         (remove_file K windows_settings_backup)
     | _ \<Rightarrow> io_return ()))"

definition when_windows :: "os_family \<Rightarrow> unit io \<Rightarrow> unit io" where
  "when_windows fam m = (if fam = Windows then m else io_return ())"

definition io_try :: "'a io \<Rightarrow> (str + 'a) io" where
  "io_try m fs = (case m fs of (r, fs') \<Rightarrow> (Inr r, fs'))"

definition replace_settings_file :: "kernel \<Rightarrow> os_family \<Rightarrow> str \<Rightarrow> unit io" where
  "replace_settings_file K fam temporary =
     (if fam \<noteq> Windows
      then io_context ''cannot install settings atomically'' (rename K temporary SETTINGS_FILE)
      else
        io_bind (recover_windows_settings K fam) (\<lambda>_.
        io_bind (inspect_settings_file K fam SETTINGS_FILE) (\<lambda>current.
        io_bind (if current = None then io_return ()
                 else io_context ''cannot stage old settings''
                   (rename K SETTINGS_FILE windows_settings_backup)) (\<lambda>_.
        io_bind (io_try (rename K temporary SETTINGS_FILE)) (\<lambda>installed.
        case installed of
          Inr _ \<Rightarrow>
            io_bind (path_exists K windows_settings_backup) (\<lambda>there.
            if there
            then io_context ''cannot remove old settings backup'' (remove_file K windows_settings_backup)
            else io_return ())
        | Inl e \<Rightarrow>
            io_bind (io_try (rename K windows_settings_backup SETTINGS_FILE)) (\<lambda>_.
            io_fail (''cannot install settings: '' @ e)))))))"

section \<open>Loading and saving\<close>

text \<open>The opening and reading of a file that was inspected as \<open>initial\<close>.\<close>

definition read_settings :: "kernel \<Rightarrow> os_family \<Rightarrow> serde \<Rightarrow> node \<Rightarrow> settings io" where
  "read_settings K fam S initial =
     io_bind (io_ensure (length (nd_data initial) \<le> MAX_SETTINGS_BYTES)
       ''settings file is unexpectedly large'') (\<lambda>_.
     io_bind (io_context ''cannot open settings'' (open_file K fam SETTINGS_FILE)) (\<lambda>file.
     io_bind (io_context ''cannot inspect opened settings'' (fstat K file)) (\<lambda>opened.
     io_bind (io_ensure (nd_kind opened = Regular \<and> length (nd_data opened) \<le> MAX_SETTINGS_BYTES)
       ''opened settings path is not a bounded regular file'') (\<lambda>_.
     io_bind (io_ensure (fam \<noteq> Unix \<or> nd_id initial = nd_id opened)
       ''settings file changed while it was being opened'') (\<lambda>_.
     io_bind (io_context ''cannot read settings'' (read_file K opened (MAX_SETTINGS_BYTES + 1))) (\<lambda>bytes.
     io_bind (io_ensure (length bytes \<le> MAX_SETTINGS_BYTES) ''settings file is unexpectedly large'') (\<lambda>_.
     case parse_json S bytes of
       Inr v \<Rightarrow> io_return (settings_from_json v)
     | Inl e \<Rightarrow> io_fail (''cannot decode settings: '' @ e))))))))"

definition load_settings_at :: "kernel \<Rightarrow> os_family \<Rightarrow> serde \<Rightarrow> settings io" where
  "load_settings_at K fam S =
     io_bind (verify_settings_directory K fam) (\<lambda>_.
     io_bind (when_windows fam (recover_windows_settings K fam)) (\<lambda>_.
     io_bind (inspect_settings_file K fam SETTINGS_FILE) (\<lambda>f.
     case f of
       None \<Rightarrow> io_fail ''settings file does not exist''
     | Some initial \<Rightarrow> read_settings K fam S initial)))"

text \<open>\<open>load_settings\<close>, where \<open>home\<close> says whether there is a home directory.\<close>

definition load_settings :: "bool \<Rightarrow> kernel \<Rightarrow> os_family \<Rightarrow> serde \<Rightarrow> file_system \<Rightarrow> settings \<times> file_system" where
  "load_settings home K fam S fs =
     (if \<not> home then (settings_default, fs)
      else case load_settings_at K fam S fs of
        (Inr s, fs') \<Rightarrow> (s, fs')
      | (Inl _, fs') \<Rightarrow> (settings_default, fs'))"

definition temporary_name :: "kernel \<Rightarrow> nat \<Rightarrow> u64 \<Rightarrow> nat \<Rightarrow> str" where
  "temporary_name K nonce sequence attempt =
     ''.gui-settings.'' @ decimal (unat (k_pid K)) @ ''.'' @ decimal nonce @ ''.'' @
     decimal (unat sequence) @ ''.'' @ decimal attempt @ ''.tmp''"

text \<open>The attempts \<open>a, a + 1, ..., 31\<close> to create a temporary file.\<close>

function create_temporary :: "kernel \<Rightarrow> os_family \<Rightarrow> nat \<Rightarrow> str option io" where
  "create_temporary K fam a fs =
     (if a \<ge> 32 then (Inr None, fs)
      else
        let sequence = fs_temp_sequence fs;
            fs = fs\<lparr>fs_temp_sequence := sequence + 1\<rparr>;
            candidate = temporary_name K (k_clock K (fs_calls fs)) sequence a
        in case create_new K fam candidate fs of
             (Inr True, fs) \<Rightarrow> (Inr (Some candidate), fs)
           | (Inr False, fs) \<Rightarrow> create_temporary K fam (a + 1) fs
           | (Inl e, fs) \<Rightarrow> (Inl (''cannot create temporary settings: '' @ e), fs))"
  by pat_completeness auto
termination create_temporary
  by (relation "measure (\<lambda>(K, fam, a, fs). 32 - a)") auto

declare create_temporary.simps [simp del]

definition save_settings_at :: "kernel \<Rightarrow> os_family \<Rightarrow> serde \<Rightarrow> settings \<Rightarrow> unit io" where
  "save_settings_at K fam S s =
     io_bind (ensure_settings_directory K fam) (\<lambda>_.
     io_bind (when_windows fam (recover_windows_settings K fam)) (\<lambda>_.
     io_bind (inspect_settings_file K fam SETTINGS_FILE) (\<lambda>_.
     io_bind (create_temporary K fam 0) (\<lambda>created.
     case created of
       None \<Rightarrow> io_fail ''cannot create unique temporary settings''
     | Some temporary \<Rightarrow>
         io_bind (io_context ''cannot write temporary settings''
           (io_bind (write_all K temporary (show_json S (persisted_json s))) (\<lambda>_. sync_file K temporary))) (\<lambda>_.
         io_bind (verify_settings_directory K fam) (\<lambda>_.
         io_bind (inspect_settings_file K fam SETTINGS_FILE) (\<lambda>_.
         io_bind (replace_settings_file K fam temporary) (\<lambda>_.
         if fam = Unix then io_context ''cannot sync settings directory'' (sync_dir K)
         else io_return ()))))))))"

definition save_settings :: "bool \<Rightarrow> kernel \<Rightarrow> os_family \<Rightarrow> serde \<Rightarrow> settings \<Rightarrow> unit io" where
  "save_settings home K fam S s = (if home then save_settings_at K fam S s else io_return ())"

section \<open>Crash reports\<close>

definition report_name :: "nat \<Rightarrow> u32 \<Rightarrow> u64 \<Rightarrow> nat \<Rightarrow> str" where
  "report_name timestamp pid sequence attempt =
     CRASH_REPORT_PREFIX @ ''-'' @ decimal timestamp @ ''-'' @ decimal (unat pid) @ ''-'' @
     decimal (unat sequence) @ ''-'' @ decimal attempt @ ''.log''"

definition fill_report :: "kernel \<Rightarrow> os_family \<Rightarrow> str \<Rightarrow> str \<Rightarrow> str io" where
  "fill_report K fam path report =
     io_bind (io_context ''cannot inspect crash report'' (stat_file K path)) (\<lambda>f.
     io_bind (io_ensure (map_option nd_kind f = Some Regular) ''created crash report is not a regular file'') (\<lambda>_.
     io_bind (verify_settings_directory K fam) (\<lambda>_.
     io_bind (io_context ''cannot write crash report''
       (io_bind (write_all K path report) (\<lambda>_. sync_file K path))) (\<lambda>_.
     io_bind (if fam = Unix then io_context ''cannot sync crash report directory'' (sync_dir K)
              else io_return ()) (\<lambda>_.
     io_return path)))))"

function report_attempts :: "kernel \<Rightarrow> os_family \<Rightarrow> nat \<Rightarrow> str \<Rightarrow> nat \<Rightarrow> str io" where
  "report_attempts K fam timestamp report a fs =
     (if a \<ge> 32 then (Inl ''cannot create a unique crash report'', fs)
      else
        let sequence = fs_report_sequence fs;
            fs = fs\<lparr>fs_report_sequence := sequence + 1\<rparr>;
            path = report_name timestamp (k_pid K) sequence a
        in case create_new K fam path fs of
             (Inr True, fs) \<Rightarrow> fill_report K fam path report fs
           | (Inr False, fs) \<Rightarrow> report_attempts K fam timestamp report (a + 1) fs
           | (Inl e, fs) \<Rightarrow> (Inl (''cannot create crash report: '' @ e), fs))"
  by pat_completeness auto
termination report_attempts
  by (relation "measure (\<lambda>(K, fam, t, r, a, fs). 32 - a)") auto

declare report_attempts.simps [simp del]

definition write_crash_report_at :: "kernel \<Rightarrow> os_family \<Rightarrow> str \<Rightarrow> str io" where
  "write_crash_report_at K fam report =
     io_bind (ensure_settings_directory K fam) (\<lambda>_ fs.
       report_attempts K fam (k_clock K (fs_calls fs))
         (bounded_text report MAX_CRASH_REPORT_BYTES TRUNCATED_REPORT_SUFFIX
            (length report > MAX_CRASH_REPORT_BYTES)) 0 fs)"

section \<open>Reasoning about runs\<close>

text \<open>
  The files now, and the states they have been in. A triple says what holds of them after a run
  that succeeds and after one that fails, whatever calls the kernel refuses.
\<close>

type_synonym view = "files \<times> files list"

definition view :: "file_system \<Rightarrow> view" where
  "view fs = (fs_files fs, fs_past fs)"

definition triple :: "(view \<Rightarrow> bool) \<Rightarrow> 'a io \<Rightarrow> ('a \<Rightarrow> view \<Rightarrow> bool) \<Rightarrow> (view \<Rightarrow> bool) \<Rightarrow> bool" where
  "triple P m Q E \<longleftrightarrow> (\<forall>fs. P (view fs) \<longrightarrow>
     (case m fs of (Inr x, fs') \<Rightarrow> Q x (view fs') | (Inl e, fs') \<Rightarrow> E (view fs')))"

lemma tripleI:
  assumes "\<And>fs x fs'. P (view fs) \<Longrightarrow> m fs = (Inr x, fs') \<Longrightarrow> Q x (view fs')"
    and "\<And>fs e fs'. P (view fs) \<Longrightarrow> m fs = (Inl e, fs') \<Longrightarrow> E (view fs')"
  shows "triple P m Q E"
  unfolding triple_def
proof (intro allI impI)
  fix fs assume "P (view fs)"
  with assms show "case m fs of (Inr x, fs') \<Rightarrow> Q x (view fs') | (Inl e, fs') \<Rightarrow> E (view fs')"
    by (cases "m fs"; cases "fst (m fs)") auto
qed

lemma tripleD:
  assumes "triple P m Q E" "P (view fs)"
  shows "m fs = (Inr x, fs') \<Longrightarrow> Q x (view fs')" "m fs = (Inl e, fs') \<Longrightarrow> E (view fs')"
  using assms by (auto simp: triple_def dest: spec [of _ fs])

lemma triple_bind:
  assumes m: "triple P m R E" and f: "\<And>x. triple (R x) (f x) Q E"
  shows "triple P (io_bind m f) Q E"
proof (rule tripleI)
  fix fs x fs' assume P: "P (view fs)" and r: "io_bind m f fs = (Inr x, fs')"
  then obtain y gs where "m fs = (Inr y, gs)" "f y gs = (Inr x, fs')"
    by (auto simp: io_bind_def split: prod.splits sum.splits)
  then show "Q x (view fs')" using tripleD(1) [OF m P] tripleD(1) [OF f] by blast
next
  fix fs e fs' assume P: "P (view fs)" and r: "io_bind m f fs = (Inl e, fs')"
  then consider "m fs = (Inl e, fs')" | y gs where "m fs = (Inr y, gs)" "f y gs = (Inl e, fs')"
    by (auto simp: io_bind_def split: prod.splits sum.splits)
  then show "E (view fs')" using tripleD [OF m P] tripleD(2) [OF f] by cases blast+
qed

lemma triple_weaken:
  assumes "triple P m Q E" "\<And>v. P' v \<Longrightarrow> P v" "\<And>x v. Q x v \<Longrightarrow> Q' x v" "\<And>v. E v \<Longrightarrow> E' v"
  shows "triple P' m Q' E'"
  by (rule tripleI) (use assms tripleD [OF assms(1)] in blast)+

lemma triple_return: "(\<And>v. P v \<Longrightarrow> Q x v) \<Longrightarrow> triple P (io_return x) Q E"
  by (simp add: triple_def io_return_def)

lemma triple_fail: "(\<And>v. P v \<Longrightarrow> E v) \<Longrightarrow> triple P (io_fail e) Q E"
  by (simp add: triple_def io_fail_def)

lemma triple_if:
  "(c \<Longrightarrow> triple P m Q E) \<Longrightarrow> (\<not> c \<Longrightarrow> triple P m' Q E) \<Longrightarrow> triple P (if c then m else m') Q E"
  by simp

lemma triple_context:
  assumes "triple P m Q E"
  shows "triple P (io_context what m) Q E"
  by (rule tripleI) (auto simp: io_context_def map_err_def split: prod.splits sum.splits dest: tripleD [OF assms])

lemma triple_try:
  assumes "triple P m (\<lambda>x. Q (Inr x)) (\<lambda>v. \<forall>e. Q (Inl e) v)"
  shows "triple P (io_try m) Q E"
proof (rule tripleI)
  fix fs x fs' assume "P (view fs)" "io_try m fs = (Inr x, fs')"
  then show "Q x (view fs')" using tripleD [OF assms]
    by (cases x) (auto simp: io_try_def split: prod.splits)
qed (simp add: io_try_def split: prod.splits)

text \<open>Runs that change no file.\<close>

definition quiet :: "'a io \<Rightarrow> bool" where
  "quiet m \<longleftrightarrow> (\<forall>fs. view (snd (m fs)) = view fs)"

lemma triple_quiet:
  assumes "quiet m"
  shows "triple P m (\<lambda>_. P) P"
  by (rule tripleI) (use assms in \<open>auto simp: quiet_def dest: spec\<close>, (metis snd_conv)+)

lemma quiet_bind: "quiet m \<Longrightarrow> (\<And>x. quiet (f x)) \<Longrightarrow> quiet (io_bind m f)"
  by (auto simp: quiet_def io_bind_def split: sum.splits prod.splits) (metis snd_conv)+

lemma quiet_basic [simp]:
  "quiet (io_return x)" "quiet (io_fail e)" "quiet (io_ensure c e)"
  "quiet (stat_dir K)" "quiet (stat_home K)" "quiet (stat_file K name)" "quiet (make_dir K fam)"
  "quiet (sync_dir K)" "quiet (path_exists K name)"
  by (auto simp: quiet_def io_return_def io_fail_def io_ensure_def stat_dir_def stat_home_def
      stat_file_def make_dir_def sync_dir_def path_exists_def sys_def view_def Let_def
      split: option.splits)

lemma quiet_context [simp]: "quiet (io_context what m) = quiet m"
  by (simp add: quiet_def io_context_def split: prod.splits) (metis snd_conv surj_pair)

lemma quiet_verify [simp]: "quiet (verify_settings_directory K fam)"
  unfolding verify_settings_directory_def
  by (intro quiet_bind) (auto split: option.split intro!: quiet_bind)

lemma quiet_ensure_directory [simp]: "quiet (ensure_settings_directory K fam)"
  unfolding ensure_settings_directory_def by (auto intro!: quiet_bind)

lemma quiet_inspect [simp]: "quiet (inspect_settings_file K fam name)"
  unfolding inspect_settings_file_def by (auto intro!: quiet_bind split: option.split)

text \<open>What an inspection finds is there.\<close>

lemma triple_inspect:
  "triple P (inspect_settings_file K fam name) (\<lambda>f v. P v \<and> f = fst v name) P"
proof -
  let ?Q = "\<lambda>f v. P v \<and> f = fst v name"
  have stat: "triple P (io_context what (stat_file K name)) ?Q P" for what
    by (rule triple_context)
       (auto simp: triple_def stat_file_def sys_def view_def Let_def split: option.splits)
  have keep: "triple (?Q f) m (\<lambda>_. ?Q f) P" if "quiet m" for f and m :: "'b io"
    by (rule triple_weaken [OF triple_quiet [OF that, of "?Q f"]]) auto
  have found: "triple (?Q (Some nd)) (io_bind (verify_settings_directory K fam) (\<lambda>dir.
      io_bind (io_ensure (c dir) e) (\<lambda>_. io_bind (io_ensure d e') (\<lambda>_. io_return (Some nd))))) ?Q P" for nd c d e e'
    by (rule triple_bind, rule keep, simp, rule triple_bind, rule keep, simp,
        rule triple_bind, rule keep, simp, rule triple_return, simp)
  show ?thesis unfolding inspect_settings_file_def
  proof (rule triple_bind [OF stat])
    fix f
    show "triple (?Q f) (case f of None \<Rightarrow> io_return None | Some nd \<Rightarrow>
         io_bind (io_ensure (nd_kind nd \<noteq> Link) ''settings file is a symbolic link or reparse point'') (\<lambda>_.
         io_bind (io_ensure (nd_kind nd = Regular) ''settings file is not a regular file'') (\<lambda>_.
         if fam \<noteq> Unix then io_return (Some nd)
         else
           io_bind (verify_settings_directory K fam) (\<lambda>dir.
           io_bind (io_ensure (nd_owner nd = nd_owner dir)
             ''settings file is not owned by the settings-directory owner'') (\<lambda>_.
           io_bind (io_ensure (\<not> shared_write nd) ''settings file is writable by another account'') (\<lambda>_.
           io_return (Some nd))))))) ?Q P"
    proof (cases f)
      case None
      then show ?thesis by (simp add: triple_return)
    next
      case (Some nd)
      show ?thesis unfolding Some option.case
        by (rule triple_bind, rule keep, simp, rule triple_bind, rule keep, simp)
           (rule triple_if, rule triple_return, simp, rule found)
    qed
  qed
qed

section \<open>A save and a loss of power\<close>

text \<open>
  The settings that a state of the directory holds: the settings file, or on Windows the staged
  one while there is no settings file.
\<close>

definition kept :: "os_family \<Rightarrow> files \<Rightarrow> str option" where
  "kept fam F = (case F SETTINGS_FILE of
     Some nd \<Rightarrow> Some (nd_data nd)
   | None \<Rightarrow> if fam = Windows then map_option nd_data (F windows_settings_backup) else None)"

text \<open>
  What a loss of power makes of the files \<open>F\<close>: each name that the directory has on the disk comes back
  with one of the contents that its file may have there.
\<close>

definition crash_image :: "files \<Rightarrow> files \<Rightarrow> bool" where
  "crash_image F F' \<longleftrightarrow> (\<forall>name. case F name of
     None \<Rightarrow> F' name = None
   | Some nd \<Rightarrow> \<exists>d \<in> set (nd_disk nd). F' name = Some (nd\<lparr>nd_data := d, nd_disk := [d]\<rparr>))"

text \<open>The contents of a file are on the disk, and those of all files.\<close>

definition flushed :: "node option \<Rightarrow> bool" where
  "flushed f \<longleftrightarrow> (\<forall>nd. f = Some nd \<longrightarrow> nd_disk nd = [nd_data nd])"

definition on_disk :: "files \<Rightarrow> bool" where
  "on_disk F \<longleftrightarrow> (\<forall>name. flushed (F name))"

text \<open>
  The settings are among \<open>C\<close>, every other file is as it was in \<open>base\<close>, and the files that hold the
  settings are on the disk when those of \<open>base\<close> were.
\<close>

definition safe :: "os_family \<Rightarrow> files \<Rightarrow> str option set \<Rightarrow> files \<Rightarrow> bool" where
  "safe fam base C F \<longleftrightarrow> kept fam F \<in> C \<and>
     (\<forall>name. base name \<noteq> None \<and> name \<noteq> SETTINGS_FILE \<and> name \<noteq> windows_settings_backup \<longrightarrow>
        F name = base name) \<and>
     (on_disk base \<longrightarrow> flushed (F SETTINGS_FILE) \<and> flushed (F windows_settings_backup))"

lemma flushed_simps [simp]: "flushed None" "flushed (Some nd) \<longleftrightarrow> nd_disk nd = [nd_data nd]"
  by (simp_all add: flushed_def)

lemma flushed_image: "crash_image F F' \<Longrightarrow> flushed (F name) \<Longrightarrow> F' name = F name"
  by (cases "F name") (auto simp: crash_image_def dest!: spec [of _ name])

lemma kept_image:
  "crash_image F F' \<Longrightarrow> flushed (F SETTINGS_FILE) \<Longrightarrow> flushed (F windows_settings_backup) \<Longrightarrow>
     kept fam F' = kept fam F"
  using flushed_image [of F F' SETTINGS_FILE] flushed_image [of F F' windows_settings_backup]
  by (simp add: kept_def split: option.split)

text \<open>So a loss of power finds what a safe state holds.\<close>

lemma safe_image:
  assumes "safe fam base C F" "on_disk base" "crash_image F F'"
  shows "kept fam F' \<in> C" "\<And>name. base name \<noteq> None \<Longrightarrow> name \<noteq> SETTINGS_FILE \<Longrightarrow>
    name \<noteq> windows_settings_backup \<Longrightarrow> F' name = base name"
proof -
  show "kept fam F' \<in> C" using assms kept_image [OF assms(3)] by (simp add: safe_def)
  fix name assume "base name \<noteq> None" "name \<noteq> SETTINGS_FILE" "name \<noteq> windows_settings_backup"
  then have "F name = base name" "flushed (F name)" using assms(1,2) by (auto simp: safe_def on_disk_def)
  then show "F' name = base name" using flushed_image [OF assms(3)] by simp
qed

definition always :: "(files \<Rightarrow> bool) \<Rightarrow> view \<Rightarrow> bool" where
  "always I v \<longleftrightarrow> I (fst v) \<and> (\<forall>F \<in> set (snd v). I F)"

lemma always_put: "always I (view fs) \<Longrightarrow> I F \<Longrightarrow> always I (view (put_files F fs))"
  by (auto simp: always_def view_def put_files_def)

lemma safe_mono: "safe fam base C F \<Longrightarrow> C \<subseteq> D \<Longrightarrow> safe fam base D F"
  by (auto simp: safe_def)

lemma always_mono: "always I v \<Longrightarrow> (\<And>F. I F \<Longrightarrow> J F) \<Longrightarrow> always J v"
  by (auto simp: always_def)

lemma file_names: "SETTINGS_FILE \<noteq> windows_settings_backup"
  by (simp add: windows_settings_backup_def SETTINGS_FILE_def)

text \<open>A name of a temporary file is neither.\<close>

lemma decimal_head: "\<exists>c ds. decimal n = c # ds \<and> is_ascii_digit c"
  using decimal_digits [of n] by (cases "decimal n") (auto simp: list_all_iff)

lemma temporary_name_new:
  "temporary_name K nonce sequence a \<noteq> SETTINGS_FILE"
  "temporary_name K nonce sequence a \<noteq> windows_settings_backup"
proof -
  obtain c ds where d: "decimal (unat (k_pid K)) = c # ds" "is_ascii_digit c" using decimal_head by blast
  have "c \<noteq> CHR ''j''" using d(2) by (auto simp: is_ascii_digit_def)
  then show "temporary_name K nonce sequence a \<noteq> SETTINGS_FILE"
    "temporary_name K nonce sequence a \<noteq> windows_settings_backup"
    by (simp_all add: temporary_name_def d(1) SETTINGS_FILE_def windows_settings_backup_def)
qed

lemma rename_cases:
  assumes "rename K source target fs = (r, fs')"
  obtains e where "r = Inl e" "view fs' = view fs"
  | nd where "r = Inr ()" "fs_files fs source = Some nd"
      "view fs' = view (put_files ((fs_files fs)(source := None, target \<mapsto> nd)) fs)"
  using assms by (auto simp: rename_def sys_def Let_def view_def put_files_def split: option.splits)

lemma remove_cases:
  assumes "remove_file K name fs = (r, fs')"
  obtains e where "r = Inl e" "view fs' = view fs"
  | "r = Inr ()" "view fs' = view (put_files ((fs_files fs)(name := None)) fs)"
  using assms by (auto simp: remove_file_def sys_def Let_def view_def put_files_def split: option.splits if_splits)

text \<open>A renaming and a removal keep an invariant that holds of their outcome.\<close>

lemma triple_rename:
  assumes "\<And>F nd. I F \<Longrightarrow> R F \<Longrightarrow> F source = Some nd \<Longrightarrow> J (F(source := None, target \<mapsto> nd))"
    and "\<And>F. I F \<Longrightarrow> J F"
  shows "triple (\<lambda>v. always I v \<and> R (fst v)) (rename K source target)
    (\<lambda>_ v. always J v \<and> (\<exists>F nd. I F \<and> R F \<and> F source = Some nd \<and> fst v = F(source := None, target \<mapsto> nd)))
    (\<lambda>v. always I v \<and> R (fst v))"
proof (rule tripleI)
  fix fs x fs'
  assume P: "always I (view fs) \<and> R (fst (view fs))" and "rename K source target fs = (Inr x, fs')"
  then obtain nd where nd: "fs_files fs source = Some nd"
    "view fs' = view (put_files ((fs_files fs)(source := None, target \<mapsto> nd)) fs)"
    by (auto elim: rename_cases)
  have "I (fs_files fs)" "R (fs_files fs)" using P by (simp_all add: always_def view_def)
  then show "always J (view fs') \<and> (\<exists>F nd. I F \<and> R F \<and> F source = Some nd \<and>
      fst (view fs') = F(source := None, target \<mapsto> nd))"
    using nd P assms(1) always_put always_mono [OF _ assms(2)]
    by (auto simp: view_def put_files_def intro!: exI [of _ "fs_files fs"])
qed (auto elim!: rename_cases)

lemma triple_remove:
  assumes "\<And>F. I F \<Longrightarrow> R F \<Longrightarrow> J (F(name := None))" and "\<And>F. I F \<Longrightarrow> J F"
  shows "triple (\<lambda>v. always I v \<and> R (fst v)) (remove_file K name)
    (\<lambda>_ v. always J v \<and> (\<exists>F. I F \<and> R F \<and> fst v = F(name := None)))
    (\<lambda>v. always I v \<and> R (fst v))"
proof (rule tripleI)
  fix fs x fs'
  assume P: "always I (view fs) \<and> R (fst (view fs))" and "remove_file K name fs = (Inr x, fs')"
  then have v: "view fs' = view (put_files ((fs_files fs)(name := None)) fs)"
    by (auto elim: remove_cases)
  have "I (fs_files fs)" "R (fs_files fs)" using P by (simp_all add: always_def view_def)
  then show "always J (view fs') \<and> (\<exists>F. I F \<and> R F \<and> fst (view fs') = F(name := None))"
    using v P assms by (auto simp: view_def put_files_def always_def)
qed (auto elim!: remove_cases)

text \<open>A step that follows a check, and a case distinction that keeps the invariant.\<close>

lemma triple_quiet':
  assumes "quiet m" "\<And>v. P v \<Longrightarrow> E v"
  shows "triple P m (\<lambda>_. P) E"
  by (rule triple_weaken [OF triple_quiet [OF assms(1), of P]]) (auto intro: assms(2))

lemma triple_inspect':
  assumes "\<And>v. P v \<Longrightarrow> E v"
  shows "triple P (inspect_settings_file K fam name) (\<lambda>f v. P v \<and> f = fst v name) E"
  by (rule triple_weaken [OF triple_inspect [of P]]) (auto intro: assms)

lemma recover_triple:
  fixes base :: files and old :: "str option"
  assumes stable: "\<And>F name x. T F \<Longrightarrow> name = SETTINGS_FILE \<or> name = windows_settings_backup \<Longrightarrow> T (F(name := x))"
  defines "P \<equiv> \<lambda>v. always (safe Windows base {old}) v \<and> T (fst v)"
  shows "triple P (recover_windows_settings K Windows)
    (\<lambda>_ v. P v \<and> fst v windows_settings_backup = None) P"
proof -
  let ?I = "safe Windows base {old}"
  have moved: "triple (\<lambda>v. P v \<and> None = fst v SETTINGS_FILE \<and> Some nd = fst v windows_settings_backup)
      (io_context c (rename K windows_settings_backup SETTINGS_FILE))
      (\<lambda>_ v. P v \<and> fst v windows_settings_backup = None) P" for nd c
    by (rule triple_context, rule triple_weaken [OF triple_rename
          [of ?I "\<lambda>F. T F \<and> F SETTINGS_FILE = None \<and> Some nd = F windows_settings_backup" windows_settings_backup ?I]])
       (auto simp: P_def safe_def kept_def file_names stable)
  have removed: "triple (\<lambda>v. P v \<and> Some cur = fst v SETTINGS_FILE \<and> Some nd = fst v windows_settings_backup)
      (io_context c (remove_file K windows_settings_backup))
      (\<lambda>_ v. P v \<and> fst v windows_settings_backup = None) P" for cur nd c
    by (rule triple_context, rule triple_weaken [OF triple_remove
          [of ?I "\<lambda>F. T F \<and> Some cur = F SETTINGS_FILE" ?I windows_settings_backup]])
       (auto simp: P_def safe_def kept_def file_names stable split: option.splits)
  show ?thesis unfolding recover_windows_settings_def
  proof (rule triple_bind [OF triple_inspect], rule triple_bind [OF triple_inspect'])
    fix current staged
    show "triple (\<lambda>v. (P v \<and> current = fst v SETTINGS_FILE) \<and> staged = fst v windows_settings_backup)
      (case (current \<noteq> None, staged \<noteq> None) of
         (False, True) \<Rightarrow> io_context ''cannot recover staged settings''
           (rename K windows_settings_backup SETTINGS_FILE)
       | (True, True) \<Rightarrow> io_context ''cannot remove recovered settings backup''
           (remove_file K windows_settings_backup)
       | _ \<Rightarrow> io_return ())
      (\<lambda>_ v. P v \<and> fst v windows_settings_backup = None) P"
      by (cases current; cases staged) (auto simp: moved removed intro: triple_return)
  qed simp
qed

text \<open>A file that this program made: on Unix it is readable and writable by its owner alone.\<close>

definition private_file :: "kernel \<Rightarrow> os_family \<Rightarrow> str \<Rightarrow> node option \<Rightarrow> bool" where
  "private_file K fam data f \<longleftrightarrow> (\<exists>nd. f = Some nd \<and> nd_data nd = data \<and> nd_kind nd = Regular \<and>
     (fam = Unix \<longrightarrow> nd_mode nd = 384) \<and> (\<exists>n. nd_owner nd = nd_owner (k_new K n)))"

lemma replace_triple:
  fixes base :: files and old :: "str option" and fam :: os_family and new temp :: str and K :: kernel
  assumes temp: "temp \<noteq> SETTINGS_FILE" "temp \<noteq> windows_settings_backup" "base temp = None"
  defines "I \<equiv> safe fam base {old}" and "J \<equiv> safe fam base {old, Some new}"
    and "T \<equiv> \<lambda>F. private_file K fam new (F temp) \<and> flushed (F temp)"
    and "N \<equiv> \<lambda>F. private_file K fam new (F SETTINGS_FILE) \<and> flushed (F SETTINGS_FILE)"
  shows "triple (\<lambda>v. always I v \<and> T (fst v)) (replace_settings_file K fam temp)
    (\<lambda>_ v. always J v \<and> N (fst v)) (always J)"
proof -
  have IJ: "I F \<Longrightarrow> J F" for F by (auto simp: I_def J_def intro: safe_mono)
  have aIJ: "always I v \<Longrightarrow> always J v" for v by (erule always_mono) (rule IJ)
  have installed: "triple (\<lambda>v. always I v \<and> R (fst v)) (rename K temp SETTINGS_FILE)
      (\<lambda>_ v. always J v \<and> N (fst v)) (\<lambda>v. always I v \<and> R (fst v))"
    if "\<And>F. R F \<Longrightarrow> T F" for R
    by (rule triple_weaken [OF triple_rename [of I R temp J]])
       (use temp IJ that in \<open>fastforce simp: I_def J_def T_def N_def safe_def kept_def private_file_def\<close>)+
  show ?thesis
  proof (cases "fam = Windows")
    case False
    show ?thesis unfolding replace_settings_file_def if_P [OF False]
      by (rule triple_context, rule triple_weaken [OF installed [of T]]) (auto intro: aIJ)
  next
    case True
    note I_def = I_def [unfolded True] and J_def = J_def [unfolded True]
    let ?P = "\<lambda>v. always I v \<and> T (fst v)"
    let ?R = "\<lambda>F. T F \<and> F SETTINGS_FILE = None"
    have stable: "T F \<Longrightarrow> name = SETTINGS_FILE \<or> name = windows_settings_backup \<Longrightarrow> T (F(name := x))" for F name x
      using temp by (auto simp: T_def)
    have recover: "triple ?P (recover_windows_settings K Windows)
        (\<lambda>_ v. ?P v \<and> fst v windows_settings_backup = None) (always J)"
      unfolding I_def
      by (rule triple_weaken [OF recover_triple [of T base old K, OF stable]]) (auto intro: aIJ [unfolded I_def])
    have stage: "triple (\<lambda>v. (?P v \<and> fst v windows_settings_backup = None) \<and> current = fst v SETTINGS_FILE)
        (if current = None then io_return ()
         else io_context ''cannot stage old settings'' (rename K SETTINGS_FILE windows_settings_backup))
        (\<lambda>_ v. always I v \<and> ?R (fst v)) (always J)" for current
    proof (rule triple_if)
      assume "current \<noteq> None"
      show "triple (\<lambda>v. (?P v \<and> fst v windows_settings_backup = None) \<and> current = fst v SETTINGS_FILE)
          (io_context ''cannot stage old settings'' (rename K SETTINGS_FILE windows_settings_backup))
          (\<lambda>_ v. always I v \<and> ?R (fst v)) (always J)"
        by (rule triple_context, rule triple_weaken [OF triple_rename [of I T SETTINGS_FILE I]])
           (use temp aIJ in \<open>auto simp: I_def T_def safe_def kept_def file_names\<close>)
    qed (auto intro: triple_return)
    have undo: "triple (\<lambda>v. always I v \<and> ?R (fst v)) (io_try (rename K windows_settings_backup SETTINGS_FILE))
        (\<lambda>_. always I) (always J)"
      by (rule triple_try, rule triple_weaken [OF triple_rename [of I ?R windows_settings_backup I]])
         (auto simp: I_def safe_def kept_def file_names)
    have finish: "triple (\<lambda>v. always J v \<and> N (fst v))
        (io_bind (path_exists K windows_settings_backup) (\<lambda>there.
           if there
           then io_context ''cannot remove old settings backup'' (remove_file K windows_settings_backup)
           else io_return ()))
        (\<lambda>_ v. always J v \<and> N (fst v)) (always J)"
    proof (rule triple_bind [OF triple_quiet'], simp, blast, rule triple_if)
      have dropped: "J (F(windows_settings_backup := None))" "N (F(windows_settings_backup := None))"
        if "J F" "N F" for F
        using that by (auto simp: J_def N_def safe_def kept_def file_names private_file_def)
      show "triple (\<lambda>v. always J v \<and> N (fst v))
          (io_context ''cannot remove old settings backup'' (remove_file K windows_settings_backup))
          (\<lambda>_ v. always J v \<and> N (fst v)) (always J)"
        by (rule triple_context, rule triple_weaken [OF triple_remove [of J N J windows_settings_backup]])
           (use dropped in auto)
    qed (rule triple_return)
    have tried: "triple (\<lambda>v. always I v \<and> ?R (fst v)) (io_try (rename K temp SETTINGS_FILE))
        (\<lambda>r v. case r of Inr _ \<Rightarrow> always J v \<and> N (fst v) | Inl e \<Rightarrow> always I v \<and> ?R (fst v))
        (always J)"
      by (rule triple_try, rule triple_weaken [OF installed [of ?R]]) auto
    have rest: "triple (\<lambda>v. case r of Inr _ \<Rightarrow> always J v \<and> N (fst v) | Inl e \<Rightarrow> always I v \<and> ?R (fst v))
      (case r of
         Inr _ \<Rightarrow>
           io_bind (path_exists K windows_settings_backup) (\<lambda>there.
           if there
           then io_context ''cannot remove old settings backup'' (remove_file K windows_settings_backup)
           else io_return ())
       | Inl e \<Rightarrow>
           io_bind (io_try (rename K windows_settings_backup SETTINGS_FILE)) (\<lambda>_.
           io_fail (''cannot install settings: '' @ e)))
      (\<lambda>_ v. always J v \<and> N (fst v)) (always J)" for r
    proof (cases r)
      case (Inl e)
      show ?thesis unfolding Inl sum.case
        by (rule triple_bind [OF undo], rule triple_fail, rule aIJ)
    next
      case (Inr u)
      show ?thesis unfolding Inr sum.case by (rule finish)
    qed
    show ?thesis unfolding replace_settings_file_def True
      by (simp only: not_True_eq_False if_False simp_thms)
         (rule triple_bind [OF recover], rule triple_bind [OF triple_inspect'], use aIJ in blast,
          rule triple_bind [OF stage], rule triple_bind [OF tried], rule rest)
  qed
qed

text \<open>Creating and writing a file of another name.\<close>

lemma private_empty: "private_file K fam [] (Some (empty_file K fam n))"
  by (auto simp: private_file_def empty_file_def with_mode_def)

lemma create_new_cases:
  assumes "create_new K fam name fs = (r, fs')"
  obtains e where "r = Inl e" "view fs' = view fs"
  | "r = Inr False" "view fs' = view fs"
  | nd where "r = Inr True" "fs_files fs name = None" "private_file K fam [] (Some nd)"
      "view fs' = view (put_files ((fs_files fs)(name \<mapsto> nd)) fs)"
proof (cases "k_refuse K (fs_calls fs) = None \<and> fs_files fs name = None")
  case True
  then show ?thesis using assms that(3) [OF _ _ private_empty]
    by (auto simp: create_new_def sys_def Let_def view_def put_files_def)
next
  case False
  then show ?thesis using assms that(1,2)
    by (auto simp: create_new_def sys_def Let_def view_def split: option.splits)
qed

lemma kept_other:
  "name \<noteq> SETTINGS_FILE \<Longrightarrow> name \<noteq> windows_settings_backup \<Longrightarrow> kept fam (F(name := x)) = kept fam F"
  by (cases "F SETTINGS_FILE") (simp_all add: kept_def)

lemma safe_put:
  "safe fam base C F \<Longrightarrow> name \<noteq> SETTINGS_FILE \<Longrightarrow> name \<noteq> windows_settings_backup \<Longrightarrow> base name = None \<Longrightarrow>
     safe fam base C (F(name := x))"
  by (simp add: safe_def kept_other)

lemma safe_fresh:
  "safe fam base C F \<Longrightarrow> F name = None \<Longrightarrow> name \<noteq> SETTINGS_FILE \<Longrightarrow> name \<noteq> windows_settings_backup \<Longrightarrow>
     base name = None"
  by (auto simp: safe_def)

definition fresh_file :: "kernel \<Rightarrow> os_family \<Rightarrow> files \<Rightarrow> str \<Rightarrow> str \<Rightarrow> files \<Rightarrow> bool" where
  "fresh_file K fam base name data F \<longleftrightarrow> name \<noteq> SETTINGS_FILE \<and> name \<noteq> windows_settings_backup \<and>
     base name = None \<and> private_file K fam data (F name)"

lemma created_fresh:
  assumes "create_new K fam name fs = (Inr True, fs')" "always (safe fam base C) (view fs)"
    "name \<noteq> SETTINGS_FILE" "name \<noteq> windows_settings_backup"
  shows "always (safe fam base C) (view fs') \<and> fresh_file K fam base name [] (fs_files fs')"
  using assms(1)
proof (rule create_new_cases)
  fix nd assume nd: "fs_files fs name = None" "private_file K fam [] (Some nd)"
    "view fs' = view (put_files ((fs_files fs)(name \<mapsto> nd)) fs)"
  have now: "safe fam base C (fs_files fs)" using assms(2) by (simp add: always_def view_def)
  have "base name = None" using safe_fresh [OF now nd(1) assms(3,4)] .
  moreover from this have "always (safe fam base C) (view fs')"
    unfolding nd(3) by (intro always_put assms(2) safe_put now assms(3,4))
  moreover have "fs_files fs' = (fs_files fs)(name \<mapsto> nd)" using nd(3) by (simp add: view_def put_files_def)
  ultimately show ?thesis using nd(2) assms(3,4) by (simp add: fresh_file_def)
qed simp_all

lemma create_temporary_step:
  fixes fs :: file_system and K :: kernel and fam :: os_family and a :: nat
  assumes "\<not> 32 \<le> a"
  defines "gs \<equiv> fs\<lparr>fs_temp_sequence := fs_temp_sequence fs + 1\<rparr>"
  defines "t \<equiv> temporary_name K (k_clock K (fs_calls gs)) (fs_temp_sequence fs) a"
  shows "create_temporary K fam a fs =
    (case create_new K fam t gs of
       (Inl e, hs) \<Rightarrow> (Inl (''cannot create temporary settings: '' @ e), hs)
     | (Inr True, hs) \<Rightarrow> (Inr (Some t), hs)
     | (Inr False, hs) \<Rightarrow> create_temporary K fam (a + 1) hs)"
  using assms(1) by (simp only: create_temporary.simps [of K fam a fs] Let_def if_False gs_def t_def)

lemma create_temporary_fresh:
  "create_temporary K fam a fs = (r, fs') \<Longrightarrow> always (safe fam base C) (view fs) \<Longrightarrow>
     always (safe fam base C) (view fs') \<and> (\<forall>t. r = Inr (Some t) \<longrightarrow> fresh_file K fam base t [] (fs_files fs'))"
proof (induction K fam a fs rule: create_temporary.induct)
  case (1 K fam a fs)
  show ?case
  proof (cases "a \<ge> 32")
    case True
    then show ?thesis using 1(2,3) by (auto simp: create_temporary.simps)
  next
    case False
    define gs where "gs = fs\<lparr>fs_temp_sequence := fs_temp_sequence fs + 1\<rparr>"
    define t where "t = temporary_name K (k_clock K (fs_calls gs)) (fs_temp_sequence fs) a"
    obtain c hs where c: "create_new K fam t gs = (c, hs)" by fastforce
    have r: "(case c of Inl e \<Rightarrow> (Inl (''cannot create temporary settings: '' @ e), hs)
        | Inr True \<Rightarrow> (Inr (Some t), hs) | Inr False \<Rightarrow> create_temporary K fam (a + 1) hs) = (r, fs')"
      using 1(2) [unfolded create_temporary_step [OF False] c [unfolded t_def gs_def] prod.case]
      unfolding t_def gs_def .
    have g: "always (safe fam base C) (view gs)" using 1(3) by (simp add: gs_def view_def)
    from c show ?thesis
    proof (cases rule: create_new_cases)
      case 2
      have "always (safe fam base C) (view hs)" using g 2 by simp
      then show ?thesis
        using 1(1) [OF False refl refl refl c [unfolded t_def gs_def, symmetric] 2(1) refl] r 2 by simp
    next
      case 3
      have "create_new K fam t gs = (Inr True, hs)" using c 3(1) by simp
      from created_fresh [OF this g] show ?thesis using r 3(1) temporary_name_new by (auto simp: t_def)
    qed (use r g in auto)
  qed
qed

lemma write_bytes_fresh:
  "always (safe fam base C) (view fs) \<Longrightarrow> fresh_file K fam base name data (fs_files fs) \<Longrightarrow>
     always (safe fam base C) (view (write_bytes name bytes ks fs)) \<and>
     fresh_file K fam base name (if ks = [] then data else take (last ks) bytes) (fs_files (write_bytes name bytes ks fs))"
proof (induction name bytes ks fs arbitrary: data rule: write_bytes.induct)
  case (2 name bytes k ks fs)
  let ?F = "with_data name (take k bytes) (fs_files fs)"
  have now: "safe fam base C (fs_files fs)" using 2(2) by (simp add: always_def view_def)
  have n: "name \<noteq> SETTINGS_FILE" "name \<noteq> windows_settings_backup" "base name = None"
    "private_file K fam data (fs_files fs name)" using 2(3) by (auto simp: fresh_file_def)
  have "safe fam base C ?F" unfolding with_data_def by (intro safe_put now n)
  then have "always (safe fam base C) (view (put_files ?F fs))" by (intro always_put 2(2))
  moreover have "fresh_file K fam base name (take k bytes) (fs_files (put_files ?F fs))"
    using n by (auto simp: fresh_file_def private_file_def put_files_def with_data_def)
  ultimately show ?case using 2(1) by (cases ks) auto
qed simp

lemma write_all_fresh:
  assumes "write_all K name bytes fs = (r, fs')"
    "always (safe fam base C) (view fs)" "fresh_file K fam base name [] (fs_files fs)"
  shows "always (safe fam base C) (view fs') \<and> (r = Inr () \<longrightarrow> fresh_file K fam base name bytes (fs_files fs'))"
proof -
  let ?fs = "fs\<lparr>fs_calls := fs_calls fs + 1\<rparr>"
  have "always (safe fam base C) (view ?fs)" "fresh_file K fam base name [] (fs_files ?fs)"
    using assms(2,3) by (simp_all add: view_def)
  note w = write_bytes_fresh [OF this, of bytes]
  show ?thesis
  proof (cases "k_refuse K (fs_calls fs)")
    case None
    then have "r = Inr ()" "fs' = write_bytes name bytes [1..<Suc (length bytes)] ?fs"
      using assms(1) by (auto simp: write_all_def Let_def)
    then show ?thesis using w [of "[1..<Suc (length bytes)]"] by (cases bytes) simp_all
  next
    case (Some e)
    then have "r = Inl e" "fs' = write_bytes name bytes [1..<Suc (min (k_written K (fs_calls fs)) (length bytes))] ?fs"
      using assms(1) by (auto simp: write_all_def Let_def)
    then show ?thesis using w by simp
  qed
qed

text \<open>The flush of a file that is not one of the settings.\<close>

lemma sync_file_fresh:
  assumes "sync_file K name fs = (r, fs')"
    "always (safe fam base C) (view fs)" "fresh_file K fam base name data (fs_files fs)"
  shows "always (safe fam base C) (view fs') \<and>
    (r = Inr () \<longrightarrow> fresh_file K fam base name data (fs_files fs') \<and> flushed (fs_files fs' name))"
proof (cases "k_refuse K (fs_calls fs)")
  case None
  let ?F = "(fs_files fs)(name := map_option flushed_node (fs_files fs name))"
  have now: "safe fam base C (fs_files fs)" using assms(2) by (simp add: always_def view_def)
  have n: "name \<noteq> SETTINGS_FILE" "name \<noteq> windows_settings_backup" "base name = None"
    "private_file K fam data (fs_files fs name)" using assms(3) by (auto simp: fresh_file_def)
  have v: "view fs' = view (put_files ?F fs)"
    using assms(1) None by (auto simp: sync_file_def sys_def Let_def view_def put_files_def)
  have "safe fam base C ?F" by (intro safe_put now n)
  then have "always (safe fam base C) (view fs')" unfolding v by (intro always_put assms(2))
  moreover have "fs_files fs' = ?F" using v by (simp add: view_def put_files_def)
  ultimately show ?thesis using n by (auto simp: fresh_file_def private_file_def flushed_node_def)
next
  case (Some e)
  then show ?thesis using assms by (auto simp: sync_file_def sys_def Let_def view_def)
qed

text \<open>Writing a new file and flushing it.\<close>

lemma triple_written:
  fixes fam :: os_family
  assumes "\<And>v. always (safe fam base C) v \<Longrightarrow> E v"
  shows "triple (\<lambda>v. always (safe fam base C) v \<and> fresh_file K fam base t [] (fst v))
    (io_context what (io_bind (write_all K t bytes) (\<lambda>_. sync_file K t)))
    (\<lambda>_ v. always (safe fam base C) v \<and> fresh_file K fam base t bytes (fst v) \<and> flushed (fst v t)) E"
proof (rule triple_context, rule triple_bind)
  let ?A = "always (safe fam base C)"
  show "triple (\<lambda>v. ?A v \<and> fresh_file K fam base t [] (fst v)) (write_all K t bytes)
      (\<lambda>_ v. ?A v \<and> fresh_file K fam base t bytes (fst v)) E"
    by (rule tripleI) (use write_all_fresh assms in \<open>fastforce simp: view_def\<close>)+
  show "triple (\<lambda>v. ?A v \<and> fresh_file K fam base t bytes (fst v)) (sync_file K t)
      (\<lambda>_ v. ?A v \<and> fresh_file K fam base t bytes (fst v) \<and> flushed (fst v t)) E"
    by (rule tripleI) (use sync_file_fresh assms in \<open>fastforce simp: view_def\<close>)+
qed

text \<open>What holds after every run of a step that succeeds.\<close>

definition ends :: "'a io \<Rightarrow> ('a \<Rightarrow> file_system \<Rightarrow> bool) \<Rightarrow> bool" where
  "ends m Q \<longleftrightarrow> (\<forall>fs x fs'. m fs = (Inr x, fs') \<longrightarrow> Q x fs')"

lemma ends_bind: "(\<And>x. ends (f x) Q) \<Longrightarrow> ends (io_bind m f) Q"
  by (fastforce simp: ends_def io_bind_def split: prod.splits sum.splits)

lemma ends_fail: "ends (io_fail e) Q"
  by (simp add: ends_def io_fail_def)

lemma ends_sync_dir: "ends (io_context what (sync_dir K)) (\<lambda>_ fs. fs_disk fs = [fs_files fs])"
  by (auto simp: ends_def io_context_def map_err_def sync_dir_def sys_def Let_def split: option.splits)

lemma save_flushes_directory:
  "ends (save_settings_at K Unix S s) (\<lambda>_ fs. fs_disk fs = [fs_files fs])"
  unfolding save_settings_at_def
  by (intro ends_bind, split option.split) (auto intro!: ends_bind ends_fail ends_sync_dir)

text \<open>What a run of the save ends with.\<close>

lemma save_outcome:
  fixes fs :: file_system and fam :: os_family and S :: serde and s :: settings
  assumes "save_settings_at K fam S s fs = (r, fs')" "fs_past fs = []"
  defines "base \<equiv> fs_files fs" and "old \<equiv> kept fam (fs_files fs)" and "new \<equiv> show_json S (persisted_json s)"
  shows "always (safe fam base {old, Some new}) (view fs') \<and>
    (r = Inr () \<longrightarrow> private_file K fam new (fs_files fs' SETTINGS_FILE) \<and> flushed (fs_files fs' SETTINGS_FILE))"
proof -
  let ?I = "safe fam base {old}" and ?J = "safe fam base {old, Some new}"
  let ?N = "\<lambda>F. private_file K fam new (F SETTINGS_FILE) \<and> flushed (F SETTINGS_FILE)"
  let ?T = "\<lambda>t F. fresh_file K fam base t new F \<and> flushed (F t)"
  have aIJ: "always ?I v \<Longrightarrow> always ?J v" for v by (erule always_mono) (auto intro: safe_mono)
  have recover: "triple (always ?I) (when_windows fam (recover_windows_settings K fam)) (\<lambda>_. always ?I) (always ?J)"
  proof (cases "fam = Windows")
    case True
    show ?thesis using aIJ unfolding when_windows_def if_P [OF True] unfolding True
      by (intro triple_weaken [OF recover_triple [of "\<lambda>_. True" base old K]]) auto
  qed (simp add: when_windows_def triple_return)
  have create: "triple (always ?I) (create_temporary K fam 0)
      (\<lambda>x v. always ?I v \<and> (\<forall>t. x = Some t \<longrightarrow> fresh_file K fam base t [] (fst v))) (always ?J)"
    by (rule tripleI) (use create_temporary_fresh aIJ in \<open>fastforce simp: view_def\<close>)+
  have wrote: "triple (\<lambda>v. always ?I v \<and> fresh_file K fam base t [] (fst v))
      (io_context c (io_bind (write_all K t new) (\<lambda>_. sync_file K t)))
      (\<lambda>_ v. always ?I v \<and> ?T t (fst v)) (always ?J)" for t c
    by (rule triple_written) (rule aIJ)
  have replace: "triple (\<lambda>v. always ?I v \<and> ?T t (fst v)) (replace_settings_file K fam t)
      (\<lambda>_ v. always ?J v \<and> ?N (fst v)) (always ?J)" for t
  proof (cases "t \<noteq> SETTINGS_FILE \<and> t \<noteq> windows_settings_backup \<and> base t = None")
    case True
    then show ?thesis
      by (intro triple_weaken [OF replace_triple [where temp = t and base = base and fam = fam and old = old and new = new and K = K]]) (auto simp: fresh_file_def)
  next
    case False
    then have "\<not> fresh_file K fam base t new F" for F by (auto simp: fresh_file_def)
    then show ?thesis by (simp add: triple_def)
  qed
  have pass: "triple P m (\<lambda>_. P) (always ?J)" if "quiet m" "\<And>v. P v \<Longrightarrow> always ?J v" for P and m :: "'c io"
    using that by (rule triple_quiet')
  have "triple (always ?I) (save_settings_at K fam S s) (\<lambda>_ v. always ?J v \<and> ?N (fst v)) (always ?J)"
    unfolding save_settings_at_def new_def [symmetric]
  proof (rule triple_bind [OF pass], simp, erule aIJ, rule triple_bind [OF recover],
      rule triple_bind [OF pass], simp, erule aIJ, rule triple_bind [OF create])
    fix created
    show "triple (\<lambda>v. always ?I v \<and> (\<forall>t. created = Some t \<longrightarrow> fresh_file K fam base t [] (fst v)))
      (case created of
         None \<Rightarrow> io_fail ''cannot create unique temporary settings''
       | Some temporary \<Rightarrow>
           io_bind (io_context ''cannot write temporary settings''
             (io_bind (write_all K temporary new) (\<lambda>_. sync_file K temporary))) (\<lambda>_.
           io_bind (verify_settings_directory K fam) (\<lambda>_.
           io_bind (inspect_settings_file K fam SETTINGS_FILE) (\<lambda>_.
           io_bind (replace_settings_file K fam temporary) (\<lambda>_.
           if fam = Unix then io_context ''cannot sync settings directory'' (sync_dir K)
           else io_return ())))))
      (\<lambda>_ v. always ?J v \<and> ?N (fst v)) (always ?J)"
    proof (cases created)
      case None
      show ?thesis unfolding None option.case by (rule triple_fail) (use aIJ in auto)
    next
      case (Some t)
      have last: "triple (\<lambda>v. always ?J v \<and> ?N (fst v))
          (if fam = Unix then io_context ''cannot sync settings directory'' (sync_dir K) else io_return ())
          (\<lambda>_ v. always ?J v \<and> ?N (fst v)) (always ?J)"
        by (rule triple_if, rule pass, simp, blast, rule triple_return)
      have pre: "(\<lambda>v. always ?I v \<and> (\<forall>u. Some t = Some u \<longrightarrow> fresh_file K fam base u [] (fst v))) =
          (\<lambda>v. always ?I v \<and> fresh_file K fam base t [] (fst v))" by auto
      have still: "always ?I v \<and> ?T t (fst v) \<Longrightarrow> always ?J v" for v using aIJ by blast
      show ?thesis unfolding Some option.case pre
        by (rule triple_bind [OF wrote], rule triple_bind [OF pass], simp, erule still,
            rule triple_bind [OF pass], simp, erule still, rule triple_bind [OF replace], rule last)
    qed
  qed
  moreover have "always ?I (view fs)"
    using assms(2) by (simp add: always_def view_def safe_def base_def old_def on_disk_def)
  ultimately show ?thesis
    using tripleD [of "always ?I" "save_settings_at K fam S s"] assms(1)
    by (cases r) (fastforce simp: view_def)+
qed

text \<open>
  C6: The settings survive a loss of power. Whatever calls are refused and after whichever step the
  program stops, the directory holds the settings that were saved before or the new ones, whole, and
  every file that is not the settings file or its staged copy is as it was; a save that succeeds
  leaves the new ones. When the files were on the disk before the save, the same holds of whatever a
  loss of power at any step makes of them, when the contents of a file that is not flushed may be lost
  or cut short and the changes of the directory may not have reached the disk; and a save that
  succeeds on Unix has put the new settings on the disk.
\<close>

theorem save_survives_power_loss:
  assumes "save_settings_at K fam S s fs = (r, fs')" "fs_past fs = []"
  defines "new \<equiv> show_json S (persisted_json s)"
  shows "(\<forall>F \<in> set (fs_files fs' # fs_past fs').
      (kept fam F = kept fam (fs_files fs) \<or> kept fam F = Some new) \<and>
      (\<forall>name. fs_files fs name \<noteq> None \<and> name \<noteq> SETTINGS_FILE \<and> name \<noteq> windows_settings_backup \<longrightarrow>
         F name = fs_files fs name)) \<and>
    (r = Inr () \<longrightarrow> kept fam (fs_files fs') = Some new) \<and>
    (on_disk (fs_files fs) \<longrightarrow> (\<forall>F \<in> set (fs_files fs # fs_files fs' # fs_past fs'). \<forall>F'. crash_image F F' \<longrightarrow>
      (kept fam F' = kept fam (fs_files fs) \<or> kept fam F' = Some new) \<and>
      (\<forall>name. fs_files fs name \<noteq> None \<and> name \<noteq> SETTINGS_FILE \<and> name \<noteq> windows_settings_backup \<longrightarrow>
         F' name = fs_files fs name))) \<and>
    (r = Inr () \<and> fam = Unix \<longrightarrow> (\<forall>F \<in> set (fs_disk fs'). \<forall>F'. crash_image F F' \<longrightarrow> kept fam F' = Some new))"
proof -
  let ?C = "{kept fam (fs_files fs), Some new}"
  have safe: "safe fam (fs_files fs) ?C F" if "F \<in> set (fs_files fs' # fs_past fs')" for F
    using save_outcome [OF assms(1,2)] that by (auto simp: always_def view_def new_def)
  have first: "safe fam (fs_files fs) ?C (fs_files fs)" by (simp add: safe_def on_disk_def)
  have finished: "private_file K fam new (fs_files fs' SETTINGS_FILE)" "flushed (fs_files fs' SETTINGS_FILE)"
    if "r = Inr ()" using save_outcome [OF assms(1,2)] that by (simp_all add: new_def)
  have stopped: "F \<in> set (fs_files fs' # fs_past fs') \<Longrightarrow> (kept fam F = kept fam (fs_files fs) \<or> kept fam F = Some new) \<and>
      (\<forall>name. fs_files fs name \<noteq> None \<and> name \<noteq> SETTINGS_FILE \<and> name \<noteq> windows_settings_backup \<longrightarrow>
         F name = fs_files fs name)" for F
    using safe [of F] by (simp add: safe_def)
  have lost: "(kept fam F' = kept fam (fs_files fs) \<or> kept fam F' = Some new) \<and>
      (\<forall>name. fs_files fs name \<noteq> None \<and> name \<noteq> SETTINGS_FILE \<and> name \<noteq> windows_settings_backup \<longrightarrow>
         F' name = fs_files fs name)"
    if "on_disk (fs_files fs)" "F \<in> set (fs_files fs # fs_files fs' # fs_past fs')" "crash_image F F'" for F F'
    using safe_image [OF _ that(1,3), of fam ?C] safe [of F] first that(2) by auto
  have left: "kept fam (fs_files fs') = Some new" if "r = Inr ()"
    using finished [OF that] by (auto simp: kept_def private_file_def)
  have "kept fam F' = Some new" if "r = Inr ()" "fam = Unix" "F \<in> set (fs_disk fs')" "crash_image F F'" for F F'
  proof -
    have "fs_disk fs' = [fs_files fs']"
      using save_flushes_directory [of K S s] assms(1) that(1,2) by (auto simp: ends_def)
    then have "F' SETTINGS_FILE = fs_files fs' SETTINGS_FILE"
      using flushed_image [OF that(4)] finished(2) [OF that(1)] that(3) by simp
    then show ?thesis using finished(1) [OF that(1)] by (auto simp: kept_def private_file_def)
  qed
  with stopped lost left show ?thesis by blast
qed

end
