(* ===== verification/FileLoad.thy ===== *)
theory FileLoad
  imports FileStore
begin

text \<open>
  What \<open>FileStore\<close> guarantees beyond the safety of a save: which file a load reads, that a load
  returns what the last save kept, and that a crash report overwrites nothing. The lemmas
  \<open>..._Inr\<close> invert a run that succeeds step by step; \<open>..._granted\<close> run a check forwards.
\<close>

section \<open>Loading\<close>

text \<open>Everything but the count of the calls.\<close>

definition place :: "file_system \<Rightarrow> node option \<times> node option \<times> files" where
  "place fs = (fs_home fs, fs_dir fs, fs_files fs)"

lemma bind_Inr_iff:
  "io_bind m f fs = (Inr x, fs') \<longleftrightarrow> (\<exists>y gs. m fs = (Inr y, gs) \<and> f y gs = (Inr x, fs'))"
  by (auto simp: io_bind_def split: prod.splits sum.splits)

lemma context_Inr_iff: "io_context what m fs = (Inr x, fs') \<longleftrightarrow> m fs = (Inr x, fs')"
  by (auto simp: io_context_def map_err_def split: prod.splits sum.splits)

lemma ensure_Inr_iff': "io_ensure c e fs = (Inr x, fs') \<longleftrightarrow> c \<and> fs' = fs"
  by (auto simp: io_ensure_def io_return_def io_fail_def)

lemma return_Inr_iff: "io_return y fs = (Inr x, fs') \<longleftrightarrow> x = y \<and> fs' = fs"
  by (auto simp: io_return_def)

lemma fail_Inr [simp]: "io_fail e fs \<noteq> (Inr x, fs')"
  by (simp add: io_fail_def)

lemmas io_Inr = bind_Inr_iff context_Inr_iff ensure_Inr_iff' return_Inr_iff

lemma stat_Inr:
  "stat_dir K fs = (Inr d, fs') \<Longrightarrow> fs_dir fs = d \<and> place fs' = place fs"
  "stat_home K fs = (Inr h, fs') \<Longrightarrow> fs_home fs = Some h \<and> place fs' = place fs"
  "stat_file K name fs = (Inr f, fs') \<Longrightarrow> fs_files fs name = f \<and> place fs' = place fs"
  by (auto simp: stat_dir_def stat_home_def stat_file_def sys_def Let_def place_def
      ok_or_def split: option.splits)

lemma open_Inr:
  "open_file K fam name fs = (Inr nd, fs') \<Longrightarrow>
     \<exists>f n. fs_files fs name = Some f \<and> (nd = k_swap K n f \<or> k_follow K n = Some nd \<and> nd_kind (k_swap K n f) = Link)"
  by (auto simp: open_file_def sys_def Let_def ok_or_def split: option.splits if_splits)

lemma handle_Inr:
  "fstat K nd fs = (Inr m, fs') \<Longrightarrow> m = nd"
  "read_file K nd limit fs = (Inr b, fs') \<Longrightarrow> \<exists>n. b = take limit (k_read K n (nd_data nd))"
  by (auto simp: fstat_def read_file_def sys_def Let_def split: option.splits)

text \<open>The directory belongs to the owner of the home directory and nobody else may write in it.\<close>

definition trusted_directory :: "os_family \<Rightarrow> node option \<Rightarrow> node option \<Rightarrow> bool" where
  "trusted_directory fam home dir \<longleftrightarrow>
     (case dir of None \<Rightarrow> False
      | Some d \<Rightarrow> nd_kind d = Directory \<and>
          (fam = Unix \<longrightarrow> \<not> shared_write d \<and> map_option nd_owner home = Some (nd_owner d)))"

definition trusted_file :: "os_family \<Rightarrow> node option \<Rightarrow> node \<Rightarrow> bool" where
  "trusted_file fam dir nd \<longleftrightarrow> nd_kind nd = Regular \<and>
     (fam = Unix \<longrightarrow> \<not> shared_write nd \<and> map_option nd_owner dir = Some (nd_owner nd))"

lemma verify_Inr:
  assumes "verify_settings_directory K fam fs = (Inr dir, fs')"
  shows "fs_dir fs = Some dir" "trusted_directory fam (fs_home fs) (fs_dir fs)" "place fs' = place fs"
proof -
  have "fs_dir fs = Some dir \<and> trusted_directory fam (fs_home fs) (fs_dir fs) \<and> place fs' = place fs"
    using assms unfolding verify_settings_directory_def
    by (auto simp: io_Inr place_def trusted_directory_def eq_commute [of "Some _" "fs_home _"]
        split: option.splits if_splits dest!: stat_Inr)
  then show "fs_dir fs = Some dir" "trusted_directory fam (fs_home fs) (fs_dir fs)" "place fs' = place fs"
    by blast+
qed

lemma inspect_Inr:
  assumes "inspect_settings_file K fam name fs = (Inr f, fs')"
  shows "fs_files fs name = f" "place fs' = place fs" "f = Some nd \<Longrightarrow> trusted_file fam (fs_dir fs) nd"
proof -
  obtain gs where st: "stat_file K name fs = (Inr f, gs)" and fs': "f = None \<and> fs' = gs \<or>
      (\<exists>nd. f = Some nd \<and> nd_kind nd = Regular \<and>
        (fam \<noteq> Unix \<and> fs' = gs \<or>
         fam = Unix \<and> (\<exists>dir. verify_settings_directory K fam gs = (Inr dir, fs') \<and>
           nd_owner nd = nd_owner dir \<and> \<not> shared_write nd)))"
  proof -
    from assms obtain y gs where "stat_file K name fs = (Inr y, gs)" and
      "(case y of None \<Rightarrow> io_return None
        | Some nd \<Rightarrow>
            io_bind (io_ensure (nd_kind nd \<noteq> Link) ''settings file is a symbolic link or reparse point'') (\<lambda>_.
            io_bind (io_ensure (nd_kind nd = Regular) ''settings file is not a regular file'') (\<lambda>_.
            if fam \<noteq> Unix then io_return (Some nd)
            else
              io_bind (verify_settings_directory K fam) (\<lambda>dir.
              io_bind (io_ensure (nd_owner nd = nd_owner dir)
                ''settings file is not owned by the settings-directory owner'') (\<lambda>_.
              io_bind (io_ensure (\<not> shared_write nd) ''settings file is writable by another account'') (\<lambda>_.
              io_return (Some nd))))))) gs = (Inr f, fs')"
      unfolding inspect_settings_file_def bind_Inr_iff context_Inr_iff by blast
    then show thesis using that [of gs] by (cases y) (auto simp: io_Inr split: if_splits)
  qed
  note st = stat_Inr(3) [OF st]
  show "fs_files fs name = f" using st by blast
  show "place fs' = place fs" using st fs' verify_Inr(3) [of K fam gs _ fs'] by metis
  show "trusted_file fam (fs_dir fs) nd" if "f = Some nd"
    using st fs' that verify_Inr(1) [of K fam gs _ fs'] by (auto simp: trusted_file_def place_def)
qed

text \<open>The file that holds the settings: on Windows the staged one while there is no settings file.\<close>

definition settings_node :: "os_family \<Rightarrow> files \<Rightarrow> node option" where
  "settings_node fam F = (case F SETTINGS_FILE of
     Some nd \<Rightarrow> Some nd
   | None \<Rightarrow> if fam = Windows then F windows_settings_backup else None)"

lemma kept_node: "kept fam F = map_option nd_data (settings_node fam F)"
  by (simp add: kept_def settings_node_def split: option.split)

lemma recover_Inr:
  assumes "recover_windows_settings K fam fs = (Inr x, fs')"
  shows "fs_home fs' = fs_home fs" "fs_dir fs' = fs_dir fs"
    "settings_node Windows (fs_files fs') = settings_node Windows (fs_files fs)"
proof -
  obtain current staged gs hs where c: "inspect_settings_file K fam SETTINGS_FILE fs = (Inr current, gs)"
    "inspect_settings_file K fam windows_settings_backup gs = (Inr staged, hs)"
    and r: "(case (current \<noteq> None, staged \<noteq> None) of
       (False, True) \<Rightarrow> io_context ''cannot recover staged settings''
         (rename K windows_settings_backup SETTINGS_FILE)
     | (True, True) \<Rightarrow> io_context ''cannot remove recovered settings backup''
         (remove_file K windows_settings_backup)
     | _ \<Rightarrow> io_return ()) hs = (Inr x, fs')"
    using assms unfolding recover_windows_settings_def by (auto simp: bind_Inr_iff)
  have hs: "place hs = place fs" "fs_files hs SETTINGS_FILE = current" "fs_files hs windows_settings_backup = staged"
    using inspect_Inr(1,2) [OF c(1)] inspect_Inr(1,2) [OF c(2)] by (simp_all add: place_def)
  have "fs_home fs' = fs_home hs \<and> fs_dir fs' = fs_dir hs \<and>
      settings_node Windows (fs_files fs') = settings_node Windows (fs_files hs)"
    using r hs(2,3)
    by (cases current; cases staged)
       (auto simp: context_Inr_iff return_Inr_iff rename_def remove_file_def sys_def Let_def settings_node_def
         put_files_def file_names split: option.splits if_splits)
  then show "fs_home fs' = fs_home fs" "fs_dir fs' = fs_dir fs"
    "settings_node Windows (fs_files fs') = settings_node Windows (fs_files fs)"
    using hs(1) by (simp_all add: place_def)
qed

lemma read_Inr:
  assumes "read_settings K fam S initial fs = (Inr s, fs')"
  obtains f n m opened bytes v where "fs_files fs SETTINGS_FILE = Some f"
    "opened = k_swap K n f \<or> k_follow K n = Some opened \<and> nd_kind (k_swap K n f) = Link"
    "nd_kind opened = Regular" "fam = Unix \<longrightarrow> nd_id opened = nd_id initial"
    "bytes = k_read K m (nd_data opened)" "length bytes \<le> MAX_SETTINGS_BYTES"
    "parse_json S bytes = Inr v" "s = settings_from_json v"
proof -
  have bounded: "take (MAX_SETTINGS_BYTES + 1) d = d" if "length (take (MAX_SETTINGS_BYTES + 1) d) \<le> MAX_SETTINGS_BYTES"
    for d :: str using that by simp
  from assms obtain handle gs opened hs bytes ks js where r: "open_file K fam SETTINGS_FILE fs = (Inr handle, gs)"
    "fstat K handle gs = (Inr opened, hs)" "nd_kind opened = Regular" "fam \<noteq> Unix \<or> nd_id initial = nd_id opened"
    "read_file K opened (MAX_SETTINGS_BYTES + 1) hs = (Inr bytes, ks)" "length bytes \<le> MAX_SETTINGS_BYTES"
    "(case parse_json S bytes of Inr v \<Rightarrow> io_return (settings_from_json v)
       | Inl e \<Rightarrow> io_fail (''cannot decode settings: '' @ e)) js = (Inr s, fs')"
    unfolding read_settings_def io_Inr by blast
  obtain v where "parse_json S bytes = Inr v" "s = settings_from_json v"
    using r(7) by (auto simp: return_Inr_iff split: sum.splits)
  moreover obtain m where "bytes = take (MAX_SETTINGS_BYTES + 1) (k_read K m (nd_data opened))"
    using handle_Inr(2) [OF r(5)] by blast
  moreover obtain f n where "fs_files fs SETTINGS_FILE = Some f"
    "opened = k_swap K n f \<or> k_follow K n = Some opened \<and> nd_kind (k_swap K n f) = Link"
    using open_Inr [OF r(1)] handle_Inr(1) [OF r(2)] by auto
  ultimately show ?thesis using that bounded r(3,4,6) by metis
qed

lemma load_Inr:
  assumes "load_settings_at K fam S fs = (Inr s, fs')"
  obtains gs initial where "fs_home gs = fs_home fs" "fs_dir gs = fs_dir fs"
    "settings_node fam (fs_files gs) = settings_node fam (fs_files fs)"
    "trusted_directory fam (fs_home fs) (fs_dir fs)" "fs_files gs SETTINGS_FILE = Some initial"
    "trusted_file fam (fs_dir fs) initial" "read_settings K fam S initial gs = (Inr s, fs')"
proof -
  from assms obtain dir g1 u g2 f g3 where v: "verify_settings_directory K fam fs = (Inr dir, g1)"
    "when_windows fam (recover_windows_settings K fam) g1 = (Inr u, g2)"
    "inspect_settings_file K fam SETTINGS_FILE g2 = (Inr f, g3)"
    "(case f of None \<Rightarrow> io_fail ''settings file does not exist''
      | Some initial \<Rightarrow> read_settings K fam S initial) g3 = (Inr s, fs')"
    unfolding load_settings_at_def bind_Inr_iff by blast
  then obtain initial where i: "f = Some initial" "read_settings K fam S initial g3 = (Inr s, fs')"
    by (cases f) auto
  have g2: "fs_home g2 = fs_home g1" "fs_dir g2 = fs_dir g1"
    "settings_node fam (fs_files g2) = settings_node fam (fs_files g1)"
    using v(2) recover_Inr [of K fam g1 u g2]
    by (auto simp: when_windows_def return_Inr_iff split: if_splits)
  show ?thesis using that [of g3 initial] verify_Inr [OF v(1)] g2 inspect_Inr [OF v(3)] i
    by (simp add: place_def)
qed


text \<open>
  What is loaded is what was kept. When nobody swaps the file and reads return its data, settings
  are loaded from the settings the directory holds, the staged ones on Windows when a save was
  interrupted; a kernel that refuses calls makes the load fail, never return anything else.
\<close>

theorem load_returns_the_kept_settings:
  assumes "load_settings_at K fam S fs = (Inr s, fs')"
    and "\<And>n nd. k_swap K n nd = nd" "\<And>n d. k_read K n d = d"
  shows "\<exists>bytes v. kept fam (fs_files fs) = Some bytes \<and> length bytes \<le> MAX_SETTINGS_BYTES \<and>
    parse_json S bytes = Inr v \<and> s = settings_from_json v"
  using assms(1)
proof (rule load_Inr)
  fix gs nd
  assume gs: "settings_node fam (fs_files gs) = settings_node fam (fs_files fs)" "fs_files gs SETTINGS_FILE = Some nd"
    "trusted_file fam (fs_dir fs) nd" and r: "read_settings K fam S nd gs = (Inr s, fs')"
  from r show ?thesis
  proof (rule read_Inr)
    fix f n m opened bytes v
    assume f: "fs_files gs SETTINGS_FILE = Some f"
      "opened = k_swap K n f \<or> k_follow K n = Some opened \<and> nd_kind (k_swap K n f) = Link"
      "bytes = k_read K m (nd_data opened)" "length bytes \<le> MAX_SETTINGS_BYTES"
      "parse_json S bytes = Inr v" "s = settings_from_json v"
    have "opened = nd" using f(1,2) gs(2,3) assms(2) by (auto simp: trusted_file_def)
    then have "kept fam (fs_files fs) = Some bytes"
      using gs(1) [symmetric] gs(2) f(3) assms(3) by (simp add: kept_node) (simp add: settings_node_def)
    then show ?thesis using f(4-6) by blast
  qed
qed

section \<open>A save and a load\<close>

text \<open>What a save keeps of settings that validation accepts.\<close>

lemma settings_json_round_trip:
  assumes "1 \<le> st_workers s" "st_workers s \<le> 64" "1 \<le> st_reconnect_secs s" "st_reconnect_secs s \<le> 3600"
    "1 \<le> st_report_secs s" "st_report_secs s \<le> 3600"
  shows "settings_from_json (persisted_json s) =
    s\<lparr>st_pool := sanitize_endpoint (trim (st_pool s)), st_user := trim (st_user s), st_password := ''x''\<rparr>"
  using assms
proof -
  have "clamp n lo hi = n" if "lo \<le> n" "n \<le> hi" for n lo hi :: u64
    using that by (auto simp: clamp_def)
  then show ?thesis using assms
    by (cases s; cases "st_reward_route s")
       (simp_all add: settings_from_json_def persisted_json_def json_access Let_def persisted_def
         settings_default_def)
qed

text \<open>Runs that leave the directory and the home directory as they are.\<close>

definition steady :: "'a io \<Rightarrow> bool" where
  "steady m \<longleftrightarrow> (\<forall>fs. fs_home (snd (m fs)) = fs_home fs \<and> fs_dir (snd (m fs)) = fs_dir fs)"

lemma steadyD: "steady m \<Longrightarrow> m fs = (r, fs') \<Longrightarrow> fs_home fs' = fs_home fs \<and> fs_dir fs' = fs_dir fs"
  by (auto simp: steady_def dest: spec [of _ fs])

lemma steady_bind: "steady m \<Longrightarrow> (\<And>x. steady (f x)) \<Longrightarrow> steady (io_bind m f)"
  by (auto simp: steady_def io_bind_def split: sum.splits prod.splits) (metis snd_conv)+

lemma steady_basic [simp]:
  "steady (io_return x)" "steady (io_fail e)" "steady (io_ensure c e)"
  "steady (stat_dir K)" "steady (stat_home K)" "steady (stat_file K name)"
  "steady (sync_file K name)" "steady (sync_dir K)" "steady (path_exists K name)" "steady (rename K name name')" "steady (remove_file K name)"
  by (auto simp: steady_def io_return_def io_fail_def io_ensure_def stat_dir_def stat_home_def
      stat_file_def sync_file_def sync_dir_def path_exists_def rename_def remove_file_def sys_def put_files_def Let_def
      split: option.splits)

lemma steady_wrap [simp]:
  "steady (io_context what m) = steady m" "steady (io_try m) = steady m"
  by (simp_all add: steady_def io_context_def io_try_def split: prod.splits) (metis snd_conv surj_pair)+

lemma steady_checks [simp]:
  "steady (verify_settings_directory K fam)" "steady (inspect_settings_file K fam name)"
  "steady (recover_windows_settings K fam)" "steady (replace_settings_file K fam temporary)"
  unfolding verify_settings_directory_def inspect_settings_file_def recover_windows_settings_def
    replace_settings_file_def
  by (auto intro!: steady_bind split: option.split bool.split sum.split)

lemma saved_directory_trusted:
  assumes "save_settings_at K fam S s fs = (Inr (), fs')"
  shows "trusted_directory fam (fs_home fs') (fs_dir fs')"
proof -
  let ?last = "if fam = Unix then io_context ''cannot sync settings directory'' (sync_dir K) else io_return ()"
  from assms obtain temporary g dir h x k l where v: "verify_settings_directory K fam g = (Inr dir, h)"
    and rest: "inspect_settings_file K fam SETTINGS_FILE h = (Inr x, k)"
      "replace_settings_file K fam temporary k = (Inr (), l)" "?last l = (Inr (), fs')"
    unfolding save_settings_at_def bind_Inr_iff by (auto simp: bind_Inr_iff split: option.splits)
  have "steady ?last" by simp
  from steadyD [OF steady_checks(2) rest(1)] steadyD [OF steady_checks(4) rest(2)] steadyD [OF this rest(3)]
    verify_Inr(2,3) [OF v]
  show ?thesis by (simp add: place_def)
qed

text \<open>Calls that are not refused, on a directory and a file that are trusted.\<close>

lemma sys_granted: "k_refuse K (fs_calls fs) = None \<Longrightarrow>
    sys K act fs = act (fs_calls fs) (fs\<lparr>fs_calls := fs_calls fs + 1\<rparr>)"
  by (simp add: sys_def Let_def)

lemma verify_granted:
  assumes "\<And>n. k_refuse K n = None" "trusted_directory fam (fs_home fs) (fs_dir fs)"
  shows "\<exists>dir fs'. verify_settings_directory K fam fs = (Inr dir, fs') \<and> place fs' = place fs \<and> fs_dir fs = Some dir"
  using assms
  by (auto simp: verify_settings_directory_def trusted_directory_def io_bind_def io_context_def map_err_def
      stat_dir_def stat_home_def sys_granted io_ensure_def io_return_def place_def ok_or_def
      split: option.splits)

lemma inspect_granted:
  assumes "\<And>n. k_refuse K n = None" "trusted_directory fam (fs_home fs) (fs_dir fs)"
    "fs_files fs name = Some nd" "trusted_file fam (fs_dir fs) nd"
  shows "\<exists>fs'. inspect_settings_file K fam name fs = (Inr (Some nd), fs') \<and> place fs' = place fs"
proof -
  let ?g = "fs\<lparr>fs_calls := fs_calls fs + 1\<rparr>"
  obtain dir fs' where v: "verify_settings_directory K fam ?g = (Inr dir, fs')" "place fs' = place ?g" "fs_dir ?g = Some dir"
    using verify_granted [of K fam ?g] assms(1,2) by auto
  then show ?thesis using assms(1,3,4)
    by (auto simp: inspect_settings_file_def trusted_file_def io_bind_def io_context_def map_err_def
        stat_file_def sys_granted io_ensure_def io_return_def place_def)
qed

lemma read_granted:
  assumes "\<And>n. k_refuse K n = None" "\<And>n nd. k_swap K n nd = nd" "\<And>n d. k_read K n d = d"
    "fs_files fs SETTINGS_FILE = Some nd" "nd_kind nd = Regular" "length (nd_data nd) \<le> MAX_SETTINGS_BYTES"
    "parse_json S (nd_data nd) = Inr v"
  shows "fst (read_settings K fam S nd fs) = Inr (settings_from_json v)"
  using assms
  by (auto simp: read_settings_def io_bind_def io_context_def map_err_def open_file_def fstat_def
      read_file_def sys_granted io_ensure_def io_return_def)

text \<open>
  C25: Settings survive a restart: where a rename replaces a file, what a successful save wrote is loaded
  back with the endpoint stripped of its credentials, the label trimmed and the password forgotten,
  provided that the program runs as the owner of the directory, that the text is within the limit
  and parses to the value it was printed from, and that the load is not disturbed.
\<close>

theorem saved_settings_load_back:
  assumes "save_settings_at K fam S s fs = (Inr (), fs')" "fs_past fs = []" "fam \<noteq> Windows"
    and "\<And>n. map_option nd_owner (fs_dir fs') = Some (nd_owner (k_new K n))"
    and "parse_json S (show_json S (persisted_json s)) = Inr (persisted_json s)"
    and "length (show_json S (persisted_json s)) \<le> MAX_SETTINGS_BYTES"
    and "1 \<le> st_workers s" "st_workers s \<le> 64" "1 \<le> st_reconnect_secs s" "st_reconnect_secs s \<le> 3600"
      "1 \<le> st_report_secs s" "st_report_secs s \<le> 3600"
    and "\<And>n. k_refuse J n = None" "\<And>n nd. k_swap J n nd = nd" "\<And>n d. k_read J n d = d"
  shows "fst (load_settings_at J fam S fs') =
    Inr (s\<lparr>st_pool := sanitize_endpoint (trim (st_pool s)), st_user := trim (st_user s), st_password := ''x''\<rparr>)"
proof -
  have trusted: "trusted_directory fam (fs_home fs') (fs_dir fs')" by (rule saved_directory_trusted [OF assms(1)])
  obtain nd n where nd: "fs_files fs' SETTINGS_FILE = Some nd" "nd_data nd = show_json S (persisted_json s)"
    "nd_kind nd = Regular" "fam = Unix \<longrightarrow> nd_mode nd = 384" "nd_owner nd = nd_owner (k_new K n)"
    using save_outcome [OF assms(1,2)] by (auto simp: private_file_def)
  have own: "trusted_file fam (fs_dir fs') nd"
    using nd(3-5) assms(4) [of n] by (simp add: trusted_file_def shared_write_def)
  obtain dir g where g: "verify_settings_directory J fam fs' = (Inr dir, g)" "place g = place fs'"
    using verify_granted [OF assms(13) trusted] by blast
  obtain h where h: "inspect_settings_file J fam SETTINGS_FILE g = (Inr (Some nd), h)" "place h = place g"
    using inspect_granted [OF assms(13), of fam g SETTINGS_FILE nd] trusted own nd(1) g(2) by (auto simp: place_def)
  have "fst (read_settings J fam S nd h) = Inr (settings_from_json (persisted_json s))"
    by (rule read_granted [OF assms(13-15)]) (use g(2) h(2) nd(1-3) assms(5,6) in \<open>simp_all add: place_def\<close>)
  then show ?thesis using g(1) h(1) assms(3)
    by (simp add: load_settings_at_def io_bind_def when_windows_def io_return_def
        settings_json_round_trip [OF assms(7-12)])
qed

section \<open>Crash reports\<close>

text \<open>The name of a report is not a name of the settings.\<close>

lemma report_name_new:
  "report_name t p n a \<noteq> SETTINGS_FILE" "report_name t p n a \<noteq> windows_settings_backup"
  by (simp_all add: report_name_def CRASH_REPORT_PREFIX_def SETTINGS_FILE_def windows_settings_backup_def)

lemma quiet_always: "quiet m \<Longrightarrow> m fs = (r, fs') \<Longrightarrow> view fs' = view fs"
  by (metis quiet_def snd_conv)

text \<open>A report that was written: a new file whose contents are on the disk.\<close>

definition filed :: "kernel \<Rightarrow> os_family \<Rightarrow> files \<Rightarrow> str \<Rightarrow> str \<Rightarrow> files \<Rightarrow> bool" where
  "filed K fam base path report F \<longleftrightarrow> fresh_file K fam base path report F \<and> flushed (F path)"

lemma fill_report_outcome:
  assumes "fill_report K fam path report fs = (r, fs')" "always (safe fam base C) (view fs)"
    "fresh_file K fam base path [] (fs_files fs)"
  shows "always (safe fam base C) (view fs') \<and>
    (\<forall>p. r = Inr p \<longrightarrow> p = path \<and> filed K fam base path report (fs_files fs'))"
proof -
  let ?A = "always (safe fam base C)"
  let ?P = "\<lambda>v. ?A v \<and> fresh_file K fam base path [] (fst v)"
  let ?Q = "\<lambda>v. ?A v \<and> fresh_file K fam base path report (fst v) \<and> flushed (fst v path)"
  have written: "triple ?P (io_context c (io_bind (write_all K path report) (\<lambda>_. sync_file K path))) (\<lambda>_. ?Q) ?A" for c
    by (rule triple_written)
  have "triple ?P (fill_report K fam path report) (\<lambda>p v. p = path \<and> ?Q v) ?A"
    unfolding fill_report_def
    by (rule triple_bind [OF triple_quiet'], simp, blast, rule triple_bind [OF triple_quiet'], simp, blast,
        rule triple_bind [OF triple_quiet'], simp, blast,
        rule triple_bind [OF written],
        rule triple_bind [OF triple_quiet'], simp, blast, rule triple_return, blast)
  from tripleD [OF this, of fs] assms show ?thesis by (cases r) (auto simp: view_def filed_def)
qed

lemma ends_then: "ends m (\<lambda>_. Q) \<Longrightarrow> ends (io_bind m (\<lambda>_. io_return y)) (\<lambda>_. Q)"
  by (auto simp: ends_def bind_Inr_iff return_Inr_iff)

lemma fill_report_flushes: "ends (fill_report K Unix path report) (\<lambda>_ fs. fs_disk fs = [fs_files fs])"
  unfolding fill_report_def
  by (rule ends_bind, rule ends_bind, rule ends_bind, rule ends_bind, rule ends_then)
     (simp add: ends_sync_dir)

lemma report_attempts_outcome:
  "report_attempts K fam t report a fs = (r, fs') \<Longrightarrow> always (safe fam base C) (view fs) \<Longrightarrow>
     always (safe fam base C) (view fs') \<and>
     (\<forall>p. r = Inr p \<longrightarrow> filed K fam base p report (fs_files fs') \<and> (fam = Unix \<longrightarrow> fs_disk fs' = [fs_files fs']))"
proof (induction K fam t report a fs rule: report_attempts.induct)
  case (1 K fam t report a fs)
  show ?case
  proof (cases "a \<ge> 32")
    case True
    then show ?thesis using 1(2,3) by (auto simp: report_attempts.simps)
  next
    case False
    define gs where "gs = fs\<lparr>fs_report_sequence := fs_report_sequence fs + 1\<rparr>"
    define path where "path = report_name t (k_pid K) (fs_report_sequence fs) a"
    obtain c hs where c: "create_new K fam path gs = (c, hs)" by fastforce
    have r: "(case c of Inl e \<Rightarrow> (Inl (''cannot create crash report: '' @ e), hs)
        | Inr True \<Rightarrow> fill_report K fam path report hs
        | Inr False \<Rightarrow> report_attempts K fam t report (a + 1) hs) = (r, fs')"
      using 1(2) unfolding report_attempts.simps [of K fam t report a fs] if_not_P [OF False] Let_def
        c [unfolded path_def gs_def] prod.case path_def gs_def .
    have g: "always (safe fam base C) (view gs)" using 1(3) by (simp add: gs_def view_def)
    from c show ?thesis
    proof (cases rule: create_new_cases)
      case 2
      have "always (safe fam base C) (view hs)" using g 2 by simp
      then show ?thesis
        using 1(1) [OF False refl refl refl c [unfolded path_def gs_def, symmetric] 2(1) refl] r 2 by simp
    next
      case 3
      have "create_new K fam path gs = (Inr True, hs)" using c 3(1) by simp
      from created_fresh [OF this g] fill_report_outcome [of K fam path report hs r fs' base C]
        fill_report_flushes [of K path report]
      show ?thesis using r 3(1) report_name_new by (auto simp: path_def ends_def)
    qed (use r g in auto)
  qed
qed

text \<open>
  C29: A crash report overwrites nothing. Whatever calls are refused and after whichever step the
  program stops, the settings and every other file are as they were, also after a loss of power at
  any step when they were on the disk before; a report that was written is a new file with at most
  128 KiB of text, the whole report when it fits. On Unix only its owner can read it, and no loss of
  power after that takes it away.
\<close>

theorem crash_report_overwrites_nothing:
  assumes "write_crash_report_at K fam report fs = (r, fs')" "fs_past fs = []"
  shows "(\<forall>F \<in> set (fs_files fs' # fs_past fs'). kept fam F = kept fam (fs_files fs) \<and>
      (\<forall>name. fs_files fs name \<noteq> None \<and> name \<noteq> SETTINGS_FILE \<and> name \<noteq> windows_settings_backup \<longrightarrow>
         F name = fs_files fs name)) \<and>
    (on_disk (fs_files fs) \<longrightarrow> (\<forall>F \<in> set (fs_files fs # fs_files fs' # fs_past fs'). \<forall>F'. crash_image F F' \<longrightarrow>
      kept fam F' = kept fam (fs_files fs) \<and>
      (\<forall>name. fs_files fs name \<noteq> None \<and> name \<noteq> SETTINGS_FILE \<and> name \<noteq> windows_settings_backup \<longrightarrow>
         F' name = fs_files fs name))) \<and>
    (\<forall>path. r = Inr path \<longrightarrow> fs_files fs path = None \<and>
       (\<exists>nd. fs_files fs' path = Some nd \<and> (fam = Unix \<longrightarrow> nd_mode nd = 384) \<and>
          length (nd_data nd) \<le> MAX_CRASH_REPORT_BYTES \<and>
          (length report \<le> MAX_CRASH_REPORT_BYTES \<longrightarrow> nd_data nd = report) \<and>
          (fam = Unix \<longrightarrow> (\<forall>F \<in> set (fs_disk fs'). \<forall>F'. crash_image F F' \<longrightarrow> F' path = Some nd))))"
proof -
  let ?C = "{kept fam (fs_files fs)}"
  let ?I = "safe fam (fs_files fs) ?C"
  let ?text = "bounded_text report MAX_CRASH_REPORT_BYTES TRUNCATED_REPORT_SUFFIX
            (length report > MAX_CRASH_REPORT_BYTES)"
  have first: "?I (fs_files fs)" by (auto simp: safe_def on_disk_def)
  then have start: "always ?I (view fs)" using assms(2) by (simp add: always_def view_def)
  have run: "always ?I (view fs')" "\<And>p. r = Inr p \<Longrightarrow> filed K fam (fs_files fs) p ?text (fs_files fs')"
    "\<And>p. r = Inr p \<Longrightarrow> fam = Unix \<Longrightarrow> fs_disk fs' = [fs_files fs']"
  proof -
    obtain e gs where g: "ensure_settings_directory K fam fs = (e, gs)" by fastforce
    have "always ?I (view gs)" using start quiet_always [OF quiet_ensure_directory g] by simp
    then have "always ?I (view fs') \<and> (\<forall>p. r = Inr p \<longrightarrow>
        filed K fam (fs_files fs) p ?text (fs_files fs') \<and> (fam = Unix \<longrightarrow> fs_disk fs' = [fs_files fs']))"
      using assms(1) g
      by (cases e) (auto simp: write_crash_report_at_def io_bind_def dest: report_attempts_outcome)
    then show "always ?I (view fs')" "\<And>p. r = Inr p \<Longrightarrow> filed K fam (fs_files fs) p ?text (fs_files fs')"
      "\<And>p. r = Inr p \<Longrightarrow> fam = Unix \<Longrightarrow> fs_disk fs' = [fs_files fs']" by blast+
  qed
  have safe: "?I F" if "F \<in> set (fs_files fs # fs_files fs' # fs_past fs')" for F
    using run(1) first that by (auto simp: always_def view_def)
  have stopped: "kept fam F = kept fam (fs_files fs) \<and>
      (\<forall>name. fs_files fs name \<noteq> None \<and> name \<noteq> SETTINGS_FILE \<and> name \<noteq> windows_settings_backup \<longrightarrow>
         F name = fs_files fs name)" if "F \<in> set (fs_files fs' # fs_past fs')" for F
    using safe [of F] that by (simp add: safe_def)
  have lost: "kept fam F' = kept fam (fs_files fs) \<and>
      (\<forall>name. fs_files fs name \<noteq> None \<and> name \<noteq> SETTINGS_FILE \<and> name \<noteq> windows_settings_backup \<longrightarrow>
         F' name = fs_files fs name)"
    if "on_disk (fs_files fs)" "F \<in> set (fs_files fs # fs_files fs' # fs_past fs')" "crash_image F F'" for F F'
    using safe_image [OF safe [OF that(2)] that(1,3)] by simp
  have "fs_files fs path = None \<and> (\<exists>nd. fs_files fs' path = Some nd \<and> (fam = Unix \<longrightarrow> nd_mode nd = 384) \<and>
      length (nd_data nd) \<le> MAX_CRASH_REPORT_BYTES \<and>
      (length report \<le> MAX_CRASH_REPORT_BYTES \<longrightarrow> nd_data nd = report) \<and>
      (fam = Unix \<longrightarrow> (\<forall>F \<in> set (fs_disk fs'). \<forall>F'. crash_image F F' \<longrightarrow> F' path = Some nd)))"
    if written: "r = Inr path" for path
  proof -
    obtain nd where nd: "fs_files fs path = None" "fs_files fs' path = Some nd" "nd_data nd = ?text"
      "fam = Unix \<longrightarrow> nd_mode nd = 384" "flushed (fs_files fs' path)"
      using run(2) [OF written] by (auto simp: filed_def fresh_file_def private_file_def)
    have "length ?text \<le> MAX_CRASH_REPORT_BYTES" by (rule bounded_text_length)
    moreover have "length report \<le> MAX_CRASH_REPORT_BYTES \<Longrightarrow> ?text = report" by (simp add: bounded_text_def)
    moreover have "fam = Unix \<Longrightarrow> crash_image (fs_files fs') F' \<Longrightarrow> F' path = Some nd" for F'
      using flushed_image [of "fs_files fs'" F' path] nd(2,5) by simp
    ultimately show ?thesis using nd(1-4) run(3) [OF written] by simp
  qed
  with stopped lost show ?thesis by blast
qed

section \<open>A run\<close>

definition calm_kernel :: kernel where
  "calm_kernel = \<lparr>k_refuse = (\<lambda>_. None), k_swap = (\<lambda>_ nd. nd), k_follow = (\<lambda>_. None),
     k_written = (\<lambda>_. 0), k_read = (\<lambda>_ d. d),
     k_new = (\<lambda>n. \<lparr>nd_kind = Regular, nd_id = n, nd_owner = 1, nd_mode = 384, nd_data = [], nd_disk = [[]]\<rparr>),
     k_clock = (\<lambda>n. n), k_pid = 7\<rparr>"

definition home_node :: node where
  "home_node = \<lparr>nd_kind = Directory, nd_id = 1, nd_owner = 1, nd_mode = 448, nd_data = [], nd_disk = [[]]\<rparr>"

definition demo_files :: file_system where
  "demo_files = \<lparr>fs_home = Some home_node, fs_dir = Some home_node, fs_files = (\<lambda>_. None), fs_calls = 0,
     fs_temp_sequence = 0, fs_report_sequence = 0, fs_past = [], fs_disk = [\<lambda>_. None]\<rparr>"

definition tiny_serde :: serde where
  "tiny_serde = \<lparr>parse_json = (\<lambda>_. Inr (persisted_json settings_default)), show_json = (\<lambda>_. ''{}'')\<rparr>"

lemma demo_directory_trusted: "trusted_directory fam (fs_home demo_files) (fs_dir demo_files)"
  by (simp add: trusted_directory_def demo_files_def home_node_def shared_write_def)

lemma calm_refuses_nothing: "k_refuse calm_kernel n = None"
  by (simp add: calm_kernel_def)

lemma calm_owner: "nd_owner (k_new calm_kernel n) = 1"
  by (simp add: calm_kernel_def)

lemma demo_save: "\<exists>fs'. save_settings_at calm_kernel Unix tiny_serde settings_default demo_files = (Inr (), fs') \<and>
    fs_dir fs' = Some home_node"
  by (simp add: save_settings_at_def ensure_settings_directory_def verify_settings_directory_def
      inspect_settings_file_def replace_settings_file_def when_windows_def io_bind_def io_context_def io_return_def
      io_ensure_def map_err_def stat_dir_def stat_home_def stat_file_def sys_granted calm_refuses_nothing
      create_temporary.simps create_new_def empty_file_def with_mode_def put_files_def sync_file_def sync_dir_def flushed_node_def write_all_def rename_def Let_def ok_or_def
      with_data_def tiny_serde_def temporary_name_new temporary_name_new [symmetric] demo_files_def home_node_def shared_write_def
      calm_owner numeral_nat upt_rec)

lemma demo_past: "fs_past demo_files = []"
  by (simp add: demo_files_def)

lemma save_survives_power_loss_witness:
  "\<exists>fs'. save_settings_at calm_kernel Unix tiny_serde settings_default demo_files = (Inr (), fs') \<and>
     kept Unix (fs_files fs') = Some ''{}'' \<and>
     (\<forall>F \<in> set (fs_past fs'). \<forall>F'. crash_image F F' \<longrightarrow> kept Unix F' \<in> {None, Some ''{}''}) \<and>
     (\<forall>F \<in> set (fs_disk fs'). \<forall>F'. crash_image F F' \<longrightarrow> kept Unix F' = Some ''{}'')"
proof -
  obtain fs' where fs': "save_settings_at calm_kernel Unix tiny_serde settings_default demo_files = (Inr (), fs')"
    using demo_save by blast
  have "kept Unix (fs_files demo_files) = None" "on_disk (fs_files demo_files)"
    by (simp_all add: kept_def demo_files_def on_disk_def)
  with save_survives_power_loss [OF fs' demo_past]
  have "kept Unix (fs_files fs') = Some ''{}''"
    "\<forall>F \<in> set (fs_past fs'). \<forall>F'. crash_image F F' \<longrightarrow> kept Unix F' \<in> {None, Some ''{}''}"
    "\<forall>F \<in> set (fs_disk fs'). \<forall>F'. crash_image F F' \<longrightarrow> kept Unix F' = Some ''{}''"
    by (simp_all add: tiny_serde_def)
  then show ?thesis using fs' by blast
qed

lemma saved_settings_load_back_witness:
  "\<exists>fs'. save_settings_at calm_kernel Unix tiny_serde settings_default demo_files = (Inr (), fs') \<and>
     fst (load_settings_at calm_kernel Unix tiny_serde fs') =
       Inr (settings_default\<lparr>st_pool := sanitize_endpoint ''127.0.0.1:3333'', st_user := ''xus-miner''\<rparr>)"
proof -
  obtain fs' where fs': "save_settings_at calm_kernel Unix tiny_serde settings_default demo_files = (Inr (), fs')"
    "fs_dir fs' = Some home_node" using demo_save by blast
  have "trim ''xus-miner'' = ''xus-miner''" by code_simp
  then show ?thesis using saved_settings_load_back [OF fs'(1) demo_past, of calm_kernel] fs'
    by (simp add: home_node_def calm_kernel_def tiny_serde_def MAX_SETTINGS_BYTES_def settings_default_def
        default_settings_ok)
qed

text \<open>A directory with a settings file.\<close>

definition filled_files :: file_system where
  "filled_files = demo_files\<lparr>fs_files := [SETTINGS_FILE \<mapsto>
     \<lparr>nd_kind = Regular, nd_id = 5, nd_owner = 1, nd_mode = 384, nd_data = ''{}'', nd_disk = [''{}'']\<rparr>]\<rparr>"

lemma filled_load: "fst (load_settings_at calm_kernel Unix tiny_serde filled_files) =
    Inr (settings_from_json (persisted_json settings_default))"
  by (simp add: load_settings_at_def read_settings_def verify_settings_directory_def inspect_settings_file_def
      when_windows_def io_bind_def io_context_def io_return_def io_ensure_def map_err_def stat_dir_def
      stat_home_def stat_file_def open_file_def fstat_def read_file_def sys_granted calm_refuses_nothing ok_or_def
      filled_files_def demo_files_def home_node_def shared_write_def tiny_serde_def MAX_SETTINGS_BYTES_def)
     (simp add: calm_kernel_def MAX_SETTINGS_BYTES_def)


lemma load_returns_the_kept_settings_witness:
  "\<exists>s v. fst (load_settings_at calm_kernel Unix tiny_serde filled_files) = Inr s \<and>
     parse_json tiny_serde ''{}'' = Inr v \<and> s = settings_from_json v"
proof -
  obtain s fs' where l: "load_settings_at calm_kernel Unix tiny_serde filled_files = (Inr s, fs')"
    using filled_load by (metis surjective_pairing)
  have "kept Unix (fs_files filled_files) = Some ''{}''" by (simp add: kept_def filled_files_def)
  with load_returns_the_kept_settings [OF l] l show ?thesis by (auto simp: calm_kernel_def)
qed

lemma crash_report_overwrites_nothing_witness:
  "\<exists>path fs'. write_crash_report_at calm_kernel Unix ''boom'' demo_files = (Inr path, fs') \<and>
     (\<exists>nd. fs_files fs' path = Some nd \<and> nd_data nd = ''boom'')"
proof -
  have short: "bounded_text ''boom'' MAX_CRASH_REPORT_BYTES TRUNCATED_REPORT_SUFFIX
      (length ''boom'' > MAX_CRASH_REPORT_BYTES) = ''boom''"
    by (simp add: bounded_text_def MAX_CRASH_REPORT_BYTES_def)
  have "\<exists>path fs'. write_crash_report_at calm_kernel Unix ''boom'' demo_files = (Inr path, fs')"
    unfolding write_crash_report_at_def short
    by (simp add: ensure_settings_directory_def verify_settings_directory_def
        report_attempts.simps fill_report_def io_bind_def io_context_def io_return_def io_ensure_def map_err_def
        stat_dir_def stat_home_def stat_file_def sys_granted calm_refuses_nothing create_new_def empty_file_def with_mode_def put_files_def
        sync_file_def sync_dir_def flushed_node_def write_all_def Let_def ok_or_def with_data_def demo_files_def home_node_def shared_write_def
        calm_owner numeral_nat upt_rec)
  then obtain path fs' where w: "write_crash_report_at calm_kernel Unix ''boom'' demo_files = (Inr path, fs')" by blast
  from crash_report_overwrites_nothing [OF w demo_past] w show ?thesis by (auto simp: MAX_CRASH_REPORT_BYTES_def)
qed

end
