(* ===== verification/Window.thy ===== *)
theory Window
  imports Supervision FileLoad
begin

text \<open>
  The window around the supervisor (\<open>src/gui.rs\<close>): the memory scan in the background, the frame
  (\<open>logic\<close>), what the operator can change in the controls, and the closing of the window (\<open>drop\<close>).
  Widgets are the drawing library's: what the operator did with each in a frame is an argument, and
  a disabled widget takes no input. The machine \<open>win_step\<close> refines the supervisor's, and its theorems
  say that the settings shown are those the engine was started with, and that closing the window
  leaves no engine behind and never waits for a reader that a living engine holds open.
\<close>

section \<open>The memory scan\<close>

text \<open>
  On macOS a probe runs in a thread of its own and delivers one reading; elsewhere the counters
  are read at once.
\<close>

record memory_scan =
  sc_probe :: bool
  sc_last :: "instant option"

type_synonym reading = "str + (u64 \<times> u64)"

datatype probe_message = ProbeResult reading | ProbePending | ProbeGone

record scan_answers =
  sn_macos :: bool
  sn_message :: probe_message
  sn_started :: bool
  sn_reading :: reading

definition MEMORY_REFRESH_INTERVAL :: nat where "MEMORY_REFRESH_INTERVAL = 10 * nanos_per_sec"

definition snapshot_of :: "reading \<Rightarrow> memory_snapshot option" where
  "snapshot_of r = (case r of Inr (available, ram) \<Rightarrow> memory_snapshot_from_readings available ram | Inl _ \<Rightarrow> None)"

text \<open>
  The reading of a start: that of the probe under way, waited for, or a new one; a wait that ends
  without one is an error.
\<close>

definition refresh_memory_now :: "surroundings \<Rightarrow> reading \<Rightarrow> memory_scan \<times> miner_app \<Rightarrow> memory_scan \<times> miner_app" where
  "refresh_memory_now w r = (\<lambda>(sc, a).
     (sc\<lparr>sc_probe := False, sc_last := Some (now w)\<rparr>, a\<lparr>ma_memory_snapshot := snapshot_of r\<rparr>))"

definition poll_memory_probe :: "probe_message \<Rightarrow> memory_scan \<times> miner_app \<Rightarrow> memory_scan \<times> miner_app" where
  "poll_memory_probe message = (\<lambda>(sc, a).
     if \<not> sc_probe sc then (sc, a)
     else let sc = sc\<lparr>sc_probe := False\<rparr>
       in case message of
            ProbeResult r \<Rightarrow> (sc, a\<lparr>ma_memory_snapshot := snapshot_of r\<rparr>)
          | ProbePending \<Rightarrow> (sc\<lparr>sc_probe := True\<rparr>, a)
          | ProbeGone \<Rightarrow> (sc, a\<lparr>ma_memory_snapshot := None\<rparr>))"

definition scan_due :: "surroundings \<Rightarrow> memory_scan \<Rightarrow> bool" where
  "scan_due w sc \<longleftrightarrow> (case sc_last sc of None \<Rightarrow> True | Some t \<Rightarrow> now w - t \<ge> MEMORY_REFRESH_INTERVAL)"

definition refresh_memory_if_due ::
  "surroundings \<Rightarrow> scan_answers \<Rightarrow> memory_scan \<times> miner_app \<Rightarrow> memory_scan \<times> miner_app"
where
  "refresh_memory_if_due w n s =
     (if sn_macos n
      then case poll_memory_probe (sn_message n) s of (sc, a) \<Rightarrow>
        if \<not> sc_probe sc \<and> scan_due w sc
        then let sc = sc\<lparr>sc_probe := sn_started n, sc_last := Some (now w)\<rparr>
             in (sc, if \<not> sc_probe sc then a\<lparr>ma_memory_snapshot := None\<rparr> else a)
        else (sc, a)
      else if scan_due w (fst s) then refresh_memory_now w (sn_reading n) s
      else s)"

section \<open>A frame\<close>

definition logic ::
  "surroundings \<Rightarrow> scan_answers \<Rightarrow> poll_answers \<Rightarrow> memory_scan \<times> miner_app \<Rightarrow> (memory_scan \<times> miner_app) \<times> proc_event list"
where
  "logic w n p s =
     (case refresh_memory_if_due w n s of (sc, a) \<Rightarrow>
      case poll_process w p a of (a, evs) \<Rightarrow>
        ((sc, if \<not> telemetry_is_fresh w a then a\<lparr>ma_stable_hashing_since := None\<rparr> else a), evs))"

section \<open>The controls\<close>

record operator_input =
  oi_route :: "reward_route option"
  oi_pool :: "str option"
  oi_user :: "str option"
  oi_password :: "str option"
  oi_workers :: "u64 option"
  oi_acknowledged :: "bool option"
  oi_reconnect_secs :: "u64 option"
  oi_report_secs :: "u64 option"
  oi_clear_log :: bool
  oi_button :: bool

definition given :: "'b option \<Rightarrow> ('b \<Rightarrow> 'a \<Rightarrow> 'a) \<Rightarrow> 'a \<Rightarrow> 'a" where
  "given x f a = (case x of Some v \<Rightarrow> f v a | None \<Rightarrow> a)"

definition edit_route :: "operator_input \<Rightarrow> settings \<Rightarrow> settings" where
  "edit_route i = given (oi_route i) (\<lambda>r s. s\<lparr>st_reward_route := r\<rparr>)"

definition edit_connection :: "operator_input \<Rightarrow> settings \<Rightarrow> settings" where
  "edit_connection i =
     given (oi_password i) (\<lambda>p s. s\<lparr>st_password := p\<rparr>) \<circ>
     given (oi_user i) (\<lambda>u s. s\<lparr>st_user := u\<rparr>) \<circ>
     given (oi_pool i) (\<lambda>p s. s\<lparr>st_pool := p\<rparr>)"

text \<open>Another number of workers withdraws the confirmation of the memory.\<close>

definition edit_workers :: "operator_input \<Rightarrow> miner_app \<Rightarrow> miner_app" where
  "edit_workers i = given (oi_workers i) (\<lambda>n a.
     a\<lparr>ma_settings := (ma_settings a)\<lparr>st_workers := clamp n 1 64\<rparr>, ma_memory_acknowledged := False\<rparr>)"

text \<open>The confirmation is offered only when the scan is unavailable.\<close>

definition acknowledge :: "operator_input \<Rightarrow> miner_app \<Rightarrow> miner_app" where
  "acknowledge i a =
     (if ma_memory_snapshot a = None
      then given (oi_acknowledged i) (\<lambda>c a. a\<lparr>ma_memory_acknowledged := c\<rparr>) a else a)"

definition edit_advanced :: "operator_input \<Rightarrow> settings \<Rightarrow> settings" where
  "edit_advanced i =
     given (oi_report_secs i) (\<lambda>n s. s\<lparr>st_report_secs := clamp n 1 3600\<rparr>) \<circ>
     given (oi_reconnect_secs i) (\<lambda>n s. s\<lparr>st_reconnect_secs := clamp n 1 3600\<rparr>)"

definition edit_settings :: "(settings \<Rightarrow> settings) \<Rightarrow> miner_app \<Rightarrow> miner_app" where
  "edit_settings f a = a\<lparr>ma_settings := f (ma_settings a)\<rparr>"

definition press_button :: "surroundings \<Rightarrow> start_answers \<Rightarrow> stop_answers \<Rightarrow> bool \<Rightarrow> operator_input \<Rightarrow> miner_app \<Rightarrow> supervised" where
  "press_button w s t running i a =
     (if oi_button i then if running then stop w t a else start w s a else (a, []))"

definition controls :: "surroundings \<Rightarrow> start_answers \<Rightarrow> stop_answers \<Rightarrow> operator_input \<Rightarrow> miner_app \<Rightarrow> supervised" where
  "controls w s t i a =
     (let running = is_running a;
          a = (if running then a else edit_settings (edit_route i) a);
          a = (if running then a else edit_settings (edit_connection i) a);
          a = (if running then a else edit_workers i a);
          a = (if running then a else acknowledge i a);
          a = (if running then a else edit_settings (edit_advanced i) a)
      in press_button w s t running i a)"

definition clear_log :: "operator_input \<Rightarrow> miner_app \<Rightarrow> miner_app" where
  "clear_log i a = (if oi_clear_log i then a\<lparr>ma_logs := []\<rparr> else a)"

section \<open>Closing the window\<close>

definition drop_child :: "child_answers \<Rightarrow> nat option \<Rightarrow> bool \<times> proc_event list" where
  "drop_child answers child =
     (case child of None \<Rightarrow> (True, [])
      | Some c \<Rightarrow> (case terminate_and_reap_child answers of Inr _ \<Rightarrow> (True, [Reaped c]) | Inl _ \<Rightarrow> (False, [])))"

text \<open>
  \<open>Drop for MinerApp\<close>. Besides the state: the files, the processes reaped and the readers that are
  waited for.
\<close>

definition drop_app ::
  "bool \<Rightarrow> kernel \<Rightarrow> surroundings \<Rightarrow> serde \<Rightarrow> child_answers \<Rightarrow> child_answers \<Rightarrow> (nat \<Rightarrow> bool) \<Rightarrow> (nat \<Rightarrow> bool) \<Rightarrow>
   file_system \<Rightarrow> miner_app \<Rightarrow> miner_app \<times> file_system \<times> proc_event list \<times> nat list"
where
  "drop_app has_home K w S active quarantined finished panicked fs a =
     (let (_, fs) = save_settings has_home K (family w) S (ma_settings a) fs;
          (active_reaped, xs) = drop_child active (ma_child a);
          a = a\<lparr>ma_child := None\<rparr>;
          (quarantined_reaped, ys) = drop_child quarantined (ma_quarantined_child a);
          a = a\<lparr>ma_quarantined_child := None\<rparr>;
          a = a\<lparr>ma_receiver := False\<rparr>
      in if active_reaped \<and> quarantined_reaped
         then (join_reader_threads w panicked a, fs, xs @ ys, ma_reader_threads a)
         else (snd (join_finished_reader_threads w finished panicked a), fs, xs @ ys,
               List.filter finished (ma_reader_threads a)))"

section \<open>What the handlers leave alone\<close>

text \<open>Every handler keeps the settings.\<close>

named_theorems settings_kept \<open>operations that keep the settings\<close>

lemma restart_settings [settings_kept]:
  "ma_settings (schedule_automatic_restart w reason a) = ma_settings a"
  "ma_settings (fail_engine_start w e automatic a) = ma_settings a"
  "ma_settings (cancel_recovery w a) = ma_settings a"
  "ma_settings (kill_child w k a) = ma_settings a"
  "ma_settings (reader_lost w k a) = ma_settings a"
  "ma_settings (log_report w r a) = ma_settings a"
  "ma_settings (engine_gone a) = ma_settings a"
  "ma_settings (escalate w st a) = ma_settings a"
  "ma_settings (reset_telemetry a) = ma_settings a"
  "ma_settings (announce_start w automatic m a) = ma_settings a"
  by (simp_all add: schedule_automatic_restart_def fail_engine_start_def cancel_recovery_def kill_child_def
      reader_lost_def log_report_def engine_gone_def clear_active_work_def escalate_def reset_telemetry_def
      announce_start_def Let_def frame_simps
      split: sum.split recovery_escalation_kind.split del: append_Cons append_Nil)

lemma fold_log_settings:
  "ma_settings (fold (\<lambda>t a. if q t then push_log w x True a else a) ts a) = ma_settings a"
  by (induction ts arbitrary: a) (simp_all add: frame_simps)

lemma reader_settings [settings_kept]:
  "ma_settings (join_reader_threads w panicked a) = ma_settings a"
  "ma_settings (snd (join_finished_reader_threads w finished panicked a)) = ma_settings a"
  by (simp_all add: join_reader_threads_def join_finished_reader_threads_def fold_log_settings
      fold_log_settings [where q = "\<lambda>t. finished t \<and> panicked t" for finished panicked])

lemma exit_settings [settings_kept]:
  "ma_settings (finish_observation_failure w r a) = ma_settings a"
  "ma_settings (finish_exited_child w r st a) = ma_settings a"
  by (simp_all add: finish_observation_failure_def finish_exited_child_def Let_def frame_simps settings_kept)

lemma observation_settings [settings_kept]:
  "ma_settings (fst (begin_observation_failure w c x e a)) = ma_settings a"
  by (simp add: begin_observation_failure_def Let_def frame_simps split: option.split sum.split)

lemma start_settings [settings_kept]:
  "ma_settings (prepare_start w s automatic a) = ma_settings a"
  "ma_settings (fst (attach_engine w s automatic child a)) = ma_settings a"
  by (simp_all add: prepare_start_def attach_engine_def Let_def frame_simps settings_kept split: sum.split)

lemma start_engine_settings [settings_kept]: "ma_settings (fst (start_engine w s automatic a)) = ma_settings a"
  by (simp add: start_engine_def Let_def settings_kept case_prod_beta split: sum.split option.split)

lemma operator_settings [settings_kept]:
  "ma_settings (fst (start w s a)) = ma_settings a"
  "ma_settings (fst (stop w t a)) = ma_settings a"
  by (simp_all add: start_def settings_kept stop_def stop_without_child_def Let_def frame_simps
      split: option.split sum.split prod.split)

lemma drain_settings [settings_kept]:
  "ma_settings (snd (drain_process_messages w queue gone a)) = ma_settings a"
  using drain_keeps [of w queue gone a] by (cases "drain_process_messages w queue gone a") (simp add: keeps_le_def sup_of_def)

lemma poll_settings [settings_kept]:
  "ma_settings (fst (poll_observe w p a)) = ma_settings a"
  "ma_settings (poll_failure w p gone a) = ma_settings a"
  "ma_settings (fst (poll_quarantine w p a)) = ma_settings a"
  "ma_settings (poll_exit w p gone a) = ma_settings a"
  "ma_settings (poll_reader w p had gone a) = ma_settings a"
  "ma_settings (fst (poll_restart w p a)) = ma_settings a"
  by (simp_all add: poll_observe_def poll_failure_def poll_quarantine_def poll_exit_def poll_reader_def
      poll_restart_def Let_def frame_simps settings_kept case_prod_beta split: option.split sum.split)

lemma poll_process_settings [settings_kept]: "ma_settings (fst (poll_process w p a)) = ma_settings a"
  by (simp add: poll_process_def Let_def case_prod_beta settings_kept)

text \<open>No handler takes back what the recovery has settled for the next launch.\<close>

named_theorems recovery_kept \<open>operations that keep the latches of the recovery\<close>

abbreviation recovers :: "miner_app \<Rightarrow> miner_app \<Rightarrow> bool" where
  "recovers a b \<equiv> (ma_single_worker_recovery a \<longrightarrow> ma_single_worker_recovery b) \<and>
     (ma_light_randomx_recovery a \<longrightarrow> ma_light_randomx_recovery b)"

lemma restart_recovers [recovery_kept]:
  "recovers a (schedule_automatic_restart w reason a)" "recovers a (cancel_recovery w a)"
  "recovers a (kill_child w k a)" "recovers a (reader_lost w k a)" "recovers a (log_report w r a)"
  "recovers a (engine_gone a)" "recovers a (escalate w st a)" "recovers a (reset_telemetry a)"
  "recovers a (announce_start w automatic m a)"
  by (auto simp: schedule_automatic_restart_def cancel_recovery_def kill_child_def
      reader_lost_def log_report_def engine_gone_def clear_active_work_def escalate_def reset_telemetry_def
      announce_start_def Let_def frame_simps
      split: sum.split recovery_escalation_kind.split del: append_Cons append_Nil)

lemma fail_start_recovers [recovery_kept]: "recovers a (fail_engine_start w e automatic a)"
  by (simp add: fail_engine_start_def Let_def frame_simps recovery_kept)

lemma fold_log_recovers: "recovers a (fold (\<lambda>t a. if q t then push_log w x True a else a) ts a)"
  by (induction ts arbitrary: a) (simp_all add: frame_simps)

lemma reader_recovers [recovery_kept]:
  "recovers a (join_reader_threads w panicked a)"
  "recovers a (snd (join_finished_reader_threads w finished panicked a))"
  using fold_log_recovers [of "a\<lparr>ma_reader_threads := []\<rparr>"]
  by (simp_all add: join_reader_threads_def join_finished_reader_threads_def)

lemma exit_recovers [recovery_kept]:
  "recovers a (finish_observation_failure w r a)" "recovers a (finish_exited_child w r st a)"
  by (simp_all add: finish_observation_failure_def finish_exited_child_def Let_def frame_simps recovery_kept)

lemma observation_recovers [recovery_kept]: "recovers a (fst (begin_observation_failure w c x e a))"
  by (simp add: begin_observation_failure_def Let_def frame_simps split: option.split sum.split)

lemma start_recovers [recovery_kept]:
  "recovers a (prepare_start w s automatic a)" "recovers a (fst (attach_engine w s automatic child a))"
  by (simp_all add: prepare_start_def attach_engine_def Let_def frame_simps recovery_kept split: sum.split)

lemma start_engine_recovers [recovery_kept]: "recovers a (fst (start_engine w s automatic a))"
  by (simp add: start_engine_def Let_def recovery_kept case_prod_beta split: sum.split option.split)

lemma stop_recovers [recovery_kept]: "recovers a (fst (stop w t a))"
  by (simp add: stop_def stop_without_child_def Let_def frame_simps recovery_kept
      split: option.split sum.split prod.split)

lemma drain_recovers [recovery_kept]: "recovers a (snd (drain_process_messages w queue gone a))"
  using drain_keeps [of w queue gone a] by (cases "drain_process_messages w queue gone a") (simp add: keeps_le_def sup_of_def)

lemma poll_recovers [recovery_kept]:
  "recovers a (fst (poll_observe w p a))" "recovers a (poll_failure w p gone a)"
  "recovers a (fst (poll_quarantine w p a))" "recovers a (poll_exit w p gone a)"
  "recovers a (poll_reader w p had gone a)" "recovers a (fst (poll_restart w p a))"
  by (simp_all add: poll_observe_def poll_failure_def poll_quarantine_def poll_exit_def poll_reader_def
      poll_restart_def Let_def frame_simps recovery_kept case_prod_beta split: option.split sum.split)

lemma poll_process_recovers [recovery_kept]: "recovers a (fst (poll_process w p a))"
  by (simp add: poll_process_def Let_def case_prod_beta recovery_kept)

text \<open>Nothing but a new process makes the interface run.\<close>

definition rests :: "miner_app \<Rightarrow> miner_app \<Rightarrow> bool" where
  "rests a b \<longleftrightarrow> keeps_children a b \<and> ma_automatic_restart_at b = ma_automatic_restart_at a"

lemma rests_running: "rests a b \<Longrightarrow> is_running b = is_running a"
  by (simp add: rests_def keeps_children_def is_running_def has_live_engine_state_def)

lemma not_running:
  assumes "\<not> is_running a"
  shows "ma_child a = None" "ma_quarantined_child a = None" "ma_pending_exit a = None"
    "ma_pending_observation_failure a = None" "ma_automatic_restart_at a = None"
  using assms by (auto simp: is_running_def has_live_engine_state_def)

lemma poll_idle:
  assumes "\<not> is_running a" "poll_process w p a = (b, evs)"
  shows "\<not> is_running b"
proof -
  obtain d c where c: "drain_process_messages w (po_queue p) (po_senders_gone p) a = (d, c)" by fastforce
  have "rests a c" using drain_keeps [OF c] by (simp add: rests_def keeps_children_def keeps_le_def sup_of_def)
  then have idle: "\<not> is_running c" using assms(1) rests_running by blast
  then have "b = poll_reader w p (ma_receiver a) d c"
    using assms(2) not_running [OF idle]
    by (auto simp: poll_process_def c poll_observe_def poll_failure_def poll_quarantine_def poll_exit_def
        poll_restart_def poll_reader_def Let_def split: if_splits)
  moreover have "rests c (poll_reader w p (ma_receiver a) d c)"
    using not_running [OF idle] by (simp add: poll_reader_def rests_def keeps_children_def)
  ultimately show ?thesis using idle rests_running by blast
qed

lemma start_idle:
  assumes "\<not> is_running a" "start w s a = (b, evs)" "is_running b"
  shows "\<exists>child. Spawned child \<in> set evs"
proof (rule ccontr)
  assume none: "\<nexists>child. Spawned child \<in> set evs"
  note no = not_running [OF assms(1)]
  have failed: "\<not> is_running (fail_engine_start w e False c)" if "rests a c" for e c
  proof -
    have "rests c (fail_engine_start w e False c)"
      by (simp add: rests_def keeps_children_def fail_engine_start_def frame_simps)
    then show ?thesis using that assms(1) rests_running by blast
  qed
  define a1 where "a1 = a\<lparr>ma_automatic_restart_attempts := 0, ma_single_worker_recovery := False,
    ma_light_randomx_recovery := False, ma_automatic_recovery_enabled := True, ma_automatic_restart_at := None\<rparr>"
  define a2 where "a2 = a1\<lparr>ma_memory_snapshot := sa_memory s\<rparr>"
  have r: "rests a a1" "rests a a2" using no by (simp_all add: rests_def keeps_children_def a1_def a2_def)
  have r3: "rests a (prepare_start w s False a2)"
    using prepare_start_children [of a2 w s False] r(2) no by (auto simp: rests_def keeps_children_def)
  have "start w s a = start_engine w s False (a\<lparr>ma_automatic_restart_attempts := 0,
      ma_single_worker_recovery := False, ma_light_randomx_recovery := False, ma_automatic_recovery_enabled := True\<rparr>)"
    using assms(1) by (simp add: start_def)
  then have "\<exists>e c. rests a c \<and> b = fail_engine_start w e False c"
    using assms(2) none r r3 no
    by (auto simp: start_engine_def has_live_engine_state_def Let_def a1_def [symmetric] a2_def [symmetric]
        split: sum.splits option.splits prod.splits)
  then show False using failed assms(3) by blast
qed

section \<open>What an engine is handed\<close>

text \<open>The arguments and the password that were handed to an engine last.\<close>

type_synonym handed = "str list \<times> str option"

definition last_handed :: "proc_event list \<Rightarrow> handed option \<Rightarrow> handed option" where
  "last_handed evs g =
     fold (\<lambda>e g. case e of Handed child args password \<Rightarrow> Some (args, password) | _ \<Rightarrow> g) evs g"

lemma last_handed_simps [simp]:
  "last_handed [] g = g" "last_handed (Spawned child # evs) g = last_handed evs g"
  "last_handed (Reaped child # evs) g = last_handed evs g"
  "last_handed (Handed child args password # evs) g = last_handed evs (Some (args, password))"
  "last_handed (xs @ ys) g = last_handed ys (last_handed xs g)"
  by (simp_all add: last_handed_def)

text \<open>
  That they are those of the settings: one worker instead of the number in the settings, and the light
  mode, only when the recovery has settled that.
\<close>

definition from_settings :: "miner_app \<Rightarrow> handed \<Rightarrow> bool" where
  "from_settings a = (\<lambda>(args, password). \<exists>n light scanned acknowledged.
     args = headless_command (ma_settings a) n light scanned acknowledged \<and>
     (n = st_workers (ma_settings a) \<or> n = 1 \<and> ma_single_worker_recovery a) \<and>
     (light \<longrightarrow> ma_light_randomx_recovery a) \<and>
     (password = None \<or> password = Some (st_password (ma_settings a))))"

lemma from_settings_mono:
  "from_settings a h \<Longrightarrow> ma_settings b = ma_settings a \<Longrightarrow> recovers a b \<Longrightarrow> from_settings b h"
  unfolding from_settings_def by (cases h) auto

lemma from_settings_launch: "from_settings a (launch_arguments w a, password_handed s a)"
  unfolding from_settings_def launch_arguments_def prod.case
  by (rule exI [of _ "effective_workers w a"], rule exI [of _ "ma_light_randomx_recovery a"],
      rule exI [of _ "ma_memory_snapshot a \<noteq> None"], rule exI [of _ "ma_memory_acknowledged a"])
     (auto simp: effective_workers_def effective_engine_workers_def password_handed_def split: option.split sum.split)

text \<open>Only a start hands anything over.\<close>

lemma attach_hands_nothing: "last_handed (snd (attach_engine w s automatic child a)) g = g"
  by (simp add: attach_engine_def Let_def split: sum.split)

lemma others_hand_nothing:
  "last_handed (snd (begin_observation_failure w c x e a)) g = g"
  "last_handed (snd (poll_observe w p a)) g = g"
  "last_handed (snd (poll_quarantine w p a)) g = g"
  "last_handed (snd (stop w t a)) g = g"
  by (simp_all add: begin_observation_failure_def poll_observe_def poll_quarantine_def stop_def stop_without_child_def
      Let_def split: option.split sum.split)

lemma start_engine_hands:
  assumes "start_engine w s automatic a = (b, evs)"
  shows "evs = [] \<or> (\<exists>h. from_settings b h \<and> (\<forall>g. last_handed evs g = Some h))"
proof -
  have "\<exists>h. from_settings b h \<and> (\<forall>g. last_handed evs g = Some h)"
    if at: "attach_engine w s automatic child c = (b, xs)"
      and evs: "evs = Spawned child # Handed child (launch_arguments w c) (password_handed s c) # xs" for child c xs
  proof -
    have "ma_settings b = ma_settings c" "recovers c b"
      using start_settings(2) [of w s automatic child c] start_recovers(2) [of c w s automatic child] at by simp_all
    then have "from_settings b (launch_arguments w c, password_handed s c)"
      using from_settings_mono [OF from_settings_launch] by blast
    then show ?thesis using attach_hands_nothing [of w s automatic child c] at evs by auto
  qed
  then show ?thesis using assms
    by (auto simp: start_engine_def Let_def simp del: append_Cons split: if_splits sum.splits option.splits prod.splits)
qed

lemma start_hands:
  assumes "start w s a = (b, evs)"
  shows "evs = [] \<or> (\<exists>h. from_settings b h \<and> (\<forall>g. last_handed evs g = Some h))"
  using assms start_engine_hands by (auto simp: start_def split: if_splits)

lemma poll_process_hands:
  assumes "poll_process w p a = (b, evs)"
  shows "last_handed evs g = g \<or> (\<exists>h. from_settings b h \<and> last_handed evs g = Some h)"
proof -
  obtain gone a1 where a1: "drain_process_messages w (po_queue p) (po_senders_gone p) a = (gone, a1)" by fastforce
  obtain a2 xs where a2: "poll_observe w p a1 = (a2, xs)" by fastforce
  define a3 where "a3 = poll_failure w p gone a2"
  obtain a4 ys where a4: "poll_quarantine w p a3 = (a4, ys)" by fastforce
  define a6 where "a6 = poll_reader w p (ma_receiver a) gone (poll_exit w p gone a4)"
  obtain a7 zs where a7: "poll_restart w p a6 = (a7, zs)" by fastforce
  have eq: "b = a7" "evs = xs @ ys @ zs"
    using assms by (simp_all add: poll_process_def Let_def a1 a2 a4 a7 a3_def [symmetric] a6_def [symmetric])
  have "last_handed xs g = g" "last_handed ys g = g"
    using others_hand_nothing(2) [of w p a1 g] others_hand_nothing(3) [of w p a3 g] a2 a4 by simp_all
  moreover have "zs = [] \<or> (\<exists>h. from_settings a7 h \<and> (\<forall>g. last_handed zs g = Some h))"
    using a7 start_engine_hands by (auto simp: poll_restart_def split: if_splits option.splits)
  ultimately show ?thesis by (auto simp: eq)
qed

section \<open>The machine of the window\<close>

text \<open>
  The window's state, the engines that run, and what the last engine was handed. A frame calls
  \<open>logic\<close> and then draws the controls and the log; an engine may end at any time.
\<close>

type_synonym window = "((memory_scan \<times> miner_app) \<times> nat set) \<times> handed option"

definition win_initial :: "window \<Rightarrow> bool" where
  "win_initial = (\<lambda>(((sc, a), L), g). \<not> sc_probe sc \<and> L = {} \<and> g = None \<and> (\<exists>st snap. a = app_default st snap))"

inductive win_step :: "window \<Rightarrow> window \<Rightarrow> bool" where
  win_exit: "L' \<subseteq> L \<Longrightarrow> win_step ((s, L), g) ((s, L'), g)"
| win_logic: "logic w n p s = ((sc, b), evs) \<Longrightarrow>
    win_step ((s, L), g) (((sc, b), after_events evs L), last_handed evs g)"
| win_ui: "controls w s t i a = (b, evs) \<Longrightarrow>
    win_step (((sc, a), L), g) (((sc, clear_log i b), after_events evs L), last_handed evs g)"

text \<open>A window is a supervisor to which a few things more happen.\<close>

definition supervised_part :: "window \<Rightarrow> supervisor_state" where
  "supervised_part = (\<lambda>(((sc, a), L), g). (a, L))"

lemma refresh_snapshot:
  "refresh_memory_if_due w n (sc, a) = (sc', b) \<Longrightarrow> \<exists>snap. b = a\<lparr>ma_memory_snapshot := snap\<rparr>"
  by (auto simp: refresh_memory_if_due_def refresh_memory_now_def poll_memory_probe_def Let_def
      split: if_splits probe_message.splits prod.splits intro: exI [of _ "ma_memory_snapshot a"])

lemma controls_cases:
  assumes "controls w s t i a = (b, evs)"
  obtains (stopped) "is_running a" "stop w t a = (b, evs)"
  | (started) st ack where "\<not> is_running a" "start w s (a\<lparr>ma_settings := st, ma_memory_acknowledged := ack\<rparr>) = (b, evs)"
  | (edited) st ack where "b = a\<lparr>ma_settings := st, ma_memory_acknowledged := ack\<rparr>" "evs = []"
      "is_running a \<longrightarrow> st = ma_settings a"
proof -
  define c where "c = edit_settings (edit_advanced i) (acknowledge i (edit_workers i
    (edit_settings (edit_connection i) (edit_settings (edit_route i) a))))"
  have "c = a\<lparr>ma_settings := ma_settings c, ma_memory_acknowledged := ma_memory_acknowledged c\<rparr>"
    by (cases "oi_workers i"; cases "oi_acknowledged i")
       (simp_all add: c_def edit_settings_def edit_workers_def acknowledge_def given_def)
  then obtain st ack where c: "c = a\<lparr>ma_settings := st, ma_memory_acknowledged := ack\<rparr>" by blast
  show thesis
  proof (cases "is_running a")
    case True
    then have "press_button w s t True i a = (b, evs)" using assms by (simp add: controls_def)
    then show thesis using True that(1) that(3) [of "ma_memory_acknowledged a" "ma_settings a"]
      by (cases "oi_button i") (simp_all add: press_button_def)
  next
    case False
    then have "press_button w s t False i c = (b, evs)" using assms by (simp add: controls_def c_def)
    then show thesis using False that(2) [of ack st] that(3) [of ack st]
      by (cases "oi_button i") (simp_all add: press_button_def c)
  qed
qed

text \<open>Every state of the window is one of the supervisor's.\<close>

lemma window_supervised:
  assumes "reach win_initial win_step s"
  shows "reach sup_initial sup_step (supervised_part s)"
  using assms
proof (induction rule: reach.induct)
  case (reach_init s)
  then show ?case
    by (intro reach.reach_init) (auto simp: win_initial_def sup_initial_def supervised_part_def)
next
  case (reach_step s t)
  note more = reach.reach_step [where initial = sup_initial and step = sup_step]
  have edit: "reach sup_initial sup_step (a\<lparr>ma_settings := st, ma_memory_acknowledged := ack,
      ma_memory_snapshot := snap\<rparr>, L)" if "reach sup_initial sup_step (a, L)" for a L st ack snap
    using more [OF that sup_edit] .
  from reach_step(2) show ?case
  proof cases
    case (win_exit L' L s g)
    then show ?thesis using more [OF reach_step.IH] by (auto simp: supervised_part_def intro: sup_exit split: prod.splits)
  next
    case (win_logic w n p s sc b evs L g)
    obtain sc0 a where s: "s = (sc0, a)" by fastforce
    obtain sc1 a1 where r: "refresh_memory_if_due w n (sc0, a) = (sc1, a1)" by fastforce
    obtain a2 xs where p: "poll_process w p a1 = (a2, xs)" by fastforce
    obtain snap where "a1 = a\<lparr>ma_memory_snapshot := snap\<rparr>" using refresh_snapshot [OF r] by blast
    then have "a1 = a\<lparr>ma_settings := ma_settings a, ma_memory_acknowledged := ma_memory_acknowledged a,
        ma_memory_snapshot := snap\<rparr>" by simp
    moreover have "reach sup_initial sup_step (a, L)"
      using reach_step.IH win_logic(1) s by (simp add: supervised_part_def)
    ultimately have "reach sup_initial sup_step (a1, L)" using edit by metis
    then have two: "reach sup_initial sup_step (a2, after_events xs L)" using more sup_poll [OF p] by blast
    have eq: "evs = xs" "b = (if \<not> telemetry_is_fresh w a2 then a2\<lparr>ma_stable_hashing_since := None\<rparr> else a2)"
      using win_logic(3) by (simp_all add: logic_def s r p)
    have "reach sup_initial sup_step (b, after_events evs L)"
      using two more [OF two sup_stale [of w a2]] unfolding eq by simp
    then show ?thesis using win_logic(2) by (simp add: supervised_part_def)
  next
    case (win_ui w s t i a b evs sc L g)
    have old: "reach sup_initial sup_step (a, L)" using reach_step.IH win_ui(1) by (simp add: supervised_part_def)
    note old' = edit [OF old, where snap = "ma_memory_snapshot a"]
    from win_ui(3) have new: "reach sup_initial sup_step (b, after_events evs L)"
    proof (cases rule: controls_cases)
      case stopped
      then show ?thesis using more [OF old sup_stop] by blast
    next
      case (started st ack)
      then show ?thesis using more [OF old' [where st = st and ack = ack] sup_start] by simp
    next
      case (edited st ack)
      then show ?thesis using old' [where st = st and ack = ack] by simp
    qed
    have "reach sup_initial sup_step (clear_log i b, after_events evs L)"
      using new more [OF new sup_clear] by (simp add: clear_log_def)
    then show ?thesis using win_ui(2) by (simp add: supervised_part_def)
  qed
qed

text \<open>
  C21: The window refines the supervisor: every state it reaches is one the supervisor reaches, so what
  holds of every run of the supervisor holds with the memory scan, the frames and the controls
  around it. In particular at most one engine runs, and it is one the window can stop: the child it
  holds or the one it holds in quarantine.
\<close>

theorem window_refines_supervisor:
  assumes "reach win_initial win_step (((sc, a), L), g)"
  shows "reach sup_initial sup_step (a, L) \<and> card L \<le> 1 \<and>
    (\<forall>p \<in> L. ma_child a = Some p \<or> ma_quarantined_child a = Some p)"
proof -
  have r: "reach sup_initial sup_step (a, L)"
    using window_supervised [OF assms] by (simp add: supervised_part_def)
  then have inv: "app_inv a" "L \<subseteq> owned a" using supervisor.inv_reach by (auto simp: sup_inv_def)
  then show ?thesis using r owned_card [OF inv] by (auto simp: owned_def)
qed

section \<open>Settings\<close>

definition win_inv :: "window \<Rightarrow> bool" where
  "win_inv = (\<lambda>(((sc, a), L), g). is_running a \<longrightarrow> (\<exists>h. g = Some h \<and> from_settings a h))"

interpretation gui_window: machine_invariant win_initial win_step win_inv
proof unfold_locales
  fix s assume "win_initial s"
  then show "win_inv s"
    by (auto simp: win_initial_def win_inv_def app_default_def is_running_def has_live_engine_state_def)
next
  fix s t assume inv: "win_inv s" and step: "win_step s t"
  from step show "win_inv t"
  proof cases
    case (win_exit L' L s g)
    then show ?thesis using inv by (cases s) (simp add: win_inv_def)
  next
    case (win_logic w n p s sc b evs L g)
    obtain sc0 a where s: "s = (sc0, a)" by fastforce
    obtain sc1 a1 where r: "refresh_memory_if_due w n (sc0, a) = (sc1, a1)" by fastforce
    obtain a2 xs where p: "poll_process w p a1 = (a2, xs)" by fastforce
    obtain snap where a1: "a1 = a\<lparr>ma_memory_snapshot := snap\<rparr>" using refresh_snapshot [OF r] by blast
    have eq: "evs = xs" "is_running b = is_running a2" "from_settings a2 h \<Longrightarrow> from_settings b h" for h
      using win_logic(3)
      by (auto simp: logic_def s r p is_running_def has_live_engine_state_def intro: from_settings_mono split: if_splits)
    have kept: "ma_settings b = ma_settings a" "recovers a b"
      using poll_process_settings [of w p a1] poll_process_recovers [of a1 w p] win_logic(3) p a1
      by (auto simp: logic_def s r split: if_splits)
    moreover have "is_running a1 = is_running a" by (simp add: a1 is_running_def has_live_engine_state_def)
    then have "is_running a2 \<Longrightarrow> is_running a" using poll_idle [OF _ p] by blast
    ultimately show ?thesis
      using inv win_logic(1,2) s eq poll_process_hands [OF p, of g] from_settings_mono [OF _ kept]
      by (auto simp: win_inv_def)
  next
    case (win_ui w s t i a b evs sc L g)
    have c: "is_running (clear_log i b) = is_running b" "from_settings b h \<Longrightarrow> from_settings (clear_log i b) h" for h
      by (auto simp: clear_log_def is_running_def has_live_engine_state_def intro: from_settings_mono)
    have g: "is_running a \<Longrightarrow> \<exists>h. g = Some h \<and> from_settings a h" using inv win_ui(1) by (simp add: win_inv_def)
    from win_ui(3) have "is_running b \<longrightarrow> (\<exists>h. last_handed evs g = Some h \<and> from_settings b h)"
    proof (cases rule: controls_cases)
      case stopped
      then have "ma_settings b = ma_settings a" "recovers a b" "last_handed evs g = g"
        using operator_settings(2) [of w t a] stop_recovers [of a w t] others_hand_nothing(4) [of w t a g] by simp_all
      then show ?thesis using g stopped(1) from_settings_mono by auto
    next
      case (started st ack)
      have "\<not> is_running (a\<lparr>ma_settings := st, ma_memory_acknowledged := ack\<rparr>)"
        using started(1) by (simp add: is_running_def has_live_engine_state_def)
      then have "is_running b \<Longrightarrow> evs \<noteq> []" using start_idle [OF _ started(2)] by auto
      then show ?thesis using start_hands [OF started(2)] by blast
    next
      case (edited st ack)
      then have "is_running b = is_running a" by (simp add: is_running_def has_live_engine_state_def)
      moreover have "from_settings b h" if "is_running a" "from_settings a h" for h
        using from_settings_mono [OF that(2), of b] edited that(1) by simp
      ultimately show ?thesis using g edited(2) by auto
    qed
    then show ?thesis using win_ui(2) c by (auto simp: win_inv_def)
  qed
qed

text \<open>
  C7: The settings shown are those of the engine. While an engine runs, is held, is winding up or is
  about to be restarted, the arguments and the password that the last engine was handed are those of the
  settings that are shown: endpoint, account and intervals of the command line are theirs, and so is the
  number of workers unless the recovery has settled for one, the light mode is asked for only when the
  recovery has settled for it, and the password is theirs or, when it could not be written,
  none. The controls change nothing under an engine, and a restart runs with what the operator started.
\<close>

theorem settings_shown_are_the_engines:
  assumes "reach win_initial win_step (((sc, a), L), g)" "L \<noteq> {} \<or> is_running a"
  shows "\<exists>n light scanned acknowledged password.
    g = Some (headless_command (ma_settings a) n light scanned acknowledged, password) \<and>
    (n = st_workers (ma_settings a) \<or> n = 1 \<and> ma_single_worker_recovery a) \<and>
    (light \<longrightarrow> ma_light_randomx_recovery a) \<and>
    (password = None \<or> password = Some (st_password (ma_settings a)))"
proof -
  have "sup_inv (a, L)"
    using supervisor.inv_reach window_supervised [OF assms(1)] by (auto simp: supervised_part_def)
  then have "is_running a"
    using assms(2) by (auto simp: sup_inv_def owned_def is_running_def has_live_engine_state_def)
  then obtain h where "g = Some h" "from_settings a h"
    using gui_window.inv_reach [OF assms(1)] by (auto simp: win_inv_def)
  then show ?thesis unfolding from_settings_def by (cases h) blast
qed

section \<open>Closing\<close>

text \<open>
  C10: Closing the window from any state it reaches: when the operating system lets the engine be
  reaped, none is left and every reader is waited for; whatever it answers, either no engine is
  left or only readers that have ended are waited for, so closing never waits for a living engine.
\<close>

theorem close_leaves_no_engine:
  assumes "reach sup_initial sup_step (a, L)"
    and "drop_app has_home K w S active quarantined finished panicked fs a = (b, fs', evs, joined)"
  shows "(after_events evs L = {} \<or> (\<forall>t \<in> set joined. finished t)) \<and>
    (\<not> isl (terminate_and_reap_child active) \<and> \<not> isl (terminate_and_reap_child quarantined) \<longrightarrow>
       after_events evs L = {} \<and> joined = ma_reader_threads a) \<and>
    set joined \<subseteq> set (ma_reader_threads a)"
proof -
  obtain r1 xs where 1: "drop_child active (ma_child a) = (r1, xs)" by fastforce
  obtain r2 ys where 2: "drop_child quarantined (ma_quarantined_child a) = (r2, ys)" by fastforce
  have L: "L \<subseteq> owned a" using supervisor.inv_reach [OF assms(1)] by (simp add: sup_inv_def)
  have drop: "drop_child c h = (True, evs) \<Longrightarrow> after_events evs L = L - {p. h = Some p}" for c h evs L
    by (auto simp: drop_child_def split: option.splits sum.splits)
  have reaped: "after_events (xs @ ys) L = {}" if "r1" "r2"
    using drop [of active "ma_child a" xs L] drop [of quarantined "ma_quarantined_child a" ys] 1 2 that L
    by (auto simp: owned_def)
  have sure: "\<not> isl (terminate_and_reap_child c) \<Longrightarrow> drop_child c h = (r, evs) \<Longrightarrow> r" for c h r evs
    by (auto simp: drop_child_def split: option.splits sum.splits)
  have "evs = xs @ ys" "joined = (if r1 \<and> r2 then ma_reader_threads a else List.filter finished (ma_reader_threads a))"
    using assms(2) 1 2 by (auto simp: drop_app_def Let_def split: prod.splits if_splits)
  then show ?thesis using reaped sure [OF _ 1] sure [OF _ 2] by auto
qed

section \<open>A run\<close>

definition press :: operator_input where
  "press = \<lparr>oi_route = None, oi_pool = None, oi_user = None, oi_password = None, oi_workers = None,
     oi_acknowledged = None, oi_reconnect_secs = None, oi_report_secs = None, oi_clear_log = False, oi_button = True\<rparr>"

definition reaping :: child_answers where
  "reaping = demo_children\<lparr>wait_answer := Inr \<lparr>exit_code = None, exit_signal = Some 9, exit_text = []\<rparr>\<rparr>"

lemma window_started:
  obtains sc a args where "reach win_initial win_step (((sc, a), {7}), Some (args, Some ''x''))"
    "reach sup_initial sup_step (a, {7})" "ma_settings a = settings_default"
proof -
  let ?a = "app_default settings_default None" and ?sc = "\<lparr>sc_probe = False, sc_last = Some 0\<rparr>"
  obtain b args where b: "start demo_world demo_answers ?a = (b, [Spawned 7, Handed 7 args (Some ''x'')])"
    by (rule started)
  have r: "reach win_initial win_step (((?sc, ?a), {}), None)"
    by (rule reach_init) (auto simp: win_initial_def)
  have "controls demo_world demo_answers demo_stop press ?a = (b, [Spawned 7, Handed 7 args (Some ''x'')])"
    using b by (simp add: controls_def press_button_def press_def edit_settings_def edit_route_def
      edit_connection_def edit_workers_def edit_advanced_def acknowledge_def given_def
      is_running_def has_live_engine_state_def app_default_def)
  from reach_step [OF r win_ui [OF this]]
  have "reach win_initial win_step (((?sc, b), {7}), Some (args, Some ''x''))"
    by (simp add: clear_log_def press_def)
  moreover have "ma_settings b = settings_default"
    using operator_settings(1) [of demo_world demo_answers ?a] b by (simp add: app_default_def)
  ultimately show thesis using that started_reach [OF b] by simp
qed

lemma window_refines_supervisor_witness:
  "\<exists>sc a g. reach win_initial win_step (((sc, a), {7}), g) \<and>
     reach sup_initial sup_step (a, {7}) \<and> (ma_child a = Some 7 \<or> ma_quarantined_child a = Some 7)"
proof -
  obtain sc a args where r: "reach win_initial win_step (((sc, a), {7}), Some (args, Some ''x''))"
    by (rule window_started)
  from window_refines_supervisor [OF r] r show ?thesis by blast
qed

lemma settings_shown_are_the_engines_witness:
  "\<exists>sc a n light scanned acknowledged.
     reach win_initial win_step (((sc, a), {7}),
       Some (headless_command settings_default n light scanned acknowledged, Some ''x'')) \<and>
     ma_settings a = settings_default"
proof -
  obtain sc a args where r: "reach win_initial win_step (((sc, a), {7}), Some (args, Some ''x''))"
    "ma_settings a = settings_default" by (rule window_started)
  from settings_shown_are_the_engines [OF r(1)] r(2) obtain n light scanned acknowledged
    where "args = headless_command settings_default n light scanned acknowledged" by auto
  then show ?thesis using r by blast
qed

lemma close_leaves_no_engine_witness:
  "\<exists>a b fs' evs joined. reach sup_initial sup_step (a, {7}) \<and>
     drop_app False calm_kernel demo_world tiny_serde reaping reaping (\<lambda>_. False) (\<lambda>_. False) demo_files a = (b, fs', evs, joined) \<and>
     after_events evs {7} = {} \<and> joined = ma_reader_threads a"
proof -
  obtain a where r: "reach sup_initial sup_step (a, {7})" by (rule window_started)
  obtain b fs' evs joined where d: "drop_app False calm_kernel demo_world tiny_serde reaping reaping (\<lambda>_. False) (\<lambda>_. False) demo_files a = (b, fs', evs, joined)"
    by (metis prod.collapse)
  have "\<not> isl (terminate_and_reap_child reaping)" 
    by (simp add: terminate_and_reap_child_def reaping_def demo_children_def map_err_def)
  then show ?thesis using close_leaves_no_engine [OF r d] r d by blast
qed

end
