(* ===== verification/WellFormed.thy ===== *)
theory WellFormed
  imports Window
begin

text \<open>
  The data of the interface keeps its shape (\<open>src/gui.rs\<close>): the operator log and the two histories
  stay within their bounds, whatever an engine writes and for as long as it goes on, no line of the
  log is long or blank, the ready workers are a set in ascending order with its size beside it, and
  the map of worker errors is one. Every handler keeps this, so every state a window reaches has it.
\<close>

definition log_line_ok :: "log_line \<Rightarrow> bool" where
  "log_line_ok l \<longleftrightarrow> length (ll_text l) \<le> MAX_STORED_LOG_BYTES \<and> trim (ll_text l) \<noteq> []"

definition ready_ok :: "u64 \<Rightarrow> u64 list \<Rightarrow> bool" where
  "ready_ok n ids \<longleftrightarrow> sorted ids \<and> distinct ids \<and> n = of_nat (length ids)"

definition well_formed :: "miner_app \<Rightarrow> bool" where
  "well_formed a \<longleftrightarrow>
     length (ma_logs a) \<le> MAX_LOG_LINES \<and> list_all log_line_ok (ma_logs a) \<and>
     length (ma_meter_history a) \<le> MAX_METER_SAMPLES \<and>
     length (ma_backlog_history a) \<le> MAX_BACKLOG_TREND_SAMPLES \<and>
     ready_ok (ma_ready_workers a) (ma_ready_worker_ids a) \<and> bt_ok (ma_worker_errors a)"

named_theorems shape_simps \<open>updates that keep the shape\<close>
named_theorems shape_intros \<open>operations that keep the shape\<close>

section \<open>Updates\<close>

lemma well_formed_untouched [shape_simps]:
  "well_formed (a\<lparr>ma_settings := x0\<rparr>) = well_formed a"
  "well_formed (a\<lparr>ma_phase := x1\<rparr>) = well_formed a"
  "well_formed (a\<lparr>ma_child := x2\<rparr>) = well_formed a"
  "well_formed (a\<lparr>ma_quarantined_child := x3\<rparr>) = well_formed a"
  "well_formed (a\<lparr>ma_pending_exit := x4\<rparr>) = well_formed a"
  "well_formed (a\<lparr>ma_pending_observation_failure := x5\<rparr>) = well_formed a"
  "well_formed (a\<lparr>ma_receiver := x6\<rparr>) = well_formed a"
  "well_formed (a\<lparr>ma_reader_threads := x7\<rparr>) = well_formed a"
  "well_formed (a\<lparr>ma_output_disconnected_at := x8\<rparr>) = well_formed a"
  "well_formed (a\<lparr>ma_requested_stop := x9\<rparr>) = well_formed a"
  "well_formed (a\<lparr>ma_automatic_recovery_enabled := x10\<rparr>) = well_formed a"
  "well_formed (a\<lparr>ma_automatic_restart_at := x11\<rparr>) = well_formed a"
  "well_formed (a\<lparr>ma_automatic_restart_attempts := x12\<rparr>) = well_formed a"
  "well_formed (a\<lparr>ma_single_worker_recovery := x13\<rparr>) = well_formed a"
  "well_formed (a\<lparr>ma_light_randomx_recovery := x14\<rparr>) = well_formed a"
  "well_formed (a\<lparr>ma_started_at := x15\<rparr>) = well_formed a"
  "well_formed (a\<lparr>ma_stable_hashing_since := x16\<rparr>) = well_formed a"
  "well_formed (a\<lparr>ma_hashrate := x17\<rparr>) = well_formed a"
  "well_formed (a\<lparr>ma_smoothed_hashrate := x18\<rparr>) = well_formed a"
  "well_formed (a\<lparr>ma_total_hashes := x19\<rparr>) = well_formed a"
  "well_formed (a\<lparr>ma_submitted := x20\<rparr>) = well_formed a"
  "well_formed (a\<lparr>ma_accepted := x21\<rparr>) = well_formed a"
  "well_formed (a\<lparr>ma_rejected := x22\<rparr>) = well_formed a"
  "well_formed (a\<lparr>ma_height := x23\<rparr>) = well_formed a"
  "well_formed (a\<lparr>ma_algorithm := x24\<rparr>) = well_formed a"
  "well_formed (a\<lparr>ma_job_id := x25\<rparr>) = well_formed a"
  "well_formed (a\<lparr>ma_job_observed_in_metrics := x26\<rparr>) = well_formed a"
  "well_formed (a\<lparr>ma_jobless_metrics_seen := x27\<rparr>) = well_formed a"
  "well_formed (a\<lparr>ma_last_found_block := x28\<rparr>) = well_formed a"
  "well_formed (a\<lparr>ma_coinbase := x29\<rparr>) = well_formed a"
  "well_formed (a\<lparr>ma_expected_hashes := x30\<rparr>) = well_formed a"
  "well_formed (a\<lparr>ma_round_hashes := x31\<rparr>) = well_formed a"
  "well_formed (a\<lparr>ma_round_probability := x32\<rparr>) = well_formed a"
  "well_formed (a\<lparr>ma_height_started_at := x33\<rparr>) = well_formed a"
  "well_formed (a\<lparr>ma_network_hashrate := x34\<rparr>) = well_formed a"
  "well_formed (a\<lparr>ma_target_block_ms := x35\<rparr>) = well_formed a"
  "well_formed (a\<lparr>ma_network_difficulty := x36\<rparr>) = well_formed a"
  "well_formed (a\<lparr>ma_last_error := x37\<rparr>) = well_formed a"
  "well_formed (a\<lparr>ma_mempool_size := x38\<rparr>) = well_formed a"
  "well_formed (a\<lparr>ma_peer_count := x39\<rparr>) = well_formed a"
  "well_formed (a\<lparr>ma_block_flow := x40\<rparr>) = well_formed a"
  "well_formed (a\<lparr>ma_observed_tip_height := x41\<rparr>) = well_formed a"
  "well_formed (a\<lparr>ma_tip_observed_at := x42\<rparr>) = well_formed a"
  "well_formed (a\<lparr>ma_last_metrics_at := x43\<rparr>) = well_formed a"
  "well_formed (a\<lparr>ma_worker_error_can_restore_mining := x44\<rparr>) = well_formed a"
  "well_formed (a\<lparr>ma_engine_fatal_seen := x45\<rparr>) = well_formed a"
  "well_formed (a\<lparr>ma_memory_acknowledged := x46\<rparr>) = well_formed a"
  "well_formed (a\<lparr>ma_memory_snapshot := x47\<rparr>) = well_formed a"
  "well_formed (a\<lparr>ma_node_link_live := x48\<rparr>) = well_formed a"
  by (simp_all add: well_formed_def)

lemma well_formed_cleared [shape_simps]:
  "well_formed a \<Longrightarrow> well_formed (a\<lparr>ma_logs := []\<rparr>)"
  "well_formed a \<Longrightarrow> well_formed (a\<lparr>ma_backlog_history := []\<rparr>)"
  "well_formed a \<Longrightarrow> well_formed (a\<lparr>ma_meter_history := []\<rparr>)"
  "well_formed a \<Longrightarrow> well_formed (a\<lparr>ma_worker_errors := []\<rparr>)"
  "well_formed a \<Longrightarrow> well_formed (a\<lparr>ma_ready_worker_ids := [], ma_ready_workers := 0\<rparr>)"
  "well_formed a \<Longrightarrow> well_formed (a\<lparr>ma_ready_workers := 0, ma_ready_worker_ids := []\<rparr>)"
  by (simp_all add: well_formed_def ready_ok_def bt_ok_def)

lemma list_all_newest: "list_all P xs \<Longrightarrow> list_all P (newest n xs)"
  using set_drop_subset [of "length xs - n" xs] by (auto simp: newest_def list_all_iff)

lemma well_formed_push_log [shape_intros]: "well_formed a \<Longrightarrow> well_formed (push_log w t e a)"
  by (simp add: push_log_def Let_def well_formed_def pop_excess_eq list_all_newest log_line_ok_def bounded_text_length)

lemma well_formed_unready [shape_intros]: "well_formed a \<Longrightarrow> well_formed (mark_worker_unready n a)"
  by (simp add: mark_worker_unready_def Let_def well_formed_def ready_ok_def distinct_removeAll
      removeAll_filter_not_eq sorted_wrt_filter)

lemma well_formed_ready [shape_intros]: "well_formed a \<Longrightarrow> well_formed (snd (mark_worker_ready w n a))"
proof -
  assume a: "well_formed a"
  let ?ids = "insort_insert n (ma_ready_worker_ids a)"
  have "sorted ?ids" "distinct ?ids"
    using a by (simp_all add: well_formed_def ready_ok_def sorted_insort_insert distinct_insort_insert)
  then have "well_formed (a\<lparr>ma_ready_worker_ids := ?ids, ma_ready_workers := of_nat (length ?ids),
      ma_worker_errors := bt_remove n (ma_worker_errors a)\<rparr>)"
    using a by (simp add: well_formed_def ready_ok_def bt_remove_def bt_ok_retain)
  then show "well_formed (snd (mark_worker_ready w n a))" using a
    by (auto simp: mark_worker_ready_def Let_def shape_simps split: list.split)
qed

section \<open>Telemetry\<close>

lemma well_formed_phases [shape_intros]:
  "well_formed a \<Longrightarrow> well_formed (enter_mining_phase a)"
  "well_formed a \<Longrightarrow> well_formed (enter_connection_phase p a)"
  "well_formed a \<Longrightarrow> well_formed (clear_active_work a)"
  "well_formed a \<Longrightarrow> well_formed (take_counters v a)"
  by (simp_all add: enter_mining_phase_def enter_connection_phase_def clear_active_work_def take_counters_def
      Let_def shape_simps split: list.split)

lemma well_formed_block_flow [shape_intros]: "well_formed a \<Longrightarrow> well_formed (on_block_flow w v a)"
  by (simp add: on_block_flow_def Let_def well_formed_def pop_excess_eq split: option.split)

lemma well_formed_metrics_history [shape_intros]: "well_formed a \<Longrightarrow> well_formed (metrics_history v a)"
  by (simp add: metrics_history_def Let_def well_formed_def pop_excess_eq)

lemma well_formed_metrics [shape_intros]:
  "well_formed a \<Longrightarrow> well_formed (metrics_rates w v a)"
  "well_formed a \<Longrightarrow> well_formed (metrics_work v a)"
  "well_formed a \<Longrightarrow> well_formed (metrics_round v a)"
  "well_formed a \<Longrightarrow> well_formed (metrics_stability w a)"
  by (simp_all add: metrics_rates_def metrics_work_def metrics_round_def metrics_stability_def Let_def
      shape_simps shape_intros split: option.split)

lemma well_formed_workers [shape_intros]:
  "well_formed a \<Longrightarrow> well_formed (on_worker_initializing w v a)"
  "well_formed a \<Longrightarrow> well_formed (on_worker_ready w what v a)"
  by (auto simp: on_worker_initializing_def on_worker_ready_def Let_def case_prod_beta shape_simps
      intro: shape_intros split: option.split bool.split)

lemma well_formed_worker_error [shape_intros]:
  assumes "well_formed a"
  shows "well_formed (on_worker_error w v a)"
proof -
  have "well_formed (b\<lparr>ma_worker_errors := bt_insert n m (ma_worker_errors b), ma_phase := Failed, ma_last_error := t\<rparr>)"
    if "well_formed b" for n m t b using that by (simp add: well_formed_def bt_ok_insert)
  then show ?thesis using assms
    by (simp add: on_worker_error_def Let_def shape_simps shape_intros split: option.split)
qed

lemma well_formed_events [shape_intros]:
  assumes "well_formed a"
  shows "well_formed (on_startup w v a)" "well_formed (on_connecting a)" "well_formed (on_pool_connected w a)"
    "well_formed (on_node_connected w a)" "well_formed (on_engine_fatal w v a)" "well_formed (on_job w v a)"
    "well_formed (on_job_cleared w v a)" "well_formed (on_network v a)" "well_formed (on_peers w v a)"
    "well_formed (on_chain_baseline w v a)" "well_formed (on_chain_block w v a)" "well_formed (on_chain_gap w v a)"
    "well_formed (on_chain_reorg w v a)" "well_formed (on_chain_feed_unavailable w v a)"
    "well_formed (on_metrics w v a)" "well_formed (on_session_error w v a)"
  using assms
  by (simp_all add: on_startup_def on_connecting_def on_pool_connected_def on_node_connected_def on_engine_fatal_def
      on_job_def on_job_cleared_def on_network_def on_peers_def on_chain_baseline_def on_chain_block_def on_chain_gap_def
      on_chain_reorg_def on_chain_feed_unavailable_def on_metrics_def on_session_error_def Let_def
      shape_simps shape_intros split: option.split del: append_Cons append_Nil)

lemma well_formed_telemetry [shape_intros]: "well_formed a \<Longrightarrow> well_formed (apply_telemetry w v a)"
  unfolding apply_telemetry_def Let_def
  by (simp add: shape_intros split: option.split)

lemma well_formed_drain [shape_intros]:
  "well_formed a \<Longrightarrow> well_formed (snd (drain_process_messages w queue gone a))"
proof -
  have "well_formed a \<Longrightarrow> well_formed (fold (apply_process_message w) ms a)" for ms a
    by (induction ms arbitrary: a)
       (simp_all add: apply_process_message_def shape_intros split: process_message.split)
  then show "well_formed a \<Longrightarrow> well_formed (snd (drain_process_messages w queue gone a))"
    by (simp add: drain_process_messages_def)
qed

section \<open>The supervisor\<close>

lemma well_formed_reset [shape_intros]: "well_formed a \<Longrightarrow> well_formed (reset_telemetry a)"
  by (simp add: reset_telemetry_def well_formed_def ready_ok_def bt_ok_def)

lemma well_formed_log_report [shape_intros]: "well_formed a \<Longrightarrow> well_formed (log_report w r a)"
  by (simp add: log_report_def shape_intros split: sum.split)

lemma well_formed_gone [shape_intros]: "well_formed a \<Longrightarrow> well_formed (engine_gone a)"
  by (simp add: engine_gone_def clear_active_work_def well_formed_def ready_ok_def)

lemma well_formed_schedule [shape_intros]: "well_formed a \<Longrightarrow> well_formed (schedule_automatic_restart w reason a)"
  by (simp add: schedule_automatic_restart_def Let_def shape_simps shape_intros split: sum.split recovery_escalation_kind.split
      del: append_Cons append_Nil)

lemma well_formed_escalate [shape_intros]: "well_formed a \<Longrightarrow> well_formed (escalate w st a)"
  by (simp add: escalate_def Let_def shape_simps shape_intros split: sum.split recovery_escalation_kind.split
      del: append_Cons append_Nil)

lemma well_formed_cancel [shape_intros]: "well_formed a \<Longrightarrow> well_formed (cancel_recovery w a)"
  by (simp add: cancel_recovery_def Let_def shape_simps shape_intros split: sum.split recovery_escalation_kind.split
      del: append_Cons append_Nil)

lemma well_formed_kill [shape_intros]: "well_formed a \<Longrightarrow> well_formed (kill_child w k a)"
  by (simp add: kill_child_def Let_def shape_simps shape_intros split: sum.split recovery_escalation_kind.split
      del: append_Cons append_Nil)

lemma well_formed_lost [shape_intros]: "well_formed a \<Longrightarrow> well_formed (reader_lost w k a)"
  by (simp add: reader_lost_def Let_def shape_simps shape_intros split: sum.split recovery_escalation_kind.split
      del: append_Cons append_Nil)

lemma well_formed_announce [shape_intros]: "well_formed a \<Longrightarrow> well_formed (announce_start w automatic m a)"
  unfolding announce_start_def Let_def by (auto intro!: shape_intros)

lemma well_formed_fail_start [shape_intros]: "well_formed a \<Longrightarrow> well_formed (fail_engine_start w e automatic a)"
  by (simp add: fail_engine_start_def Let_def shape_simps shape_intros)

lemma fold_log_shape:
  "well_formed a \<Longrightarrow> well_formed (fold (\<lambda>t a. if q t then push_log w x True a else a) ts a)"
  by (induction ts arbitrary: a) (simp_all add: shape_intros)

lemma well_formed_readers [shape_intros]:
  "well_formed a \<Longrightarrow> well_formed (join_reader_threads w panicked a)"
  "well_formed a \<Longrightarrow> well_formed (snd (join_finished_reader_threads w finished panicked a))"
  using fold_log_shape [where q = "\<lambda>t. finished t \<and> panicked t"]
  by (simp_all add: join_reader_threads_def join_finished_reader_threads_def fold_log_shape shape_simps)

lemma well_formed_ends [shape_intros]:
  assumes "well_formed a"
  shows "well_formed (finish_observation_failure w r a)" "well_formed (finish_exited_child w r st a)"
    "well_formed (fst (begin_observation_failure w c x e a))"
  using assms
  by (simp_all add: finish_observation_failure_def finish_exited_child_def begin_observation_failure_def Let_def
      shape_simps shape_intros split: option.split sum.split del: append_Cons append_Nil)

lemma well_formed_starts [shape_intros]:
  assumes "well_formed a"
  shows "well_formed (prepare_start w s automatic a)" "well_formed (fst (attach_engine w s automatic child a))"
  using assms
  by (simp_all add: prepare_start_def attach_engine_def Let_def shape_simps shape_intros split: sum.split
      del: append_Cons append_Nil)

lemma well_formed_start_engine [shape_intros]:
  "well_formed a \<Longrightarrow> well_formed (fst (start_engine w s automatic a))"
  by (simp add: start_engine_def Let_def case_prod_beta shape_simps shape_intros split: sum.split option.split
      del: append_Cons append_Nil)

lemma well_formed_stop_without [shape_intros]:
  "well_formed a \<Longrightarrow> well_formed (fst (stop_without_child w t canceled a))"
  by (cases "ma_quarantined_child a"; cases "terminate_and_reap_child (to_cleanup t)"; cases canceled)
     (simp_all only: stop_without_child_def Let_def option.case sum.case prod.case if_True if_False,
      simp_all only: fst_conv if_distrib [of fst] if_distrib [of well_formed] shape_simps shape_intros
        if_cancel simp_thms split: if_split)

lemma well_formed_start [shape_intros]: "well_formed a \<Longrightarrow> well_formed (fst (start w s a))"
  by (simp add: start_def shape_simps shape_intros)

lemma well_formed_stop [shape_intros]: "well_formed a \<Longrightarrow> well_formed (fst (stop w t a))"
  by (simp add: stop_def Let_def shape_simps shape_intros split: option.split sum.split)

lemma well_formed_poll_parts [shape_intros]:
  assumes "well_formed a"
  shows "well_formed (fst (poll_observe w p a))" "well_formed (poll_failure w p gone a)"
    "well_formed (fst (poll_quarantine w p a))" "well_formed (poll_exit w p gone a)"
    "well_formed (poll_reader w p had gone a)" "well_formed (fst (poll_restart w p a))"
  using assms
  by (simp_all add: poll_observe_def poll_failure_def poll_quarantine_def poll_exit_def poll_reader_def
      poll_restart_def Let_def case_prod_beta shape_simps shape_intros split: option.split sum.split
      del: append_Cons append_Nil)

lemma well_formed_poll [shape_intros]: "well_formed a \<Longrightarrow> well_formed (fst (poll_process w p a))"
  by (simp add: poll_process_def Let_def case_prod_beta shape_intros)

section \<open>The window\<close>

definition shape_inv :: "window \<Rightarrow> bool" where
  "shape_inv = (\<lambda>(((sc, a), L), g). well_formed a)"

interpretation shape: machine_invariant win_initial win_step shape_inv
proof unfold_locales
  fix s assume "win_initial s"
  then show "shape_inv s"
    by (auto simp: win_initial_def shape_inv_def app_default_def well_formed_def ready_ok_def bt_ok_def)
next
  fix s t assume inv: "shape_inv s" and step: "win_step s t"
  from step show "shape_inv t"
  proof cases
    case (win_exit L' L s g)
    then show ?thesis using inv by (cases s) (simp add: shape_inv_def)
  next
    case (win_logic w n p s sc b evs L g)
    obtain sc0 a where s: "s = (sc0, a)" by fastforce
    obtain sc1 a1 where r: "refresh_memory_if_due w n (sc0, a) = (sc1, a1)" by fastforce
    have "well_formed a1" using refresh_snapshot [OF r] inv win_logic(1) s by (auto simp: shape_inv_def shape_simps)
    then have "well_formed (fst (poll_process w p a1))" by (rule well_formed_poll)
    then have "well_formed b"
      using win_logic(3) by (auto simp: logic_def s r shape_simps split: prod.splits if_splits)
    then show ?thesis using win_logic(2) by (simp add: shape_inv_def)
  next
    case (win_ui w s t i a b evs sc L g)
    have a: "well_formed a" using inv win_ui(1) by (simp add: shape_inv_def)
    from win_ui(3) have "well_formed b"
    proof (cases rule: controls_cases)
      case stopped
      then show ?thesis using well_formed_stop [OF a, of w t] by simp
    next
      case (started st ack)
      have "well_formed (a\<lparr>ma_settings := st, ma_memory_acknowledged := ack\<rparr>)" using a by (simp add: shape_simps)
      from well_formed_start [OF this, of w s] show ?thesis using started by simp
    qed (use a in \<open>simp add: shape_simps\<close>)
    then show ?thesis using win_ui(2) by (simp add: shape_inv_def clear_log_def shape_simps)
  qed
qed

text \<open>
  C23: The interface's data stays in shape and in bounds. In every state the window reaches, however much
  the engine writes, the log has at most 500 lines, none longer than 8 KiB or blank, the meter at
  most 180 samples and the backlog trend at most 240; the ready workers are in ascending order
  without repetition, their number is the one on display, and the worker errors are a map.
\<close>

theorem interface_data_well_formed:
  assumes "reach win_initial win_step (((sc, a), L), g)"
  shows "length (ma_logs a) \<le> 500 \<and> (\<forall>l \<in> set (ma_logs a). length (ll_text l) \<le> 8192 \<and> trim (ll_text l) \<noteq> []) \<and>
    length (ma_meter_history a) \<le> 180 \<and> length (ma_backlog_history a) \<le> 240 \<and>
    sorted_wrt (<) (ma_ready_worker_ids a) \<and> ma_ready_workers a = of_nat (length (ma_ready_worker_ids a)) \<and>
    bt_ok (ma_worker_errors a)"
  using shape.inv_reach [OF assms]
  by (simp add: shape_inv_def well_formed_def ready_ok_def log_line_ok_def list_all_iff strict_sorted_iff
      MAX_LOG_LINES_def MAX_STORED_LOG_BYTES_def MAX_METER_SAMPLES_def MAX_BACKLOG_TREND_SAMPLES_def)

lemma interface_data_well_formed_witness:
  "\<exists>sc a g. reach win_initial win_step (((sc, a), {7}), g) \<and> length (ma_logs a) \<le> 500"
proof -
  obtain sc a args where r: "reach win_initial win_step (((sc, a), {7}), Some (args, Some ''x''))" by (rule window_started)
  from interface_data_well_formed [OF r] r show ?thesis by blast
qed

end
