(* ===== verification/DiagLog.thy ===== *)
theory DiagLog
  imports Diag
begin

text \<open>
  The use of the diagnostic log (\<open>src/diag.rs\<close>): where its files are, the summary of the processor's
  features, and the process-wide logger behind \<open>error\<close>, \<open>warn\<close>, \<open>info\<close> and \<open>debug\<close>, which is installed
  at most once. What the file holds after any sequence of calls is stated exactly.
\<close>

section \<open>The start of the log\<close>

datatype target_arch = X86_64 | Aarch64 | OtherArch

text \<open>\<open>detected\<close> is the processor's answer for a feature.\<close>

definition cpu_features :: "target_arch \<Rightarrow> (str \<Rightarrow> bool) \<Rightarrow> str list" where
  "cpu_features target detected =
     (case target of
        X86_64 \<Rightarrow> List.filter detected [''aes'', ''ssse3'', ''sse4.1'', ''avx2'', ''avx512f'']
      | Aarch64 \<Rightarrow> ''neon'' # List.filter detected [''aes'', ''sha2'']
      | OtherArch \<Rightarrow> [])"

definition cpu_feature_summary :: "target_arch \<Rightarrow> (str \<Rightarrow> bool) \<Rightarrow> str" where
  "cpu_feature_summary target detected =
     (let features = cpu_features target detected in
      if features = [] then ''none-detected'' else join ''+'' features)"

definition LOG_DIRECTORY :: str where "LOG_DIRECTORY = ''.xus-miner''"
definition LOG_SUBDIRECTORY :: str where "LOG_SUBDIRECTORY = ''logs''"

text \<open>The components of the path.\<close>

definition log_directory :: "log_environment \<Rightarrow> str list option" where
  "log_directory env =
     map_option (\<lambda>h. [h, LOG_DIRECTORY, LOG_SUBDIRECTORY]) (or_else (home env) (user_profile env))"

text \<open>\<open>init\<close> with the summary it logs.\<close>

definition start_log ::
  "platform \<Rightarrow> target_arch \<Rightarrow> (str \<Rightarrow> bool) \<Rightarrow> nat option \<Rightarrow> u32 \<Rightarrow> str \<Rightarrow> logger option \<times> log_environment \<Rightarrow>
   logger option \<times> log_environment"
where
  "start_log p target detected clock pid component = (\<lambda>(lg, env).
     diag_init p clock pid component (cpu_feature_summary target detected) lg env)"

section \<open>Messages\<close>

definition timestamp_utc :: "nat option \<Rightarrow> str" where
  "timestamp_utc clock = now_utc clock"

definition log_message :: "platform \<Rightarrow> nat option \<Rightarrow> level \<Rightarrow> str \<Rightarrow> logger option \<Rightarrow> logger option" where
  "log_message p clock l message lg = map_option (write_line p clock l message) lg"

definition log_error :: "platform \<Rightarrow> nat option \<Rightarrow> str \<Rightarrow> logger option \<Rightarrow> logger option" where
  "log_error p clock = log_message p clock Error"

definition log_warn :: "platform \<Rightarrow> nat option \<Rightarrow> str \<Rightarrow> logger option \<Rightarrow> logger option" where
  "log_warn p clock = log_message p clock Warn"

definition log_info :: "platform \<Rightarrow> nat option \<Rightarrow> str \<Rightarrow> logger option \<Rightarrow> logger option" where
  "log_info p clock = log_message p clock Info"

definition log_debug :: "platform \<Rightarrow> nat option \<Rightarrow> str \<Rightarrow> logger option \<Rightarrow> logger option" where
  "log_debug p clock = log_message p clock Debug"

section \<open>What the file holds\<close>

text \<open>A call with its clock, level and message, and the line that it may write.\<close>

type_synonym log_call = "nat option \<times> level \<times> str"

definition log_line :: "platform \<Rightarrow> log_call \<Rightarrow> str" where
  "log_line p = (\<lambda>(clock, l, message).
     ''['' @ now_utc clock @ ''] ['' @ level_label l @ ''] ['' @ identity p @ ''] '' @ message @ [CHR 0x0A])"

definition log_calls :: "platform \<Rightarrow> log_call list \<Rightarrow> logger option \<Rightarrow> logger option" where
  "log_calls p calls lg = foldl (\<lambda>lg (clock, l, message). log_message p clock l message lg) lg calls"

text \<open>
  The file holds, in order, exactly the lines of the calls whose level passes the filter: nothing is
  lost, nothing is reordered, and what was written before stays. Without a logger calls do nothing.
\<close>

lemma log_calls_exact:
  "log_calls p calls (Some lg) =
     Some (lg\<lparr>log_text := log_text lg @
       concat (List.map (log_line p) (List.filter (\<lambda>(_, l, _). l \<le> log_level lg) calls))\<rparr>)"
proof (induction calls arbitrary: lg)
  case (Cons c calls)
  obtain clock l message where c: "c = (clock, l, message)" by (cases c) auto
  show ?case using Cons.IH [of "write_line p clock l message lg"]
    by (auto simp: log_calls_def log_message_def c write_line_def log_line_def not_less)
qed (simp add: log_calls_def)

lemma log_calls_without_logger: "log_calls p calls None = None"
  by (induction calls) (auto simp: log_calls_def log_message_def)

text \<open>An error is always written, whatever the level in the environment says.\<close>

lemma errors_always_written:
  "log_error p clock message (Some lg) =
     Some (lg\<lparr>log_text := log_text lg @ log_line p (clock, Error, message)\<rparr>)"
proof -
  have "\<not> log_level lg < Error" by (cases "log_level lg") (simp_all add: less_level_def)
  then show ?thesis by (simp add: log_error_def log_message_def write_line_def log_line_def)
qed

text \<open>The logger is installed once: a second \<open>init\<close> changes nothing.\<close>

lemma start_log_once: "start_log p target detected clock pid component (Some lg, env) = (Some lg, env)"
  by (simp add: start_log_def diag_init_def)

text \<open>The panic hook writes lines of level \<open>Error\<close>, so the filter never hides a panic.\<close>

lemma panic_always_logged:
  "log_text (log_panic p clock location payload frames lg) =
     log_text lg @ concat (List.map (\<lambda>m. log_line p (clock, Error, m))
       (((''PANIC at '' @ (case location of Some l \<Rightarrow> l | None \<Rightarrow> ''unknown location'') @ '': '' @
          (case payload of Some m \<Rightarrow> m | None \<Rightarrow> ''non-string panic payload'')) #
        List.map (\<lambda>f. ''PANIC-BT '' @ f) frames) @ [''PANIC backtrace complete'']))"
proof -
  have w: "write_line p clock Error m lg = lg\<lparr>log_text := log_text lg @ log_line p (clock, Error, m)\<rparr>" for m lg
    using errors_always_written [of p clock m lg] by (simp add: log_error_def log_message_def)
  have "foldl (\<lambda>lg f. write_line p clock Error (''PANIC-BT '' @ f) lg) lg frames =
      lg\<lparr>log_text := log_text lg @ concat (List.map (\<lambda>f. log_line p (clock, Error, ''PANIC-BT '' @ f)) frames)\<rparr>" for lg
    by (induction frames arbitrary: lg) (simp_all add: w)
  then show ?thesis unfolding log_panic_def Let_def w by (simp add: comp_def)
qed

end
