(* ===== verification/Report.thy ===== *)
theory Report
  imports App Diag FileStore
begin

text \<open>
  The crash report of the interface (\<open>src/gui.rs\<close>: \<open>formatted_logs\<close>, \<open>crash_report_text\<close>,
  \<open>write_crash_report\<close>). A report is a header, the newest lines of the operator log that fit, and a
  line that says when older ones are missing. The theorems say which lines these are, and that the
  password the interface was given is in none of them.
\<close>

section \<open>Lines of the log\<close>

definition line_feed :: char where "line_feed = CHR 0x0A"

definition stamped :: "instant option \<Rightarrow> log_line \<Rightarrow> str" where
  "stamped origin line =
     (let seconds = (case origin of Some start \<Rightarrow> (ll_at line - start) div nanos_per_sec | None \<Rightarrow> 0)
      in ''['' @ pad0 2 (int (seconds div 60)) @ '':'' @ pad0 2 (int (seconds mod 60)) @ ''] '' @ ll_text line)"

definition formatted_logs :: "miner_app \<Rightarrow> str" where
  "formatted_logs a = join [line_feed] (List.map (stamped (ma_started_at a)) (ma_logs a))"

section \<open>The report\<close>

definition MAX_CRASH_REPORT_LOG_LINES :: nat where "MAX_CRASH_REPORT_LOG_LINES = 100"

definition omission_marker :: str where
  "omission_marker = ''[older engine log lines omitted to keep this report bounded]'' @ [line_feed]"

definition report_header :: "surroundings \<Rightarrow> platform \<Rightarrow> nat \<Rightarrow> str \<Rightarrow> miner_app \<Rightarrow> str" where
  "report_header w p timestamp exit_detail a =
     concat (List.map (\<lambda>l. l @ [line_feed])
       [''XUS MINER CRASH REPORT'',
        ''version: '' @ DIAG_VERSION,
        ''platform: '' @ os p @ '' '' @ arch p,
        ''timestamp_unix: '' @ decimal timestamp,
        ''engine_exit: '' @ exit_detail,
        ''endpoint: '' @ sanitize_endpoint (st_pool (ma_settings a)),
        ''configured_workers: '' @ show_u64 (st_workers (ma_settings a)),
        ''effective_workers: '' @ show_u64 (effective_workers w a),
        ''phase: '' @ phase_label (ma_phase a),
        [],
        ''RECENT ENGINE LOG (up to the last '' @ decimal MAX_CRASH_REPORT_LOG_LINES @ '' bounded lines)''])"

definition report_line :: "surroundings \<Rightarrow> miner_app \<Rightarrow> log_line \<Rightarrow> str" where
  "report_line w a line = redact_sensitive_text w a (stamped (ma_started_at a) line @ [line_feed])"

text \<open>
  The loop over the log, newest line first: the lines it takes, and whether it stopped at one that
  no longer fits.
\<close>

fun recent_lines :: "(log_line \<Rightarrow> str) \<Rightarrow> log_line list \<Rightarrow> nat \<Rightarrow> str list \<times> bool" where
  "recent_lines fmt [] room = ([], False)"
| "recent_lines fmt (line # lines) room =
     (let formatted = fmt line
      in if length formatted > room then ([], True)
         else case recent_lines fmt lines (room - length formatted) of
                (taken, omitted) \<Rightarrow> (formatted # taken, omitted))"

definition crash_report_text :: "surroundings \<Rightarrow> platform \<Rightarrow> nat \<Rightarrow> str \<Rightarrow> miner_app \<Rightarrow> str" where
  "crash_report_text w p timestamp exit_detail a =
     (let report = redact_sensitive_text w a (report_header w p timestamp exit_detail a);
          room = MAX_CRASH_REPORT_BYTES - length report - length omission_marker;
          (taken, stopped) =
            recent_lines (report_line w a) (take MAX_CRASH_REPORT_LOG_LINES (rev (ma_logs a))) room;
          omitted = (length (ma_logs a) > MAX_CRASH_REPORT_LOG_LINES \<or> stopped);
          report = report @ concat (rev taken);
          report = (if omitted then report @ omission_marker else report)
      in bounded_text report MAX_CRASH_REPORT_BYTES TRUNCATED_REPORT_SUFFIX
           (length report > MAX_CRASH_REPORT_BYTES))"

text \<open>\<open>has_home\<close> says whether there is a home directory.\<close>

definition write_crash_report ::
  "bool \<Rightarrow> kernel \<Rightarrow> surroundings \<Rightarrow> platform \<Rightarrow> nat \<Rightarrow> str \<Rightarrow> miner_app \<Rightarrow> str io"
where
  "write_crash_report has_home K w p timestamp exit_detail a =
     (if has_home then write_crash_report_at K (family w) (crash_report_text w p timestamp exit_detail a)
      else io_fail ''cannot locate the user settings directory'')"

section \<open>Which lines a report holds\<close>

abbreviation total_length :: "str list \<Rightarrow> nat" where
  "total_length ls \<equiv> sum_list (List.map length ls)"

text \<open>The loop takes a first part of its lines: the longest that fits.\<close>

lemma recent_lines_exact:
  assumes "recent_lines fmt lines room = (taken, stopped)"
  shows "taken = List.map fmt (take (length taken) lines) \<and> length taken \<le> length lines \<and>
    total_length taken \<le> room \<and> (stopped \<longleftrightarrow> length taken < length lines) \<and>
    (\<forall>n \<le> length lines. total_length (List.map fmt (take n lines)) \<le> room \<longrightarrow> n \<le> length taken)"
  using assms
proof (induction lines arbitrary: room taken)
  case (Cons line lines)
  show ?case
  proof (cases "length (fmt line) > room")
    case True
    then have "n = 0" if "total_length (List.map fmt (take n (line # lines))) \<le> room" for n
      using that by (cases n) auto
    then show ?thesis using True Cons.prems by auto
  next
    case False
    obtain rest where rest: "recent_lines fmt lines (room - length (fmt line)) = (rest, stopped)"
      "taken = fmt line # rest"
      using Cons.prems False by (auto simp: Let_def split: prod.splits)
    note ih = Cons.IH [OF rest(1)]
    have "n \<le> length taken" if "n \<le> length (line # lines)"
      "total_length (List.map fmt (take n (line # lines))) \<le> room" for n
      using that ih False rest(2) by (cases n) auto
    then show ?thesis using ih False rest(2) by auto
  qed
qed simp

text \<open>The last \<open>n\<close> lines of the log as a report shows them.\<close>

definition newest_lines :: "surroundings \<Rightarrow> miner_app \<Rightarrow> nat \<Rightarrow> str list" where
  "newest_lines w a n = List.map (report_line w a) (drop (length (ma_logs a) - n) (ma_logs a))"

lemma newest_lines_rev:
  "n \<le> length (ma_logs a) \<Longrightarrow> newest_lines w a n = rev (List.map (report_line w a) (take n (rev (ma_logs a))))"
  by (simp add: newest_lines_def rev_map take_rev)

lemma total_length_rev: "total_length (rev ls) = total_length ls"
  by (simp add: rev_map [symmetric] sum_list_rev)

lemma crash_report_lines:
  fixes p :: platform and w :: surroundings and a :: miner_app and timestamp :: nat and exit_detail :: str
  defines "header \<equiv> redact_sensitive_text w a (report_header w p timestamp exit_detail a)"
  defines "budget \<equiv> MAX_CRASH_REPORT_BYTES - length header - length omission_marker"
  obtains n where "n \<le> 100" "n \<le> length (ma_logs a)"
    "total_length (newest_lines w a n) \<le> budget"
    "\<And>m. m \<le> 100 \<Longrightarrow> m \<le> length (ma_logs a) \<Longrightarrow> total_length (newest_lines w a m) \<le> budget \<Longrightarrow> m \<le> n"
    "crash_report_text w p timestamp exit_detail a =
       (let report = header @ concat (newest_lines w a n) @ (if n < length (ma_logs a) then omission_marker else [])
        in bounded_text report MAX_CRASH_REPORT_BYTES TRUNCATED_REPORT_SUFFIX (length report > MAX_CRASH_REPORT_BYTES))"
proof -
  let ?lines = "take 100 (rev (ma_logs a))"
  obtain taken stopped where t: "recent_lines (report_line w a) ?lines budget = (taken, stopped)" by fastforce
  note exact = recent_lines_exact [OF t]
  let ?n = "length taken"
  have n: "?n \<le> 100" "?n \<le> length (ma_logs a)" using exact by simp_all
  have taken: "concat (rev taken) = concat (newest_lines w a ?n)"
    using exact n by (simp add: newest_lines_rev min_def)
  have lines: "total_length (newest_lines w a m) = total_length (List.map (report_line w a) (take m ?lines))"
    if "m \<le> 100" "m \<le> length (ma_logs a)" for m
    using that by (simp only: newest_lines_rev total_length_rev) (simp add: min_def)
  show thesis
  proof (rule that [OF n])
    show "total_length (newest_lines w a ?n) \<le> budget" using exact lines [OF n] by metis
    show "m \<le> ?n" if "m \<le> 100" "m \<le> length (ma_logs a)" "total_length (newest_lines w a m) \<le> budget" for m
      using exact that lines by simp
    have "length (ma_logs a) > 100 \<or> stopped \<longleftrightarrow> ?n < length (ma_logs a)" using exact n by auto
    then show "crash_report_text w p timestamp exit_detail a =
       (let report = header @ concat (newest_lines w a ?n) @ (if ?n < length (ma_logs a) then omission_marker else [])
        in bounded_text report MAX_CRASH_REPORT_BYTES TRUNCATED_REPORT_SUFFIX (length report > MAX_CRASH_REPORT_BYTES))"
      using t taken
      by (auto simp: crash_report_text_def header_def budget_def MAX_CRASH_REPORT_LOG_LINES_def Let_def)
  qed
qed

lemma crash_report_lines_kept:
  assumes "length (redact_sensitive_text w a (report_header w p timestamp exit_detail a)) +
    length omission_marker \<le> MAX_CRASH_REPORT_BYTES"
  shows "\<exists>n. n \<le> 100 \<and> n \<le> length (ma_logs a) \<and>
    crash_report_text w p timestamp exit_detail a =
      redact_sensitive_text w a (report_header w p timestamp exit_detail a) @
      concat (newest_lines w a n) @ (if n < length (ma_logs a) then omission_marker else []) \<and>
    (\<forall>m. n < m \<and> m \<le> 100 \<and> m \<le> length (ma_logs a) \<longrightarrow>
       MAX_CRASH_REPORT_BYTES < length (redact_sensitive_text w a (report_header w p timestamp exit_detail a)) +
         total_length (newest_lines w a m) + length omission_marker)"
proof (rule crash_report_lines [of a w p timestamp exit_detail])
  let ?h = "redact_sensitive_text w a (report_header w p timestamp exit_detail a)"
  fix n
  assume n: "n \<le> 100" "n \<le> length (ma_logs a)"
    "total_length (newest_lines w a n) \<le> MAX_CRASH_REPORT_BYTES - length ?h - length omission_marker"
    and most: "\<And>m. m \<le> 100 \<Longrightarrow> m \<le> length (ma_logs a) \<Longrightarrow>
      total_length (newest_lines w a m) \<le> MAX_CRASH_REPORT_BYTES - length ?h - length omission_marker \<Longrightarrow> m \<le> n"
    and body: "crash_report_text w p timestamp exit_detail a =
       (let report = ?h @ concat (newest_lines w a n) @ (if n < length (ma_logs a) then omission_marker else [])
        in bounded_text report MAX_CRASH_REPORT_BYTES TRUNCATED_REPORT_SUFFIX (length report > MAX_CRASH_REPORT_BYTES))"
  have fits: "length (?h @ concat (newest_lines w a n) @ (if n < length (ma_logs a) then omission_marker else []))
      \<le> MAX_CRASH_REPORT_BYTES"
    using n(3) assms by (auto simp: length_concat)
  then have "crash_report_text w p timestamp exit_detail a =
      ?h @ concat (newest_lines w a n) @ (if n < length (ma_logs a) then omission_marker else [])"
    unfolding body Let_def by (simp only: bounded_text_def) simp
  moreover have "MAX_CRASH_REPORT_BYTES < length ?h + total_length (newest_lines w a m) + length omission_marker"
    if "n < m" "m \<le> 100" "m \<le> length (ma_logs a)" for m
    using most [OF that(2,3)] that(1) assms by linarith
  ultimately show ?thesis using n(1,2) by metis
qed

text \<open>
  C30: A report holds at most 128 KiB. When its header leaves room, it is the header, the newest lines of
  the log, as many as fit and at most a hundred, oldest of them first, and then, exactly when a
  line of the log is missing, the remark that says so.
\<close>

theorem crash_report_keeps_newest:
  "length (crash_report_text w p timestamp exit_detail a) \<le> MAX_CRASH_REPORT_BYTES \<and>
   (length (redact_sensitive_text w a (report_header w p timestamp exit_detail a)) +
      length omission_marker \<le> MAX_CRASH_REPORT_BYTES \<longrightarrow>
    (\<exists>n. n \<le> 100 \<and> n \<le> length (ma_logs a) \<and>
      crash_report_text w p timestamp exit_detail a =
        redact_sensitive_text w a (report_header w p timestamp exit_detail a) @
        concat (newest_lines w a n) @ (if n < length (ma_logs a) then omission_marker else []) \<and>
      (\<forall>m. n < m \<and> m \<le> 100 \<and> m \<le> length (ma_logs a) \<longrightarrow>
         MAX_CRASH_REPORT_BYTES < length (redact_sensitive_text w a (report_header w p timestamp exit_detail a)) +
           total_length (newest_lines w a m) + length omission_marker)))"
proof (intro conjI impI)
  show "length (crash_report_text w p timestamp exit_detail a) \<le> MAX_CRASH_REPORT_BYTES"
    by (simp add: crash_report_text_def Let_def case_prod_beta bounded_text_length)
qed (rule crash_report_lines_kept)

section \<open>The password is not in a report\<close>

text \<open>Texts that end a line.\<close>

definition ends_line :: "str \<Rightarrow> bool" where
  "ends_line s \<longleftrightarrow> (\<exists>x. s = x @ [line_feed])"

lemma contains_lines:
  assumes "ends_line s" "line_feed \<notin> set p" "p \<noteq> []" "\<not> contains_str s p" "\<not> contains_str t p"
  shows "\<not> contains_str (s @ t) p"
proof -
  obtain x where x: "s = x @ [line_feed]" using assms(1) by (auto simp: ends_line_def)
  then have "\<not> contains_str x p" using assms(4) contains_append by blast
  then show ?thesis using contains_glue [of x line_feed t p] assms(2,3,5) x by auto
qed

lemma contains_all_lines:
  assumes "line_feed \<notin> set p" "p \<noteq> []" "\<not> contains_str t p"
  shows "list_all (\<lambda>s. ends_line s \<and> \<not> contains_str s p) ls \<Longrightarrow> \<not> contains_str (concat ls @ t) p"
proof (induction ls)
  case (Cons s ls)
  then show ?case using contains_lines [of s p "concat ls @ t"] assms by simp
qed (use assms in simp)

lemma contains_bounded:
  assumes "\<not> contains_str report p" "\<not> contains_str TRUNCATED_REPORT_SUFFIX p" "line_feed \<notin> set p" "p \<noteq> []"
  shows "\<not> contains_str (bounded_text report MAX_CRASH_REPORT_BYTES TRUNCATED_REPORT_SUFFIX force) p"
proof -
  let ?k = "floor_boundary report (min (MAX_CRASH_REPORT_BYTES - length TRUNCATED_REPORT_SUFFIX) (length report))"
  obtain rest where rest: "TRUNCATED_REPORT_SUFFIX = line_feed # rest"
    by (simp add: TRUNCATED_REPORT_SUFFIX_def line_feed_def)
  then have "\<not> contains_str rest p" using assms(2) contains_append [of "[line_feed]" p rest] by auto
  then have "\<not> contains_str (take ?k report @ TRUNCATED_REPORT_SUFFIX) p"
    using contains_glue [of "take ?k report" line_feed rest p] contains_take assms rest by metis
  then show ?thesis using assms(1) contains_nothing [OF assms(4)]
    by (simp add: bounded_text_def TRUNCATED_REPORT_SUFFIX_def MAX_CRASH_REPORT_BYTES_def)
qed

text \<open>A line that is redacted ends as it did, without the password.\<close>

definition hideable :: "str \<Rightarrow> bool" where
  "hideable secret \<longleftrightarrow> 2 < char_count secret \<and> CHR ''['' \<notin> set secret \<and> CHR '']'' \<notin> set secret \<and>
     \<not> contains_str REDACTED secret"

lemma redacted_text:
  fixes a :: miner_app
  defines "p \<equiv> st_password (ma_settings a)"
  assumes "hideable p" "endpoint_userinfo (st_pool (ma_settings a)) = None"
  shows "redact_sensitive_text w a s = replace_str p REDACTED s"
    and "\<not> contains_str (redact_sensitive_text w a s) p"
proof -
  have p: "p \<noteq> []" using assms(2) by (auto simp: hideable_def char_count_def)
  show eq: "redact_sensitive_text w a s = replace_str p REDACTED s"
    using assms(2,3) p by (simp add: redact_sensitive_text_def redact_secret_def hideable_def p_def [symmetric])
  show "\<not> contains_str (redact_sensitive_text w a s) p"
    unfolding eq using assms(2) p by (intro replace_str_removes) (simp_all add: REDACTED_def hideable_def)
qed

lemma redacted_line:
  fixes a :: miner_app
  defines "p \<equiv> st_password (ma_settings a)"
  assumes "hideable p" "line_feed \<notin> set p" "endpoint_userinfo (st_pool (ma_settings a)) = None" "ends_line s"
  shows "ends_line (redact_sensitive_text w a s) \<and> \<not> contains_str (redact_sensitive_text w a s) p"
proof -
  have p: "p \<noteq> []" using assms(2) by (auto simp: hideable_def char_count_def)
  note redacted = redacted_text [of a w s, folded p_def, OF assms(2,4)]
  obtain x where "s = x @ [line_feed]" using assms(5) by (auto simp: ends_line_def)
  then show ?thesis using replace_str_snoc [OF assms(3) p] redacted by (auto simp: ends_line_def)
qed

text \<open>
  C17: The password is not in a report. With settings that pass the checks and a password that
  redaction can hide (more than two characters, no bracket, no part of the replacement text) and
  that is no part of the two fixed remarks, neither the header, whatever the exit was described as,
  nor any line of the log, nor any two of them put together show it.
\<close>

theorem crash_report_hides_password:
  assumes "validate_settings (ma_settings a) = Inr ()" "hideable (st_password (ma_settings a))"
    and "\<not> contains_str omission_marker (st_password (ma_settings a))"
    and "\<not> contains_str TRUNCATED_REPORT_SUFFIX (st_password (ma_settings a))"
  shows "\<not> contains_str (crash_report_text w p timestamp exit_detail a) (st_password (ma_settings a))"
proof (rule crash_report_lines [of a w p timestamp exit_detail])
  let ?p = "st_password (ma_settings a)"
  let ?h = "redact_sensitive_text w a (report_header w p timestamp exit_detail a)"
  fix n assume body: "crash_report_text w p timestamp exit_detail a =
       (let report = ?h @ concat (newest_lines w a n) @ (if n < length (ma_logs a) then omission_marker else [])
        in bounded_text report MAX_CRASH_REPORT_BYTES TRUNCATED_REPORT_SUFFIX (length report > MAX_CRASH_REPORT_BYTES))"
  have p: "?p \<noteq> []" using assms(2) by (auto simp: hideable_def char_count_def)
  have v: "line_feed \<notin> set ?p" "endpoint_userinfo (st_pool (ma_settings a)) = None"
    using assms(1) validated_no_userinfo by (auto simp: validate_settings_def result_simps line_feed_def)
  note hidden = redacted_line [OF assms(2) v]
  have "ends_line (report_header w p timestamp exit_detail a)"
    by (simp add: report_header_def ends_line_def)
  then have "ends_line ?h \<and> \<not> contains_str ?h ?p" by (rule hidden)
  moreover have "list_all (\<lambda>s. ends_line s \<and> \<not> contains_str s ?p) (newest_lines w a n)"
    using hidden by (simp add: list_all_iff newest_lines_def report_line_def ends_line_def)
  moreover have "\<not> contains_str (if n < length (ma_logs a) then omission_marker else []) ?p"
    using assms(3) contains_nothing [OF p] by simp
  ultimately have "\<not> contains_str (?h @ concat (newest_lines w a n) @
      (if n < length (ma_logs a) then omission_marker else [])) ?p"
    using contains_all_lines [OF v(1) p] contains_lines [OF _ v(1) p] by blast
  then show ?thesis unfolding body Let_def using contains_bounded assms(4) v(1) p by blast
qed

section \<open>A report\<close>

definition report_world :: surroundings where
  "report_world = \<lparr>family = Unix, now = 90 * nanos_per_sec, alnum = (\<lambda>_. False)\<rparr>"

definition report_app :: "str \<Rightarrow> miner_app" where
  "report_app password = push_log report_world ''login hunter2 refused'' True
     ((app_default (settings_default\<lparr>st_password := password\<rparr>) None)\<lparr>ma_started_at := Some 0\<rparr>)"

definition report_platform :: platform where
  "report_platform = \<lparr>os = ''linux'', arch = ''x86_64''\<rparr>"

lemma report_app_settings [simp]: "ma_settings (report_app password) = settings_default\<lparr>st_password := password\<rparr>"
  "ma_phase (report_app password) = Idle"
  by (simp_all add: report_app_def push_log_def Let_def app_default_def)

lemma report_pool: "endpoint_userinfo ''127.0.0.1:3333'' = None" "sanitize_endpoint ''127.0.0.1:3333'' = ''127.0.0.1:3333''"
  by code_simp+

lemma short_number: "n < 10000 \<Longrightarrow> length (decimal n) \<le> 4"
  by (simp add: decimal.simps)

lemma crash_report_keeps_newest_witness:
  "length (crash_report_text report_world report_platform 7 ''signal: 9'' (report_app [])) \<le> MAX_CRASH_REPORT_BYTES \<and>
   (\<exists>n \<le> 100. crash_report_text report_world report_platform 7 ''signal: 9'' (report_app []) =
      redact_sensitive_text report_world (report_app [])
        (report_header report_world report_platform 7 ''signal: 9'' (report_app [])) @
      concat (newest_lines report_world (report_app []) n) @
      (if n < length (ma_logs (report_app [])) then omission_marker else []))"
proof -
  have "effective_workers report_world (report_app []) = 1"
    by (simp add: effective_workers_def effective_engine_workers_def settings_default_def report_world_def)
  then have "length (redact_sensitive_text report_world (report_app [])
      (report_header report_world report_platform 7 ''signal: 9'' (report_app []))) +
    length omission_marker \<le> MAX_CRASH_REPORT_BYTES"
    using short_number [of 7] short_number [of 100] short_number [of 1]
    by (simp add: redact_sensitive_text_def redact_secret_def settings_default_def report_pool report_header_def
        report_platform_def omission_marker_def DIAG_VERSION_def show_u64_def phase_label_def
        MAX_CRASH_REPORT_LOG_LINES_def MAX_CRASH_REPORT_BYTES_def)
  with crash_report_keeps_newest [where w = report_world and a = "report_app []" and p = report_platform
    and timestamp = 7 and exit_detail = "''signal: 9''"]
  show ?thesis by blast
qed

lemma crash_report_hides_password_witness:
  "\<not> contains_str (crash_report_text report_world report_platform 7 ''signal: 9'' (report_app ''hunter2'')) ''hunter2''"
proof -
  have "validate_settings (settings_default\<lparr>st_password := ''hunter2''\<rparr>) = Inr ()"
    using default_settings_valid by (simp add: validate_settings_def result_simps settings_default_def)
  moreover have "hideable ''hunter2''" "\<not> contains_str omission_marker ''hunter2''"
    "\<not> contains_str TRUNCATED_REPORT_SUFFIX ''hunter2''" by code_simp+
  ultimately show ?thesis using crash_report_hides_password [of "report_app ''hunter2''"] by simp
qed

end
