(* ===== verification/Meter.thy ===== *)
theory Meter
  imports App
begin

text \<open>
  What the meter and the queue card show besides their drawing (\<open>src/gui.rs\<close>:
  \<open>height_change_markers\<close>, \<open>tx_queue_status\<close>, \<open>format_elapsed\<close>). The colours are the drawing
  library's; of \<open>tx_queue_status\<close> the two texts are kept.
\<close>

definition height_change_markers :: "meter_sample list \<Rightarrow> (nat \<times> u64) list" where
  "height_change_markers history =
     List.map_filter (\<lambda>(index, previous, current).
         map_option (\<lambda>height. (index + 1, height))
           (Option.bind (ms_height current) (\<lambda>height.
              if ms_height previous \<noteq> Some height then Some height else None)))
       (List.enumerate 0 (zip history (drop 1 history)))"

definition tx_queue_status :: "u64 option \<Rightarrow> str \<times> str" where
  "tx_queue_status pending =
     (case pending of
        Some n \<Rightarrow>
          if n = 0 then (''CLEAR'', ''0 pending for mining'')
          else (''TRANSACTIONS'', show_u64 n @ '' pending for mining'')
      | None \<Rightarrow> (''UNAVAILABLE'', ''Node has not reported a mempool size''))"

definition two_digits :: "nat \<Rightarrow> str" where
  "two_digits n = (if n < 10 then ''0'' else []) @ decimal n"

definition format_elapsed :: "nat \<Rightarrow> str" where
  "format_elapsed seconds =
     (if seconds < 60 then decimal seconds @ ''s''
      else if seconds < 3600 then decimal (seconds div 60) @ ''m '' @ two_digits (seconds mod 60) @ ''s''
      else decimal (seconds div 3600) @ ''h '' @ two_digits (seconds div 60 mod 60) @ ''m'')"

section \<open>Markers\<close>

lemma set_map_filter: "set (List.map_filter f xs) = {y. \<exists>x \<in> set xs. f x = Some y}"
  by (force simp: List.map_filter_def image_iff)

lemma in_pairs:
  "(i, p, c) \<in> set (List.enumerate 0 (zip xs (drop 1 xs))) \<longleftrightarrow> i + 1 < length xs \<and> p = xs ! i \<and> c = xs ! (i + 1)"
  by (auto simp: in_set_enumerate_eq)

text \<open>
  The meter marks exactly the samples that report a height the sample before them did not: one mark
  each, at the place of the sample, never at a sample without a height, in order of time.
\<close>

theorem height_markers_exact:
  "set (height_change_markers history) =
     {(i, h). 0 < i \<and> i < length history \<and> ms_height (history ! i) = Some h \<and>
        ms_height (history ! (i - 1)) \<noteq> Some h} \<and>
   sorted_wrt (<) (List.map fst (height_change_markers history))"
proof
  have "(i, h) \<in> set (height_change_markers history) \<longleftrightarrow>
      (\<exists>j p c. (j, p, c) \<in> set (List.enumerate 0 (zip history (drop 1 history))) \<and> i = j + 1 \<and>
         ms_height c = Some h \<and> ms_height p \<noteq> Some h)" for i h
  proof -
    let ?f = "\<lambda>(index, previous, current). map_option (\<lambda>height. (index + 1, height))
      (Option.bind (ms_height current) (\<lambda>height. if ms_height previous \<noteq> Some height then Some height else None))"
    have f: "?f (j, p, c) = Some (i, h) \<longleftrightarrow> i = j + 1 \<and> ms_height c = Some h \<and> ms_height p \<noteq> Some h" for j p c
      by (cases "ms_height c") auto
    show ?thesis
      by (simp only: height_change_markers_def set_map_filter mem_Collect_eq Bex_def split_paired_Ex f)
  qed
  then show "set (height_change_markers history) = {(i, h). 0 < i \<and> i < length history \<and>
      ms_height (history ! i) = Some h \<and> ms_height (history ! (i - 1)) \<noteq> Some h}"
    unfolding in_pairs by (auto simp: gr0_conv_Suc)
  have "sorted_wrt (<) (List.map fst (List.map_filter
      (\<lambda>(index, previous, current). map_option (\<lambda>h. (index + 1, h)) (g previous current)) (List.enumerate n ps)))"
    for g and n and ps :: "(meter_sample \<times> meter_sample) list"
  proof (induction ps arbitrary: n)
    case (Cons q ps)
    then show ?case
      by (cases q) (auto simp: set_map_filter in_set_enumerate_eq List.map_filter_simps split: option.splits)
  qed (simp add: List.map_filter_simps)
  then show "sorted_wrt (<) (List.map fst (height_change_markers history))"
    unfolding height_change_markers_def .
qed

end
