(* ===== verification/Format.thy ===== *)
theory Format
  imports Meter Telemetry
begin

text \<open>
  The numbers of the interface as text (\<open>src/gui.rs\<close>: \<open>format_eta\<close>, \<open>format_probability\<close>,
  \<open>format_count_f64\<close>, \<open>format_hashrate\<close>, \<open>format_count\<close>, \<open>format_fee_rate_range\<close>,
  \<open>format_grains_as_xus\<close>). Floats are reals, so every number is finite and a quotient is exact; the
  decimal places are those of Rust's formatter, which rounds half to even. The theorems bound the
  error of what is shown and say that a fee that is not zero is never shown as zero.
\<close>

section \<open>Decimal places\<close>

definition round_half_even :: "real \<Rightarrow> nat" where
  "round_half_even x =
     (let n = nat \<lfloor>x\<rfloor>; f = x - real n
      in if f < 1 / 2 then n else if f > 1 / 2 then n + 1 else if even n then n else n + 1)"

text \<open>A number of digits, with zeros in front.\<close>

definition padded :: "nat \<Rightarrow> nat \<Rightarrow> str" where
  "padded width n = replicate (width - length (decimal n)) (CHR ''0'') @ decimal n"

text \<open>\<open>{:.d}\<close> of a number that is not negative.\<close>

definition fixed :: "nat \<Rightarrow> real \<Rightarrow> str" where
  "fixed d x =
     (let n = round_half_even (10 ^ d * x)
      in decimal (n div 10 ^ d) @ (if d = 0 then [] else ''.'' @ padded d (n mod 10 ^ d)))"

text \<open>\<open>{:.3e}\<close> of a number that is at least 1000: its digits and, when they round up to five, one more.\<close>

definition scientific3 :: "real \<Rightarrow> str" where
  "scientific3 x =
     (let e = length (decimal (nat \<lfloor>x\<rfloor>)) - 1;
          m = round_half_even (x / 10 ^ (e - 3));
          (m, e) = (if m = 10000 then (1000, e + 1) else (m, e))
      in decimal (m div 1000) @ ''.'' @ padded 3 (m mod 1000) @ ''e'' @ decimal e)"

text \<open>More signs outside ASCII, in UTF-8: a dash and the sign for about.\<close>

definition en_dash :: str where "en_dash = [CHR 0xE2, CHR 0x80, CHR 0x93]"
definition about_sign :: str where "about_sign = [CHR 0xE2, CHR 0x89, CHR 0x88]"

section \<open>The formats\<close>

text \<open>\<open>seconds.round()\<close>: half away from zero.\<close>

definition round_up_half :: "real \<Rightarrow> nat" where
  "round_up_half x = nat \<lfloor>x + 1 / 2\<rfloor>"

definition format_eta :: "real \<Rightarrow> str" where
  "format_eta seconds =
     (if seconds \<le> 0 then em_dash
      else if seconds < 60 then about_sign @ fixed 0 (max seconds 1) @ ''s''
      else
        let ticks = round_up_half seconds in
        if seconds < 3600 then about_sign @ decimal (ticks div 60) @ ''m '' @ two_digits (ticks mod 60) @ ''s''
        else if seconds < 86400 then
          about_sign @ decimal (ticks div 3600) @ ''h '' @ two_digits (ticks div 60 mod 60) @ ''m''
        else if seconds < 31536000 then
          about_sign @ decimal (ticks div 86400) @ ''d '' @ two_digits (ticks div 3600 mod 24) @ ''h''
        else about_sign @ fixed 1 (seconds / 31536000) @ ''y'')"

definition format_probability :: "real \<Rightarrow> str" where
  "format_probability probability =
     (let percent = max 0 (min 1 probability) * 100 in
      if percent > 0 \<and> percent < 1 / 100 then fixed 4 percent @ ''%''
      else if percent < 1 then fixed 2 percent @ ''%''
      else fixed 1 percent @ ''%'')"

definition format_count_f64 :: "real \<Rightarrow> str" where
  "format_count_f64 v =
     (if v < 0 then ''unavailable''
      else if v \<ge> 10 ^ 15 then scientific3 v
      else if v \<ge> 10 ^ 12 then fixed 2 (v / 10 ^ 12) @ ''T''
      else if v \<ge> 10 ^ 9 then fixed 2 (v / 10 ^ 9) @ ''B''
      else if v \<ge> 10 ^ 6 then fixed 2 (v / 10 ^ 6) @ ''M''
      else if v \<ge> 10 ^ 3 then fixed 2 (v / 10 ^ 3) @ ''K''
      else fixed 0 v)"

definition format_hashrate :: "real \<Rightarrow> str" where
  "format_hashrate rate =
     (if rate \<ge> 10 ^ 9 then fixed 2 (rate / 10 ^ 9) @ '' GH/s''
      else if rate \<ge> 10 ^ 6 then fixed 2 (rate / 10 ^ 6) @ '' MH/s''
      else if rate \<ge> 10 ^ 3 then fixed 2 (rate / 10 ^ 3) @ '' kH/s''
      else fixed 2 rate @ '' H/s'')"

definition format_count :: "u64 \<Rightarrow> str" where
  "format_count v =
     (if v \<ge> 1000000000 then fixed 2 (real (unat v) / 10 ^ 9) @ ''B''
      else if v \<ge> 1000000 then fixed 2 (real (unat v) / 10 ^ 6) @ ''M''
      else if v \<ge> 1000 then fixed 2 (real (unat v) / 10 ^ 3) @ ''K''
      else show_u64 v)"

definition format_fee_rate_range :: "u64 \<Rightarrow> u64 \<Rightarrow> str" where
  "format_fee_rate_range min_grains max_grains =
     (if min_grains = max_grains then format_count min_grains @ '' gr''
      else format_count min_grains @ en_dash @ format_count max_grains @ '' gr'')"

text \<open>\<open>while rendered.ends_with('0') { rendered.pop(); }\<close>, then one dot.\<close>

definition trim_zeros :: "str \<Rightarrow> str" where
  "trim_zeros s = rev (dropWhile (\<lambda>c. c = CHR ''0'') (rev s))"

definition format_grains_as_xus :: "u64 \<Rightarrow> str" where
  "format_grains_as_xus fee =
     (if fee > 0 \<and> fee < 1000 then ''<0.00001 XUS''
      else
        let rendered = trim_zeros (fixed 5 (real (unat fee) / 10 ^ 8));
            rendered = (if ends_with rendered ''.'' then butlast rendered else rendered)
        in rendered @ '' XUS'')"

section \<open>Digits\<close>

lemma foldl_digits:
  "foldl (\<lambda>n c. 10 * n + g c) n b = n * 10 ^ length b + foldl (\<lambda>n c. 10 * n + g c) 0 b" for n :: nat
proof (induction b arbitrary: n)
  case (Cons c b)
  have "foldl (\<lambda>n c. 10 * n + g c) n (c # b) =
      (10 * n + g c) * 10 ^ length b + foldl (\<lambda>n c. 10 * n + g c) 0 b"
    by (simp add: Cons.IH [of "10 * n + g c"])
  also have "\<dots> = n * 10 ^ length (c # b) + (g c * 10 ^ length b + foldl (\<lambda>n c. 10 * n + g c) 0 b)"
    by (simp add: algebra_simps)
  finally show ?case by (simp add: Cons.IH [of "g c"])
qed simp

lemma digits_val_append: "digits_val (a @ b) = digits_val a * 10 ^ length b + digits_val b"
  using foldl_digits [of "\<lambda>c. byte_of c - 48" "digits_val a" b] by (simp add: digits_val_def)

lemma digits_val_zeros: "set ds \<subseteq> {CHR ''0''} \<Longrightarrow> digits_val ds = 0"
proof (induction ds)
  case (Cons c ds)
  then show ?case using digits_val_append [of "[c]" ds] by (simp add: digits_val_def)
qed (simp add: digits_val_def)

lemma length_decimal: "0 < width \<Longrightarrow> n < 10 ^ width \<Longrightarrow> length (decimal n) \<le> width"
proof (induction width arbitrary: n)
  case (Suc width)
  show ?case
  proof (cases "n < 10")
    case False
    then have "0 < width" using Suc.prems by (cases width) auto
    moreover have "n div 10 < 10 ^ width" using Suc.prems by auto
    ultimately show ?thesis using Suc.IH [of "n div 10"] False by (subst decimal.simps) simp
  qed (subst decimal.simps, simp)
qed simp

lemma padded_facts:
  "digits_val (padded width n) = n" "list_all is_ascii_digit (padded width n)"
  "0 < width \<Longrightarrow> n < 10 ^ width \<Longrightarrow> length (padded width n) = width"
proof -
  have "digits_val (replicate k (CHR ''0'')) = 0" for k by (rule digits_val_zeros) auto
  then show "digits_val (padded width n) = n"
    using decimal_digits [of n] by (simp add: padded_def digits_val_append)
  show "list_all is_ascii_digit (padded width n)"
    using decimal_digits [of n] by (auto simp: padded_def is_ascii_digit_def list_all_iff)
  show "0 < width \<Longrightarrow> n < 10 ^ width \<Longrightarrow> length (padded width n) = width"
    using length_decimal [of width n] by (simp add: padded_def)
qed

text \<open>The number that the digits of a text spell.\<close>

definition spelled :: "str \<Rightarrow> nat" where
  "spelled s = digits_val (List.filter is_ascii_digit s)"

lemma filter_digits: "list_all is_ascii_digit ds \<Longrightarrow> List.filter is_ascii_digit ds = ds"
  by (simp add: list_all_iff)

lemma spelled_fixed: "spelled (fixed d x) = round_half_even (10 ^ d * x)"
proof (cases "d = 0")
  case True
  then show ?thesis using decimal_digits by (simp add: spelled_def fixed_def filter_digits)
next
  case False
  let ?n = "round_half_even (10 ^ d * x)"
  have "length (padded d (?n mod 10 ^ d)) = d" using False by (intro padded_facts(3)) simp_all
  then show ?thesis
    using False decimal_digits padded_facts(1,2) [of d "?n mod 10 ^ d"]
    by (simp add: spelled_def fixed_def Let_def filter_digits digits_val_append is_ascii_digit_def div_mult_mod_eq)
qed

section \<open>What is shown is close to the value\<close>

lemma round_half_even_close:
  assumes "0 \<le> x"
  shows "\<bar>real (round_half_even x) - x\<bar> \<le> 1 / 2"
proof -
  define n where "n = nat \<lfloor>x\<rfloor>"
  have "real n \<le> x" "x < real n + 1" using assms unfolding n_def by linarith+
  then show ?thesis unfolding round_half_even_def Let_def n_def [symmetric] by auto
qed

text \<open>The digits of a number shown with \<open>d\<close> places are its value to half of the last place.\<close>

lemma fixed_close:
  assumes "0 \<le> x"
  shows "\<bar>real (spelled (fixed d x)) / 10 ^ d - x\<bar> \<le> 1 / (2 * 10 ^ d)"
proof -
  have "\<bar>real (spelled (fixed d x)) - 10 ^ d * x\<bar> \<le> 1 / 2"
    unfolding spelled_fixed using assms by (intro round_half_even_close) simp
  then have "\<bar>real (spelled (fixed d x)) - 10 ^ d * x\<bar> / 10 ^ d \<le> (1 / 2) / 10 ^ d"
    by (intro divide_right_mono) simp_all
  moreover have "real (spelled (fixed d x)) / 10 ^ d - x = (real (spelled (fixed d x)) - 10 ^ d * x) / 10 ^ d"
    by (simp add: diff_divide_distrib)
  ultimately show ?thesis by (simp add: abs_divide)
qed

text \<open>
  A duration is shown in two units: what they say together is the time rounded to a second and cut to
  the smaller unit.
\<close>

lemma eta_units:
  fixes ticks :: nat
  shows "60 * (ticks div 60) + ticks mod 60 = ticks"
    and "3600 * (ticks div 3600) + 60 * (ticks div 60 mod 60) \<le> ticks \<and>
      ticks < 3600 * (ticks div 3600) + 60 * (ticks div 60 mod 60) + 60"
    and "86400 * (ticks div 86400) + 3600 * (ticks div 3600 mod 24) \<le> ticks \<and>
      ticks < 86400 * (ticks div 86400) + 3600 * (ticks div 3600 mod 24) + 3600"
proof -
  have a: "ticks div 3600 = ticks div 60 div 60" "ticks div 86400 = ticks div 3600 div 24"
    by (simp_all add: div_mult2_eq [symmetric])
  show "60 * (ticks div 60) + ticks mod 60 = ticks" by simp
  show "3600 * (ticks div 3600) + 60 * (ticks div 60 mod 60) \<le> ticks \<and>
      ticks < 3600 * (ticks div 3600) + 60 * (ticks div 60 mod 60) + 60"
    using mod_mult_div_eq [of "ticks div 60" 60] mod_mult_div_eq [of ticks 60] mod_less_divisor [of 60 ticks]
    unfolding a by linarith
  show "86400 * (ticks div 86400) + 3600 * (ticks div 3600 mod 24) \<le> ticks \<and>
      ticks < 86400 * (ticks div 86400) + 3600 * (ticks div 3600 mod 24) + 3600"
    using mod_mult_div_eq [of "ticks div 3600" 24] mod_mult_div_eq [of ticks 3600] mod_less_divisor [of 3600 ticks]
    unfolding a(2) by linarith
qed

section \<open>Fees\<close>

lemma nonzero_digit_kept:
  assumes "c \<in> set s" "c \<noteq> CHR ''0''"
  shows "c \<in> set (trim_zeros s)"
proof -
  have "c \<in> set xs \<Longrightarrow> c \<in> set (dropWhile (\<lambda>c. c = CHR ''0'') xs)" for xs
    using assms(2) by (induction xs) auto
  from this [of "rev s"] show ?thesis using assms(1) by (simp add: trim_zeros_def)
qed

lemma char_digits:
  "char_of (48 :: nat) = CHR ''0''" "char_of (49 :: nat) = CHR ''1''" "char_of (54 :: nat) = CHR ''6''"
  by code_simp+

lemma four_zeros: "replicate 4 c = [c, c, c, c]"
  by (simp add: eval_nat_numeral)

lemmas show_number = fixed_def round_half_even_def padded_def decimal.simps char_digits Let_def four_zeros

text \<open>
  A fee that is not zero is not shown as zero: the text has a digit other than 0, and no fee but
  zero is shown as \<open>0 XUS\<close>.
\<close>

theorem nonzero_fee_not_shown_as_zero:
  "fee \<noteq> 0 \<longleftrightarrow> (\<exists>c \<in> set (format_grains_as_xus fee). is_ascii_digit c \<and> c \<noteq> CHR ''0'')"
proof (cases "fee = 0")
  case True
  have "format_grains_as_xus 0 = ''0 XUS''"
    by (simp add: format_grains_as_xus_def show_number trim_zeros_def ends_with_def starts_with_def)
  then show ?thesis using True by (simp add: is_ascii_digit_def)
next
  case False
  show ?thesis
  proof (cases "fee < 1000")
    case True
    then have "format_grains_as_xus fee = ''<0.00001 XUS''"
      using False by (simp add: format_grains_as_xus_def word_neq_0_conv)
    then show ?thesis using False by (simp add: is_ascii_digit_def)
  next
    case big: False
    let ?x = "real (unat fee) / 10 ^ 8" and ?s = "fixed 5 (real (unat fee) / 10 ^ 8)"
    have "1000 \<le> unat fee" using big by (simp add: not_less word_le_nat_alt)
    then have "real 1000 \<le> real (unat fee)" by (rule of_nat_mono)
    moreover have "10 ^ 5 * (y / 10 ^ 8) = y / 1000" for y :: real by simp
    ultimately have "1 \<le> 10 ^ 5 * ?x" by (simp only: of_nat_numeral)
    then have "round_half_even (10 ^ 5 * ?x) \<noteq> 0"
      using round_half_even_close [of "10 ^ 5 * ?x"] by linarith
    then have "\<not> set (List.filter is_ascii_digit ?s) \<subseteq> {CHR ''0''}"
      using digits_val_zeros spelled_fixed [of 5 ?x] unfolding spelled_def by metis
    then obtain c where c: "c \<in> set ?s" "is_ascii_digit c" "c \<noteq> CHR ''0''" by auto
    then have t: "c \<in> set (trim_zeros ?s)" by (intro nonzero_digit_kept)
    have "c \<noteq> CHR ''.''" using c(2) by (auto simp: is_ascii_digit_def)
    then have "ends_with (trim_zeros ?s) ''.'' \<Longrightarrow> c \<in> set (butlast (trim_zeros ?s))"
      using t by (cases "trim_zeros ?s" rule: rev_cases) (auto simp: ends_with_def starts_with_def simp del: of_nat_unat)
    then show ?thesis using False big c t by (auto simp: format_grains_as_xus_def Let_def)
  qed
qed

text \<open>
  The unit is chosen before the rounding, so a value just below the next unit is shown as a thousand
  of the smaller one, and a time just below an hour as sixty minutes.
\<close>

lemma rounding_after_the_unit:
  "format_count 999999 = ''1000.00K''" "format_eta (35997 / 10) = about_sign @ ''60m 00s''"
proof -
  show "format_count 999999 = ''1000.00K''"
    by (simp add: format_count_def show_number)
  have "nat \<lfloor>35997 / 10 + 1 / 2 :: real\<rfloor> = 3600" by simp
  then show "format_eta (35997 / 10) = about_sign @ ''60m 00s''"
    by (simp add: format_eta_def round_up_half_def two_digits_def show_number)
qed

end
