(* ===== verification/Diagnostics.thy ===== *)
theory Diagnostics
  imports Report "Format"
begin

text \<open>
  The diagnostics that the operator copies to the clipboard (\<open>diagnostics_text\<close> of \<open>src/gui.rs\<close>): a
  line per value of the interface's state, then the whole log, redacted as one text. They do not
  show the password, and a value the node did not report is named as not available.
\<close>

definition unavailable :: str where "unavailable = ''unavailable''"

definition or_unavailable :: "('a \<Rightarrow> str) \<Rightarrow> 'a option \<Rightarrow> str" where
  "or_unavailable f v = (case v of Some x \<Rightarrow> f x | None \<Rightarrow> unavailable)"

definition system_memory_text :: "memory_snapshot option \<Rightarrow> str" where
  "system_memory_text = or_unavailable (\<lambda>snapshot.
     format_memory (snap_available snapshot) @ '' available / '' @ format_memory (snap_total snapshot) @ '' total'')"

text \<open>The lines before the log.\<close>

definition diagnostics_lines :: "surroundings \<Rightarrow> miner_app \<Rightarrow> str list" where
  "diagnostics_lines w a =
     [''XUS MINER DIAGNOSTICS'',
      ''phase: '' @ phase_label (ma_phase a),
      ''node link: '' @ (if ma_node_link_live a then ''connected'' else ''disconnected''),
      ''endpoint: '' @ sanitize_endpoint (st_pool (ma_settings a)),
      ''algorithm: '' @ ma_algorithm a,
      ''height: '' @ or_unavailable show_u64 (ma_height a),
      ''job: '' @ ma_job_id a,
      ''coinbase (template confirmed): '' @ (case ma_coinbase a of Some c \<Rightarrow> c | None \<Rightarrow> ''not disclosed''),
      ''hashrate: '' @ format_hashrate (ma_hashrate a),
      ''smoothed hashrate: '' @ format_hashrate (ma_smoothed_hashrate a),
      ''expected solo block time: '' @ or_unavailable format_eta (solo_block_eta_seconds w a),
      ''current round probability: '' @ or_unavailable format_probability (current_round_probability w a),
      ''expected hashes per block: '' @ or_unavailable format_count_f64 (ma_expected_hashes a),
      ''network hashrate: '' @ or_unavailable format_hashrate (ma_network_hashrate a),
      ''target block cadence: '' @
        or_unavailable (\<lambda>ms. format_eta (real (unat ms) / 1000)) (ma_target_block_ms a),
      ''network difficulty: '' @ or_unavailable (\<lambda>d. d) (ma_network_difficulty a),
      ''total hashes: '' @ show_u64 (ma_total_hashes a),
      ''workers ready/configured: '' @ show_u64 (ma_ready_workers a) @ ''/'' @ show_u64 (effective_workers w a),
      ''system memory: '' @ system_memory_text (ma_memory_snapshot a),
      ''authenticated node peers: '' @ or_unavailable show_u64 (ma_peer_count a),
      ''mempool pending: '' @ or_unavailable show_u64 (ma_mempool_size a),
      ''submitted/accepted/rejected: '' @ show_u64 (ma_submitted a) @ ''/'' @ show_u64 (ma_accepted a) @ ''/'' @
        show_u64 (ma_rejected a),
      ''uptime: '' @ uptime w a,
      ''last error: '' @ (if ma_last_error a = [] then ''none'' else ma_last_error a),
      [],
      ''EVENT LOG'']"

definition diagnostics_text :: "surroundings \<Rightarrow> miner_app \<Rightarrow> str" where
  "diagnostics_text w a =
     redact_sensitive_text w a
       (concat (List.map (\<lambda>l. l @ [line_feed]) (diagnostics_lines w a)) @ formatted_logs a)"

text \<open>
  The copied diagnostics do not show the password, whatever the engine wrote to the log, the
  node reported or the last error was: with settings that pass the checks and a password that redaction
  can hide, no part of the text is the password.
\<close>

theorem diagnostics_hide_password:
  assumes "validate_settings (ma_settings a) = Inr ()" "hideable (st_password (ma_settings a))"
  shows "\<not> contains_str (diagnostics_text w a) (st_password (ma_settings a))"
proof -
  have "endpoint_userinfo (st_pool (ma_settings a)) = None"
    using assms(1) validated_no_userinfo by (auto simp: validate_settings_def result_simps)
  then show ?thesis unfolding diagnostics_text_def using assms(2) by (intro redacted_text(2))
qed

theorem diagnostics_hide_password_witness:
  "\<not> contains_str (diagnostics_text report_world (report_app ''hunter2'')) ''hunter2''"
proof -
  have "validate_settings (settings_default\<lparr>st_password := ''hunter2''\<rparr>) = Inr ()"
    using default_settings_valid by (simp add: validate_settings_def result_simps settings_default_def)
  moreover have "hideable ''hunter2''" by code_simp
  ultimately show ?thesis using diagnostics_hide_password [of "report_app ''hunter2''"] by simp
qed

text \<open>
  Nothing stale is copied as current: without fresh metrics the expected time and the chance of the
  round are unavailable, whatever values the state still has.
\<close>

lemma stale_diagnostics:
  assumes "\<not> telemetry_is_fresh w a"
  shows "''expected solo block time: unavailable'' \<in> set (diagnostics_lines w a)"
    and "''current round probability: unavailable'' \<in> set (diagnostics_lines w a)"
  using assms
  by (simp_all add: diagnostics_lines_def solo_block_eta_seconds_def current_round_probability_def hashing_now_def
      or_unavailable_def unavailable_def bind_eq_None_conv split: option.split)

end
