(* ===== verification/Panels.thy ===== *)
theory Panels
  imports Report "Format"
begin

text \<open>
  What the panels of the interface show (\<open>src/gui.rs\<close>: \<open>status_rail\<close>, \<open>block_flow_strip\<close>,
  \<open>mempool_backlog_panel\<close>, \<open>block_time_graph\<close>, \<open>dashboard\<close>, the lines of \<open>engine_log_panel\<close>). A panel
  is the list of what it shows: labels, values, their colours, whether a card pulses; an absent
  panel is \<open>None\<close>. Positions, sizes, strokes, fonts, tool tips and the explaining captions are the
  drawing's. The theorems say that a value is only shown as live while it is, and that what the node did not
  report is never shown as zero, empty or clear.
\<close>

section \<open>Colours and cards\<close>

datatype colour = GREEN | AMBER | RED | CYAN | PURPLE | MUTED | TEXT | Faded rat colour

definition phase_colour :: "phase \<Rightarrow> colour" where
  "phase_colour p =
     (case p of
        Mining \<Rightarrow> GREEN
      | Starting \<Rightarrow> AMBER | Connecting \<Rightarrow> AMBER | Authenticating \<Rightarrow> AMBER | Reconnecting \<Rightarrow> AMBER
      | Failed \<Rightarrow> RED
      | Idle \<Rightarrow> MUTED | Stopping \<Rightarrow> MUTED)"

text \<open>A card of the status rail; \<open>hb_live\<close> is whether it pulses.\<close>

record heartbeat =
  hb_label :: str
  hb_value :: str
  hb_detail :: str
  hb_colour :: colour
  hb_live :: bool

text \<open>A chip, a card or a row with its label and value; a readout has a detail besides.\<close>

record readout =
  ro_label :: str
  ro_value :: str
  ro_detail :: str
  ro_colour :: colour

definition chip :: "str \<Rightarrow> str \<Rightarrow> colour \<Rightarrow> readout" where
  "chip label shown colour = \<lparr>ro_label = label, ro_value = shown, ro_detail = [], ro_colour = colour\<rparr>"

definition or_dash :: "('a \<Rightarrow> str) \<Rightarrow> 'a option \<Rightarrow> str" where
  "or_dash f v = (case v of Some x \<Rightarrow> f x | None \<Rightarrow> em_dash)"

definition bullet :: str where "bullet = [CHR 0xE2, CHR 0x80, CHR 0xA2]"

definition numbered :: "u64 \<Rightarrow> str" where
  "numbered height = ''#'' @ show_u64 height"

section \<open>The status rail\<close>

definition BLOCK_FOUND_HIGHLIGHT :: nat where "BLOCK_FOUND_HIGHLIGHT = 30 * nanos_per_sec"

definition rail_connected :: "miner_app \<Rightarrow> bool" where
  "rail_connected a \<longleftrightarrow> ma_node_link_live a \<and> \<not> ma_engine_fatal_seen a \<and> \<not> ma_requested_stop a"

definition rail_has_job :: "miner_app \<Rightarrow> bool" where
  "rail_has_job a \<longleftrightarrow> rail_connected a \<and> ma_height a \<noteq> None \<and> ma_job_id a \<noteq> WAITING_FOR_WORK"

definition rail_hashing :: "surroundings \<Rightarrow> miner_app \<Rightarrow> bool" where
  "rail_hashing w a \<longleftrightarrow>
     rail_has_job a \<and> telemetry_is_fresh w a \<and> ma_hashrate a > 0 \<and> ma_ready_workers a > 0"

definition recently_found :: "surroundings \<Rightarrow> miner_app \<Rightarrow> u64 option" where
  "recently_found w a =
     (case ma_last_found_block a of
        Some (height, found_at) \<Rightarrow> if now w - found_at \<le> BLOCK_FOUND_HIGHLIGHT then Some height else None
      | None \<Rightarrow> None)"

definition node_card :: "miner_app \<Rightarrow> heartbeat" where
  "node_card a =
     (let connected = rail_connected a in
      \<lparr>hb_label = ''NODE LINK'',
       hb_value = (if connected then ''CONNECTED'' else phase_label (ma_phase a)),
       hb_detail = (if connected then ''RPC telemetry live'' else ''Waiting for node''),
       hb_colour = (if connected then GREEN else phase_colour (ma_phase a)),
       hb_live = connected\<rparr>)"

definition work_card :: "surroundings \<Rightarrow> miner_app \<Rightarrow> heartbeat" where
  "work_card w a =
     (let connected = rail_connected a;
          hashing = rail_hashing w a;
          degraded = (hashing \<and> ma_worker_errors a \<noteq> [])
      in \<lparr>hb_label = ''PROOF OF WORK'',
          hb_value =
            (if degraded then ''HASHING '' @ bullet @ '' DEGRADED''
             else if hashing then ''HASHING''
             else if connected then ''WARMING''
             else ''OFFLINE''),
          hb_detail =
            (if hashing then format_hashrate (ma_hashrate a) @ '' '' @ bullet @ '' '' @
                 show_u64 (ma_ready_workers a) @ ''/'' @ show_u64 (effective_workers w a) @ '' workers''
             else if connected then ''Preparing workers''
             else ''No active engine''),
          hb_colour =
            (if degraded then AMBER else if hashing then CYAN else if connected then AMBER else RED),
          hb_live = hashing\<rparr>)"

definition job_card :: "surroundings \<Rightarrow> miner_app \<Rightarrow> heartbeat" where
  "job_card w a =
     (let has_job = rail_has_job a; found = recently_found w a in
      \<lparr>hb_label = ''JOB FEED'',
       hb_value =
         (if found \<noteq> None then black_star @ '' BLOCK FOUND'' else if has_job then ''ACTIVE'' else ''WAITING''),
       hb_detail =
         (case found of
            None \<Rightarrow>
              (case ma_height a of
                 None \<Rightarrow> ''No current template''
               | Some height \<Rightarrow> ''Block '' @ numbered height @ '' '' @ bullet @ '' '' @
                   (case solo_block_eta_seconds w a of
                      Some seconds \<Rightarrow> format_eta seconds
                    | None \<Rightarrow> if ma_expected_hashes a = None then ''ETA unavailable'' else ''ETA locking''))
          | Some height \<Rightarrow>
              (case ma_height a of
                 None \<Rightarrow> ''Accepted block '' @ numbered height @ '' '' @ bullet @ '' reward submitted''
               | Some current \<Rightarrow>
                   ''Accepted block '' @ numbered height @ '' '' @ bullet @ '' now mining '' @ numbered current)),
       hb_colour = (if found \<noteq> None then GREEN else if has_job then PURPLE else AMBER),
       hb_live = (has_job \<or> found \<noteq> None)\<rparr>)"

text \<open>The colour of \<open>tx_queue_status\<close>.\<close>

definition tx_queue_colour :: "u64 option \<Rightarrow> colour" where
  "tx_queue_colour pending =
     (case pending of Some n \<Rightarrow> if n = 0 then MUTED else GREEN | None \<Rightarrow> MUTED)"

definition queue_card :: "miner_app \<Rightarrow> heartbeat" where
  "queue_card a =
     (case tx_queue_status (ma_mempool_size a) of
        (headline, detail) \<Rightarrow>
          \<lparr>hb_label = ''TX QUEUE'', hb_value = headline, hb_detail = detail,
           hb_colour = tx_queue_colour (ma_mempool_size a),
           hb_live = (rail_connected a \<and> ma_mempool_size a \<noteq> None)\<rparr>)"

definition status_rail :: "surroundings \<Rightarrow> miner_app \<Rightarrow> heartbeat list" where
  "status_rail w a = [node_card a, work_card w a, job_card w a, queue_card a]"

section \<open>The block flow\<close>

text \<open>\<open>is_direct_node_endpoint\<close> decides, unless block data came: then the panels are shown.\<close>

definition panels_shown :: "miner_app \<Rightarrow> bool" where
  "panels_shown a \<longleftrightarrow> is_direct_node_endpoint (st_pool (ma_settings a)) \<or> ma_block_flow a \<noteq> None"

definition MAX_FLOW_TILES :: nat where "MAX_FLOW_TILES = 12"

datatype tile_kind = FormingTile | ConfirmedTile | MineTile

text \<open>A tile; \<open>None\<close> as the count is shown as a dash.\<close>

record flow_tile =
  ft_title :: str
  ft_txs :: str
  ft_caption :: str
  ft_colour :: colour
  ft_kind :: tile_kind

definition flow_block_tile :: "str \<Rightarrow> u64 option \<Rightarrow> str \<Rightarrow> colour \<Rightarrow> tile_kind \<Rightarrow> flow_tile" where
  "flow_block_tile title txs caption colour kind =
     \<lparr>ft_title = title, ft_txs = or_dash format_count txs, ft_caption = caption, ft_colour = colour,
      ft_kind = kind\<rparr>"

text \<open>\<open>(1.0 - index * step).clamp(0.45, 1.0)\<close>, with the step in hundredths.\<close>

definition fade :: "nat \<Rightarrow> nat \<Rightarrow> rat" where
  "fade step index = clamp (1 - of_nat (index * step) / 100) (45 / 100) 1"

definition projected_tile :: "nat \<times> projected_flow_tile \<Rightarrow> flow_tile" where
  "projected_tile = (\<lambda>(index, tile).
     flow_block_tile (format_fee_rate_range (pf_fee_min_grains tile) (pf_fee_max_grains tile))
       (Some (pf_tx_count tile)) ''PROJECTED'' (Faded (fade 9 index) CYAN) ConfirmedTile)"

definition forming_tile :: "block_flow_view \<Rightarrow> flow_tile" where
  "forming_tile flow =
     flow_block_tile (or_dash numbered (fv_template_height flow)) (fv_template_tx_count flow)
       ''FORMING'' AMBER FormingTile"

definition yours_caption :: str where "yours_caption = black_star @ '' YOURS''"
definition unverified_caption :: str where "unverified_caption = black_star @ ''? UNVERIFIED''"

definition recent_tile :: "nat \<times> block_flow_tile \<Rightarrow> flow_tile" where
  "recent_tile = (\<lambda>(index, tile).
     let unverified = (\<not> bf_mine tile \<and> bf_mine_basis tile = Some BasisUnverified) in
     flow_block_tile (numbered (bf_height tile)) (bf_tx_count tile)
       (if bf_mine tile then yours_caption else if unverified then unverified_caption else ''SEALED'')
       (if bf_mine tile then GREEN else if unverified then AMBER else Faded (fade 7 index) PURPLE)
       (if bf_mine tile then MineTile else ConfirmedTile))"

text \<open>The tiles left and right of the divider; without data the strip waits.\<close>

record flow_strip =
  fs_chips :: "readout list"
  fs_tiles :: "(flow_tile list \<times> flow_tile list) option"

definition strip_tiles :: "block_flow_view \<Rightarrow> flow_tile list \<times> flow_tile list" where
  "strip_tiles flow =
     (rev (List.map projected_tile (List.enumerate 0 (take MAX_PROJECTED_FLOW_TILES (fv_projected flow)))) @
        [forming_tile flow],
      List.map recent_tile (List.enumerate 0 (take MAX_FLOW_TILES (fv_recent flow))))"

definition block_flow_strip :: "miner_app \<Rightarrow> flow_strip option" where
  "block_flow_strip a =
     (if \<not> panels_shown a then None
      else Some
        \<lparr>fs_chips =
           [chip ''MEMPOOL'' (or_dash (\<lambda>n. show_u64 n @ '' TX'') (ma_mempool_size a))
              (tx_queue_colour (ma_mempool_size a)),
            chip ''FEE TO GET IN''
              (or_dash format_grains_as_xus (Option.bind (ma_block_flow a) fv_fee_grains)) AMBER],
         fs_tiles = map_option strip_tiles (ma_block_flow a)\<rparr>)"

section \<open>The backlog\<close>

definition up_sign :: str where "up_sign = [CHR 0xE2, CHR 0x96, CHR 0xB2]"
definition down_sign :: str where "down_sign = [CHR 0xE2, CHR 0x96, CHR 0xBC]"
definition right_sign :: str where "right_sign = [CHR 0xE2, CHR 0x86, CHR 0x92]"

text \<open>\<open>{}\<close> of an \<open>i64\<close>.\<close>

definition show_i64 :: "int \<Rightarrow> str" where
  "show_i64 i = (if i < 0 then ''-'' else []) @ decimal (nat \<bar>i\<bar>)"

definition trend_chip :: "backlog_trend_view option \<Rightarrow> readout" where
  "trend_chip trend =
     (case trend of
        None \<Rightarrow> chip ''TREND'' em_dash MUTED
      | Some t \<Rightarrow>
          let (glyph, word, colour) =
                (if tr_delta t > 0 then (up_sign, ''GROWING'', AMBER)
                 else if tr_delta t < 0 then (down_sign, ''DRAINING'', GREEN)
                 else (right_sign, ''STEADY'', MUTED))
          in chip ''TREND''
               (glyph @ '' '' @ word @ '' '' @ (if tr_delta t > 0 then ''+'' else []) @ show_i64 (tr_delta t) @
                '' TX / '' @ format_elapsed (tr_span t div nanos_per_sec)) colour)"

definition backlog_chips :: "backlog_view option \<Rightarrow> backlog_trend_view option \<Rightarrow> readout list" where
  "backlog_chips backlog trend =
     [trend_chip (if backlog \<noteq> None then trend else None),
      chip ''CAPACITY'' (or_dash (\<lambda>b. format_count (bv_max_block_txs b) @ '' TX/BLK'') backlog) PURPLE,
      chip ''PENDING'' (or_dash (\<lambda>b. format_count (bv_tx_count b) @ '' TX'') backlog) CYAN,
      chip ''DEPTH''
        (or_dash (\<lambda>b. format_count (bv_depth_blocks b) @ '' BLOCK'' @ (if bv_depth_blocks b = 1 then [] else ''S''))
           backlog) AMBER]"

text \<open>What stands below the chips: a line, a framed callout with its headline and its text, or the chart.\<close>

datatype backlog_body =
    Waiting str
  | Callout colour str str
  | BacklogChart backlog_view "u64 option"
  | Nothing

definition backlog_body_of :: "backlog_state_kind \<Rightarrow> backlog_view option \<Rightarrow> u64 option \<Rightarrow> backlog_body" where
  "backlog_body_of state backlog target_block_ms =
     (case state of
        AwaitingData \<Rightarrow> Waiting (''Awaiting real mempool data from the connected SOV node'' @ ellipsis)
      | Unavailable \<Rightarrow>
          Callout AMBER (''HISTOGRAM UNAVAILABLE '' @ em_dash @ '' BACKLOG UNKNOWN'')
            (''The connected node did not serve sov_getMempoolHistogram (older node, error, or malformed reply). The queue beyond the forming block is UNKNOWN '' @
             em_dash @ '' not empty '' @ em_dash @ '' and nothing here is estimated in its place.'')
      | Empty \<Rightarrow>
          Callout GREEN ''MEMPOOL EMPTY''
            (''The node'' @ [CHR 0x27] @ ''s histogram reports 0 pending transactions '' @ em_dash @
             '' an affirmative report, not missing data.'')
      | Clear pending \<Rightarrow>
          Callout GREEN ''BACKLOG CLEAR''
            (''All '' @ show_u64 pending @ '' pending transaction'' @ (if pending = 1 then [] else ''s'') @
             '' fit in the forming block '' @ em_dash @ '' nothing overflows into a later block.'')
      | Deep \<Rightarrow> (case backlog of Some b \<Rightarrow> BacklogChart b target_block_ms | None \<Rightarrow> Nothing))"

definition mempool_backlog_panel :: "surroundings \<Rightarrow> miner_app \<Rightarrow> (readout list \<times> backlog_body) option" where
  "mempool_backlog_panel w a =
     (if \<not> panels_shown a then None
      else
        let flow = ma_block_flow a; backlog = Option.bind flow fv_backlog in
        Some (backlog_chips backlog (backlog_trend (ma_backlog_history a) (now w)),
              backlog_body_of (backlog_state flow) backlog (ma_target_block_ms a)))"

section \<open>Block times\<close>

definition since_last_block :: "surroundings \<Rightarrow> miner_app \<Rightarrow> nat option" where
  "since_last_block w a =
     (if is_running a \<and> ma_node_link_live a then map_option (\<lambda>observed. now w - observed) (ma_tip_observed_at a) else None)"

text \<open>Durations are nanoseconds; the target is in milliseconds.\<close>

definition since_colour :: "nat option \<Rightarrow> u64 option \<Rightarrow> colour" where
  "since_colour since target_ms =
     (case (since, target_ms) of
        (Some elapsed, Some ms) \<Rightarrow>
          let target = unat ms * 1000000 in
          if elapsed \<le> target then GREEN else if elapsed \<le> target * 2 then AMBER else RED
      | _ \<Rightarrow> MUTED)"

definition since_chip :: "surroundings \<Rightarrow> miner_app \<Rightarrow> readout" where
  "since_chip w a =
     (let since = since_last_block w a; target_ms = ma_target_block_ms a in
      chip ''SINCE LAST BLOCK (OBSERVED)''
        (or_dash (\<lambda>elapsed. format_elapsed (elapsed div nanos_per_sec) @ '' (target '' @
             or_dash (\<lambda>ms. format_signed_ms (sint ms)) target_ms @ '')'') since)
        (since_colour since target_ms))"

text \<open>The tool tip of this chip has values of its own: it is the detail.\<close>

definition median_chip :: "interval_window_stats_view \<Rightarrow> readout" where
  "median_chip stats =
     \<lparr>ro_label = ''WINDOW MEDIAN'', ro_value = format_signed_ms (iw_median_ms stats),
      ro_detail = ''Median of the '' @ decimal (iw_known stats) @ '' known interval(s) of the '' @
        decimal (iw_total stats) @ '' visible; mean '' @ format_signed_ms (iw_mean_ms stats) @
        ''. Intervals the node did not disclose are excluded, never substituted.'',
      ro_colour = CYAN\<rparr>"

datatype block_times = AwaitingBlocks str | BlockTimeChart "interval_bar list" "u64 option"

definition block_time_graph :: "surroundings \<Rightarrow> miner_app \<Rightarrow> (readout list \<times> block_times) option" where
  "block_time_graph w a =
     (if \<not> panels_shown a then None
      else
        let bars = (case ma_block_flow a of Some flow \<Rightarrow> block_interval_bars (fv_recent flow) | None \<Rightarrow> []) in
        Some (since_chip w a #
               (case interval_window_stats bars of
                  Some stats \<Rightarrow> [median_chip stats]
                | None \<Rightarrow> []),
              if bars = [] then
                AwaitingBlocks
                  (if ma_block_flow a = None then ''Awaiting real block data from the connected SOV node'' @ ellipsis
                   else ''Awaiting a second confirmed block to compute a block-time interval'' @ ellipsis)
              else BlockTimeChart bars (ma_target_block_ms a)))"

section \<open>The dashboard\<close>

definition stale_rate :: "real \<Rightarrow> str" where
  "stale_rate rate = format_hashrate rate @ '' STALE''"

definition hashrate_card :: "surroundings \<Rightarrow> miner_app \<Rightarrow> readout" where
  "hashrate_card w a =
     (case headline_hashrate w a of
        Live rate \<Rightarrow> chip ''HASHRATE'' (format_hashrate rate) CYAN
      | Stale rate \<Rightarrow> chip ''HASHRATE'' (stale_rate rate) MUTED
      | Offline \<Rightarrow> chip ''HASHRATE'' em_dash MUTED)"

definition eta_card :: "surroundings \<Rightarrow> miner_app \<Rightarrow> readout" where
  "eta_card w a =
     chip ''SOLO BLOCK ETA''
       (case solo_block_eta_seconds w a of
          Some seconds \<Rightarrow> format_eta seconds
        | None \<Rightarrow>
            if ma_height a \<noteq> None \<and> ma_expected_hashes a = None then ''N/A (POOL)'' else ''LOCKING'' @ ellipsis)
       GREEN"

definition metric_cards :: "surroundings \<Rightarrow> miner_app \<Rightarrow> readout list" where
  "metric_cards w a =
     [hashrate_card w a,
      chip ''MINING BLOCK'' (or_dash numbered (ma_height a)) PURPLE,
      eta_card w a,
      chip ''UPTIME'' (uptime w a) AMBER]"

definition total_hashes_line :: "surroundings \<Rightarrow> miner_app \<Rightarrow> str" where
  "total_hashes_line w a =
     format_count (ma_total_hashes a) @
     (case headline_hashrate w a of Stale _ \<Rightarrow> '' total hashes (telemetry silent)'' | _ \<Rightarrow> '' total hashes'')"

definition smoothed_readout :: "surroundings \<Rightarrow> miner_app \<Rightarrow> readout" where
  "smoothed_readout w a =
     (let (shown, detail, colour) =
        (case headline_hashrate w a of
           Live _ \<Rightarrow> (format_hashrate (ma_smoothed_hashrate a), ''8-second signal lock'', CYAN)
         | Stale _ \<Rightarrow> (stale_rate (ma_smoothed_hashrate a), ''engine telemetry went silent'', MUTED)
         | Offline \<Rightarrow> (em_dash, ''no active engine'', MUTED))
      in \<lparr>ro_label = ''SMOOTHED HASHRATE'', ro_value = shown, ro_detail = detail, ro_colour = colour\<rparr>)"

text \<open>\<open>std::f64::consts::LN_2\<close> is the logarithm itself here.\<close>

definition meter_readouts :: "surroundings \<Rightarrow> miner_app \<Rightarrow> readout list" where
  "meter_readouts w a =
     (let eta = solo_block_eta_seconds w a in
      [smoothed_readout w a,
       \<lparr>ro_label = ''EXPECTED SOLO FIND'', ro_value = or_dash format_eta eta,
        ro_detail = ''probabilistic mean'', ro_colour = GREEN\<rparr>,
       \<lparr>ro_label = ''50% SOLO WINDOW'', ro_value = or_dash (\<lambda>seconds. format_eta (seconds * ln 2)) eta,
        ro_detail = ''median at current rate'', ro_colour = PURPLE\<rparr>,
       \<lparr>ro_label = ''CURRENT ROUND CHANCE'',
        ro_value = or_dash format_probability (current_round_probability w a),
        ro_detail =
          (case current_round_elapsed w a of
             Some elapsed \<Rightarrow> format_elapsed (elapsed div nanos_per_sec) @ '' on block''
           | None \<Rightarrow> ''waiting for work''),
        ro_colour = AMBER\<rparr>])"

definition peer_colour :: "u64 option \<Rightarrow> colour" where
  "peer_colour peers = (case peers of Some n \<Rightarrow> if n = 0 then AMBER else GREEN | None \<Rightarrow> MUTED)"

definition network_chips :: "miner_app \<Rightarrow> readout list" where
  "network_chips a =
     [chip ''NETWORK HASHRATE'' (or_dash format_hashrate (ma_network_hashrate a)) PURPLE,
      chip ''NODE PEERS'' (or_dash (\<lambda>n. show_u64 n @ '' AUTH'') (ma_peer_count a)) (peer_colour (ma_peer_count a)),
      chip ''TARGET CADENCE'' (or_dash (\<lambda>ms. format_eta (real (unat ms) / 1000)) (ma_target_block_ms a)) MUTED,
      chip ''WORK / BLOCK'' (or_dash format_count_f64 (ma_expected_hashes a)) MUTED]"

definition route_summary :: "reward_route \<Rightarrow> str" where
  "route_summary r =
     (case r of OwnedBridge \<Rightarrow> ''Bridge coinbase (operator asserted)''
      | ExternalPool \<Rightarrow> ''No automatic payout verified'')"

definition active_work :: "surroundings \<Rightarrow> miner_app \<Rightarrow> readout list" where
  "active_work w a =
     [chip ''ALGORITHM'' (redact_sensitive_text w a (ma_algorithm a)) CYAN,
      chip ''MINING BLOCK'' (or_dash numbered (ma_height a)) PURPLE,
      chip ''Job ID'' (redact_sensitive_text w a (ma_job_id a)) TEXT,
      chip ''Endpoint'' (sanitize_endpoint (st_pool (ma_settings a))) TEXT,
      chip ''Coinbase'' (redact_sensitive_text w a
        (case ma_coinbase a of Some c \<Rightarrow> c | None \<Rightarrow> ''awaiting template confirmation'')) TEXT,
      chip ''Mempool'' (case ma_mempool_size a of
          Some n \<Rightarrow> show_u64 n @ '' pending transaction(s)'' | None \<Rightarrow> ''unavailable'') TEXT,
      chip ''Route'' (if is_direct_node_endpoint (st_pool (ma_settings a)) then ''Direct SOV node (template verified)''
        else route_summary (st_reward_route (ma_settings a))) TEXT]"

definition submission_health :: "miner_app \<Rightarrow> readout list" where
  "submission_health a =
     [chip ''Submitted'' (show_u64 (ma_submitted a)) TEXT,
      chip ''Accepted'' (show_u64 (ma_accepted a)) TEXT,
      chip ''Rejected'' (show_u64 (ma_rejected a)) TEXT,
      chip ''Acceptance''
        (if ma_accepted a + ma_rejected a = 0 then em_dash
         else fixed 2 (real (unat (ma_accepted a)) * 100 / real (unat (ma_accepted a + ma_rejected a))) @ ''%'')
        TEXT]"

text \<open>The red line at the end of the dashboard.\<close>

definition error_banner :: "miner_app \<Rightarrow> str option" where
  "error_banner a =
     (if ma_last_error a \<noteq> [] \<and> (ma_phase a = Failed \<or> ma_phase a = Reconnecting) then Some (ma_last_error a)
      else None)"

record dashboard_view =
  dv_phase :: "str \<times> colour"
  dv_rail :: "heartbeat list"
  dv_cards :: "readout list"
  dv_strip :: "flow_strip option"
  dv_backlog :: "(readout list \<times> backlog_body) option"
  dv_times :: "(readout list \<times> block_times) option"
  dv_total :: str
  dv_meters :: "readout list"
  dv_network :: "readout list"
  dv_work :: "readout list"
  dv_health :: "readout list"
  dv_error :: "str option"

definition dashboard :: "surroundings \<Rightarrow> miner_app \<Rightarrow> dashboard_view" where
  "dashboard w a =
     \<lparr>dv_phase = (phase_label (ma_phase a), phase_colour (ma_phase a)),
      dv_rail = status_rail w a, dv_cards = metric_cards w a, dv_strip = block_flow_strip a,
      dv_backlog = mempool_backlog_panel w a, dv_times = block_time_graph w a,
      dv_total = total_hashes_line w a, dv_meters = meter_readouts w a, dv_network = network_chips a,
      dv_work = active_work w a, dv_health = submission_health a, dv_error = error_banner a\<rparr>"

text \<open>The lines of the log with their colours; an empty log has a line of its own.\<close>

definition log_colour :: "log_line \<Rightarrow> colour" where
  "log_colour line =
     (if ll_error line then RED
      else if contains_str (ll_text line) ''COINBASE CONFIRMED'' \<or> starts_with (ll_text line) black_star then GREEN
      else if starts_with (ll_text line) ''BLOCK FOUND (network)'' then PURPLE
      else MUTED)"

definition log_view :: "miner_app \<Rightarrow> (str \<times> colour) list" where
  "log_view a =
     (if ma_logs a = [] then [(''Engine events will appear here.'', MUTED)]
      else List.map (\<lambda>line. (stamped (ma_started_at a) line, log_colour line)) (ma_logs a))"

end
