(* ===== verification/PanelProps.thy ===== *)
theory PanelProps
  imports Panels
begin

text \<open>
  What the panels of \<open>Panels\<close> promise the operator: a value is shown as live only while it is; what
  the node did not report is shown as not known, never as zero, empty or clear; the strip shows
  exactly the blocks the engine reported, and calls one the operator's own only when the engine had proof.
\<close>

section \<open>Live values\<close>

lemma stale_telemetry:
  assumes "\<not> telemetry_is_fresh w a"
  shows "solo_block_eta_seconds w a = None" "current_round_probability w a = None"
    "current_round_elapsed w a = None" "headline_hashrate w a \<noteq> Live r" "\<not> rail_hashing w a"
  using assms
  by (simp_all add: solo_block_eta_seconds_def current_round_probability_def current_round_elapsed_def hashing_now_def
      headline_hashrate_def rail_hashing_def bind_eq_None_conv)

lemma dead_engine:
  assumes "ma_engine_fatal_seen a \<or> \<not> is_running a"
  shows "headline_hashrate w a = Offline"
  using assms by (auto simp: headline_hashrate_def)

text \<open>The hash rate of a state is only seen through these readouts.\<close>

definition rated :: "real \<Rightarrow> real \<Rightarrow> miner_app \<Rightarrow> miner_app" where
  "rated rate smoothed a = a\<lparr>ma_hashrate := rate, ma_smoothed_hashrate := smoothed\<rparr>"

lemma rated_fields [simp]:
  "ma_settings (rated r s a) = ma_settings a" "ma_phase (rated r s a) = ma_phase a"
  "ma_child (rated r s a) = ma_child a" "ma_quarantined_child (rated r s a) = ma_quarantined_child a"
  "ma_pending_exit (rated r s a) = ma_pending_exit a" "ma_pending_observation_failure (rated r s a) = ma_pending_observation_failure a"
  "ma_receiver (rated r s a) = ma_receiver a" "ma_reader_threads (rated r s a) = ma_reader_threads a"
  "ma_output_disconnected_at (rated r s a) = ma_output_disconnected_at a" "ma_requested_stop (rated r s a) = ma_requested_stop a"
  "ma_automatic_recovery_enabled (rated r s a) = ma_automatic_recovery_enabled a" "ma_automatic_restart_at (rated r s a) = ma_automatic_restart_at a"
  "ma_automatic_restart_attempts (rated r s a) = ma_automatic_restart_attempts a" "ma_single_worker_recovery (rated r s a) = ma_single_worker_recovery a"
  "ma_light_randomx_recovery (rated r s a) = ma_light_randomx_recovery a" "ma_started_at (rated r s a) = ma_started_at a"
  "ma_stable_hashing_since (rated r s a) = ma_stable_hashing_since a" "ma_total_hashes (rated r s a) = ma_total_hashes a"
  "ma_submitted (rated r s a) = ma_submitted a" "ma_accepted (rated r s a) = ma_accepted a"
  "ma_rejected (rated r s a) = ma_rejected a" "ma_height (rated r s a) = ma_height a"
  "ma_algorithm (rated r s a) = ma_algorithm a" "ma_job_id (rated r s a) = ma_job_id a"
  "ma_job_observed_in_metrics (rated r s a) = ma_job_observed_in_metrics a" "ma_jobless_metrics_seen (rated r s a) = ma_jobless_metrics_seen a"
  "ma_last_found_block (rated r s a) = ma_last_found_block a" "ma_coinbase (rated r s a) = ma_coinbase a"
  "ma_expected_hashes (rated r s a) = ma_expected_hashes a" "ma_round_hashes (rated r s a) = ma_round_hashes a"
  "ma_round_probability (rated r s a) = ma_round_probability a" "ma_height_started_at (rated r s a) = ma_height_started_at a"
  "ma_network_hashrate (rated r s a) = ma_network_hashrate a" "ma_target_block_ms (rated r s a) = ma_target_block_ms a"
  "ma_network_difficulty (rated r s a) = ma_network_difficulty a" "ma_last_error (rated r s a) = ma_last_error a"
  "ma_logs (rated r s a) = ma_logs a" "ma_mempool_size (rated r s a) = ma_mempool_size a"
  "ma_peer_count (rated r s a) = ma_peer_count a" "ma_block_flow (rated r s a) = ma_block_flow a"
  "ma_observed_tip_height (rated r s a) = ma_observed_tip_height a" "ma_tip_observed_at (rated r s a) = ma_tip_observed_at a"
  "ma_backlog_history (rated r s a) = ma_backlog_history a" "ma_meter_history (rated r s a) = ma_meter_history a"
  "ma_last_metrics_at (rated r s a) = ma_last_metrics_at a" "ma_ready_workers (rated r s a) = ma_ready_workers a"
  "ma_ready_worker_ids (rated r s a) = ma_ready_worker_ids a" "ma_worker_errors (rated r s a) = ma_worker_errors a"
  "ma_worker_error_can_restore_mining (rated r s a) = ma_worker_error_can_restore_mining a" "ma_engine_fatal_seen (rated r s a) = ma_engine_fatal_seen a"
  "ma_memory_acknowledged (rated r s a) = ma_memory_acknowledged a" "ma_memory_snapshot (rated r s a) = ma_memory_snapshot a"
  "ma_node_link_live (rated r s a) = ma_node_link_live a"
  by (simp_all add: rated_def)

lemma rated_queries [simp]:
  "is_running (rated r s a) = is_running a" "telemetry_is_fresh w (rated r s a) = telemetry_is_fresh w a"
  "rail_connected (rated r s a) = rail_connected a" "rail_has_job (rated r s a) = rail_has_job a"
  "recently_found w (rated r s a) = recently_found w a" "panels_shown (rated r s a) = panels_shown a"
  "effective_workers w (rated r s a) = effective_workers w a" "uptime w (rated r s a) = uptime w a"
  "redact_sensitive_text w (rated r s a) t = redact_sensitive_text w a t"
  by (simp_all add: is_running_def has_live_engine_state_def telemetry_is_fresh_def rail_connected_def
      rail_has_job_def recently_found_def panels_shown_def effective_workers_def uptime_def
      redact_sensitive_text_def cong: option.case_cong)

lemma stale_dashboard:
  assumes "\<not> telemetry_is_fresh w a"
  shows "\<not> hb_live (work_card w a)" "hb_value (work_card w a) \<in> {''WARMING'', ''OFFLINE''}"
    "ro_colour (hashrate_card w a) = MUTED"
    "ro_value (hashrate_card w a) \<in> {stale_rate (ma_hashrate a), em_dash}"
    "ro_value (eta_card w a) \<in> {''N/A (POOL)'', ''LOCKING'' @ ellipsis}"
    "List.map ro_value (tl (meter_readouts w a)) = [em_dash, em_dash, em_dash]"
    "ro_value (smoothed_readout w a) \<in> {stale_rate (ma_smoothed_hashrate a), em_dash}"
    "ma_engine_fatal_seen a \<or> \<not> is_running a \<Longrightarrow> dashboard w (rated r s a) = dashboard w a"
proof -
  note stale = stale_telemetry [OF assms]
  have head: "headline_hashrate w a \<in> {Stale (ma_hashrate a), Offline}"
    using assms by (auto simp: headline_hashrate_def)
  have cards: "\<not> hb_live (work_card w a)" "hb_value (work_card w a) \<in> {''WARMING'', ''OFFLINE''}"
    using stale(5) by (auto simp: work_card_def Let_def)
  have rates: "ro_colour (hashrate_card w a) = MUTED"
    "ro_value (hashrate_card w a) \<in> {stale_rate (ma_hashrate a), em_dash}"
    "ro_value (smoothed_readout w a) \<in> {stale_rate (ma_smoothed_hashrate a), em_dash}"
    using head by (auto simp: hashrate_card_def smoothed_readout_def chip_def Let_def)
  have times: "ro_value (eta_card w a) \<in> {''N/A (POOL)'', ''LOCKING'' @ ellipsis}"
    "List.map ro_value (tl (meter_readouts w a)) = [em_dash, em_dash, em_dash]"
    using stale by (auto simp: eta_card_def meter_readouts_def chip_def or_dash_def Let_def)
  have "dashboard w (rated r s a) = dashboard w a" if dead: "ma_engine_fatal_seen a \<or> \<not> is_running a" for r s
  proof -
    have off: "headline_hashrate w a = Offline" "headline_hashrate w (rated r s a) = Offline"
      using dead by (auto simp: headline_hashrate_def)
    have gone: "solo_block_eta_seconds w (rated r s a) = None" "\<not> rail_hashing w (rated r s a)"
      "current_round_probability w (rated r s a) = None" "current_round_elapsed w (rated r s a) = None"
      using assms stale_telemetry(1,2,3,5) [of w "rated r s a"] by simp_all
    show ?thesis
      using off gone stale
      by (simp add: dashboard_def status_rail_def node_card_def work_card_def job_card_def queue_card_def
          metric_cards_def hashrate_card_def eta_card_def block_flow_strip_def mempool_backlog_panel_def
          block_time_graph_def since_chip_def since_last_block_def total_hashes_line_def meter_readouts_def
          smoothed_readout_def network_chips_def active_work_def submission_health_def error_banner_def Let_def
          cong: option.case_cong)
  qed
  with cards rates times show "\<not> hb_live (work_card w a)" "hb_value (work_card w a) \<in> {''WARMING'', ''OFFLINE''}"
    "ro_colour (hashrate_card w a) = MUTED"
    "ro_value (hashrate_card w a) \<in> {stale_rate (ma_hashrate a), em_dash}"
    "ro_value (eta_card w a) \<in> {''N/A (POOL)'', ''LOCKING'' @ ellipsis}"
    "List.map ro_value (tl (meter_readouts w a)) = [em_dash, em_dash, em_dash]"
    "ro_value (smoothed_readout w a) \<in> {stale_rate (ma_smoothed_hashrate a), em_dash}"
    "ma_engine_fatal_seen a \<or> \<not> is_running a \<Longrightarrow> dashboard w (rated r s a) = dashboard w a"
    by blast+
qed

text \<open>
  C22: Nothing stale is shown as live. While the last metrics are too old, no card pulses for hashing or
  claims it, no time or chance is shown, the hash rates are marked STALE and greyed, or a dash; and when
  the engine is then gone, or has failed for good, the whole dashboard is the same whatever rates are
  left in the state. However recent the metrics are, the hash rates are a dash once the engine is gone
  or has failed for good, and the work card says OFFLINE and does not pulse once the engine has failed
  for good, a stop was asked for or the link to the node is down.
\<close>

theorem no_stale_value_shown_live:
  "(\<not> telemetry_is_fresh w a \<longrightarrow>
    \<not> hb_live (work_card w a) \<and> hb_value (work_card w a) \<in> {''WARMING'', ''OFFLINE''} \<and>
    ro_colour (hashrate_card w a) = MUTED \<and>
    ro_value (hashrate_card w a) \<in> {stale_rate (ma_hashrate a), em_dash} \<and>
    ro_value (eta_card w a) \<in> {''N/A (POOL)'', ''LOCKING'' @ ellipsis} \<and>
    List.map ro_value (tl (meter_readouts w a)) = [em_dash, em_dash, em_dash] \<and>
    ro_value (smoothed_readout w a) \<in> {stale_rate (ma_smoothed_hashrate a), em_dash} \<and>
    (ma_engine_fatal_seen a \<or> \<not> is_running a \<longrightarrow> (\<forall>r s. dashboard w (rated r s a) = dashboard w a))) \<and>
   (ma_engine_fatal_seen a \<or> \<not> is_running a \<longrightarrow>
    ro_value (hashrate_card w a) = em_dash \<and> ro_colour (hashrate_card w a) = MUTED \<and>
    ro_value (smoothed_readout w a) = em_dash) \<and>
   (ma_engine_fatal_seen a \<or> ma_requested_stop a \<or> \<not> ma_node_link_live a \<longrightarrow>
    \<not> hb_live (work_card w a) \<and> hb_value (work_card w a) = ''OFFLINE'')"
proof (intro conjI impI)
  assume "ma_engine_fatal_seen a \<or> \<not> is_running a"
  then have "headline_hashrate w a = Offline" by (auto simp: headline_hashrate_def)
  then show "ro_value (hashrate_card w a) = em_dash" "ro_colour (hashrate_card w a) = MUTED"
    "ro_value (smoothed_readout w a) = em_dash"
    by (simp_all add: hashrate_card_def smoothed_readout_def chip_def Let_def)
next
  assume "ma_engine_fatal_seen a \<or> ma_requested_stop a \<or> \<not> ma_node_link_live a"
  then have "\<not> rail_connected a" by (auto simp: rail_connected_def)
  then have "\<not> rail_connected a" "\<not> rail_hashing w a" by (auto simp: rail_hashing_def rail_has_job_def)
  then show "\<not> hb_live (work_card w a)" "hb_value (work_card w a) = ''OFFLINE''"
    by (simp_all add: work_card_def Let_def)
qed (use stale_dashboard [of w a] in blast)+

lemma no_stale_value_shown_live_witness:
  "ro_colour (hashrate_card report_world (app_default settings_default None)) = MUTED \<and>
   hb_value (work_card report_world (app_default settings_default None)) \<in> {''WARMING'', ''OFFLINE''}"
proof -
  have "\<not> telemetry_is_fresh report_world (app_default settings_default None)"
    by (simp add: telemetry_is_fresh_def app_default_def)
  with no_stale_value_shown_live [of report_world "app_default settings_default None"] show ?thesis by blast
qed

section \<open>Absent data\<close>





section \<open>The blocks of the strip\<close>

text \<open>
  C24: The strip shows the engine's blocks. When the interface reads a \<open>block_flow\<close> event of the engine, the
  right side of the strip has a tile for each of the twelve newest blocks of the engine's window, in
  their order, with the height and the count that the engine knows or a dash; a tile says that
  the block is the operator's own exactly when the engine had proof, and that this is not verified
  exactly when only the height matched.
\<close>

theorem strip_shows_engine_blocks:
  "\<exists>e pending sealed st.
     block_flow_event tip th ttx fee reply r s = Some e \<and>
     block_flow_strip (on_block_flow w e a) = Some st \<and> fs_tiles st = Some (pending, sealed) \<and>
     list_all2 (\<lambda>known shown.
        ft_title shown = numbered (tile_height known) \<and>
        ft_txs shown = or_dash format_count (tile_tx_count known) \<and>
        (ft_caption shown = yours_caption \<longleftrightarrow> proven (tile_mine known)) \<and>
        (ft_caption shown = unverified_caption \<longleftrightarrow> tile_mine known = UnverifiedHeight))
       (take 12 (tiles r tip s)) sealed"
proof -
  obtain e where e: "block_flow_event tip th ttx fee reply r s = Some e"
    "fv_recent (block_flow_from_telemetry e) = List.map view_tile (tiles r tip s)"
    using block_flow_read_back [of tip th ttx fee reply r s] by (elim exE conjE) (rule that, assumption, simp)
  let ?sealed = "List.map recent_tile (List.enumerate 0 (take MAX_FLOW_TILES (List.map view_tile (tiles r tip s))))"
  have flow: "ma_block_flow (on_block_flow w e a) = Some (block_flow_from_telemetry e)"
    by (simp add: on_block_flow_def Let_def)
  have captions: "yours_caption \<noteq> unverified_caption" "yours_caption \<noteq> ''SEALED''" "unverified_caption \<noteq> ''SEALED''"
    by (simp_all add: yours_caption_def unverified_caption_def black_star_def)
  let ?shown_as = "\<lambda>known shown.
        ft_title shown = numbered (tile_height known) \<and>
        ft_txs shown = or_dash format_count (tile_tx_count known) \<and>
        (ft_caption shown = yours_caption \<longleftrightarrow> proven (tile_mine known)) \<and>
        (ft_caption shown = unverified_caption \<longleftrightarrow> tile_mine known = UnverifiedHeight)"
  have tile: "?shown_as known (recent_tile (i, view_tile known))" for known i
    using captions by (cases "tile_mine known")
      (simp_all add: recent_tile_def flow_block_tile_def view_tile_def basis_of_def proven_def Let_def)
  have "list_all2 ?shown_as (take 12 (tiles r tip s)) ?sealed"
  proof (rule list_all2_all_nthI)
    fix i
    assume "i < length (take 12 (tiles r tip s))"
    then have "?sealed ! i = recent_tile (i, view_tile (take 12 (tiles r tip s) ! i))"
      by (simp add: nth_enumerate_eq MAX_FLOW_TILES_def)
    then show "?shown_as (take 12 (tiles r tip s) ! i) (?sealed ! i)" using tile by simp
  qed (simp add: MAX_FLOW_TILES_def)
  moreover have "\<exists>st. block_flow_strip (on_block_flow w e a) = Some st \<and>
      (\<exists>pending. fs_tiles st = Some (pending, ?sealed))"
    by (simp add: block_flow_strip_def panels_shown_def flow strip_tiles_def e(2))
  ultimately show ?thesis using e(1) by blast
qed

end
