(* ===== verification/Charts.thy ===== *)
theory Charts
  imports Panels
begin

text \<open>
  What the charts of the interface show (\<open>src/gui.rs\<close>: \<open>block_time_chart\<close>, \<open>backlog_chart\<close>,
  \<open>mining_meter\<close>, \<open>activity_cell_color\<close>): the scale, the height of each bar as a fraction of the plot, the
  marks and labels, the tool tips, and which samples the cells stand for. Pixels, strokes and fonts are the
  drawing's; the width of a plot is an argument. The theorems say that nothing known is cut off
  by the scale, that what is unknown has no height, and that no index is out of range.
\<close>

section \<open>Block times\<close>

definition times_sign :: str where "times_sign = [CHR 0xC3, CHR 0x97]"
definition at_most_sign :: str where "at_most_sign = [CHR 0xE2, CHR 0x89, CHR 0xA4]"
definition at_least_sign :: str where "at_least_sign = [CHR 0xE2, CHR 0x89, CHR 0xA5]"

text \<open>A fraction of the plot: \<open>clamp(0.0, 1.0)\<close>.\<close>

definition fraction :: "rat \<Rightarrow> rat" where
  "fraction x = clamp x 0 1"

definition chart_target :: "u64 option \<Rightarrow> int option" where
  "chart_target target_block_ms =
     Option.bind target_block_ms (\<lambda>ms. if uint ms \<le> i64_max then Some (uint ms) else None)"

definition known_max :: "interval_bar list \<Rightarrow> int option" where
  "known_max bars =
     (let known = List.map_filter ib_interval_ms bars in if known = [] then None else Some (Max (set known)))"

definition axis_ceiling :: "interval_bar list \<Rightarrow> u64 option \<Rightarrow> int" where
  "axis_ceiling bars target_block_ms =
     nice_ceiling_ms (max (case known_max bars of Some m \<Rightarrow> m | None \<Rightarrow> 0)
       (case chart_target target_block_ms of Some target \<Rightarrow> saturating_mul_i64 target 2 | None \<Rightarrow> 0))"

definition height_of :: "int \<Rightarrow> int \<Rightarrow> rat" where
  "height_of axis ms = fraction (of_int (max ms 0) / of_int axis)"

text \<open>The reference lines: height and label. \<open>None\<close> is the line that the target is unavailable.\<close>

definition reference_lines :: "int \<Rightarrow> int option \<Rightarrow> (rat \<times> str) list option" where
  "reference_lines axis target =
     map_option (\<lambda>target.
       List.map (\<lambda>(v, label). (height_of axis v, label @ '' '' @ format_signed_ms v))
         (List.filter (\<lambda>(v, label). \<not> v > axis)
           (List.map (\<lambda>(multiple, label). (saturating_mul_i64 target multiple, label))
             [(1, ''1'' @ times_sign @ '' TARGET''), (2, ''2'' @ times_sign @ '' TARGET'')]))) target"

text \<open>A bar with its height and colour, the mark of an interval that is not positive, or a gap.\<close>

datatype bar_shape = Column rat colour | AtMostZero | Gap
datatype bar_star = NoStar | OwnStar | TentativeStar

record bar_view =
  br_slot :: nat
  br_shape :: bar_shape
  br_star :: bar_star
  br_tip :: "str list"

definition bar_tip :: "interval_bar \<Rightarrow> str list" where
  "bar_tip bar =
     [''Block '' @ numbered (ib_height bar)] @
     (case ib_interval_ms bar of
        Some interval \<Rightarrow>
          [''Interval '' @ format_signed_ms interval @ '' from the previous block'' @ [CHR 0x27] @ ''s miner-declared timestamp''] @
          (if interval \<le> 0
           then [''Non-monotonic timestamp: block timestamps are miner-declared, not wall-clock truth''] else [])
      | None \<Rightarrow> [''Interval unknown: the node did not disclose a timestamp for this block or its parent'']) @
     (case ib_timestamp_ms bar of
        Some ms \<Rightarrow> [''Declared timestamp '' @ format_utc_millis ms @ '' ('' @ show_u64 ms @ '' ms)'']
      | None \<Rightarrow> []) @
     (case ib_tx_count bar of Some n \<Rightarrow> [show_u64 n @ '' transaction(s)''] | None \<Rightarrow> []) @
     [mine_attribution_line (ib_mine bar) (ib_mine_basis bar)]"

definition bar_view_of :: "int \<Rightarrow> nat \<Rightarrow> nat \<times> interval_bar \<Rightarrow> bar_view" where
  "bar_view_of axis first_slot = (\<lambda>(index, bar).
     \<lparr>br_slot = first_slot + index,
      br_shape =
        (case ib_interval_ms bar of
           Some interval \<Rightarrow>
             if interval > 0
             then Column (height_of axis interval)
               (if ib_mine bar then Faded (9 / 10) GREEN else Faded (72 / 100) CYAN)
             else AtMostZero
         | None \<Rightarrow> Gap),
      br_star =
        (if ib_mine bar then OwnStar
         else if ib_mine_basis bar = Some BasisUnverified then TentativeStar else NoStar),
      br_tip = bar_tip bar\<rparr>)"

record time_chart =
  tc_axis :: str
  tc_references :: "(rat \<times> str) list option"
  tc_bars :: "bar_view list"
  tc_ends :: "(str \<times> str) option"
  tc_undisclosed :: bool

definition block_time_chart :: "interval_bar list \<Rightarrow> u64 option \<Rightarrow> time_chart" where
  "block_time_chart bars target_block_ms =
     (let axis = axis_ceiling bars target_block_ms in
      \<lparr>tc_axis = ''0 '' @ en_dash @ '' '' @ format_signed_ms axis,
       tc_references = reference_lines axis (chart_target target_block_ms),
       tc_bars = List.map (bar_view_of axis (BLOCK_TIME_GRAPH_BARS - length bars)) (List.enumerate 0 bars),
       tc_ends = (if bars = [] then None
         else Some (numbered (ib_height (hd bars)) @ '' OLDEST'', numbered (ib_height (last bars)) @ '' NEWEST'')),
       tc_undisclosed = (known_max bars = None)\<rparr>)"

section \<open>The backlog\<close>

record backlog_column =
  bc_fill :: rat
  bc_colour :: colour
  bc_tail :: "str option"
  bc_fee :: "str option"
  bc_tip :: "str list"

text \<open>The engine merges the rest of the queue into the last block.\<close>

definition merged_tail :: "backlog_view \<Rightarrow> nat \<Rightarrow> projected_flow_tile \<Rightarrow> bool" where
  "merged_tail backlog index block \<longleftrightarrow>
     index + 1 = length (bv_blocks backlog) \<and>
     (bv_depth_blocks backlog > of_nat (length (bv_blocks backlog)) \<or> pf_tx_count block > bv_max_block_txs backlog)"

definition tail_blocks :: "backlog_view \<Rightarrow> u64" where
  "tail_blocks backlog = saturating_sub (bv_depth_blocks backlog) (of_nat (length (bv_blocks backlog)) - 1)"

definition column_fill :: "backlog_view \<Rightarrow> projected_flow_tile \<Rightarrow> rat" where
  "column_fill backlog block =
     (if bv_max_block_txs backlog = 0 then 0
      else fraction (of_nat (unat (pf_tx_count block)) / of_nat (unat (bv_max_block_txs backlog))))"

definition round_percent :: "rat \<Rightarrow> nat" where
  "round_percent fill = nat \<lfloor>fill * 100 + 1 / 2\<rfloor>"

definition column_tip :: "backlog_view \<Rightarrow> u64 option \<Rightarrow> nat \<Rightarrow> projected_flow_tile \<Rightarrow> str list" where
  "column_tip backlog target_block_ms index block =
     (let position = index + 1 in
      (if merged_tail backlog index block
       then [''Merged tail: projected blocks +'' @ decimal position @ '' and deeper'',
             show_u64 (pf_tx_count block) @ '' pending tx '' @ about_sign @ '' '' @ show_u64 (tail_blocks backlog) @
               '' block'' @ (if tail_blocks backlog = 1 then [] else ''s'') @ '' at the node'' @ [CHR 0x27] @ ''s '' @
               show_u64 (bv_max_block_txs backlog) @ ''-tx capacity (nothing dropped)'']
       else [''Projected block +'' @ decimal position @ '' behind the forming block'',
             show_u64 (pf_tx_count block) @ '' of '' @ show_u64 (bv_max_block_txs backlog) @ '' tx ('' @
               decimal (round_percent (column_fill backlog block)) @ ''% full)'']) @
      [''Effective tip to be included: '' @ format_fee_rate_range (pf_fee_min_grains block) (pf_fee_max_grains block)] @
      (case target_block_ms of
         Some target_ms \<Rightarrow>
           [about_sign @ '' '' @ format_eta (real position * real (unat target_ms) / 1000) @
            '' away at the node'' @ [CHR 0x27] @ ''s target cadence (statistical, not a countdown)'']
       | None \<Rightarrow> []) @
      [''Packed from the node'' @ [CHR 0x27] @ ''s own mempool histogram in auction admission order''])"

text \<open>\<open>width\<close> is the width of the plot: narrow columns are not labelled, except the first and the last.\<close>

definition slot_width :: "rat \<Rightarrow> backlog_view \<Rightarrow> rat" where
  "slot_width width backlog = min (width / of_nat (max (length (bv_blocks backlog)) 1)) 72"

definition backlog_column_of ::
  "rat \<Rightarrow> backlog_view \<Rightarrow> u64 option \<Rightarrow> nat \<times> projected_flow_tile \<Rightarrow> backlog_column"
where
  "backlog_column_of width backlog target_block_ms = (\<lambda>(index, block).
     let is_last = (index + 1 = length (bv_blocks backlog)); tail = merged_tail backlog index block in
     \<lparr>bc_fill = column_fill backlog block,
      bc_colour = Faded (8 / 10)
        (if tail then AMBER else Faded (clamp (1 - of_nat index * 2 / 100) (55 / 100) 1) CYAN),
      bc_tail = (if tail then Some (''+'' @ format_count (tail_blocks backlog) @ '' BLK'') else None),
      bc_fee =
        (if slot_width width backlog \<ge> 40 \<or> index = 0 \<or> is_last
         then Some (at_least_sign @ format_count (pf_fee_min_grains block)) else None),
      bc_tip = column_tip backlog target_block_ms index block\<rparr>)"

definition backlog_chart :: "rat \<Rightarrow> backlog_view \<Rightarrow> u64 option \<Rightarrow> str \<times> backlog_column list" where
  "backlog_chart width backlog target_block_ms =
     (''CAP '' @ format_count (bv_max_block_txs backlog) @ '' TX/BLOCK'',
      List.map (backlog_column_of width backlog target_block_ms) (List.enumerate 0 (bv_blocks backlog)))"

section \<open>The meter\<close>

definition MAX_ACTIVITY_CELLS :: nat where "MAX_ACTIVITY_CELLS = 48"

definition peak_rate :: "meter_sample list \<Rightarrow> real" where
  "peak_rate history =
     max (foldl max 0 (List.map (\<lambda>s. max (ms_hashrate s) (ms_smoothed_hashrate s)) history)) 1"

definition average_rate :: "meter_sample list \<Rightarrow> real" where
  "average_rate history = sum_list (List.map ms_smoothed_hashrate history) / real (length history)"

definition probability_scale :: "meter_sample list \<Rightarrow> real" where
  "probability_scale history =
     clamp (foldl max 0 (List.map_filter ms_round_probability history)) (1 / 100) 1"

text \<open>\<open>activity_cell_color\<close>: the colour and how much of it.\<close>

definition activity_cell :: "real \<Rightarrow> meter_sample \<Rightarrow> colour \<times> real" where
  "activity_cell max_rate sample =
     (let activity = clamp (ms_smoothed_hashrate sample / max max_rate 1) 0 1 in
      (if (case ms_mempool sample of Some n \<Rightarrow> n > 0 | None \<Rightarrow> False) then GREEN else CYAN,
       12 / 100 + activity * (76 / 100)))"

text \<open>The samples of the cells: spread over the whole history.\<close>

definition cell_samples :: "nat \<Rightarrow> nat list" where
  "cell_samples len =
     (let cells = min len MAX_ACTIVITY_CELLS
      in List.map (\<lambda>cell. if cells = 1 then len - 1 else cell * (len - 1) div (cells - 1)) [0 ..< cells])"

record meter_view =
  mv_raw :: "real list"
  mv_locked :: "real list"
  mv_chance :: "real option list"
  mv_markers :: "(nat \<times> str) list"
  mv_live :: "str option"
  mv_cells :: "(colour \<times> real) list"
  mv_title :: str
  mv_rates :: str
  mv_hunt :: str
  mv_mempool :: "str \<times> colour"

text \<open>\<open>None\<close> is the line that the meter waits for its second sample.\<close>

definition mining_meter :: "meter_sample list \<Rightarrow> u64 \<Rightarrow> meter_view option" where
  "mining_meter history report_secs =
     (if length history < 2 then None
      else
        let max_rate = peak_rate history; scale = probability_scale history;
            markers = height_change_markers history; latest = last history in
        Some
          \<lparr>mv_raw = List.map (\<lambda>s. clamp (ms_hashrate s / max_rate) 0 1) history,
           mv_locked = List.map (\<lambda>s. clamp (ms_smoothed_hashrate s / max_rate) 0 1) history,
           mv_chance = List.map (\<lambda>s. map_option (\<lambda>p. clamp (p / scale) 0 1) (ms_round_probability s)) history,
           mv_markers = List.map (\<lambda>(index, height). (index, ''B'' @ show_u64 height)) (drop (length markers - 6) markers),
           mv_live = map_option (\<lambda>height. ''B'' @ show_u64 height @ '' LIVE'') (ms_height latest),
           mv_cells = List.map (\<lambda>i. activity_cell max_rate (history ! i)) (cell_samples (length history)),
           mv_title = ''POW FLIGHT RECORDER  '' @ bullet @ ''  ROLLING LAST '' @
             format_elapsed (unat (saturating_mul report_secs (of_nat (length history - 1)))) @ '' (OLDEST DROPS OFF)'',
           mv_rates = ''AVG '' @ format_hashrate (average_rate history) @ ''  '' @ bullet @ ''  PEAK '' @
             format_hashrate max_rate,
           mv_hunt = ''BLOCK HUNT '' @ or_dash format_probability (ms_round_probability latest) @ ''  '' @ bullet @
             ''  SCALE 0'' @ en_dash @ format_probability scale,
           mv_mempool =
             (''MEMPOOL '' @ or_dash show_u64 (ms_mempool latest) @ ''  '' @ bullet @ ''  ACTIVITY SLICES '' @
                decimal (min (length history) MAX_ACTIVITY_CELLS) @ ''/'' @ decimal MAX_ACTIVITY_CELLS,
              if (case ms_mempool latest of Some n \<Rightarrow> n > 0 | None \<Rightarrow> False) then GREEN else MUTED)\<rparr>)"

section \<open>The scale of the block times\<close>

lemma axis_bounds:
  assumes "m \<le> i64_max"
  shows "max m 1000 \<le> nice_ceiling_ms m" "0 < nice_ceiling_ms m"
proof -
  have "max m 1000 \<le> nice_ceiling_ms m"
    using nice_ceiling_least [of m] assms by (auto simp: i64_max_def)
  then show "max m 1000 \<le> nice_ceiling_ms m" "0 < nice_ceiling_ms m" by auto
qed

lemma known_max_ge: "bar \<in> set bars \<Longrightarrow> ib_interval_ms bar = Some i \<Longrightarrow> \<exists>m. known_max bars = Some m \<and> i \<le> m"
proof -
  assume b: "bar \<in> set bars" "ib_interval_ms bar = Some i"
  then have "i \<in> set (List.map_filter ib_interval_ms bars)" by (auto simp: set_map_filter)
  then show ?thesis by (auto simp: known_max_def Let_def intro!: Max_ge)
qed

lemma known_max_in: "known_max bars = Some m \<Longrightarrow> \<exists>bar \<in> set bars. ib_interval_ms bar = Some m"
proof -
  let ?k = "List.map_filter ib_interval_ms bars"
  assume "known_max bars = Some m"
  then have "?k \<noteq> []" "m = Max (set ?k)" by (auto simp: known_max_def Let_def split: if_splits)
  then have "m \<in> set ?k" by simp
  then show ?thesis by (simp add: set_map_filter)
qed

lemma saturate_le: "saturate_i64 d \<le> i64_max"
  by (simp add: saturate_i64_def i64_max_def)

lemma interval_bar_of_bounded: "interval_bar_of (b, p) = Some bar \<Longrightarrow> ib_interval_ms bar = Some i \<Longrightarrow> i \<le> i64_max"
  using saturate_le by (auto simp: interval_bar_of_def split: if_splits option.splits)

lemma interval_bars_bounded:
  "bar \<in> set (block_interval_bars recent) \<Longrightarrow> ib_interval_ms bar = Some i \<Longrightarrow> i \<le> i64_max"
  "length (block_interval_bars recent) \<le> 32"
proof -
  have "set (block_interval_bars recent) \<subseteq> set (List.map_filter interval_bar_of (zip recent (tl recent)))"
    by (auto simp: block_interval_bars_def Let_def split: if_splits dest!: in_set_dropD)
  then show "bar \<in> set (block_interval_bars recent) \<Longrightarrow> ib_interval_ms bar = Some i \<Longrightarrow> i \<le> i64_max"
    using interval_bar_members interval_bar_of_bounded by blast
  show "length (block_interval_bars recent) \<le> 32"
    by (simp add: block_interval_bars_def Let_def BLOCK_TIME_GRAPH_BARS_def)
qed

lemma height_exact: "0 \<le> ms \<Longrightarrow> ms \<le> axis \<Longrightarrow> 0 < axis \<Longrightarrow> height_of axis ms = of_int ms / of_int axis"
  by (auto simp: height_of_def fraction_def clamp_def divide_simps not_less)

text \<open>
  The chart of block times cuts nothing off and invents nothing. For the bars of any strip, each in
  a slot of its own with the newest last: a positive interval is a column whose height is exactly its share
  of the axis, and fits it; one that is zero or negative has the mark of its own, and one
  the node did not disclose is a gap. Whenever the node's target is known both reference lines are drawn, at
  their exact heights.
\<close>

theorem block_time_chart_exact:
  fixes recent target
  defines "bars \<equiv> block_interval_bars recent"
  defines "C \<equiv> block_time_chart bars target" and "axis \<equiv> axis_ceiling bars target"
  shows "List.map br_slot (tc_bars C) = [32 - length bars ..< 32] \<and>
    list_all2 (\<lambda>bar shown.
        case ib_interval_ms bar of
          None \<Rightarrow> br_shape shown = Gap
        | Some ms \<Rightarrow>
            if ms \<le> 0 then br_shape shown = AtMostZero
            else ms \<le> axis \<and> (\<exists>colour. br_shape shown = Column (of_int ms / of_int axis) colour))
      bars (tc_bars C) \<and>
    (case chart_target target of
       None \<Rightarrow> tc_references C = None
     | Some ms \<Rightarrow> \<exists>one two. tc_references C = Some
         [(of_int ms / of_int axis, one), (of_int (saturating_mul_i64 ms 2) / of_int axis, two)])"
proof -
  define t where "t = (case chart_target target of Some ms \<Rightarrow> saturating_mul_i64 ms 2 | None \<Rightarrow> 0)"
  define k where "k = (case known_max bars of Some m \<Rightarrow> m | None \<Rightarrow> 0)"
  have axis: "axis = nice_ceiling_ms (max k t)" by (simp add: axis_def axis_ceiling_def k_def t_def)
  have "t \<le> i64_max" by (auto simp: t_def saturating_mul_i64_def i64_max_def split: option.split)
  moreover have "k \<le> i64_max"
    using interval_bars_bounded(1) known_max_in unfolding k_def bars_def
    by (fastforce simp: i64_max_def split: option.split)
  ultimately have top: "max k t \<le> axis" "0 < axis"
    using axis_bounds [of "max k t"] unfolding axis by auto
  have le: "ms \<le> axis" if "bar \<in> set bars" "ib_interval_ms bar = Some ms" for bar ms
    using known_max_ge [OF that] top(1) by (auto simp: k_def)
  have nth: "tc_bars C ! i = bar_view_of axis (32 - length bars) (i, bars ! i)" if "i < length bars" for i
    using that by (simp add: C_def axis_def block_time_chart_def BLOCK_TIME_GRAPH_BARS_def Let_def nth_enumerate_eq)
  have len: "length (tc_bars C) = length bars" by (simp add: C_def block_time_chart_def Let_def)
  have slots: "List.map br_slot (tc_bars C) = [32 - length bars ..< 32]"
    using interval_bars_bounded(2) [of recent]
    by (intro nth_equalityI) (simp_all add: len nth bar_view_of_def bars_def [symmetric])
  have shapes: "case ib_interval_ms (bars ! i) of
          None \<Rightarrow> br_shape (tc_bars C ! i) = Gap
        | Some ms \<Rightarrow>
            if ms \<le> 0 then br_shape (tc_bars C ! i) = AtMostZero
            else ms \<le> axis \<and> (\<exists>colour. br_shape (tc_bars C ! i) = Column (of_int ms / of_int axis) colour)"
    if i: "i < length bars" for i
    using le [of "bars ! i"] top(2) i
    by (auto simp: nth bar_view_of_def height_exact split: option.split)
  have refs: "case chart_target target of
       None \<Rightarrow> tc_references C = None
     | Some ms \<Rightarrow> \<exists>one two. tc_references C = Some
         [(of_int ms / of_int axis, one), (of_int (saturating_mul_i64 ms 2) / of_int axis, two)]"
  proof (cases "chart_target target")
    case (Some ms)
    then have ms: "0 \<le> ms" "ms \<le> i64_max"
      by (auto simp: chart_target_def Option.bind_eq_Some_conv split: if_splits)
    then have two: "ms \<le> saturating_mul_i64 ms 2" "saturating_mul_i64 ms 1 = ms"
      by (simp_all add: saturating_mul_i64_def)
    have "saturating_mul_i64 ms 2 \<le> axis" using top(1) Some by (simp add: t_def)
    with ms two top(2) Some show ?thesis
      by (simp add: C_def axis_def [symmetric] block_time_chart_def reference_lines_def Let_def height_exact not_less)
  qed (simp add: C_def block_time_chart_def reference_lines_def Let_def)
  show ?thesis using slots shapes refs by (simp add: list_all2_conv_all_nth len)
qed

section \<open>The merged tail\<close>

text \<open>
  A chart drops nothing: the columns before a merged tail, and the blocks that the tail's label names,
  are together the exact depth of the queue; only the last column can be a tail.
\<close>

lemma tail_counts_the_rest:
  assumes "index < length (bv_blocks backlog)" "merged_tail backlog index block"
    and "length (bv_blocks backlog) \<le> 24" "of_nat (length (bv_blocks backlog)) \<le> bv_depth_blocks backlog"
  shows "index + unat (tail_blocks backlog) = unat (bv_depth_blocks backlog)"
proof -
  let ?n = "length (bv_blocks backlog)"
  have n: "index + 1 = ?n" "unat (of_nat ?n :: u64) = ?n" "unat (of_nat ?n - 1 :: u64) = ?n - 1"
    using assms(1-3) by (auto simp: merged_tail_def unat_of_nat u64_ops unat_sub word_le_nat_alt)
  then show ?thesis using assms(4) by (simp add: tail_blocks_def unat_saturating_sub word_le_nat_alt)
qed

section \<open>The meter\<close>

lemma foldl_max_ge: "x \<in> set xs \<Longrightarrow> x \<le> foldl max (a :: 'a :: linorder) xs" "a \<le> foldl max a xs"
proof -
  have ge: "a \<le> foldl max a xs" for a :: 'a and xs
  proof (induction xs arbitrary: a)
    case (Cons y xs)
    show ?case using Cons.IH [of "max a y"] by simp
  qed simp
  show "a \<le> foldl max a xs" by (rule ge)
  show "x \<in> set xs \<Longrightarrow> x \<le> foldl max a xs"
  proof (induction xs arbitrary: a)
    case (Cons y xs)
    then show ?case using ge [of "max a x" xs] by auto
  qed simp
qed

lemma map_upt_ends: "0 < m \<Longrightarrow> hd (List.map f [0 ..< m]) = f 0" "0 < m \<Longrightarrow> last (List.map f [0 ..< m]) = f (m - 1)"
  by (simp_all add: hd_map last_map)

lemma cells_increase:
  assumes "0 < c" "c \<le> n"
  shows "i * n div c < Suc i * n div (c :: nat)"
proof -
  have "Suc i * n = i * n + n" by simp
  then have "i * n div c + 1 = (i * n + c) div c" using assms(1) by simp
  also have "\<dots> \<le> Suc i * n div c" using assms(2) by (intro div_le_mono) simp
  finally show ?thesis by simp
qed

text \<open>
  The meter reads no sample that is not there. With at least two samples the cells stand for different samples
  of the history, in their order, from the oldest to the newest, at most 48; the peak is at least every rate
  of the history, so no rate is cut off by the scale.
\<close>

theorem meter_cells_in_range:
  assumes "2 \<le> length history"
  shows "sorted_wrt (<) (cell_samples (length history)) \<and>
    hd (cell_samples (length history)) = 0 \<and> last (cell_samples (length history)) = length history - 1 \<and>
    length (cell_samples (length history)) = min (length history) 48 \<and>
    (\<forall>i \<in> set (cell_samples (length history)). i < length history) \<and>
    (\<forall>sample \<in> set history. ms_hashrate sample \<le> peak_rate history \<and> ms_smoothed_hashrate sample \<le> peak_rate history)"
proof -
  let ?n = "length history" and ?c = "min (length history) 48"
  have c: "2 \<le> ?c" "?c - 1 \<le> ?n - 1" using assms by auto
  have cells: "cell_samples ?n = List.map (\<lambda>cell. cell * (?n - 1) div (?c - 1)) [0 ..< ?c]"
    using c(1) by (simp add: cell_samples_def MAX_ACTIVITY_CELLS_def Let_def)
  have strict: "strict_mono (\<lambda>cell. cell * (?n - 1) div (?c - 1))"
    unfolding strict_mono_Suc_iff using c by (intro allI cells_increase) auto
  have sorted: "sorted_wrt (<) (cell_samples ?n)"
    unfolding cells sorted_wrt_map
    by (rule sorted_wrt_mono_rel [OF _ sorted_wrt_upt]) (use strict in \<open>auto dest: strict_monoD\<close>)
  have below: "cell * (?n - 1) div (?c - 1) \<le> ?n - 1" if "cell < ?c" for cell
  proof -
    have "cell * (?n - 1) div (?c - 1) \<le> (?c - 1) * (?n - 1) div (?c - 1)"
      using that by (intro div_le_mono mult_le_mono1) linarith
    then show ?thesis using c(1) by simp
  qed
  have range: "i < ?n" if i: "i \<in> set (cell_samples ?n)" for i
  proof -
    obtain cell where "i = cell * (?n - 1) div (?c - 1)" "cell < ?c" using i unfolding cells by auto
    then have "i \<le> ?n - 1" using below by blast
    then show ?thesis using assms by linarith
  qed
  have peak: "ms_hashrate sample \<le> peak_rate history \<and> ms_smoothed_hashrate sample \<le> peak_rate history"
    if "sample \<in> set history" for sample
  proof -
    have "max (ms_hashrate sample) (ms_smoothed_hashrate sample) \<le> peak_rate history"
      unfolding peak_rate_def using that by (intro max.coboundedI1 foldl_max_ge(1)) auto
    then show ?thesis by simp
  qed
  have pos: "0 < ?c" and gap: "?c - 1 \<noteq> 0" using c(1) by linarith+
  have ends: "hd (cell_samples ?n) = 0" "last (cell_samples ?n) = ?n - 1"
    by (simp_all only: cells map_upt_ends [OF pos] mult_0 div_0 nonzero_mult_div_cancel_left [OF gap])
  have "length (cell_samples ?n) = ?c" by (simp only: cells length_map length_upt diff_zero)
  with sorted range peak ends show ?thesis by (intro conjI ballI) simp_all
qed

lemma meter_cells_in_range_witness:
  "hd (cell_samples 3) = 0 \<and> last (cell_samples 3) = 2"
proof -
  define s where "s = \<lparr>ms_hashrate = 1, ms_smoothed_hashrate = 1, ms_mempool = None, ms_height = None,
    ms_round_probability = None\<rparr>"
  have "2 \<le> length [s, s, s]" by simp
  from meter_cells_in_range [OF this] show ?thesis by (simp add: numeral_3_eq_3 numeral_2_eq_2)
qed

end
