(* ===== verification/ControlsView.thy ===== *)
theory ControlsView
  imports Panels Preflight Window
begin

text \<open>
  What the controls show (\<open>controls\<close> of \<open>src/gui.rs\<close>): the route and its notice, the fields, the
  estimate of the memory, the box of the memory scan, the advanced fields and the button. What a
  widget changes is in \<open>Window\<close>. The theorems say that the box of the scan is truthful: its colour is
  the answer the start button will give, and agrees with the number of workers it names; the button's
  label is what it does; and the note about the password is wrong for an \<open>https\<close> endpoint.
\<close>

definition play_sign :: str where "play_sign = [CHR 0xE2, CHR 0x96, CHR 0xB6]"
definition stop_sign :: str where "stop_sign = [CHR 0xE2, CHR 0x96, CHR 0xA0]"
definition at_least_sign :: str where "at_least_sign = [CHR 0xE2, CHR 0x89, CHR 0xA5]"

section \<open>The route and the connection\<close>

text \<open>The choices of the route and which one is selected.\<close>

definition route_choices :: "miner_app \<Rightarrow> (str \<times> bool) list" where
  "route_choices a =
     [(''My bridge / my coinbase'', st_reward_route (ma_settings a) = OwnedBridge),
      (''External pool / contributor'', st_reward_route (ma_settings a) = ExternalPool)]"

definition callout :: "miner_app \<Rightarrow> str \<times> colour" where
  "callout a =
     (if is_direct_node_endpoint (st_pool (ma_settings a))
      then (''Direct node mode: the miner reads the coinbase from each block template and refuses any requested-account mismatch. No wallet password or private key is used.'', GREEN)
      else case st_reward_route (ma_settings a) of
        OwnedBridge \<Rightarrow>
          (''The bridge'' @ em_dash @ ''not this miner'' @ em_dash @
           ''sets the public coinbase account. Keep its spending keys in SOV Station.'', GREEN)
      | ExternalPool \<Rightarrow>
          (''Current SOV Stratum has no automatic payout layer. A worker label does not earn XUS by itself.'', AMBER))"

text \<open>The password is shown as dots unless the operator asked for it.\<close>

record connection_view =
  cn_pool :: str
  cn_user :: str
  cn_password :: "str option"
  cn_reveal :: str
  cn_note :: str

definition password_note :: "settings \<Rightarrow> str" where
  "password_note s =
     (if is_direct_node_endpoint (st_pool s) then ''Unused in direct node mode; no wallet credential is sent.''
      else ''Password is passed over stdin and never saved.'')"

definition connection_fields :: "bool \<Rightarrow> miner_app \<Rightarrow> connection_view" where
  "connection_fields reveal a =
     \<lparr>cn_pool = st_pool (ma_settings a), cn_user = st_user (ma_settings a),
      cn_password = (if reveal then Some (st_password (ma_settings a)) else None),
      cn_reveal = (if reveal then ''Hide'' else ''Show''),
      cn_note = password_note (ma_settings a)\<rparr>"

section \<open>Workers and memory\<close>

definition worker_bar :: "miner_app \<Rightarrow> rat" where
  "worker_bar a = of_nat (unat (st_workers (ma_settings a))) / 64"

definition memory_estimate :: "miner_app \<Rightarrow> str" where
  "memory_estimate a =
     (let workers = st_workers (ma_settings a)
      in ''RandomX '' @ about_sign @ '' '' @ format_memory (randomx_memory_bytes workers) @ '' total '' @ bullet @
         '' shared '' @ fixed1 RANDOMX_DATASET_GIB @ '' GiB + '' @
         fixed0 (of_nat (unat workers) * RANDOMX_WORKER_MIB) @ '' MiB workers'')"

text \<open>The box of the scan; \<open>mb_confirm\<close> is the fallback's check box, its label and whether it is ticked.\<close>

record memory_box =
  mb_title :: str
  mb_colour :: colour
  mb_lines :: "str list"
  mb_confirm :: "(str \<times> bool) option"

text \<open>The sum of the estimate and the reserve is not checked for overflow in the source.\<close>

definition has_capacity :: "memory_snapshot \<Rightarrow> u64 \<Rightarrow> bool" where
  "has_capacity snapshot workers \<longleftrightarrow>
     snap_available snapshot \<ge> randomx_memory_bytes workers + memory_headroom_bytes (snap_total snapshot)"

definition scanned_box :: "memory_snapshot \<Rightarrow> miner_app \<Rightarrow> memory_box" where
  "scanned_box snapshot a =
     (let safe_workers = recommended_worker_limit snapshot
      in \<lparr>mb_title = ''SYSTEM MEMORY'',
          mb_colour =
            (if is_running a then CYAN
             else if has_capacity snapshot (st_workers (ma_settings a)) then GREEN else RED),
          mb_lines =
            [format_memory (snap_available snapshot) @ '' available / '' @ format_memory (snap_total snapshot) @
               '' total'',
             if is_running a then ''Available now, after miner allocation''
             else ''Safe preflight: up to '' @ show_u64 safe_workers @ '' worker'' @ plural safe_workers,
             format_memory (memory_headroom_bytes (snap_total snapshot)) @ '' OS/app reserve '' @ bullet @
               '' RAM-only scan every 10s''],
          mb_confirm = None\<rparr>)"

definition unscanned_box :: "miner_app \<Rightarrow> memory_box" where
  "unscanned_box a =
     \<lparr>mb_title = ''SYSTEM MEMORY '' @ bullet @ '' SCAN UNAVAILABLE'', mb_colour = AMBER,
      mb_lines = [''Fallback confirmation is never saved.''],
      mb_confirm = Some
        (''I confirm '' @ at_least_sign @ '' '' @
         fixed1 (of_nat (unat (randomx_memory_bytes (st_workers (ma_settings a)))) / BYTES_PER_GIB +
           MIN_MEMORY_HEADROOM_GIB) @ '' GiB available'',
         ma_memory_acknowledged a)\<rparr>"

definition memory_box_view :: "miner_app \<Rightarrow> memory_box" where
  "memory_box_view a =
     (case ma_memory_snapshot a of Some snapshot \<Rightarrow> scanned_box snapshot a | None \<Rightarrow> unscanned_box a)"

section \<open>The rest of the controls\<close>

definition advanced_fields :: "miner_app \<Rightarrow> (str \<times> u64 \<times> str) list" where
  "advanced_fields a =
     [(''Reconnect delay'', st_reconnect_secs (ma_settings a), '' s''),
      (''Telemetry interval'', st_report_secs (ma_settings a), '' s'')]"

definition stop_label :: str where "stop_label = stop_sign @ ''  STOP MINING''"

definition button_label :: "miner_app \<Rightarrow> str" where
  "button_label a =
     (let action = (case st_reward_route (ma_settings a) of
            OwnedBridge \<Rightarrow> play_sign @ ''  START MINING''
          | ExternalPool \<Rightarrow> play_sign @ ''  START CONTRIBUTING'')
      in if is_running a then stop_label else action)"

text \<open>\<open>cv_enabled\<close> is that of every widget but the button.\<close>

record controls_view =
  cv_enabled :: bool
  cv_routes :: "(str \<times> bool) list"
  cv_callout :: "str \<times> colour"
  cv_connection :: connection_view
  cv_bar :: rat
  cv_estimate :: str
  cv_memory :: memory_box
  cv_advanced :: "(str \<times> u64 \<times> str) list"
  cv_button :: str

definition controls_shown :: "bool \<Rightarrow> miner_app \<Rightarrow> controls_view" where
  "controls_shown reveal a =
     \<lparr>cv_enabled = (\<not> is_running a), cv_routes = route_choices a, cv_callout = callout a,
      cv_connection = connection_fields reveal a, cv_bar = worker_bar a, cv_estimate = memory_estimate a,
      cv_memory = memory_box_view a, cv_advanced = advanced_fields a, cv_button = button_label a\<rparr>"

section \<open>The box tells what the button does\<close>

lemma has_capacity_iff:
  assumes "unat workers \<le> 64"
  shows "has_capacity snapshot workers \<longleftrightarrow>
    engine_need (unat workers) False + headroom (unat (snap_total snapshot)) \<le> unat (snap_available snapshot)"
  using preflight_sum [OF assms, of False "snap_total snapshot"]
  by (simp add: has_capacity_def randomx_memory_bytes_def word_le_nat_alt)

lemma valid_workers:
  "validate_settings s = Inr u \<Longrightarrow> 1 \<le> st_workers s \<and> st_workers s \<le> 64"
  by (auto simp: validate_settings_def and_then_def map_err_def ensure_def split: sum.splits if_splits)

text \<open>The interface as a start leaves it for the preflight: no recovery mode is left over.\<close>

definition as_for_start :: "memory_snapshot option \<Rightarrow> miner_app \<Rightarrow> miner_app" where
  "as_for_start scan a =
     a\<lparr>ma_automatic_restart_attempts := 0, ma_single_worker_recovery := False,
       ma_light_randomx_recovery := False, ma_automatic_recovery_enabled := True,
       ma_automatic_restart_at := None, ma_memory_snapshot := scan\<rparr>"

lemma as_for_start_simps [simp]:
  "effective_workers w (as_for_start scan a) = st_workers (ma_settings a)"
  "ma_light_randomx_recovery (as_for_start scan a) = False"
  "ma_memory_snapshot (as_for_start scan a) = scan"
  by (simp_all add: as_for_start_def effective_workers_def effective_engine_workers_def)

lemma capacity_is_preflight:
  assumes "1 \<le> st_workers (ma_settings a)" "st_workers (ma_settings a) \<le> 64"
  shows "has_capacity snapshot (st_workers (ma_settings a)) \<longleftrightarrow>
    memory_preflight_error w (as_for_start (Some snapshot) a) = None"
proof -
  have n: "unat (st_workers (ma_settings a)) \<le> 64" using assms(2) by (simp add: word_le_nat_alt)
  show ?thesis using has_capacity_iff [OF n] preflight_passes_iff [of w "as_for_start (Some snapshot) a"] n by simp
qed

lemma scanned_colour:
  assumes "\<not> is_running a" "ma_memory_snapshot a = Some snapshot"
  shows "mb_colour (memory_box_view a) = (if has_capacity snapshot (st_workers (ma_settings a)) then GREEN else RED)"
  using assms by (simp add: memory_box_view_def scanned_box_def Let_def)

text \<open>The box is green exactly when the number of workers is within the limit that it names.\<close>

theorem box_agrees_with_its_limit:
  assumes "\<not> is_running a" "ma_memory_snapshot a = Some snapshot"
    and "1 \<le> st_workers (ma_settings a)" "st_workers (ma_settings a) \<le> 64"
  shows "mb_colour (memory_box_view a) = GREEN \<longleftrightarrow>
    st_workers (ma_settings a) \<le> recommended_worker_limit snapshot"
  using recommended_workers_exact [of "as_for_start (Some snapshot) a" snapshot plain_world]
    capacity_is_preflight [OF assms(3,4), of snapshot plain_world] scanned_colour [OF assms(1,2)] assms(3,4)
  by simp

text \<open>
  The box is green exactly when the button starts an engine, and red exactly when it starts nothing:
  for valid settings, the scan of the start finding what is shown, and a process that can be created.
\<close>

theorem start_as_the_box_says:
  assumes "\<not> is_running a" "validate_settings (ma_settings a) = Inr ()"
    and "ma_memory_snapshot a = Some snapshot" "sa_memory s = Some snapshot"
    and "sa_executable s = Inr ()" "sa_spawned s = Inr child"
  shows "mb_colour (memory_box_view a) = (if Spawned child \<in> set (snd (start w s a)) then GREEN else RED) \<and>
    (mb_colour (memory_box_view a) = RED \<longrightarrow> snd (start w s a) = [])"
proof -
  let ?b = "as_for_start (Some snapshot) a"
  have idle: "\<not> has_live_engine_state a" using assms(1) by (simp add: is_running_def)
  have "start w s a = (case memory_preflight_error w ?b of
      Some e \<Rightarrow> (fail_engine_start w e False ?b, [])
    | None \<Rightarrow> (case attach_engine w s False child (prepare_start w s False ?b) of
        (b, evs) \<Rightarrow> (b, Spawned child # Handed child (launch_arguments w (prepare_start w s False ?b))
          (password_handed s (prepare_start w s False ?b)) # evs)))"
    using assms(1,2,4-6) idle
    by (simp add: start_def start_engine_def as_for_start_def has_live_engine_state_def Let_def split: option.split)
  moreover have "1 \<le> st_workers (ma_settings a)" "st_workers (ma_settings a) \<le> 64"
    using valid_workers [OF assms(2)] by simp_all
  note scanned_colour [OF assms(1,3)] capacity_is_preflight [OF this, of snapshot w]
  ultimately show ?thesis by (simp add: case_prod_beta split: option.split)
qed

text \<open>A button labelled to stop never starts an engine, whatever else is done in the frame.\<close>

lemma button_label_stop: "button_label a = stop_label \<longleftrightarrow> is_running a"
  by (simp add: button_label_def stop_label_def play_sign_def stop_sign_def split: reward_route.split)

theorem stop_label_stops:
  assumes "button_label a = stop_label"
  shows "controls w s t i a = (if oi_button i then stop w t a else (a, []))"
  using assms by (simp add: button_label_stop controls_def press_button_def)

text \<open>
  With the scheme \<open>https\<close> the note says that the password is unused and no direct session is opened.
\<close>

lemma password_note_of_https:
  assumes "st_pool s = ''https://node:443''"
  shows "password_note s = ''Unused in direct node mode; no wallet credential is sent.'' \<and>
    \<not> is_direct_rpc (trim (st_pool s))"
proof -
  have "trim ''https://node:443'' = ''https://node:443''" by code_simp
  then show ?thesis using https_endpoint_disagreement assms by (simp add: password_note_def)
qed

section \<open>Witnesses\<close>

definition eight_gib_app :: miner_app where
  "eight_gib_app = app_default settings_default (Some eight_gib)"

lemma eight_gib_app:
  "\<not> is_running eight_gib_app" "ma_memory_snapshot eight_gib_app = Some eight_gib"
  "ma_settings eight_gib_app = settings_default" "st_workers settings_default = 1"
  by (simp_all add: eight_gib_app_def app_default_def is_running_def has_live_engine_state_def settings_default_def)

lemma box_agrees_with_its_limit_witness:
  "mb_colour (memory_box_view eight_gib_app) = GREEN \<longleftrightarrow> 1 \<le> recommended_worker_limit eight_gib"
  using box_agrees_with_its_limit [of eight_gib_app eight_gib] by (simp add: eight_gib_app)

lemma start_as_the_box_says_witness:
  "mb_colour (memory_box_view eight_gib_app) =
     (if Spawned 7 \<in> set (snd (start demo_world (demo_answers\<lparr>sa_memory := Some eight_gib\<rparr>) eight_gib_app))
      then GREEN else RED)"
  by (rule start_as_the_box_says [where snapshot = eight_gib, THEN conjunct1])
    (simp_all add: eight_gib_app default_settings_valid demo_answers_def)

end
