(* ===== verification/Startup.thy ===== *)
theory Startup
  imports Session Display DiagLog
begin

text \<open>
  The start of the engine's threads (\<open>run_headless\<close> of \<open>src/main.rs\<close> before its loop, and what \<open>main\<close>
  makes of its failure): the watchdog of the parent's pipe, one thread per worker, the reporter.
  \<open>Session\<close> has the state the loop starts from; here every thread may fail to start. The theorems
  say that the loop is reached with all threads or not at all, and that a worker or a reporter that
  cannot be started reaches the interface, which then counts the engine as failed; and an engine whose
  parent is gone exits within two seconds.
\<close>

section \<open>The threads\<close>

datatype engine_thread = WatchdogThread | WorkerThread u64 | ReporterThread

text \<open>The error of each start of a thread, if it fails.\<close>

record spawn_answers =
  sp_watchdog :: "str option"
  sp_worker :: "u64 \<Rightarrow> str option"
  sp_reporter :: "str option"

text \<open>The threads that were started, and the message if one was not.\<close>

fun spawn_workers :: "(u64 \<Rightarrow> str option) \<Rightarrow> u64 list \<Rightarrow> str option \<times> engine_thread list" where
  "spawn_workers answer [] = (None, [])"
| "spawn_workers answer (worker # rest) =
     (case answer worker of
        Some err \<Rightarrow> (Some (''cannot start mining worker '' @ show_u64 worker @ '': '' @ err), [])
      | None \<Rightarrow> (case spawn_workers answer rest of (failed, ts) \<Rightarrow> (failed, WorkerThread worker # ts)))"

definition worker_numbers :: "config \<Rightarrow> u64 list" where
  "worker_numbers cfg = List.map of_nat [0..<unat (cf_workers cfg)]"

definition headless_error_text :: "headless_error \<Rightarrow> str" where
  "headless_error_text e =
     (case e of WatchdogWithoutJson \<Rightarrow> ''parent-pipe watchdog requires JSON event output'' | ModeLocked s \<Rightarrow> s)"

section \<open>The start\<close>

definition show_bool :: "bool \<Rightarrow> str" where
  "show_bool b = (if b then ''true'' else ''false'')"

definition engine_starting :: "config \<Rightarrow> bool \<Rightarrow> str" where
  "engine_starting cfg watchdog =
     ''engine starting: workers='' @ show_u64 (cf_workers cfg) @ '' backend='' @
     backend_name (cf_randomx_light cfg) @ '' report-secs='' @ show_u64 (cf_report_secs cfg) @
     '' reconnect-secs='' @ show_u64 (cf_reconnect_secs cfg) @ '' parent-pipe-watchdog='' @ show_bool watchdog"

definition engine_fatal_event :: "str \<Rightarrow> json" where
  "engine_fatal_event message =
     JObject [(''event'', JString ''engine_fatal''), (''message'', JString message)]"

text \<open>
  What has come of a start: the miner or the error, the threads, the events written, and the lines
  of the diagnostic log. A worker that cannot be started is logged here, the reporter is not.
\<close>

record launch =
  la_result :: "str + miner"
  la_threads :: "engine_thread list"
  la_events :: "json list"
  la_log :: "(level \<times> str) list"

definition launch_fatal :: "engine_thread list \<Rightarrow> (level \<times> str) list \<Rightarrow> str \<Rightarrow> miner \<Rightarrow> launch" where
  "launch_fatal ts lines message m =
     \<lparr>la_result = Inl message, la_threads = ts,
      la_events = es_out (emit (engine_fatal_event message) (mi_state m)), la_log = lines\<rparr>"

definition start_threads :: "config \<Rightarrow> bool \<Rightarrow> spawn_answers \<Rightarrow> miner \<Rightarrow> launch" where
  "start_threads cfg watchdog sp m =
     (let info = [(Info, engine_starting cfg watchdog)] in
      case if watchdog then sp_watchdog sp else None of
        Some err \<Rightarrow>
          \<lparr>la_result = Inl (''cannot start parent-pipe watchdog: '' @ err), la_threads = [],
           la_events = es_out (mi_state m), la_log = info\<rparr>
      | None \<Rightarrow>
          let before = (if watchdog then [WatchdogThread] else []) in
          case spawn_workers (sp_worker sp) (worker_numbers cfg) of
            (Some message, ts) \<Rightarrow> launch_fatal (before @ ts) (info @ [(Error, message)]) message m
          | (None, ts) \<Rightarrow>
              (case sp_reporter sp of
                 Some err \<Rightarrow> launch_fatal (before @ ts) info (''cannot start mining reporter: '' @ err) m
               | None \<Rightarrow>
                   \<lparr>la_result = Inr m, la_threads = before @ ts @ [ReporterThread],
                    la_events = es_out (mi_state m), la_log = info\<rparr>))"

definition run_headless_start ::
  "config \<Rightarrow> bool \<Rightarrow> bool \<Rightarrow> bool \<Rightarrow> runtime_mode \<Rightarrow> spawn_answers \<Rightarrow> launch \<times> runtime_mode"
where
  "run_headless_start cfg json_events watchdog confirmed mode sp =
     (case headless_start cfg json_events watchdog confirmed mode of
        (Inl e, mode) \<Rightarrow>
          (\<lparr>la_result = Inl (headless_error_text e), la_threads = [], la_events = [], la_log = []\<rparr>, mode)
      | (Inr m, mode) \<Rightarrow> (start_threads cfg watchdog sp m, mode))"

text \<open>The end of \<open>main\<close>: an error is logged and the process exits with 1; else the loop runs.\<close>

definition main_launch :: "launch \<Rightarrow> nat option \<times> (level \<times> str) list" where
  "main_launch l =
     (case la_result l of
        Inl e \<Rightarrow> (Some 1, la_log l @ [(Error, ''fatal mining engine error: '' @ e)])
      | Inr _ \<Rightarrow> (None, la_log l))"

section \<open>The parent's pipe\<close>

text \<open>
  \<open>emit\<close> when the write may fail, which \<open>written\<close> tells: the engine then exits with status 70 and
  its log's last line says why.
\<close>

definition PIPE_EXIT :: nat where "PIPE_EXIT = 70"

definition pipe_broken :: str where
  "pipe_broken = ''telemetry stdout pipe is broken (GUI parent or reader is gone); exiting the isolated engine with status 70''"

definition emit_pipe :: "bool \<Rightarrow> json \<Rightarrow> engine_state \<Rightarrow> nat \<times> (level \<times> str) + engine_state" where
  "emit_pipe written e st =
     (if es_json_events st then
        if written then Inr (st\<lparr>es_out := es_out st @ [e]\<rparr>) else Inl (PIPE_EXIT, Error, pipe_broken)
      else Inr st)"

lemma emit_pipe_whole: "emit_pipe True e st = Inr (emit e st)"
  by (simp add: emit_pipe_def emit_def)

definition parent_watchdog_event :: json where
  "parent_watchdog_event = JObject [(''event'', JString ''parent_watchdog'')]"

definition WATCHDOG_INTERVAL :: nat where "WATCHDOG_INTERVAL = 2 * nanos_per_sec"

text \<open>The first \<open>n\<close> turns of the watchdog; \<open>pipe t\<close> is whether a write at the time \<open>t\<close> succeeds.\<close>

fun watchdog_loop ::
  "(nat \<Rightarrow> bool) \<Rightarrow> nat \<Rightarrow> nat \<Rightarrow> engine_state \<Rightarrow> nat \<times> (level \<times> str) + engine_state"
where
  "watchdog_loop pipe time 0 st = Inr st"
| "watchdog_loop pipe time (Suc n) st =
     (let time = time + WATCHDOG_INTERVAL
      in case emit_pipe (pipe time) parent_watchdog_event st of
           Inl stopped \<Rightarrow> Inl stopped
         | Inr st \<Rightarrow> watchdog_loop pipe time n st)"

lemma watchdog_loop_stops:
  assumes "es_json_events st"
  shows "(\<exists>k \<in> {1..n}. \<not> pipe (time + k * WATCHDOG_INTERVAL)) \<longleftrightarrow>
    watchdog_loop pipe time n st = Inl (PIPE_EXIT, Error, pipe_broken)"
  using assms
proof (induction n arbitrary: time st)
  case (Suc n)
  have shift: "(\<exists>k \<in> {1..Suc n}. \<not> pipe (time + k * WATCHDOG_INTERVAL)) \<longleftrightarrow>
      \<not> pipe (time + WATCHDOG_INTERVAL) \<or>
      (\<exists>k \<in> {1..n}. \<not> pipe (time + WATCHDOG_INTERVAL + k * WATCHDOG_INTERVAL))"
    (is "?L \<longleftrightarrow> ?R")
  proof
    assume ?L
    then obtain j where j: "j \<le> n" "\<not> pipe (time + Suc j * WATCHDOG_INTERVAL)" by (auto simp: Suc_le_eq gr0_conv_Suc)
    then show ?R by (cases "j = 0") (auto intro: bexI [of _ j] simp: add.assoc)
  next
    assume ?R
    then show ?L by (auto intro: bexI [of _ 1] bexI [of _ "Suc k" for k] simp: add.assoc)
  qed
  show ?case unfolding shift
    using Suc.IH [of "st\<lparr>es_out := es_out st @ [parent_watchdog_event]\<rparr>" "time + WATCHDOG_INTERVAL"] Suc.prems
    by (simp add: emit_pipe_def Let_def)
qed simp

text \<open>
  C11: No orphan: an engine that writes events and whose parent's pipe is broken from some time on exits
  with status 70, at the watchdog's next turn, so at most two seconds later.
\<close>

theorem orphan_exits:
  assumes "es_json_events st" "\<And>t. broken \<le> t \<Longrightarrow> \<not> pipe t" "start_time \<le> broken"
  shows "\<exists>n. start_time + n * WATCHDOG_INTERVAL \<le> broken + WATCHDOG_INTERVAL \<and>
    watchdog_loop pipe start_time n st = Inl (PIPE_EXIT, Error, pipe_broken)"
proof -
  define n where "n = Suc ((broken - start_time) div WATCHDOG_INTERVAL)"
  have pos: "WATCHDOG_INTERVAL > 0" by (simp add: WATCHDOG_INTERVAL_def nanos_per_sec_def)
  have "(broken - start_time) div WATCHDOG_INTERVAL * WATCHDOG_INTERVAL \<le> broken - start_time" by simp
  then have le: "start_time + n * WATCHDOG_INTERVAL \<le> broken + WATCHDOG_INTERVAL"
    using assms(3) unfolding n_def mult_Suc by linarith
  have "broken - start_time < n * WATCHDOG_INTERVAL"
    using dividend_less_div_times [OF pos] by (simp add: n_def add.commute)
  then have "\<not> pipe (start_time + n * WATCHDOG_INTERVAL)" using assms(2) by simp
  then have "\<exists>k \<in> {1..n}. \<not> pipe (start_time + k * WATCHDOG_INTERVAL)" by (rule bexI) (simp add: n_def)
  then show ?thesis using watchdog_loop_stops [OF assms(1)] le by blast
qed

text \<open>The interface takes no notice of the watchdog's events.\<close>

lemma watchdog_unnoticed: "apply_telemetry w parent_watchdog_event a = a"
  by (simp add: apply_telemetry_def parent_watchdog_event_def json_access)

section \<open>All threads or none of the loop\<close>

lemma spawn_workers_facts:
  assumes "spawn_workers answer ws = (failed, ts)"
  shows "\<exists>n \<le> length ws. ts = List.map WorkerThread (take n ws)"
    and "failed = None \<longleftrightarrow> (\<forall>v \<in> set ws. answer v = None)"
    and "failed = None \<Longrightarrow> ts = List.map WorkerThread ws"
proof -
  have "(\<exists>n \<le> length ws. ts = List.map WorkerThread (take n ws)) \<and>
      (failed = None \<longleftrightarrow> (\<forall>v \<in> set ws. answer v = None)) \<and>
      (failed = None \<longrightarrow> ts = List.map WorkerThread ws)"
    using assms
  proof (induction ws arbitrary: failed ts)
    case (Cons v ws)
    show ?case
    proof (cases "answer v")
      case None
      obtain ts' where r: "spawn_workers answer ws = (failed, ts')" "ts = WorkerThread v # ts'"
        using Cons.prems None by (auto split: prod.splits)
      obtain n where "n \<le> length ws" "ts' = List.map WorkerThread (take n ws)"
        using Cons.IH [OF r(1)] by blast
      then have "\<exists>n \<le> length (v # ws). ts = List.map WorkerThread (take n (v # ws))"
        using r(2) by (intro exI [of _ "Suc n"]) simp
      then show ?thesis using Cons.IH [OF r(1)] r(2) None by simp
    qed (use Cons.prems in auto)
  qed simp
  then show "\<exists>n \<le> length ws. ts = List.map WorkerThread (take n ws)"
    "failed = None \<longleftrightarrow> (\<forall>v \<in> set ws. answer v = None)"
    "failed = None \<Longrightarrow> ts = List.map WorkerThread ws" by blast+
qed

text \<open>The threads of a complete start.\<close>

definition all_threads :: "config \<Rightarrow> bool \<Rightarrow> engine_thread list" where
  "all_threads cfg watchdog =
     (if watchdog then [WatchdogThread] else []) @ List.map WorkerThread (worker_numbers cfg) @ [ReporterThread]"

text \<open>
  The loop that connects is reached exactly when nothing failed, and then with the watchdog, every
  worker and the reporter, in the state of \<open>headless_start\<close>; else there is no reporter, and the process exits.
\<close>

theorem started_completely_or_not:
  assumes "run_headless_start cfg json_events watchdog confirmed mode sp = (l, mode')"
  shows "la_result l = Inr m \<longleftrightarrow>
      fst (headless_start cfg json_events watchdog confirmed mode) = Inr m \<and>
      (watchdog \<longrightarrow> sp_watchdog sp = None) \<and> (\<forall>v \<in> set (worker_numbers cfg). sp_worker sp v = None) \<and>
      sp_reporter sp = None"
    and "la_result l = Inr m \<Longrightarrow> miner_initial cfg m \<and> la_threads l = all_threads cfg watchdog"
    and "la_result l = Inl e \<Longrightarrow> ReporterThread \<notin> set (la_threads l) \<and> fst (main_launch l) = Some 1"
proof -
  obtain r mode1 where h: "headless_start cfg json_events watchdog confirmed mode = (r, mode1)" by fastforce
  obtain failed ts where s: "spawn_workers (sp_worker sp) (worker_numbers cfg) = (failed, ts)" by fastforce
  note facts = spawn_workers_facts [OF s]
  have none: "ReporterThread \<notin> set ts" using facts(1) by auto
  show "la_result l = Inr m \<longleftrightarrow>
      fst (headless_start cfg json_events watchdog confirmed mode) = Inr m \<and>
      (watchdog \<longrightarrow> sp_watchdog sp = None) \<and> (\<forall>v \<in> set (worker_numbers cfg). sp_worker sp v = None) \<and>
      sp_reporter sp = None"
    using assms facts(2) unfolding run_headless_start_def h
    by (auto simp: start_threads_def launch_fatal_def s Let_def split: sum.splits option.splits if_splits)
  show "miner_initial cfg m \<and> la_threads l = all_threads cfg watchdog" if "la_result l = Inr m"
    using assms that facts(3) unfolding run_headless_start_def h
    by (auto simp: start_threads_def launch_fatal_def s Let_def all_threads_def miner_initial_def
        split: sum.splits option.splits) (metis h fst_conv)+
  show "ReporterThread \<notin> set (la_threads l) \<and> fst (main_launch l) = Some 1" if "la_result l = Inl e"
    using assms that none unfolding run_headless_start_def h
    by (auto simp: start_threads_def launch_fatal_def main_launch_def s Let_def split: sum.splits option.splits)
qed

section \<open>The interface learns of it\<close>

lemma engine_fatal_shown:
  "ma_engine_fatal_seen (apply_telemetry w (engine_fatal_event message) a) \<and>
   (\<not> ma_engine_fatal_seen a \<longrightarrow> ma_phase (apply_telemetry w (engine_fatal_event message) a) = Failed \<and>
      ma_ready_workers (apply_telemetry w (engine_fatal_event message) a) = 0)"
  by (auto simp: apply_telemetry_def engine_fatal_event_def json_access on_engine_fatal_def Let_def
      clear_active_work_def push_log_def)

text \<open>
  When a worker or the reporter of an engine started by the interface cannot be started, the
  interface that reads the engine's events counts it as failed, whatever it had read before.
\<close>

theorem failed_start_reaches_interface:
  assumes "run_headless_start cfg True watchdog confirmed mode sp = (l, mode')"
    and "fst (headless_start cfg True watchdog confirmed mode) = Inr m"
    and "watchdog \<longrightarrow> sp_watchdog sp = None" "la_result l = Inl e"
  shows "la_events l = es_out (mi_state m) @ [engine_fatal_event e] \<and>
    ma_engine_fatal_seen (fold (apply_telemetry w) (la_events l) a)"
proof -
  obtain mode1 where h: "headless_start cfg True watchdog confirmed mode = (Inr m, mode1)"
    using assms(2) by (cases "headless_start cfg True watchdog confirmed mode") simp
  then have "es_json_events (mi_state m)"
    by (auto simp: headless_start_def emit_def state_new_def split: if_splits prod.splits sum.splits)
  then have "la_events l = es_out (mi_state m) @ [engine_fatal_event e]"
    using assms(1,3,4) unfolding run_headless_start_def h
    by (auto simp: start_threads_def launch_fatal_def emit_def Let_def split: option.splits prod.splits if_splits)
  then show ?thesis by (simp add: engine_fatal_shown)
qed

lemma orphan_exits_witness:
  "\<exists>n. n * WATCHDOG_INTERVAL \<le> 5 * nanos_per_sec + WATCHDOG_INTERVAL \<and>
     watchdog_loop (\<lambda>t. t < 5 * nanos_per_sec) 0 n (state_new True) = Inl (PIPE_EXIT, Error, pipe_broken)"
  using orphan_exits [of "state_new True" "5 * nanos_per_sec" "\<lambda>t. t < 5 * nanos_per_sec" 0]
  by (simp add: state_new_def)

text \<open>The machine's second worker cannot be started.\<close>

definition second_fails :: spawn_answers where
  "second_fails = \<lparr>sp_watchdog = None, sp_worker = (\<lambda>v. if v = 1 then Some ''EAGAIN'' else None), sp_reporter = None\<rparr>"

lemma failed_start_reaches_interface_witness:
  fixes cfg :: config
  defines "cfg \<equiv> demo_config\<lparr>cf_workers := 2\<rparr>"
  defines "l \<equiv> fst (run_headless_start cfg True True False None second_fails)"
  shows "la_threads l = [WatchdogThread, WorkerThread 0] \<and>
    ma_engine_fatal_seen (fold (apply_telemetry demo_world) (la_events l) opened)"
proof -
  have one: "decimal (Suc 0) = ''1''" by code_simp
  have two: "worker_numbers cfg = [0, 1]" by (simp add: worker_numbers_def cfg_def upt_rec)
  obtain m where h: "headless_start cfg True True False None = (Inr m, Some (cf_randomx_light cfg))"
    by (simp add: headless_start_def configure_runtime_mode_def)
  then have l: "l = start_threads cfg True second_fails m" by (simp add: l_def run_headless_start_def)
  have ts: "spawn_workers (sp_worker second_fails) (worker_numbers cfg) =
      (Some (''cannot start mining worker 1: EAGAIN''), [WorkerThread 0])"
    by (simp add: two second_fails_def show_u64_def one)
  have "la_result l = Inl ''cannot start mining worker 1: EAGAIN''" and "la_threads l = [WatchdogThread, WorkerThread 0]"
    unfolding l start_threads_def ts by (simp_all add: second_fails_def launch_fatal_def)
  moreover have run: "run_headless_start cfg True True False None second_fails = (l, Some (cf_randomx_light cfg))"
    using h by (simp add: l run_headless_start_def)
  note failed_start_reaches_interface [OF run, of m _ demo_world opened, THEN conjunct2]
  ultimately show ?thesis using h by (simp add: second_fails_def)
qed

end
