(* ===== verification/Spec2Isabelle.thy ===== *)
theory Spec2Isabelle
  imports Fanout Probe RestartBudget Display Preflight WellFormed DiagLog Diagnostics PanelProps Charts ControlsView Startup
begin

text \<open>
  Verification library for xus-miner, a CPU miner: an engine that fetches work, hashes and submits,
  and a desktop interface that starts the engine as a process of its own, shows what it reports
  and supervises it. Both are one executable; the command line decides which it is.

  \<^bold>\<open>The program and its theories.\<close>

  \<^item> Work (\<open>src/wire.rs\<close>, \<open>src/main.rs\<close>): \<open>Wire\<close> has the block header and the template's identity,
    \<open>Target\<close> the compact difficulty, \<open>Job\<close> the two parsers that turn a pool message or a node template
    into a job, with every check in the order of the source. \<open>SampleCodec\<close> is an instance of the
    external codecs on which witnesses evaluate.
  \<^item> Proof of work (\<open>src/randomx_native.rs\<close>, \<open>src/pow.rs\<close>): \<open>Native\<close> has the ownership of the native
    handles, \<open>Pow\<close> the manager of the one shared dataset and the engines of the workers,
    \<open>PowMachine\<close> the workers interleaved at the manager's lock.
  \<^item> Reading the node (\<open>src/rpc.rs\<close>, \<open>src/blockflow.rs\<close>): \<open>Json\<close> and \<open>Rpc\<close> have the values and the
    bounded HTTP client, \<open>Deadline\<close> its calls of the operating system with their time, \<open>Histogram\<close> the readers and the packing of pending blocks, \<open>Attribution\<close>,
    \<open>TipFeed\<close> and \<open>RecentBlocks\<close> the block feed, \<open>BTree\<close> its containers, \<open>ChainFeed\<close> the cycle that
    queries the node and emits events.
  \<^item> The engine (\<open>src/main.rs\<close>): \<open>Memory\<close> is the memory gate, \<open>Probe\<close> the reading of the memory counters, \<open>Engine\<close> the shared state and the pool
    protocol, \<open>Worker\<close> the hashing loop cut into its steps, \<open>Cli\<close> the command line, \<open>Session\<close> the
    sessions with the node and the pool and the machine of a session beside its workers, \<open>Fanout\<close> the
    optional reads of a node session, \<open>Startup\<close> the start of the threads and the watchdog of the parent's pipe.
  \<^item> The interface (\<open>src/gui.rs\<close>): \<open>Endpoint\<close> and \<open>Settings\<close> have the settings and the engine's
    command line, \<open>FileStore\<close> and \<open>FileLoad\<close> the files, \<open>GuiText\<close> bounded lines and redaction,
    \<open>App\<close> the state, \<open>Views\<close> and \<open>Telemetry\<close> what is read from events, \<open>Recovery\<close> and \<open>Supervisor\<close>
    the handlers of the engine process, \<open>Report\<close> the crash report, \<open>Diagnostics\<close> the text that is copied,
    \<open>Window\<close> the frame, the controls and the closing, \<open>Meter\<close> and \<open>Preflight\<close> smaller readouts. What is
    on the screen: \<open>Format\<close> has the numbers as text, \<open>Panels\<close> the panels of the dashboard, \<open>Charts\<close> its
    charts, \<open>PanelProps\<close> what they promise, \<open>ControlsView\<close> the controls.
  \<^item> The diagnostic log (\<open>src/diag.rs\<close>): \<open>Diag\<close>, over the calendar of \<open>Calendar\<close>, and \<open>DiagLog\<close>, the
    logger of the process.
  \<^item> \<open>Prelude\<close>, \<open>RustStr\<close> and \<open>Transition\<close> are shared: machine integers and early returns, the string
    operations of Rust on UTF-8 bytes, reachable states and their invariants.

  The parts meet where the code lets them meet. The interface hands the engine a command line and a
  password (the event \<open>Handed\<close> of \<open>Supervisor\<close>; \<open>launch_round_trip\<close>: the engine parses them back to the settings); the engine writes events, one
  JSON value per line, which the interface reads (\<open>child_line_exact\<close>, \<open>interface_shows_job\<close>,
  \<open>block_flow_round_trip\<close>); sessions and workers share the engine's state (\<open>Session\<close>); the supervisor
  writes settings and crash reports to the files (\<open>FileStore\<close>); both sides check the memory
  (\<open>preflight_agrees_with_engine\<close>).

  \<^bold>\<open>How the code is modelled.\<close> A struct is a record with the fields of the source, an enum a
  datatype. Integers are words of their width, with the saturating and checked operations of Rust;
  strings are lists of UTF-8 bytes. A function that can fail returns a sum, with the error on the
  left, and the early returns are its branches. A handler that changes state takes the state and
  returns the new one; what the operating system, a native library or the drawing library answers
  is an argument (the records \<open>externals\<close>, \<open>kernel\<close>, \<open>surroundings\<close>, \<open>start_answers\<close>,
  \<open>poll_answers\<close> and the like), so a theorem holds for every answer. Concurrency is a step relation:
  \<open>pow_step\<close> for the workers at the dataset's lock, \<open>miner_step\<close> for a session and the workers,
  \<open>feed_step\<close> for the observations of the tip, \<open>sup_step\<close> for the supervisor and the processes,
  \<open>win_step\<close> for the window around it. What happens under one lock is one
  step; writes of the code that take a lock each are steps of their own (the end of a node session,
  \<open>rpc_end_writes\<close>). Of the files \<open>FileStore\<close> has both what the system shows and what is on the disk: a
  file's bytes are there once it was flushed, the changes of a directory in their order and at the
  latest when it was flushed; the settings directory itself is taken to be on the disk. Floats are reals, and
  rationals where they are printed; a JSON number is finite.

  \<^bold>\<open>Interfaces.\<close> \<open>machine_invariant\<close> (\<open>Transition\<close>) is interpreted by each of these machines;
  \<open>ordered_map\<close> and \<open>bounded_history\<close> (\<open>BTree\<close>) by the maps and histories of the feed;
  \<open>work_source\<close> (\<open>Job\<close>) by the two parsers of jobs.

  \<^bold>\<open>What the theorems show.\<close>

  \<^item> Only checked work is hashed: a job a worker takes up comes from a template whose header was
    authenticated, whose target is the one the header commits to, whose reward account is the one
    asked for, and only past the memory gate, and the bytes that are hashed are that header with the
    worker's nonce. Each submission is settled exactly once and counted.
  \<^item> At most one full dataset exists, also while the key changes, and each hash is of the
    requested key; a change of the key ends once the workers have let go.
  \<^item> Each block of the chain is announced once or counted as omitted; a block is called this
    miner's own only on proof; the pending blocks are the pool's transactions cut in order of their fee.
  \<^item> At most one engine process runs and the interface holds it; Stop is final; a crash loop ends
    within its budget; closing leaves no engine behind and never waits for a living one; what the
    engine was handed are the settings that are shown; the interface's data stays in shape and in bounds. An engine whose parent is
    gone exits within two seconds (\<open>orphan_exits\<close>); the box of the memory says what the start button will
    do (\<open>start_as_the_box_says\<close>); an engine starts with all its threads or not at all.
  \<^item> A call to the node ends by its deadline however the peer spreads its bytes, and its response does not
    depend on how they were cut, nor wait for the peer to close when it is complete; memory counters are only taken from a run that ended well.
  \<^item> The dashboard shows no stale value as live, nothing the node did not report as empty, and the
    engine's blocks as the engine knows them.
  \<^item> A save survives the loss of power at any point and any refused call, and on Unix it is on the disk
    when it returns; a load reads only a file that was checked; a crash report overwrites nothing, keeps the newest lines that fit and does not
    show the password; settings on disk hold no credentials.

  \<^bold>\<open>Bounds and fuel.\<close> Loops are structural or have a measure; no definition has fuel. The packing
  loop of \<open>Histogram\<close> is a partial function, and \<open>packing_refines_chunking\<close> includes that it returns.
  The loops over attempts run to the source's bound of 32, the readers of a response and of a pipe over the
  answers they are given, the polling of a child until its deadline (at most 101 calls), the worker's batch to
  its length. Where a machine may run for ever the
  theorems are about all its reachable states.

  \<^bold>\<open>Findings.\<close> Six, with their lines, are in the manifest: an https endpoint the interface takes for a
  node and the engine for a pool; switches recognised among the values of other flags; a connection
  that stays recorded after a failed login; a redaction that can restore the secret
  (\<open>redaction_can_restore_the_secret\<close>); a reader that is joined while its child may live
  (\<open>reader_joined_while_child_may_live\<close>); a unit that is chosen before the number is rounded
  (\<open>rounding_after_the_unit\<close>).

  \<^bold>\<open>Not modelled.\<close> The drawing itself (positions, sizes, strokes, fonts, animation, the theme, explaining
  captions and fixed tool tips in \<open>src/gui.rs\<close> from line 3525 on), because it calls the library and keeps no
  state: of a panel or a chart the theories have what it shows. The creation of the window; the foreign declarations of RandomX; the unit tests. Outside \<open>Startup\<close> an event is written to a pipe that is whole.
  The clock, the operating system's calls and the detection of CPU features are arguments.
\<close>

end
